(* ===== verification/Store.thy ===== *)
theory Store
  imports Prelude
begin

text \<open>
  The document collections the services keep in MongoDB, seen through the queries the code
  writes: a collection is the list of its documents in insertion order, \<open>update_where\<close> is
  \<open>objects(q).update(...)\<close>, \<open>coll_cas\<close> is \<open>objects(id=k, guard).update_one(...)\<close> (a compare-and-set
  on one document), \<open>coll_get\<close> is \<open>objects(id=k).first()\<close> and \<open>coll_add\<close> is \<open>save(force_insert=True)\<close>
  under a unique index, which leaves the collection alone when the key is taken.

  The locale \<open>keyed_store\<close> states what the services rely on; its lemmas (a lost compare-and-set
  writes nothing, a won one cannot be won again, writes to other documents are invisible) are
  proved once and used through the interpretations of the component theories.
\<close>

section \<open>Queries and updates\<close>

definition update_where :: "('d \<Rightarrow> bool) \<Rightarrow> ('d \<Rightarrow> 'd) \<Rightarrow> 'd list \<Rightarrow> 'd list" where
  "update_where q f ds = map (\<lambda>d. if q d then f d else d) ds"

definition count_where :: "('d \<Rightarrow> bool) \<Rightarrow> 'd list \<Rightarrow> nat" where
  "count_where q ds = length (filter q ds)"

definition exists_where :: "('d \<Rightarrow> bool) \<Rightarrow> 'd list \<Rightarrow> bool" where
  "exists_where q ds = list_ex q ds"

definition coll_get :: "('d \<Rightarrow> 'k) \<Rightarrow> 'k \<Rightarrow> 'd list \<Rightarrow> 'd option" where
  "coll_get key k ds = find (\<lambda>d. key d = k) ds"

definition coll_cas :: "('d \<Rightarrow> 'k) \<Rightarrow> 'k \<Rightarrow> ('d \<Rightarrow> bool) \<Rightarrow> ('d \<Rightarrow> 'd) \<Rightarrow> 'd list \<Rightarrow> 'd list" where
  "coll_cas key k g f ds = update_where (\<lambda>d. key d = k \<and> g d) f ds"

definition coll_won :: "('d \<Rightarrow> 'k) \<Rightarrow> 'k \<Rightarrow> ('d \<Rightarrow> bool) \<Rightarrow> 'd list \<Rightarrow> bool" where
  "coll_won key k g ds = exists_where (\<lambda>d. key d = k \<and> g d) ds"

definition coll_add :: "('d \<Rightarrow> 'k) \<Rightarrow> 'd \<Rightarrow> 'd list \<Rightarrow> 'd list" where
  "coll_add key d ds = (if exists_where (\<lambda>e. key e = key d) ds then ds else ds @ [d])"

definition coll_ok :: "('d \<Rightarrow> 'k) \<Rightarrow> 'd list \<Rightarrow> bool" where
  "coll_ok key ds = distinct (map key ds)"

named_theorems store_simps \<open>how queries see updates\<close>

lemma set_update_where: "set (update_where q f ds) = (\<lambda>d. if q d then f d else d) ` set ds"
  by (simp add: update_where_def)

lemma length_update_where [simp, store_simps]: "length (update_where q f ds) = length ds"
  by (simp add: update_where_def)

lemma update_where_Nil [simp]: "update_where q f [] = []"
  by (simp add: update_where_def)

lemma update_where_Cons [simp]:
  "update_where q f (d # ds) = (if q d then f d else d) # update_where q f ds"
  by (simp add: update_where_def)

lemma map_update_where [store_simps]:
  "(\<And>d. q d \<Longrightarrow> h (f d) = h d) \<Longrightarrow> map h (update_where q f ds) = map h ds"
  by (induction ds) auto

lemma update_where_none: "\<not> exists_where q ds \<Longrightarrow> update_where q f ds = ds"
  by (induction ds) (auto simp: exists_where_def)

lemma update_where_all:
  "(\<And>d. d \<in> set ds \<Longrightarrow> P d) \<Longrightarrow> (\<And>d. d \<in> set ds \<Longrightarrow> q d \<Longrightarrow> P d \<Longrightarrow> P (f d)) \<Longrightarrow>
     d \<in> set (update_where q f ds) \<Longrightarrow> P d"
  by (auto simp: set_update_where split: if_splits)

lemma exists_where_iff: "exists_where q ds \<longleftrightarrow> (\<exists>d \<in> set ds. q d)"
  by (simp add: exists_where_def list_ex_iff)

lemma count_update_where_out:
  "(\<And>d. d \<in> set ds \<Longrightarrow> q d \<Longrightarrow> \<not> p (f d)) \<Longrightarrow>
     count_where p (update_where q f ds) = count_where (\<lambda>d. p d \<and> \<not> q d) ds"
  by (induction ds) (auto simp: count_where_def)

lemma count_where_0_iff: "count_where q ds = 0 \<longleftrightarrow> (\<forall>d \<in> set ds. \<not> q d)"
  by (auto simp: count_where_def filter_empty_conv)

lemma count_where_le: "count_where q ds \<le> length ds"
  by (simp add: count_where_def)

lemma count_where_Cons: "count_where q (d # ds) = (if q d then 1 else 0) + count_where q ds"
  by (simp add: count_where_def)

lemma count_where_Nil [simp]: "count_where q [] = 0"
  by (simp add: count_where_def)

section \<open>What a service relies on\<close>

locale keyed_store =
  fixes key :: "'d \<Rightarrow> 'k"
    and get :: "'k \<Rightarrow> 's \<Rightarrow> 'd option"
    and cas :: "'k \<Rightarrow> ('d \<Rightarrow> bool) \<Rightarrow> ('d \<Rightarrow> 'd) \<Rightarrow> 's \<Rightarrow> 's"
    and won :: "'k \<Rightarrow> ('d \<Rightarrow> bool) \<Rightarrow> 's \<Rightarrow> bool"
    and add :: "'d \<Rightarrow> 's \<Rightarrow> 's"
    and invar :: "'s \<Rightarrow> bool"
  assumes get_key: "get k s = Some d \<Longrightarrow> key d = k"
    and get_cas: "invar s \<Longrightarrow> (\<And>d. key (f d) = key d) \<Longrightarrow> get k' (cas k g f s) =
      (if k' = k then map_option (\<lambda>d. if g d then f d else d) (get k s) else get k' s)"
    and won_iff: "invar s \<Longrightarrow> won k g s \<longleftrightarrow> (\<exists>d. get k s = Some d \<and> g d)"
    and get_add: "invar s \<Longrightarrow> get k (add d s) =
      (case get k s of Some e \<Rightarrow> Some e | None \<Rightarrow> if key d = k then Some d else None)"
    and invar_cas: "invar s \<Longrightarrow> (\<And>d. key (f d) = key d) \<Longrightarrow> invar (cas k g f s)"
    and invar_add: "invar s \<Longrightarrow> invar (add d s)"
begin

lemma cas_lost:
  assumes "invar s" "\<And>d. key (f d) = key d" "\<not> won k g s"
  shows "get k' (cas k g f s) = get k' s"
  using assms by (auto simp: get_cas won_iff option.map_ident_strong split: option.splits)
    (cases "get k s"; auto)

lemma cas_won:
  assumes "invar s" "\<And>d. key (f d) = key d" "get k s = Some d" "g d"
  shows "get k (cas k g f s) = Some (f d)"
  using assms by (simp add: get_cas)

lemma cas_other:
  assumes "invar s" "\<And>d. key (f d) = key d" "k' \<noteq> k"
  shows "get k' (cas k g f s) = get k' s"
  using assms by (simp add: get_cas)

text \<open>A guard that the update itself falsifies makes the compare-and-set a one-shot.\<close>

lemma cas_wins_once:
  assumes "invar s" "\<And>d. key (f d) = key d" "\<And>d. g d \<Longrightarrow> \<not> g (f d)"
  shows "\<not> won k g (cas k g f s)"
  using assms by (auto simp: won_iff invar_cas get_cas split: if_splits)

text \<open>A fact every update keeps holds of a document for as long as it exists.\<close>

lemma cas_keeps:
  assumes "invar s" "\<And>d. key (f d) = key d" "\<And>d. P d \<Longrightarrow> g d \<Longrightarrow> P (f d)"
    and "\<And>d. get k' s = Some d \<Longrightarrow> P d" and "get k' (cas k g f s) = Some d"
  shows "P d"
  using assms by (auto simp: get_cas split: if_splits)

lemma add_idem:
  assumes "invar s"
  shows "get k (add d (add d s)) = get k (add d s)"
  using assms by (auto simp: get_add invar_add split: option.splits)

lemma add_keeps_existing:
  assumes "invar s" "get (key d) s = Some e"
  shows "get k (add d s) = get k s"
  using assms by (auto simp: get_add split: option.splits)

lemma get_add_same:
  assumes "invar s"
  shows "\<exists>e. get (key d) (add d s) = Some e"
  using assms by (auto simp: get_add split: option.splits)

end

section \<open>The list of documents provides it\<close>

lemma coll_get_Some: "coll_get key k ds = Some d \<Longrightarrow> d \<in> set ds \<and> key d = k"
  by (auto simp: coll_get_def dest: find_Some_in)

lemma coll_get_None: "coll_get key k ds = None \<longleftrightarrow> k \<notin> key ` set ds"
  by (auto simp: coll_get_def find_None_iff)

lemma coll_get_append:
  "coll_get key k (ds @ es) = (case coll_get key k ds of Some d \<Rightarrow> Some d | None \<Rightarrow> coll_get key k es)"
  by (induction ds) (auto simp: coll_get_def)

lemma coll_get_Cons: "coll_get key k (d # ds) = (if key d = k then Some d else coll_get key k ds)"
  by (simp add: coll_get_def)

lemma coll_get_Nil [simp]: "coll_get key k [] = None"
  by (simp add: coll_get_def)

lemma coll_get_in:
  assumes "coll_ok key ds" "d \<in> set ds"
  shows "coll_get key (key d) ds = Some d"
  using assms
proof (induction ds)
  case (Cons e ds)
  then show ?case by (auto simp: coll_get_def coll_ok_def)
qed simp

lemma coll_ok_iff_get:
  "coll_ok key ds \<Longrightarrow> coll_get key k ds = Some d \<longleftrightarrow> d \<in> set ds \<and> key d = k"
  by (auto dest: coll_get_Some intro: coll_get_in)

lemma coll_ok_update_where:
  "(\<And>d. q d \<Longrightarrow> key (f d) = key d) \<Longrightarrow> coll_ok key (update_where q f ds) = coll_ok key ds"
  by (simp add: coll_ok_def map_update_where)

lemma coll_get_update_where:
  assumes "\<And>d. q d \<Longrightarrow> key (f d) = key d"
  shows "coll_get key k (update_where q f ds) =
    map_option (\<lambda>d. if q d then f d else d) (coll_get key k ds)"
  using assms by (induction ds) (auto simp: coll_get_def)

lemma coll_keyed_store:
  "keyed_store key (coll_get key) (coll_cas key) (coll_won key) (coll_add key) (coll_ok key)"
proof (unfold_locales, goal_cases)
  case (1 k s d)
  then show ?case by (auto dest: coll_get_Some)
next
  case (2 s f k' k g)
  then show ?case
    by (auto simp: coll_cas_def coll_get_update_where dest: coll_get_Some
        intro!: option.map_cong0 option.map_ident_strong)
next
  case (3 s k g)
  then show ?case by (auto simp: coll_won_def exists_where_iff coll_ok_iff_get)
next
  case (4 s k d)
  have "coll_get key k (s @ [d]) =
      (case coll_get key k s of Some e \<Rightarrow> Some e | None \<Rightarrow> if key d = k then Some d else None)"
    by (induction s) (auto simp: coll_get_def)
  moreover have "exists_where (\<lambda>e. key e = key d) s \<longleftrightarrow> coll_get key (key d) s \<noteq> None"
    by (simp add: exists_where_iff coll_get_None image_iff) metis
  ultimately show ?case
    by (auto simp: coll_add_def split: option.splits)
next
  case (5 s f k g)
  then show ?case by (simp add: coll_cas_def coll_ok_update_where)
next
  case (6 s d)
  then show ?case by (auto simp: coll_add_def coll_ok_def exists_where_iff)
qed

section \<open>Bulk insertion\<close>

text \<open>\<open>bulk_write\<close> of upserts whose documents are \<open>$setOnInsert\<close> only.\<close>

definition coll_add_all :: "('d \<Rightarrow> 'k) \<Rightarrow> 'd list \<Rightarrow> 'd list \<Rightarrow> 'd list" where
  "coll_add_all key new ds = fold (coll_add key) new ds"

lemma coll_add_all_simps [simp]:
  "coll_add_all key [] ds = ds"
  "coll_add_all key (d # new) ds = coll_add_all key new (coll_add key d ds)"
  by (simp_all add: coll_add_all_def)

lemma coll_ok_add: "coll_ok key ds \<Longrightarrow> coll_ok key (coll_add key d ds)"
  by (auto simp: coll_add_def coll_ok_def exists_where_iff)

lemma coll_ok_add_all: "coll_ok key ds \<Longrightarrow> coll_ok key (coll_add_all key new ds)"
  by (induction new arbitrary: ds) (auto simp: coll_ok_add)

lemma set_coll_add: "set ds \<subseteq> set (coll_add key d ds)" "set (coll_add key d ds) \<subseteq> insert d (set ds)"
  by (auto simp: coll_add_def)

lemma keys_coll_add: "key ` set (coll_add key d ds) = insert (key d) (key ` set ds)"
  by (auto simp: coll_add_def exists_where_iff intro: rev_image_eqI)

lemma set_coll_add_all:
  "set ds \<subseteq> set (coll_add_all key new ds)" "set (coll_add_all key new ds) \<subseteq> set new \<union> set ds"
  by (induction new arbitrary: ds) (use set_coll_add in \<open>fastforce+\<close>)

lemma keys_coll_add_all: "key ` set (coll_add_all key new ds) = key ` set new \<union> key ` set ds"
  by (induction new arbitrary: ds) (auto simp: keys_coll_add)

lemma coll_add_all_present: "key ` set new \<subseteq> key ` set ds \<Longrightarrow> coll_add_all key new ds = ds"
proof (induction new arbitrary: ds)
  case (Cons d new)
  then have "coll_add key d ds = ds"
    by (auto simp: coll_add_def exists_where_iff)
  with Cons show ?case by simp
qed simp

lemma coll_add_all_fresh:
  "distinct (map key new) \<Longrightarrow> key ` set new \<inter> key ` set ds = {} \<Longrightarrow> coll_add_all key new ds = ds @ new"
proof (induction new arbitrary: ds)
  case (Cons d new)
  from Cons.prems have "coll_add key d ds = ds @ [d]"
    by (auto simp: coll_add_def exists_where_iff image_iff)
  moreover have "coll_add_all key new (ds @ [d]) = (ds @ [d]) @ new"
    using Cons.prems by (intro Cons.IH) auto
  ultimately show ?case by simp
qed simp

lemma filter_coll_add_all:
  assumes "\<And>d. d \<in> set new \<Longrightarrow> \<not> p d"
  shows "filter p (coll_add_all key new ds) = filter p ds"
proof -
  have "filter p (coll_add key d ds) = filter p ds" if "\<not> p d" for d ds
    using that by (simp add: coll_add_def)
  with assms show ?thesis by (induction new arbitrary: ds) auto
qed

end
