(* ===== verification/ParameterSources.thy ===== *)
theory ParameterSources
  imports PyValue
begin

text \<open>
  \<open>apiAnalysis/tool/parameter_sources.py\<close>: the registry of provenance literals recorded for every
  filled request parameter, the trust sets built from them, and the gate that refuses a passing
  verdict when a required parameter's value was never established.

  \<open>param_meta\<close> is one entry of \<open>parameter_sources\<close>; an entry that is not a dictionary is \<open>None\<close>,
  and so is a \<open>parameter_sources\<close> that is not one. The main facts are \<open>blocks_pass_iff\<close> (the
  summary blocks exactly when some required parameter is synthetic or a placeholder; cutting the
  reported names to twenty never hides the block) and \<open>gate_pass_iff\<close>.
\<close>

section \<open>Provenance literals\<close>

definition SOURCE_REQ_DATA :: string where "SOURCE_REQ_DATA = ''req_data''"
definition SOURCE_PARAMETER_RELATION :: string where "SOURCE_PARAMETER_RELATION = ''parameter_relation''"
definition SOURCE_PARAMETER_DEPENDENCY :: string where "SOURCE_PARAMETER_DEPENDENCY = ''parameter_dependency''"
definition SOURCE_PARAMETER_ARCHIVE :: string where "SOURCE_PARAMETER_ARCHIVE = ''parameter_archive''"
definition SOURCE_PARAMETER_ARCHIVE_PROJECT_SCOPED :: string where
  "SOURCE_PARAMETER_ARCHIVE_PROJECT_SCOPED = ''parameter_archive_project_scoped''"
definition SOURCE_PARAMETER_DEPENDENCY_ALIAS :: string where
  "SOURCE_PARAMETER_DEPENDENCY_ALIAS = ''parameter_dependency_alias''"
definition SOURCE_EMPTY_DEFAULT :: string where "SOURCE_EMPTY_DEFAULT = ''empty_default''"
definition SOURCE_UNRESOLVED :: string where "SOURCE_UNRESOLVED = ''unresolved''"
definition SOURCE_OMITTED_EMPTY_OPTIONAL :: string where
  "SOURCE_OMITTED_EMPTY_OPTIONAL = ''omitted_empty_optional''"

definition VALUE_QUALITY_OBSERVED :: string where "VALUE_QUALITY_OBSERVED = ''observed''"
definition VALUE_QUALITY_SAMPLED :: string where "VALUE_QUALITY_SAMPLED = ''sampled''"
definition VALUE_QUALITY_UNKNOWN :: string where "VALUE_QUALITY_UNKNOWN = ''unknown''"
definition VALUE_QUALITY_PLACEHOLDER :: string where "VALUE_QUALITY_PLACEHOLDER = ''placeholder''"

lemmas source_defs =
  SOURCE_REQ_DATA_def SOURCE_PARAMETER_RELATION_def SOURCE_PARAMETER_DEPENDENCY_def
  SOURCE_PARAMETER_ARCHIVE_def SOURCE_PARAMETER_ARCHIVE_PROJECT_SCOPED_def
  SOURCE_PARAMETER_DEPENDENCY_ALIAS_def SOURCE_EMPTY_DEFAULT_def SOURCE_UNRESOLVED_def
  SOURCE_OMITTED_EMPTY_OPTIONAL_def VALUE_QUALITY_OBSERVED_def VALUE_QUALITY_SAMPLED_def
  VALUE_QUALITY_UNKNOWN_def VALUE_QUALITY_PLACEHOLDER_def

definition VALUE_QUALITIES :: "string set" where
  "VALUE_QUALITIES = {VALUE_QUALITY_OBSERVED, VALUE_QUALITY_SAMPLED, VALUE_QUALITY_UNKNOWN,
     VALUE_QUALITY_PLACEHOLDER}"

definition REQUEST_SAMPLE_ONLY_QUALITIES :: "string set" where
  "REQUEST_SAMPLE_ONLY_QUALITIES = {VALUE_QUALITY_SAMPLED}"

definition ACCOUNT_SCOPED_SOURCES :: "string set" where
  "ACCOUNT_SCOPED_SOURCES = {SOURCE_PARAMETER_ARCHIVE, SOURCE_PARAMETER_DEPENDENCY_ALIAS}"

definition PROJECT_SCOPED_SOURCES :: "string set" where
  "PROJECT_SCOPED_SOURCES = {SOURCE_PARAMETER_ARCHIVE_PROJECT_SCOPED}"

definition REQUIRED_PATH_BLOCKING_SOURCES :: "string set" where
  "REQUIRED_PATH_BLOCKING_SOURCES = {SOURCE_EMPTY_DEFAULT, SOURCE_UNRESOLVED}"

definition MUTATION_BLOCKING_SOURCES :: "string set" where
  "MUTATION_BLOCKING_SOURCES = {SOURCE_EMPTY_DEFAULT, SOURCE_UNRESOLVED,
     SOURCE_PARAMETER_ARCHIVE_PROJECT_SCOPED}"

definition WARNING_SOURCES :: "string set" where
  "WARNING_SOURCES = {SOURCE_EMPTY_DEFAULT}"

definition NOT_PROVIDED_SOURCES :: "string set" where
  "NOT_PROVIDED_SOURCES = {'''', SOURCE_EMPTY_DEFAULT, SOURCE_OMITTED_EMPTY_OPTIONAL}"

lemmas source_set_defs =
  VALUE_QUALITIES_def REQUEST_SAMPLE_ONLY_QUALITIES_def ACCOUNT_SCOPED_SOURCES_def
  PROJECT_SCOPED_SOURCES_def REQUIRED_PATH_BLOCKING_SOURCES_def MUTATION_BLOCKING_SOURCES_def
  WARNING_SOURCES_def NOT_PROVIDED_SOURCES_def

definition is_account_scoped :: "string \<Rightarrow> bool" where
  "is_account_scoped source \<longleftrightarrow> source \<in> ACCOUNT_SCOPED_SOURCES"

definition is_project_scoped :: "string \<Rightarrow> bool" where
  "is_project_scoped source \<longleftrightarrow> source \<in> PROJECT_SCOPED_SOURCES"

definition is_request_sample_only :: "string \<Rightarrow> bool" where
  "is_request_sample_only quality \<longleftrightarrow> quality \<in> REQUEST_SAMPLE_ONLY_QUALITIES"

section \<open>Placeholder literals\<close>

definition PLACEHOLDER_VALUE_LITERALS :: "string set" where
  "PLACEHOLDER_VALUE_LITERALS = {
     '''', ''string'', ''example'', ''sample'', ''demo'', ''test'', ''xxx'', ''xxxx'',
     ''placeholder'', ''todo'', ''fixme'', ''tbd'', ''n/a'', ''none'', ''null'',
     ''-'', ''--'', ''?'', ''foo'', ''bar'', ''baz'', ''value'', ''name'', ''id''}"

definition is_placeholder_value :: "json \<Rightarrow> bool" where
  "is_placeholder_value value = (case value of
     JNull \<Rightarrow> True
   | JList xs \<Rightarrow> length xs = 0
   | JObj d \<Rightarrow> length d = 0
   | _ \<Rightarrow> py_lower (py_strip (py_str value)) \<in> PLACEHOLDER_VALUE_LITERALS)"

section \<open>The required-parameter gate\<close>

definition PASS_BLOCKING_VERDICTS :: "string set" where
  "PASS_BLOCKING_VERDICTS =
     {''no_vuln'', ''isolated_not_found'', ''isolated_blocked'', ''blocked_own_data''}"

definition REQUIRED_PARAMETER_GATE_REASON :: string where
  "REQUIRED_PARAMETER_GATE_REASON = ''required_parameter_value_not_established''"

record param_meta =
  pm_required :: bool
  pm_source :: string
  pm_value_quality :: string

type_synonym parameter_sources = "param_meta option dict option"

record quality_summary =
  blocks_pass :: bool
  synthetic_required :: "string list"
  placeholder_required :: "string list"
  request_sample_only_required :: "string list"

text \<open>Which of the three lists the loop appends the name to, if any.\<close>

datatype bucket = Synthetic | Placeholder | SampleOnly | Established

definition bucket_of :: "param_meta option \<Rightarrow> bucket" where
  "bucket_of entry = (case entry of None \<Rightarrow> Established
   | Some meta \<Rightarrow>
       if \<not> pm_required meta then Established
       else if pm_source meta \<in> REQUIRED_PATH_BLOCKING_SOURCES then Synthetic
       else if pm_value_quality meta = VALUE_QUALITY_PLACEHOLDER then Placeholder
       else if is_request_sample_only (pm_value_quality meta) then SampleOnly
       else Established)"

definition names_in :: "bucket \<Rightarrow> param_meta option dict \<Rightarrow> string list" where
  "names_in b sources = map fst (filter (\<lambda>(name, entry). bucket_of entry = b) sources)"

definition bounded_names :: "string list \<Rightarrow> string list" where
  "bounded_names names = take 20 (sort names)"

definition required_parameter_quality_summary :: "parameter_sources \<Rightarrow> quality_summary" where
  "required_parameter_quality_summary parameter_sources =
     (let sources = (case parameter_sources of Some d \<Rightarrow> d | None \<Rightarrow> []);
          synthetic = bounded_names (names_in Synthetic sources);
          placeholder = bounded_names (names_in Placeholder sources);
          sample_only = bounded_names (names_in SampleOnly sources)
      in \<lparr>blocks_pass = (synthetic \<noteq> [] \<or> placeholder \<noteq> []),
          synthetic_required = synthetic,
          placeholder_required = placeholder,
          request_sample_only_required = sample_only\<rparr>)"

type_synonym judgement = "string \<times> string list \<times> rat"

definition apply_required_parameter_gate :: "judgement \<Rightarrow> quality_summary option \<Rightarrow> judgement" where
  "apply_required_parameter_gate j summary = (case j of (verdict, reasons, confidence) \<Rightarrow>
     if verdict \<notin> PASS_BLOCKING_VERDICTS then (verdict, reasons, confidence)
     else (case summary of None \<Rightarrow> (verdict, reasons, confidence)
       | Some q \<Rightarrow>
           if \<not> blocks_pass q then (verdict, reasons, confidence)
           else (''not_evaluable'', reasons @ [REQUIRED_PARAMETER_GATE_REASON], min confidence (6 / 10))))"

section \<open>Facts\<close>

lemma bounded_names_eq_Nil [simp]: "bounded_names names = [] \<longleftrightarrow> names = []"
  by (simp add: bounded_names_def)

lemma set_bounded_names: "set (bounded_names names) \<subseteq> set names"
  by (metis bounded_names_def set_sort set_take_subset)

lemma length_bounded_names: "length (bounded_names names) \<le> 20"
  by (simp add: bounded_names_def)

lemma names_in_eq_Nil: "names_in b sources = [] \<longleftrightarrow> (\<forall>(name, entry) \<in> set sources. bucket_of entry \<noteq> b)"
  by (auto simp: names_in_def filter_empty_conv)

definition unestablished :: "param_meta \<Rightarrow> bool" where
  "unestablished meta \<longleftrightarrow> pm_required meta \<and>
     (pm_source meta \<in> {SOURCE_EMPTY_DEFAULT, SOURCE_UNRESOLVED} \<or>
      pm_value_quality meta = VALUE_QUALITY_PLACEHOLDER)"

lemma bucket_None [simp]: "bucket_of None = Established"
  by (simp add: bucket_of_def)

lemma bucket_bad:
  "bucket_of entry \<in> {Synthetic, Placeholder} \<longleftrightarrow> (\<exists>meta. entry = Some meta \<and> unestablished meta)"
  by (cases entry)
    (auto simp: bucket_of_def unestablished_def REQUIRED_PATH_BLOCKING_SOURCES_def)

lemma blocks_pass_iff:
  "blocks_pass (required_parameter_quality_summary (Some sources)) \<longleftrightarrow>
     (\<exists>(name, entry) \<in> set sources. \<exists>meta. entry = Some meta \<and> unestablished meta)"
proof -
  have "blocks_pass (required_parameter_quality_summary (Some sources)) \<longleftrightarrow>
      (\<exists>(name, entry) \<in> set sources. bucket_of entry \<in> {Synthetic, Placeholder})"
    by (auto simp: required_parameter_quality_summary_def Let_def names_in_eq_Nil)
  also have "\<dots> \<longleftrightarrow> (\<exists>(name, entry) \<in> set sources. \<exists>meta. entry = Some meta \<and> unestablished meta)"
    by (simp only: bucket_bad)
  finally show ?thesis .
qed

lemma gate_pass_iff:
  "fst (apply_required_parameter_gate (verdict, reasons, confidence) summary) \<in> PASS_BLOCKING_VERDICTS
     \<longleftrightarrow> verdict \<in> PASS_BLOCKING_VERDICTS \<and> (\<forall>q. summary = Some q \<longrightarrow> \<not> blocks_pass q)"
  by (auto simp: apply_required_parameter_gate_def PASS_BLOCKING_VERDICTS_def split: option.splits)

lemma gate_unchanged:
  "verdict \<notin> PASS_BLOCKING_VERDICTS \<Longrightarrow>
     apply_required_parameter_gate (verdict, reasons, confidence) summary = (verdict, reasons, confidence)"
  by (simp add: apply_required_parameter_gate_def)

lemma gate_confidence_le:
  "snd (snd (apply_required_parameter_gate j summary)) \<le> snd (snd j)"
  by (auto simp: apply_required_parameter_gate_def split: prod.splits option.splits)

section \<open>Properties\<close>

text \<open>C39: no pass rests on a required parameter whose value was never established: after the gate a
  verdict is a passing one exactly when the judge said so and no required parameter of the snapshot
  is an empty default, unresolved or a placeholder; the report's cut to twenty names does not weaken
  it, and every other verdict comes through with its reasons and confidence unchanged.\<close>

theorem required_parameter_gate_sound:
  "(fst (apply_required_parameter_gate (verdict, reasons, confidence)
        (Some (required_parameter_quality_summary (Some sources)))) \<in> PASS_BLOCKING_VERDICTS \<longleftrightarrow>
      verdict \<in> PASS_BLOCKING_VERDICTS \<and>
      \<not> list_ex (\<lambda>(name, entry). case entry of None \<Rightarrow> False | Some m \<Rightarrow> unestablished m) sources) \<and>
   (verdict \<in> PASS_BLOCKING_VERDICTS \<or>
      apply_required_parameter_gate (verdict, reasons, confidence) summary = (verdict, reasons, confidence))"
  using gate_unchanged [of verdict reasons confidence summary]
  by (simp only: gate_pass_iff) (auto simp: blocks_pass_iff list_ex_iff split: option.splits)

end
