(* ===== verification/Documents.thy ===== *)
theory Documents
  imports Store PyValue ParameterSources
begin

text \<open>
  The documents of \<open>apiAnalysis/db/collection.py\<close> that the execution scheduler, the result review
  and the finding lifecycle keep, as records with the source's field names (prefixed per document,
  because record selectors share one name space). Fields that no modelled operation reads or
  writes (request headers and bodies, free-text notes) are left out. Object ids are strings, dates
  are seconds; a field that an update can unset is an option.

  \<open>db\<close> is the whole state those services share: the collections and the Redis wake-up list, which
  is \<open>None\<close> while Redis is unreachable.
\<close>

type_synonym oid = string
type_synonym time = int

section \<open>Execution context\<close>

record execution_context =
  cx_project_id :: string
  cx_env_id :: string
  cx_account_id :: string
  cx_auth_mode :: string
  cx_auth_provider_id :: string
  cx_auth_context_ref :: string
  cx_auth_profile_revision_id :: string
  cx_auth_realm_revision_id :: string
  cx_auth_adapter_version_id :: string
  cx_adapter_id :: string
  cx_adapter_version :: string
  cx_plan_version :: string
  cx_plan_sha256 :: string
  cx_parent_run_id :: "oid option"
  cx_retry_of_run_id :: "oid option"

section \<open>Snapshots, runs, checkpoints, results\<close>

record request_snapshot =
  sn_id :: oid
  sn_pathid :: int
  sn_project_id :: string
  sn_env_id :: string
  sn_account_id :: string
  sn_auth_provider_id :: string
  sn_auth_context_ref :: string
  sn_auth_profile_revision_id :: string
  sn_auth_realm_revision_id :: string
  sn_auth_adapter_version_id :: string
  sn_method :: string
  sn_url :: string
  sn_path :: string
  sn_domain :: string
  sn_parameter_sources :: parameter_sources

datatype run_status =
    PREPARING | QUEUED | RUNNING | CANCEL_REQUESTED | CANCELLED | PAUSED | DONE | FAILED

record host_row =
  hr_host :: string
  hr_transport_errors :: int
  hr_rate_limits :: int
  hr_server_errors :: int
  hr_stopped_reason :: string

record case_counts =
  pending_cases :: nat
  running_cases :: nat
  completed_cases :: nat
  failed_cases :: nat
  skipped_cases :: nat
  cancelled_cases :: nat

record security_test_run =
  run_id :: oid
  run_name :: string
  run_contract_version :: string
  run_ctx :: execution_context
  run_check_type :: string
  run_scope :: "json dict"
  run_source :: string
  run_status :: run_status
  run_summary :: "json dict"
  run_evidence_ref :: string
  run_scheduler_managed :: bool
  run_idempotency_key :: "string option"
  run_queue_name :: string
  run_priority :: int
  run_snapshot_ids :: "oid list"
  run_execution_policy :: "json dict"
  run_total_cases :: nat
  run_counts :: case_counts
  run_dispatch_attempt :: int
  run_max_dispatch_attempts :: int
  run_lease_owner :: "string option"
  run_lease_token :: "string option"
  run_lease_expires_at :: "time option"
  run_heartbeat_at :: "time option"
  run_queued_at :: "time option"
  run_updated_at :: time
  run_started_at :: "time option"
  run_finished_at :: "time option"
  run_cancel_reason :: string
  run_last_error_type :: "string option"
  run_pause_code :: "string option"
  run_dependency_type :: "string option"
  run_dependency_id :: "string option"
  run_dependency_revision_id :: "string option"
  run_host_state :: "host_row list"
  run_auth_context_summary :: "json dict"
  run_operator :: string
  run_expires_at :: "time option"

datatype checkpoint_status =
    CP_PENDING | CP_RUNNING | CP_DONE | CP_ERROR | CP_SKIPPED | CP_CANCELLED

record security_execution_checkpoint =
  cp_run_id :: oid
  cp_snapshot_id :: oid
  cp_project_id :: string
  cp_env_id :: string
  cp_pathid :: int
  cp_ordinal :: nat
  cp_host :: string
  cp_status :: checkpoint_status
  cp_attempt_count :: nat
  cp_lease_token :: "string option"
  cp_result_id :: "oid option"
  cp_reason_codes :: "string list"
  cp_outcome_summary :: "json dict"
  cp_error_type :: string
  cp_started_at :: "time option"
  cp_finished_at :: "time option"
  cp_updated_at :: time
  cp_expires_at :: "time option"

record security_test_result =
  res_id :: oid
  res_run_id :: oid
  res_contract_version :: string
  res_execution_key :: "string option"
  res_project_id :: string
  res_env_id :: string
  res_account_id :: string
  res_auth_mode :: string
  res_auth_provider_id :: string
  res_snapshot_id :: "oid option"
  res_case_name :: string
  res_check_type :: string
  res_target :: "json dict"
  res_method :: string
  res_verdict :: string
  res_outcome_class :: string
  res_priority :: string
  res_severity :: string
  res_confidence :: rat
  res_reason_codes :: "string list"
  res_evidence_summary :: "json dict"
  res_evidence_ref :: string
  res_related_pathid :: "int option"
  res_related_vuln_id :: "oid option"
  res_ctime :: time
  res_expires_at :: "time option"

record parameter_relation =
  pr_id :: oid
  pr_project_id :: string
  pr_env_id :: string
  pr_parameter :: string
  pr_source_parameter :: string
  pr_target_parameter :: string
  pr_source_locator :: "json dict"
  pr_target_locator :: "json dict"
  pr_target_position :: string
  pr_res_pathid :: int
  pr_req_pathid :: int
  pr_schema_fingerprint :: string
  pr_verified :: bool
  pr_manual_decision :: string
  pr_preprocess_status :: string
  pr_preprocess_reason_codes :: "string list"
  pr_last_validation_run_id :: "oid option"
  pr_mtime :: time

section \<open>Shared state\<close>

record db =
  db_snapshots :: "request_snapshot list"
  db_runs :: "security_test_run list"
  db_checkpoints :: "security_execution_checkpoint list"
  db_results :: "security_test_result list"
  db_relations :: "parameter_relation list"
  db_wakeup :: "oid list option"

text \<open>
  A checkpoint is identified by its unique index \<open>(run_id, snapshot_id)\<close>; the code's \<open>id=\<close> filters
  on checkpoints pick the same document.
\<close>

definition cp_key :: "security_execution_checkpoint \<Rightarrow> oid \<times> oid" where
  "cp_key cp = (cp_run_id cp, cp_snapshot_id cp)"

interpretation run_store: keyed_store run_id "coll_get run_id" "coll_cas run_id" "coll_won run_id"
    "coll_add run_id" "coll_ok run_id"
  by (rule coll_keyed_store)

interpretation checkpoint_store: keyed_store cp_key "coll_get cp_key" "coll_cas cp_key"
    "coll_won cp_key" "coll_add cp_key" "coll_ok cp_key"
  by (rule coll_keyed_store)

interpretation result_store: keyed_store res_execution_key "coll_get res_execution_key"
    "coll_cas res_execution_key" "coll_won res_execution_key" "coll_add res_execution_key"
    "coll_ok res_execution_key"
  by (rule coll_keyed_store)

end
