(* ===== verification/ExecutionContract.thy ===== *)
theory ExecutionContract
  imports Documents
begin

text \<open>
  \<open>apiAnalysis/tool/execution_contract.py\<close>: the execution context every run is bound to, the
  normalized conclusion every result writer accepts, and the idempotent persistence of results;
  with the verdict projection of \<open>apiAnalysis/tool/result_review.py\<close> the writer applies.

  \<open>validate_context\<close> and \<open>validate_result_input\<close> are the two \<open>validate\<close> methods as ordered guards.
  \<open>record_execution_result_input\<close> looks the execution key up, builds the document and saves it with
  \<open>save_execution_result\<close>, whose second look covers the \<open>NotUniqueError\<close> path. The facts say what a
  valid context excludes, and that a result collection with distinct execution keys keeps them
  distinct and never rewrites a recorded conclusion.
\<close>

section \<open>Verdict projection\<close>

definition VERDICT_OUTCOME_MAP :: "(string \<times> string) list" where
  "VERDICT_OUTCOME_MAP = [
     (''potential_vuln'', ''candidate''),
     (''need_review'', ''review''),
     (''no_vuln'', ''pass''),
     (''not_evaluable'', ''blocked''),
     (''error'', ''error''),
     (''isolated_not_found'', ''pass''),
     (''isolated_blocked'', ''pass''),
     (''blocked_own_data'', ''pass''),
     (''relation_verified'', ''informational''),
     (''blocked_empty'', ''blocked''),
     (''rejected_input'', ''blocked''),
     (''PARTIAL_IDOR_PARAM'', ''candidate''),
     (''UNAUTH_EXPOSURE'', ''candidate''),
     (''review'', ''review'')]"

definition project_outcome_class :: "string \<Rightarrow> string" where
  "project_outcome_class verdict =
     (case map_of VERDICT_OUTCOME_MAP verdict of Some c \<Rightarrow> c | None \<Rightarrow> ''informational'')"

lemma outcome_pass_iff:
  "project_outcome_class verdict = ''pass'' \<longleftrightarrow> verdict \<in> PASS_BLOCKING_VERDICTS"
  by (simp add: project_outcome_class_def VERDICT_OUTCOME_MAP_def PASS_BLOCKING_VERDICTS_def)

section \<open>Execution context\<close>

definition AUTH_MODES :: "string set" where
  "AUTH_MODES = {''anonymous'', ''account'', ''inherit'', ''matrix''}"

definition context_version_refs :: "execution_context \<Rightarrow> string list" where
  "context_version_refs c = [cx_auth_profile_revision_id c, cx_auth_realm_revision_id c,
     cx_auth_adapter_version_id c]"

definition any_text :: "string list \<Rightarrow> bool" where
  "any_text xs = list_ex (\<lambda>s. s \<noteq> []) xs"

definition all_text :: "string list \<Rightarrow> bool" where
  "all_text xs = list_all (\<lambda>s. s \<noteq> []) xs"

definition validate_context :: "execution_context \<Rightarrow> unit result_of" where
  "validate_context c = guards [
     (cx_project_id c = [], ValueError ''project_id is required''),
     (cx_auth_mode c \<notin> AUTH_MODES, ValueError ''unsupported auth_mode''),
     (cx_auth_mode c = ''anonymous'' \<and>
        any_text [cx_account_id c, cx_auth_provider_id c, cx_auth_context_ref c],
      ValueError ''anonymous execution cannot bind account context''),
     (cx_auth_mode c = ''account'' \<and>
        \<not> all_text [cx_env_id c, cx_account_id c, cx_auth_provider_id c],
      ValueError ''account auth requires env_id, account_id and auth_provider_id''),
     (cx_auth_mode c = ''matrix'' \<and>
        any_text [cx_account_id c, cx_auth_provider_id c, cx_auth_context_ref c,
          cx_auth_profile_revision_id c, cx_auth_realm_revision_id c, cx_auth_adapter_version_id c],
      ValueError ''matrix execution binds principals per case, not one run-level account''),
     (cx_auth_mode c \<noteq> ''account'' \<and> any_text [cx_auth_provider_id c, cx_auth_context_ref c],
      ValueError ''auth provider references require account auth_mode''),
     (cx_auth_mode c \<noteq> ''account'' \<and> any_text (context_version_refs c),
      ValueError ''auth version references require account auth_mode''),
     (cx_auth_provider_id c = ''auth_recipe'' \<and> \<not> all_text (context_version_refs c),
      ValueError ''recipe auth requires pinned profile, realm and adapter versions'')]"

definition snapshot_metadata :: "execution_context \<Rightarrow> string dict result_of" where
  "snapshot_metadata c = sbind (validate_context c) (\<lambda>_. Inr [
     (''plan_version'', cx_plan_version c),
     (''plan_sha256'', cx_plan_sha256 c),
     (''adapter_id'', cx_adapter_id c),
     (''adapter_version'', cx_adapter_version c),
     (''auth_provider_id'', cx_auth_provider_id c),
     (''auth_context_ref'', cx_auth_context_ref c),
     (''auth_profile_revision_id'', cx_auth_profile_revision_id c),
     (''auth_realm_revision_id'', cx_auth_realm_revision_id c),
     (''auth_adapter_version_id'', cx_auth_adapter_version_id c)])"

text \<open>The fields a run takes from its context; a run document holds them as \<open>run_ctx\<close>.\<close>

definition run_fields :: "execution_context \<Rightarrow> execution_context result_of" where
  "run_fields c = sbind (validate_context c) (\<lambda>_. Inr c)"

definition default_context :: "string \<Rightarrow> execution_context" where
  "default_context project_id = \<lparr>
     cx_project_id = project_id, cx_env_id = [], cx_account_id = [], cx_auth_mode = ''inherit'',
     cx_auth_provider_id = [], cx_auth_context_ref = [], cx_auth_profile_revision_id = [],
     cx_auth_realm_revision_id = [], cx_auth_adapter_version_id = [],
     cx_adapter_id = ''snapshot_batch'', cx_adapter_version = ''1'', cx_plan_version = [],
     cx_plan_sha256 = [], cx_parent_run_id = None, cx_retry_of_run_id = None\<rparr>"

section \<open>Result input\<close>

record execution_result_input =
  ri_case_name :: string
  ri_check_type :: string
  ri_verdict :: string
  ri_target :: json
  ri_method :: string
  ri_evidence_summary :: json
  ri_evidence_ref :: string
  ri_reason_codes :: "string list"
  ri_confidence :: rat
  ri_priority :: string
  ri_severity :: string
  ri_related_pathid :: "int option"
  ri_execution_key :: string

fun is_none_or_dict :: "json \<Rightarrow> bool" where
  "is_none_or_dict JNull = True"
| "is_none_or_dict (JObj _) = True"
| "is_none_or_dict _ = False"

fun dict_or_empty :: "json \<Rightarrow> json dict" where
  "dict_or_empty (JObj d) = d"
| "dict_or_empty _ = []"

definition validate_result_input :: "execution_result_input \<Rightarrow> unit result_of" where
  "validate_result_input v = guards [
     (blank (ri_case_name v), ValueError ''case_name is required''),
     (blank (ri_check_type v), ValueError ''check_type is required''),
     (blank (ri_verdict v), ValueError ''verdict is required''),
     (\<not> is_none_or_dict (ri_target v), ValueError ''target must be a dictionary''),
     (\<not> is_none_or_dict (ri_evidence_summary v), ValueError ''evidence_summary must be a dictionary''),
     (\<not> (0 \<le> ri_confidence v \<and> ri_confidence v \<le> 1), ValueError ''confidence must be between 0 and 1''),
     ((case ri_related_pathid v of None \<Rightarrow> False | Some p \<Rightarrow> p < 0),
      ValueError ''related_pathid must be non-negative'')]"

section \<open>Recording results\<close>

definition EXECUTION_CONTRACT_VERSION :: string where "EXECUTION_CONTRACT_VERSION = ''1''"
definition RESULT_CONTRACT_VERSION :: string where "RESULT_CONTRACT_VERSION = ''1''"

definition optional_int :: "int option \<Rightarrow> json" where
  "optional_int p = (case p of None \<Rightarrow> JNull | Some n \<Rightarrow> JInt n)"

definition result_pathid :: "request_snapshot option \<Rightarrow> execution_result_input \<Rightarrow> int option" where
  "result_pathid snapshot v =
     (case snapshot of Some s \<Rightarrow> Some (sn_pathid s) | None \<Rightarrow> ri_related_pathid v)"

definition result_target :: "security_test_run \<Rightarrow> request_snapshot option \<Rightarrow> execution_result_input \<Rightarrow> json dict" where
  "result_target run snapshot v = (let c = run_ctx run in
     dict_update [
       (''project_id'', JStr (cx_project_id c)),
       (''env_id'', JStr (cx_env_id c)),
       (''account_id'', JStr (cx_account_id c)),
       (''auth_mode'', JStr (cx_auth_mode c)),
       (''auth_provider_id'', JStr (cx_auth_provider_id c)),
       (''auth_context_ref'', JStr (cx_auth_context_ref c)),
       (''snapshot_id'', JStr (case snapshot of Some s \<Rightarrow> sn_id s | None \<Rightarrow> [])),
       (''pathid'', optional_int (result_pathid snapshot v))]
     (dict_or_empty (ri_target v)))"

definition build_result :: "time \<Rightarrow> oid \<Rightarrow> security_test_run \<Rightarrow> request_snapshot option \<Rightarrow>
    execution_result_input \<Rightarrow> security_test_result" where
  "build_result now new_id run snapshot v = (let c = run_ctx run in \<lparr>
     res_id = new_id,
     res_run_id = run_id run,
     res_contract_version = RESULT_CONTRACT_VERSION,
     res_execution_key = (if ri_execution_key v = [] then None else Some (ri_execution_key v)),
     res_project_id = cx_project_id c,
     res_env_id = cx_env_id c,
     res_account_id = cx_account_id c,
     res_auth_mode = cx_auth_mode c,
     res_auth_provider_id = cx_auth_provider_id c,
     res_snapshot_id = map_option sn_id snapshot,
     res_case_name = ri_case_name v,
     res_check_type = ri_check_type v,
     res_target = result_target run snapshot v,
     res_method = (case snapshot of Some s \<Rightarrow> sn_method s | None \<Rightarrow> ri_method v),
     res_verdict = ri_verdict v,
     res_outcome_class = project_outcome_class (ri_verdict v),
     res_priority = ri_priority v,
     res_severity = ri_severity v,
     res_confidence = ri_confidence v,
     res_reason_codes = ri_reason_codes v,
     res_evidence_summary = dict_or_empty (ri_evidence_summary v),
     res_evidence_ref = ri_evidence_ref v,
     res_related_pathid = result_pathid snapshot v,
     res_related_vuln_id = None,
     res_ctime = now,
     res_expires_at = run_expires_at run\<rparr>)"

definition result_with_key :: "string \<Rightarrow> security_test_result list \<Rightarrow> security_test_result option" where
  "result_with_key k results = find (\<lambda>r. res_execution_key r = Some k) results"

text \<open>
  \<open>result.save(force_insert=...)\<close> under the unique sparse index on the execution key: on
  \<open>NotUniqueError\<close> the document already stored is read back.
\<close>

definition save_execution_result :: "security_test_result \<Rightarrow> security_test_result list \<Rightarrow>
    security_test_result list \<times> security_test_result" where
  "save_execution_result r results = (case res_execution_key r of
     None \<Rightarrow> (results @ [r], r)
   | Some k \<Rightarrow> (case result_with_key k results of
       Some e \<Rightarrow> (results, e)
     | None \<Rightarrow> (results @ [r], r)))"

definition record_execution_result_input :: "time \<Rightarrow> oid \<Rightarrow> security_test_run \<Rightarrow>
    request_snapshot option \<Rightarrow> execution_result_input \<Rightarrow> security_test_result list \<Rightarrow>
    (security_test_result list \<times> security_test_result) result_of" where
  "record_execution_result_input now new_id run snapshot v results =
     sbind (validate_result_input v) (\<lambda>_.
       case (if ri_execution_key v = [] then None else result_with_key (ri_execution_key v) results) of
         Some existing \<Rightarrow> Inr (results, existing)
       | None \<Rightarrow> Inr (save_execution_result (build_result now new_id run snapshot v) results))"

section \<open>Facts: contexts\<close>

definition valid_context :: "execution_context \<Rightarrow> bool" where
  "valid_context c \<longleftrightarrow> validate_context c = Inr ()"

lemma any_text_simps [simp]: "any_text [] = False" "any_text (s # ss) = (s \<noteq> [] \<or> any_text ss)"
  by (simp_all add: any_text_def)

lemma all_text_simps [simp]: "all_text [] = True" "all_text (s # ss) = (s \<noteq> [] \<and> all_text ss)"
  by (simp_all add: all_text_def)

lemmas valid_context_iff = valid_context_def validate_context_def guards_ok_iff list.pred_inject fst_conv

lemma valid_context_mode: "valid_context c \<Longrightarrow> cx_auth_mode c \<in> AUTH_MODES \<and> cx_project_id c \<noteq> []"
  by (simp only: valid_context_iff) simp

lemma valid_context_non_account:
  assumes "valid_context c" "cx_auth_mode c \<noteq> ''account''"
  shows "\<not> any_text [cx_auth_provider_id c, cx_auth_context_ref c]" "\<not> any_text (context_version_refs c)"
  using assms by (simp_all only: valid_context_iff) simp_all

lemma valid_context_no_account_id:
  assumes "valid_context c" "cx_auth_mode c = ''anonymous'' \<or> cx_auth_mode c = ''matrix''"
  shows "cx_account_id c = []"
  using assms by (simp only: valid_context_iff any_text_simps) blast

lemma valid_context_account:
  assumes "valid_context c" "cx_auth_mode c = ''account''"
  shows "all_text [cx_env_id c, cx_account_id c, cx_auth_provider_id c]"
  using assms by (simp only: valid_context_iff) blast

lemma valid_context_recipe:
  assumes "valid_context c" "cx_auth_provider_id c = ''auth_recipe''"
  shows "all_text (context_version_refs c)"
  using assms by (simp only: valid_context_iff) blast

lemma run_fields_Inr: "run_fields c = Inr d \<longleftrightarrow> valid_context c \<and> d = c"
  by (auto simp: run_fields_def sbind_Inr_iff valid_context_def)

section \<open>Facts: results\<close>

definition results_ok :: "security_test_result list \<Rightarrow> bool" where
  "results_ok results \<longleftrightarrow> distinct (filter (\<lambda>k. k \<noteq> None) (map res_execution_key results))"

lemma result_with_key_None: "result_with_key k results = None \<longleftrightarrow> Some k \<notin> res_execution_key ` set results"
  by (auto simp: result_with_key_def find_None_iff image_iff)

lemma result_with_key_Some:
  "result_with_key k results = Some r \<Longrightarrow> r \<in> set results \<and> res_execution_key r = Some k"
  by (auto simp: result_with_key_def dest: find_Some_in)

lemma save_keeps: "set results \<subseteq> set (fst (save_execution_result r results))"
  by (auto simp: save_execution_result_def split: option.splits)

lemma save_returns_stored: "snd (save_execution_result r results) \<in> set (fst (save_execution_result r results))"
  by (auto simp: save_execution_result_def dest: result_with_key_Some split: option.splits)

lemma save_returns_key:
  "res_execution_key (snd (save_execution_result r results)) = res_execution_key r"
  by (auto simp: save_execution_result_def dest: result_with_key_Some split: option.splits)

lemma results_ok_save: "results_ok results \<Longrightarrow> results_ok (fst (save_execution_result r results))"
  by (auto simp: save_execution_result_def results_ok_def result_with_key_None split: option.splits)

lemma result_with_key_append:
  "result_with_key k (results @ rs) =
     (case result_with_key k results of Some e \<Rightarrow> Some e | None \<Rightarrow> result_with_key k rs)"
  unfolding result_with_key_def by (induction results) auto

lemma save_then_find:
  "res_execution_key r = Some k \<Longrightarrow>
     result_with_key k (fst (save_execution_result r results)) = Some (snd (save_execution_result r results))"
  by (auto simp: save_execution_result_def result_with_key_append split: option.splits)
    (simp add: result_with_key_def)

lemma build_result_key:
  "res_execution_key (build_result now new_id run snapshot v) =
     (if ri_execution_key v = [] then None else Some (ri_execution_key v))"
  by (simp add: build_result_def Let_def)

lemma record_eq:
  assumes "record_execution_result_input now new_id run snapshot v results = Inr p"
  shows "validate_result_input v = Inr ()"
    "p = save_execution_result (build_result now new_id run snapshot v) results"
proof -
  show ok: "validate_result_input v = Inr ()"
    using assms by (auto simp: record_execution_result_input_def sbind_Inr_iff)
  have "res_execution_key (build_result now new_id run snapshot v) = None" if "ri_execution_key v = []"
    using that by (simp add: build_result_key)
  then show "p = save_execution_result (build_result now new_id run snapshot v) results"
    using assms by (cases "ri_execution_key v = []"; cases "result_with_key (ri_execution_key v) results")
      (simp_all add: record_execution_result_input_def ok save_execution_result_def build_result_key)
qed

lemma record_stores:
  assumes "record_execution_result_input now new_id run snapshot v results = Inr (results', r)"
  shows "set results \<subseteq> set results'" "r \<in> set results'" "results_ok results \<Longrightarrow> results_ok results'"
  using record_eq(2) [OF assms, symmetric] save_keeps [of results "build_result now new_id run snapshot v"]
    save_returns_stored [of "build_result now new_id run snapshot v" results]
    results_ok_save [of results "build_result now new_id run snapshot v"]
  by simp_all

lemma record_finds:
  assumes "record_execution_result_input now new_id run snapshot v results = Inr (results', r)"
    and "ri_execution_key v \<noteq> []"
  shows "result_with_key (ri_execution_key v) results' = Some r"
  using save_then_find [of "build_result now new_id run snapshot v" "ri_execution_key v" results]
    record_eq(2) [OF assms(1), symmetric] assms(2)
  by (simp add: build_result_key)

lemma record_existing:
  assumes "result_with_key (ri_execution_key v) results = Some e" "ri_execution_key v \<noteq> []"
    and "validate_result_input v = Inr u"
  shows "record_execution_result_input now new_id run snapshot v results = Inr (results, e)"
  using assms by (simp add: record_execution_result_input_def)

section \<open>Properties\<close>

text \<open>C8: a result is recorded once. Recording under an execution key stores the conclusion at most
  once and never rewrites what is stored: whatever is recorded later under that key, by whom and at
  what time, returns the first conclusion and leaves the collection as it is.\<close>

theorem recording_is_idempotent:
  assumes "record_execution_result_input now new_id run snapshot v results = Inr (results', r)"
    and "results_ok results" "ri_execution_key v \<noteq> []"
    and "ri_execution_key w = ri_execution_key v" "validate_result_input w = Inr ()"
  shows "results_ok results' \<and> set results \<subseteq> set results' \<and> r \<in> set results' \<and>
    record_execution_result_input now' new_id' run' snapshot' w results' = Inr (results', r)"
  using record_stores [OF assms(1)] assms(2-5) record_finds [OF assms(1) assms(3)]
  by (simp add: record_existing)

definition example_input :: execution_result_input where
  "example_input = \<lparr>ri_case_name = ''GET /a'', ri_check_type = ''unauth_access'', ri_verdict = ''no_vuln'',
     ri_target = JNull, ri_method = [], ri_evidence_summary = JObj [(''status_code'', JInt 401)],
     ri_evidence_ref = [], ri_reason_codes = [], ri_confidence = 97 / 100, ri_priority = ''P2'',
     ri_severity = ''info'', ri_related_pathid = None, ri_execution_key = ''r1:s1''\<rparr>"

definition example_run :: "oid \<Rightarrow> execution_context \<Rightarrow> run_status \<Rightarrow> security_test_run" where
  "example_run i c st = \<lparr>
     run_id = i, run_name = ''b'', run_contract_version = EXECUTION_CONTRACT_VERSION,
     run_ctx = c, run_check_type = ''unauth_access'', run_scope = [],
     run_source = ''execution_scheduler'', run_status = st, run_summary = [],
     run_evidence_ref = [], run_scheduler_managed = True,
     run_idempotency_key = Some i, run_queue_name = ''snapshot'',
     run_priority = 100, run_snapshot_ids = [''s1''], run_execution_policy = [],
     run_total_cases = 1, run_counts = \<lparr>pending_cases = 1, running_cases = 0, completed_cases = 0,
       failed_cases = 0, skipped_cases = 0, cancelled_cases = 0\<rparr>,
     run_dispatch_attempt = 0, run_max_dispatch_attempts = 3,
     run_lease_owner = None, run_lease_token = None, run_lease_expires_at = None,
     run_heartbeat_at = None, run_queued_at = Some 0, run_updated_at = 0, run_started_at = None,
     run_finished_at = None, run_cancel_reason = [], run_last_error_type = None,
     run_pause_code = None, run_dependency_type = None, run_dependency_id = None,
     run_dependency_revision_id = None, run_host_state = [], run_auth_context_summary = [],
     run_operator = [], run_expires_at = None\<rparr>"

theorem recording_is_idempotent_witness:
  "\<exists>results' r. record_execution_result_input 1 ''x1'' (example_run ''r1'' (default_context ''p'') RUNNING) None
       example_input [] = Inr (results', r) \<and>
     record_execution_result_input 2 ''x2'' (example_run ''r1'' (default_context ''p'') RUNNING) None
       (example_input\<lparr>ri_verdict := ''error''\<rparr>) results' = Inr (results', r)"
proof -
  let ?run = "example_run ''r1'' (default_context ''p'') RUNNING"
  have ok: "validate_result_input example_input = Inr ()"
    "validate_result_input (example_input\<lparr>ri_verdict := ''error''\<rparr>) = Inr ()"
    by (code_simp, code_simp)
  obtain results' r where e: "record_execution_result_input 1 ''x1'' ?run None example_input [] = Inr (results', r)"
    using ok(1) by (cases "record_execution_result_input 1 ''x1'' ?run None example_input []")
      (auto simp: record_execution_result_input_def split: option.splits)
  have "record_execution_result_input 2 ''x2'' ?run None (example_input\<lparr>ri_verdict := ''error''\<rparr>) results'
      = Inr (results', r)"
    using recording_is_idempotent [OF e, of "example_input\<lparr>ri_verdict := ''error''\<rparr>" 2 "''x2''" ?run None] ok
    by (simp add: results_ok_def example_input_def)
  with e show ?thesis by blast
qed

text \<open>a valid execution context never mixes identities: outside account mode it names no auth
  provider, no context reference and no pinned auth revision, an anonymous or matrix run names no
  account at all, an account run names environment, account and provider, and recipe auth pins
  profile, realm and adapter revisions.\<close>

theorem valid_context_binds_one_identity:
  assumes "validate_context c = Inr ()"
  shows "(cx_auth_mode c \<noteq> ''account'' \<longrightarrow> \<not> any_text (cx_auth_provider_id c # cx_auth_context_ref c # context_version_refs c)) \<and>
    (cx_auth_mode c \<in> {''anonymous'', ''matrix''} \<longrightarrow> cx_account_id c = []) \<and>
    (cx_auth_mode c = ''account'' \<longrightarrow> all_text [cx_env_id c, cx_account_id c, cx_auth_provider_id c]) \<and>
    (cx_auth_provider_id c = ''auth_recipe'' \<longrightarrow> cx_auth_mode c = ''account'' \<and> all_text (context_version_refs c))"
proof -
  have v: "valid_context c" using assms by (simp add: valid_context_def)
  have "cx_auth_provider_id c = ''auth_recipe'' \<longrightarrow> cx_auth_mode c = ''account''"
    using valid_context_non_account(1) [OF v] by (cases "cx_auth_mode c = ''account''") auto
  with valid_context_non_account [OF v] valid_context_no_account_id [OF v] valid_context_account [OF v]
    valid_context_recipe [OF v]
  show ?thesis by auto
qed

theorem valid_context_binds_one_identity_witness:
  "cx_account_id ((default_context ''p'')\<lparr>cx_auth_mode := ''matrix''\<rparr>) = []"
  using valid_context_binds_one_identity [of "(default_context ''p'')\<lparr>cx_auth_mode := ''matrix''\<rparr>"]
  by (simp add: default_context_def validate_context_def guards_ok_iff AUTH_MODES_def context_version_refs_def)

end
