(* ===== verification/UrlText.thy ===== *)
theory UrlText
  imports Prelude
begin

text \<open>
  What the services use of \<open>urllib.parse.urlsplit\<close>: the five parts and the host name, with the one
  error it raises (unbalanced brackets in the network location). Line breaks and tabs are removed
  first, as the library does; its leading-control-character strip is the same on URLs that start
  with a letter.
\<close>

definition before :: "char \<Rightarrow> string \<Rightarrow> string" where
  "before c s = takeWhile (\<lambda>x. x \<noteq> c) s"

definition after_first :: "char \<Rightarrow> string \<Rightarrow> string" where
  "after_first c s = tl (dropWhile (\<lambda>x. x \<noteq> c) s)"

text \<open>\<open>s.rpartition(c)[2]\<close>.\<close>

definition after_last :: "char \<Rightarrow> string \<Rightarrow> string" where
  "after_last c s = rev (before c (rev s))"

record split_url =
  url_scheme :: string
  url_netloc :: string
  url_path :: string
  url_query :: string
  url_fragment :: string

definition scheme_char :: "char \<Rightarrow> bool" where
  "scheme_char c = (let n = (of_char c :: nat) in
     (97 \<le> n \<and> n \<le> 122) \<or> (65 \<le> n \<and> n \<le> 90) \<or> (48 \<le> n \<and> n \<le> 57) \<or> n = 43 \<or> n = 45 \<or> n = 46)"

definition split_scheme :: "string \<Rightarrow> string \<times> string" where
  "split_scheme url = (let s = before (CHR '':'') url in
     if CHR '':'' \<in> set url \<and> s \<noteq> [] \<and> list_all scheme_char s
     then (py_lower s, after_first (CHR '':'') url) else ([], url))"

definition netloc_char :: "char \<Rightarrow> bool" where
  "netloc_char c \<longleftrightarrow> c \<noteq> CHR ''/'' \<and> c \<noteq> CHR ''?'' \<and> c \<noteq> CHR ''#''"

definition urlsplit :: "string \<Rightarrow> split_url result_of" where
  "urlsplit raw =
     (let url0 = filter (\<lambda>c. (of_char c :: nat) \<notin> {9, 10, 13}) raw;
          (scheme, rest) = split_scheme url0;
          has_netloc = (take 2 rest = ''//'');
          netloc = (if has_netloc then takeWhile netloc_char (drop 2 rest) else []);
          url1 = (if has_netloc then dropWhile netloc_char (drop 2 rest) else rest);
          fragment = after_first (CHR ''#'') url1;
          url2 = before (CHR ''#'') url1
      in if (CHR ''['' \<in> set netloc) \<noteq> (CHR '']'' \<in> set netloc)
         then Inl (ValueError ''Invalid IPv6 URL'')
         else Inr \<lparr>url_scheme = scheme, url_netloc = netloc, url_path = before (CHR ''?'') url2,
           url_query = after_first (CHR ''?'') url2, url_fragment = fragment\<rparr>)"

text \<open>\<open>urlsplit(url).hostname or ""\<close>.\<close>

definition netloc_hostname :: "string \<Rightarrow> string" where
  "netloc_hostname netloc =
     (let hostinfo = after_last (CHR ''@'') netloc;
          host = (if CHR ''['' \<in> set hostinfo
                  then before (CHR '']'') (after_first (CHR ''['') hostinfo)
                  else before (CHR '':'') hostinfo)
      in py_lower (before (CHR ''%'') host) @ dropWhile (\<lambda>c. c \<noteq> CHR ''%'') host)"

definition url_hostname :: "string \<Rightarrow> string result_of" where
  "url_hostname url = sbind (urlsplit url) (\<lambda>u. Inr (netloc_hostname (url_netloc u)))"

end
