(* ===== verification/BatchQueue.thy ===== *)
theory BatchQueue
  imports ExecutionContract UrlText
begin

text \<open>
  The first half of \<open>apiAnalysis/tool/execution_scheduler.py\<close>: the execution policy, the
  normalisation and validation of a requested batch, its idempotency key and \<open>enqueue_snapshot_batch\<close>,
  which persists the run and one checkpoint per snapshot.

  Parameters: \<open>parse\<close> is \<open>bson.ObjectId\<close> (\<open>None\<close> for \<open>InvalidId\<close>), \<open>digest\<close> is SHA-256 of the
  canonical JSON dump of the payload, \<open>new_id\<close> is the id MongoDB gives the inserted run and \<open>now\<close>
  is \<open>utcnow()\<close>. The look-up of the idempotency key and the insertion are two database calls, so
  \<open>enqueue_commit\<close> takes what the look-up saw: another enqueuer may have inserted in between.
\<close>

definition SAFE_METHODS :: "string list" where
  "SAFE_METHODS = [''GET'', ''HEAD'', ''OPTIONS'']"

definition is_safe_method :: "string \<Rightarrow> bool" where
  "is_safe_method m \<longleftrightarrow> py_upper m \<in> set SAFE_METHODS"

section \<open>\<open>ExecutionPolicy\<close>\<close>

record execution_policy =
  po_max_workers :: int
  po_per_host_workers :: int
  po_min_interval_ms :: int
  po_request_timeout_seconds :: int
  po_lease_seconds :: int
  po_transport_error_stop :: int
  po_rate_limit_stop :: int
  po_server_error_stop :: int
  po_max_dispatch_attempts :: int
  po_allow_mutation :: bool
  po_mutation_acknowledged :: bool

definition default_policy :: execution_policy where
  "default_policy = \<lparr>
     po_max_workers = 8, po_per_host_workers = 4, po_min_interval_ms = 25,
     po_request_timeout_seconds = 5, po_lease_seconds = 60, po_transport_error_stop = 2,
     po_rate_limit_stop = 3, po_server_error_stop = 3, po_max_dispatch_attempts = 3,
     po_allow_mutation = False, po_mutation_acknowledged = False\<rparr>"

definition outside :: "int \<Rightarrow> int \<Rightarrow> int \<Rightarrow> bool" where
  "outside lo hi v \<longleftrightarrow> \<not> (lo \<le> v \<and> v \<le> hi)"

definition policy_guards :: "execution_policy \<Rightarrow> guard list" where
  "policy_guards p = [
     (outside 1 64 (po_max_workers p), ValueError ''max_workers must be between 1 and 64''),
     (outside 1 (po_max_workers p) (po_per_host_workers p),
      ValueError ''per_host_workers must be between 1 and max_workers''),
     (outside 0 60000 (po_min_interval_ms p), ValueError ''min_interval_ms must be between 0 and 60000''),
     (outside 1 300 (po_request_timeout_seconds p),
      ValueError ''request_timeout_seconds must be between 1 and 300''),
     (outside 15 3600 (po_lease_seconds p), ValueError ''lease_seconds must be between 15 and 3600''),
     (outside 0 100 (po_transport_error_stop p),
      ValueError ''transport_error_stop must be between 0 and 100''),
     (outside 0 100 (po_rate_limit_stop p), ValueError ''rate_limit_stop must be between 0 and 100''),
     (outside 0 100 (po_server_error_stop p), ValueError ''server_error_stop must be between 0 and 100''),
     (outside 1 20 (po_max_dispatch_attempts p),
      ValueError ''max_dispatch_attempts must be between 1 and 20''),
     (po_allow_mutation p \<and> \<not> po_mutation_acknowledged p,
      ValueError ''mutation execution requires explicit acknowledgement'')]"

definition validate_policy :: "execution_policy \<Rightarrow> unit result_of" where
  "validate_policy p = guards (policy_guards p)"

definition policy_to_dict :: "execution_policy \<Rightarrow> json dict result_of" where
  "policy_to_dict p = sbind (validate_policy p) (\<lambda>_. Inr [
     (''max_workers'', JInt (po_max_workers p)),
     (''per_host_workers'', JInt (po_per_host_workers p)),
     (''min_interval_ms'', JInt (po_min_interval_ms p)),
     (''request_timeout_seconds'', JInt (po_request_timeout_seconds p)),
     (''lease_seconds'', JInt (po_lease_seconds p)),
     (''transport_error_stop'', JInt (po_transport_error_stop p)),
     (''rate_limit_stop'', JInt (po_rate_limit_stop p)),
     (''server_error_stop'', JInt (po_server_error_stop p)),
     (''max_dispatch_attempts'', JInt (po_max_dispatch_attempts p)),
     (''allow_mutation'', JBool (po_allow_mutation p)),
     (''mutation_acknowledged'', JBool (po_mutation_acknowledged p))])"

text \<open>
  \<open>ExecutionPolicy.from_dict\<close> on what \<open>to_dict\<close> stores: integers and booleans. A stored value of
  another type, which no writer of \<open>execution_policy\<close> produces, is an error of the model.
\<close>

definition stored_int :: "json dict \<Rightarrow> string \<Rightarrow> int \<Rightarrow> int result_of" where
  "stored_int d k dflt = (case map_of d k of
     None \<Rightarrow> Inr dflt
   | Some (JInt n) \<Rightarrow> Inr n
   | Some _ \<Rightarrow> Inl (TypeError ''execution_policy''))"

definition stored_bool :: "json dict \<Rightarrow> string \<Rightarrow> bool \<Rightarrow> bool result_of" where
  "stored_bool d k dflt = (case map_of d k of
     None \<Rightarrow> Inr dflt
   | Some (JBool b) \<Rightarrow> Inr b
   | Some _ \<Rightarrow> Inl (TypeError ''execution_policy''))"

definition policy_from_dict :: "json dict \<Rightarrow> execution_policy result_of" where
  "policy_from_dict d =
     sbind (stored_int d ''max_workers'' (po_max_workers default_policy)) (\<lambda>mw.
     sbind (stored_int d ''per_host_workers'' (po_per_host_workers default_policy)) (\<lambda>ph.
     sbind (stored_int d ''min_interval_ms'' (po_min_interval_ms default_policy)) (\<lambda>mi.
     sbind (stored_int d ''request_timeout_seconds'' (po_request_timeout_seconds default_policy)) (\<lambda>rt.
     sbind (stored_int d ''lease_seconds'' (po_lease_seconds default_policy)) (\<lambda>ls.
     sbind (stored_int d ''transport_error_stop'' (po_transport_error_stop default_policy)) (\<lambda>te.
     sbind (stored_int d ''rate_limit_stop'' (po_rate_limit_stop default_policy)) (\<lambda>rl.
     sbind (stored_int d ''server_error_stop'' (po_server_error_stop default_policy)) (\<lambda>se.
     sbind (stored_int d ''max_dispatch_attempts'' (po_max_dispatch_attempts default_policy)) (\<lambda>md.
     sbind (stored_bool d ''allow_mutation'' (po_allow_mutation default_policy)) (\<lambda>am.
     sbind (stored_bool d ''mutation_acknowledged'' (po_mutation_acknowledged default_policy)) (\<lambda>ma.
     let p = \<lparr>po_max_workers = mw, po_per_host_workers = ph, po_min_interval_ms = mi,
       po_request_timeout_seconds = rt, po_lease_seconds = ls, po_transport_error_stop = te,
       po_rate_limit_stop = rl, po_server_error_stop = se, po_max_dispatch_attempts = md,
       po_allow_mutation = am, po_mutation_acknowledged = ma\<rparr>
     in sbind (validate_policy p) (\<lambda>_. Inr p))))))))))))"

section \<open>Normalising and validating the batch\<close>

fun normalize_from :: "(string \<Rightarrow> oid option) \<Rightarrow> oid list \<Rightarrow> string list \<Rightarrow> oid list result_of" where
  "normalize_from parse seen [] = Inr []"
| "normalize_from parse seen (v # vs) = (case parse v of
     None \<Rightarrow> Inl (ValueError ''invalid snapshot id'')
   | Some oid \<Rightarrow>
       if oid \<in> set seen then normalize_from parse seen vs
       else sbind (normalize_from parse (oid # seen) vs) (\<lambda>ids. Inr (oid # ids)))"

definition normalize_snapshot_ids :: "(string \<Rightarrow> oid option) \<Rightarrow> string list \<Rightarrow> oid list result_of" where
  "normalize_snapshot_ids parse values = sbind (normalize_from parse [] values) (\<lambda>ids.
     if ids = [] then Inl (ValueError ''at least one snapshot id is required'') else Inr ids)"

definition idempotency_payload :: "execution_context \<Rightarrow> oid list \<Rightarrow> string \<Rightarrow> json dict \<Rightarrow> json" where
  "idempotency_payload c ids check_type policy = JObj [
     (''project_id'', JStr (cx_project_id c)),
     (''env_id'', JStr (cx_env_id c)),
     (''account_id'', JStr (cx_account_id c)),
     (''auth_mode'', JStr (cx_auth_mode c)),
     (''auth_provider_id'', JStr (cx_auth_provider_id c)),
     (''auth_context_ref'', JStr (cx_auth_context_ref c)),
     (''auth_profile_revision_id'', JStr (cx_auth_profile_revision_id c)),
     (''auth_realm_revision_id'', JStr (cx_auth_realm_revision_id c)),
     (''auth_adapter_version_id'', JStr (cx_auth_adapter_version_id c)),
     (''adapter_id'', JStr (cx_adapter_id c)),
     (''adapter_version'', JStr (cx_adapter_version c)),
     (''plan_version'', JStr (cx_plan_version c)),
     (''plan_sha256'', JStr (cx_plan_sha256 c)),
     (''check_type'', JStr check_type),
     (''snapshot_ids'', JList (map JStr (sort ids))),
     (''policy'', JObj policy)]"

definition build_idempotency_key :: "(json \<Rightarrow> string) \<Rightarrow> (string \<Rightarrow> oid option) \<Rightarrow> execution_context \<Rightarrow>
    string list \<Rightarrow> string \<Rightarrow> execution_policy \<Rightarrow> string result_of" where
  "build_idempotency_key digest parse c snapshot_ids check_type policy =
     sbind (validate_context c) (\<lambda>_.
     sbind (normalize_snapshot_ids parse snapshot_ids) (\<lambda>ids.
     sbind (policy_to_dict policy) (\<lambda>pd.
     Inr (digest (idempotency_payload c ids check_type pd)))))"

definition snapshot_host :: "request_snapshot \<Rightarrow> string result_of" where
  "snapshot_host s = (if sn_domain s \<noteq> [] then Inr (py_lower (sn_domain s))
     else sbind (url_hostname (sn_url s)) (\<lambda>h. Inr (py_lower (str_or h ''<unknown>''))))"

definition binding_ok :: "string \<Rightarrow> string \<Rightarrow> bool" where
  "binding_ok expected actual \<longleftrightarrow> expected = [] \<or> actual = [] \<or> actual = expected"

definition account_bindings :: "execution_context \<Rightarrow> (string \<times> (request_snapshot \<Rightarrow> string)) list" where
  "account_bindings c = [
     (cx_account_id c, sn_account_id),
     (cx_auth_provider_id c, sn_auth_provider_id),
     (str_or (cx_auth_context_ref c) (cx_account_id c), sn_auth_context_ref),
     (cx_auth_profile_revision_id c, sn_auth_profile_revision_id),
     (cx_auth_realm_revision_id c, sn_auth_realm_revision_id),
     (cx_auth_adapter_version_id c, sn_auth_adapter_version_id)]"

definition generic_adapters :: "string set" where
  "generic_adapters = {''snapshot_batch'', ''authenticated_snapshot_batch''}"

definition load_and_validate_snapshots :: "request_snapshot list \<Rightarrow> oid list \<Rightarrow> execution_context \<Rightarrow>
    execution_policy \<Rightarrow> request_snapshot list result_of" where
  "load_and_validate_snapshots stored ids c p =
     (let by_id = (\<lambda>i. coll_get sn_id i stored);
          ordered = List.map_filter by_id ids;
          unsafe = filter (\<lambda>s. \<not> is_safe_method (sn_method s)) ordered
      in sbind (guards [
        (list_ex (\<lambda>i. by_id i = None) ids, ValueError ''snapshot ids not found''),
        (list_ex (\<lambda>s. sn_project_id s \<noteq> cx_project_id c) ordered,
         ValueError ''snapshot project does not match execution context''),
        (cx_env_id c \<noteq> [] \<and> list_ex (\<lambda>s. sn_env_id s \<noteq> [] \<and> sn_env_id s \<noteq> cx_env_id c) ordered,
         ValueError ''snapshot environment does not match execution context''),
        (cx_auth_mode c = ''account'' \<and>
           list_ex (\<lambda>(expected, field). list_ex (\<lambda>s. \<not> binding_ok expected (field s)) ordered)
             (account_bindings c),
         ValueError ''snapshot account binding does not match execution context''),
        (unsafe \<noteq> [] \<and> \<not> po_allow_mutation p,
         ValueError ''mutation snapshots require an explicitly acknowledged policy''),
        (unsafe \<noteq> [] \<and> cx_adapter_id c \<in> generic_adapters \<and> po_max_dispatch_attempts p \<noteq> 1,
         ValueError ''generic mutation batches require max_dispatch_attempts=1'')])
        (\<lambda>_. Inr ordered))"

section \<open>Persisting the run\<close>

definition new_checkpoint :: "time \<Rightarrow> security_test_run \<Rightarrow> nat \<Rightarrow> request_snapshot \<Rightarrow> string \<Rightarrow>
    security_execution_checkpoint" where
  "new_checkpoint now run ordinal s host = \<lparr>
     cp_run_id = run_id run, cp_snapshot_id = sn_id s,
     cp_project_id = cx_project_id (run_ctx run), cp_env_id = cx_env_id (run_ctx run),
     cp_pathid = sn_pathid s, cp_ordinal = ordinal, cp_host = host,
     cp_status = CP_PENDING, cp_attempt_count = 0, cp_lease_token = None, cp_result_id = None,
     cp_reason_codes = [], cp_outcome_summary = [], cp_error_type = [], cp_started_at = None,
     cp_finished_at = None, cp_updated_at = now, cp_expires_at = run_expires_at run\<rparr>"

definition ensure_checkpoints :: "time \<Rightarrow> security_test_run \<Rightarrow> request_snapshot list \<Rightarrow>
    security_execution_checkpoint list \<Rightarrow> security_execution_checkpoint list result_of" where
  "ensure_checkpoints now run snapshots cps =
     sbind (smap snapshot_host snapshots) (\<lambda>hosts.
     Inr (coll_add_all cp_key
       (map (\<lambda>(i, s, h). new_checkpoint now run i s h) (zip [0..<length snapshots] (zip snapshots hosts)))
       cps))"

text \<open>\<open>lpush\<close> and \<open>ltrim 0 9999\<close>; when Redis is unreachable nothing happens.\<close>

definition signal_execution_queue :: "oid \<Rightarrow> oid list option \<Rightarrow> oid list option \<times> bool" where
  "signal_execution_queue rid wakeup = (case wakeup of
     None \<Rightarrow> (None, False)
   | Some q \<Rightarrow> (Some (take 10000 (rid # q)), True))"

definition zero_counts :: case_counts where
  "zero_counts = \<lparr>pending_cases = 0, running_cases = 0, completed_cases = 0, failed_cases = 0,
     skipped_cases = 0, cancelled_cases = 0\<rparr>"

record enqueue_request =
  eq_name :: string
  eq_check_type :: string
  eq_context :: execution_context
  eq_snapshot_ids :: "string list"
  eq_policy :: execution_policy
  eq_scope :: "json dict"
  eq_evidence_ref :: string
  eq_operator :: string
  eq_priority :: int
  eq_queue_name :: string
  eq_idempotency_key :: string

definition new_run :: "time \<Rightarrow> oid \<Rightarrow> enqueue_request \<Rightarrow> string \<Rightarrow> oid list \<Rightarrow> json dict \<Rightarrow> security_test_run" where
  "new_run now new_id req key ids policy_dict = \<lparr>
     run_id = new_id, run_name = eq_name req, run_contract_version = EXECUTION_CONTRACT_VERSION,
     run_ctx = eq_context req, run_check_type = eq_check_type req,
     run_scope = dict_set ''snapshot_count'' (JInt (int (length ids))) (eq_scope req),
     run_source = ''execution_scheduler'', run_status = PREPARING, run_summary = [],
     run_evidence_ref = eq_evidence_ref req, run_scheduler_managed = True,
     run_idempotency_key = Some key, run_queue_name = eq_queue_name req,
     run_priority = eq_priority req, run_snapshot_ids = ids, run_execution_policy = policy_dict,
     run_total_cases = length ids, run_counts = zero_counts\<lparr>pending_cases := length ids\<rparr>,
     run_dispatch_attempt = 0, run_max_dispatch_attempts = po_max_dispatch_attempts (eq_policy req),
     run_lease_owner = None, run_lease_token = None, run_lease_expires_at = None,
     run_heartbeat_at = None, run_queued_at = None, run_updated_at = now, run_started_at = None,
     run_finished_at = None, run_cancel_reason = [], run_last_error_type = None,
     run_pause_code = None, run_dependency_type = None, run_dependency_id = None,
     run_dependency_revision_id = None, run_host_state = [], run_auth_context_summary = [],
     run_operator = eq_operator req, run_expires_at = None\<rparr>"

definition run_with_key :: "string \<Rightarrow> security_test_run list \<Rightarrow> security_test_run option" where
  "run_with_key key runs = find (\<lambda>r. run_idempotency_key r = Some key) runs"

definition mark_queued :: "time \<Rightarrow> nat \<Rightarrow> security_test_run \<Rightarrow> security_test_run" where
  "mark_queued now pending r = r\<lparr>run_status := QUEUED, run_queued_at := Some now, run_updated_at := now,
     run_counts := (run_counts r)\<lparr>pending_cases := pending\<rparr>\<rparr>"

text \<open>
  Which run the batch becomes: the one the look-up saw, the one another enqueuer inserted in
  between (\<open>NotUniqueError\<close>), or a new one; with the run collection and whether it was created.
\<close>

definition commit_target :: "time \<Rightarrow> oid \<Rightarrow> enqueue_request \<Rightarrow> string \<Rightarrow> oid list \<Rightarrow> json dict \<Rightarrow>
    security_test_run option \<Rightarrow> security_test_run list \<Rightarrow> security_test_run list \<times> security_test_run \<times> bool" where
  "commit_target now new_id req key ids pd seen runs =
     (case seen of Some r \<Rightarrow> (runs, r, False)
      | None \<Rightarrow> (case run_with_key key runs of
          Some r \<Rightarrow> (runs, r, False)
        | None \<Rightarrow> (runs @ [new_run now new_id req key ids pd], new_run now new_id req key ids pd, True)))"

definition enqueue_commit :: "time \<Rightarrow> oid \<Rightarrow> enqueue_request \<Rightarrow> string \<Rightarrow> oid list \<Rightarrow> json dict \<Rightarrow>
    request_snapshot list \<Rightarrow> security_test_run option \<Rightarrow> db \<Rightarrow> (db \<times> security_test_run \<times> bool) result_of" where
  "enqueue_commit now new_id req key ids policy_dict snapshots seen s =
     (case commit_target now new_id req key ids policy_dict seen (db_runs s) of (runs, run, created) \<Rightarrow>
      if run_status run \<noteq> PREPARING then Inr (s\<lparr>db_runs := runs\<rparr>, run, created)
      else sbind (ensure_checkpoints now run snapshots (db_checkpoints s)) (\<lambda>cps.
        let runs' = coll_cas run_id (run_id run) (\<lambda>r. run_status r = PREPARING)
              (mark_queued now (length ids)) runs;
            reloaded = (case coll_get run_id (run_id run) runs' of Some r \<Rightarrow> r | None \<Rightarrow> run)
        in Inr (s\<lparr>db_runs := runs', db_checkpoints := cps,
             db_wakeup := fst (signal_execution_queue (run_id run) (db_wakeup s))\<rparr>, reloaded, created)))"

definition enqueue_snapshot_batch :: "(json \<Rightarrow> string) \<Rightarrow> (string \<Rightarrow> oid option) \<Rightarrow> time \<Rightarrow> oid \<Rightarrow>
    enqueue_request \<Rightarrow> db \<Rightarrow> (db \<times> security_test_run \<times> bool) result_of" where
  "enqueue_snapshot_batch digest parse now new_id req s =
     (let c = eq_context req; p = eq_policy req in
      sbind (validate_context c) (\<lambda>_.
      sbind (validate_policy p) (\<lambda>_.
      sbind (normalize_snapshot_ids parse (eq_snapshot_ids req)) (\<lambda>ids.
      sbind (load_and_validate_snapshots (db_snapshots s) ids c p) (\<lambda>snapshots.
      sbind (if eq_idempotency_key req \<noteq> [] then Inr (eq_idempotency_key req)
             else build_idempotency_key digest Some c ids (eq_check_type req) p) (\<lambda>key.
      let existing = run_with_key key (db_runs s) in
      if (case existing of Some r \<Rightarrow> set (run_snapshot_ids r) \<noteq> set ids | None \<Rightarrow> False)
      then Inl (ValueError ''idempotency_key already used with different snapshot_ids'')
      else (case existing of
          Some r \<Rightarrow> if run_status r \<noteq> PREPARING then Inr (s, r, False)
            else sbind (policy_to_dict p) (\<lambda>pd. enqueue_commit now new_id req key ids pd snapshots existing s)
        | None \<Rightarrow> sbind (policy_to_dict p) (\<lambda>pd.
            enqueue_commit now new_id req key ids pd snapshots None s))))))))"

section \<open>Facts: the policy and the normalised ids\<close>

lemma stored_simps [simp]:
  "map_of d k = Some (JInt n) \<Longrightarrow> stored_int d k n' = Inr n"
  "map_of d k = Some (JBool b) \<Longrightarrow> stored_bool d k b' = Inr b"
  by (simp_all add: stored_int_def stored_bool_def)

lemma policy_stored_roundtrip:
  assumes "policy_to_dict p = Inr d"
  shows "policy_from_dict d = Inr p"
proof -
  from assms have ok: "validate_policy p = Inr ()"
    by (auto simp: policy_to_dict_def sbind_Inr_iff)
  with assms have d: "d = sum.projr (policy_to_dict p)" by simp
  show ?thesis
    using ok by (cases p) (simp add: d policy_to_dict_def policy_from_dict_def cong: sbind_weak_cong)
qed

lemma normalize_from_set:
  "normalize_from parse seen vs = Inr ids \<Longrightarrow>
     (\<forall>v \<in> set vs. parse v \<noteq> None) \<and> distinct ids \<and> set ids = (the \<circ> parse) ` set vs - set seen"
proof (induction parse seen vs arbitrary: ids rule: normalize_from.induct)
  case (2 parse seen v vs)
  from "2.prems" obtain oid where v: "parse v = Some oid" by (auto split: option.splits)
  show ?case
  proof (cases "oid \<in> set seen")
    case True
    with v "2.prems" have "normalize_from parse seen vs = Inr ids" by simp
    from "2.IH"(1) [OF v True this] v True show ?thesis by auto
  next
    case False
    with v "2.prems" obtain ids' where r: "normalize_from parse (oid # seen) vs = Inr ids'"
      and ids: "ids = oid # ids'" by (auto simp: sbind_Inr_iff)
    from "2.IH"(2) [OF v False r] v False ids show ?thesis by auto
  qed
qed simp

lemma normalize_from_error:
  "normalize_from parse seen vs = Inl e \<longleftrightarrow>
     e = ValueError ''invalid snapshot id'' \<and> (\<exists>v \<in> set vs. parse v = None)"
  by (induction parse seen vs rule: normalize_from.induct)
    (auto simp: sbind_Inl_iff split: option.splits)

lemma normalize_ids_ok:
  assumes "normalize_snapshot_ids parse vs = Inr ids"
  shows "distinct ids" "ids \<noteq> []" "set ids = (the \<circ> parse) ` set vs"
  using assms normalize_from_set [of parse "[]" vs]
  by (auto simp: normalize_snapshot_ids_def sbind_Inr_iff split: if_splits)

lemma normalize_same_set:
  assumes "set vs = set ws"
  shows "(\<exists>e. normalize_snapshot_ids parse vs = Inl e \<and> normalize_snapshot_ids parse ws = Inl e) \<or>
    (\<exists>ids ids'. normalize_snapshot_ids parse vs = Inr ids \<and> normalize_snapshot_ids parse ws = Inr ids' \<and>
       sort ids = sort ids')"
proof (cases "\<exists>v \<in> set vs. parse v = None")
  case True
  then have "normalize_from parse [] xs = Inl (ValueError ''invalid snapshot id'')"
    if "set xs = set vs" for xs
    using that by (simp add: normalize_from_error)
  with assms show ?thesis by (simp add: normalize_snapshot_ids_def)
next
  case False
  have ok: "\<exists>ids. normalize_from parse [] xs = Inr ids" if "set xs = set vs" for xs
    using that False by (cases "normalize_from parse [] xs") (auto simp: normalize_from_error)
  obtain ids ids' where n: "normalize_from parse [] vs = Inr ids" "normalize_from parse [] ws = Inr ids'"
    using ok [of vs] ok [of ws] assms by auto
  from normalize_from_set [OF n(1)] normalize_from_set [OF n(2)] assms
  have "set ids = set ids'" "distinct ids" "distinct ids'" by simp_all
  then have "sort ids = sort ids'" "ids = [] \<longleftrightarrow> ids' = []"
    by (auto intro: sorted_distinct_set_unique)
  with n show ?thesis by (auto simp: normalize_snapshot_ids_def)
qed

lemma key_of_same_set:
  assumes "set vs = set ws"
  shows "build_idempotency_key digest parse c vs ct p = build_idempotency_key digest parse c ws ct p"
  using normalize_same_set [OF assms, of parse]
  by (auto simp: build_idempotency_key_def idempotency_payload_def)

section \<open>Facts: the loaded snapshots\<close>

lemma map_filter_all: "list_all (\<lambda>i. f i \<noteq> None) xs \<Longrightarrow> List.map_filter f xs = map (the \<circ> f) xs"
  by (induction xs) (auto simp: List.map_filter_simps)

lemma load_ok:
  assumes "load_and_validate_snapshots stored ids c p = Inr ss"
  shows "map sn_id ss = ids" "set ss \<subseteq> set stored"
    and "s \<in> set ss \<Longrightarrow> sn_project_id s = cx_project_id c"
    and "s \<in> set ss \<Longrightarrow> \<not> is_safe_method (sn_method s) \<Longrightarrow> po_allow_mutation p \<and>
      (cx_adapter_id c \<in> generic_adapters \<longrightarrow> po_max_dispatch_attempts p = 1)"
    and "s \<in> set ss \<Longrightarrow> cx_auth_mode c = ''account'' \<Longrightarrow> list_all (\<lambda>(e, f). binding_ok e (f s)) (account_bindings c)"
proof -
  define by_id where "by_id = (\<lambda>i. coll_get sn_id i stored)"
  define ordered where "ordered = List.map_filter by_id ids"
  note g = assms [unfolded load_and_validate_snapshots_def Let_def sbind_Inr_iff guards_ok_iff,
      folded by_id_def, folded ordered_def, unfolded list.pred_inject fst_conv]
  from g have ss: "ss = ordered" by (elim exE conjE) simp
  from g have "\<not> list_ex (\<lambda>i. by_id i = None) ids" by (elim exE conjE) (simp add: by_id_def)
  then have found: "list_all (\<lambda>i. by_id i \<noteq> None) ids" by (simp add: list_all_iff list_ex_iff)
  from g have project: "\<not> list_ex (\<lambda>s. sn_project_id s \<noteq> cx_project_id c) ordered" by (elim exE conjE)
  from g have account: "\<not> (cx_auth_mode c = ''account'' \<and>
      list_ex (\<lambda>(e, f). list_ex (\<lambda>s. \<not> binding_ok e (f s)) ordered) (account_bindings c))"
    by (elim exE conjE)
  from g have unsafe: "filter (\<lambda>s. \<not> is_safe_method (sn_method s)) ordered \<noteq> [] \<longrightarrow> po_allow_mutation p \<and>
      (cx_adapter_id c \<in> generic_adapters \<longrightarrow> po_max_dispatch_attempts p = 1)"
    by (elim exE conjE) blast
  from found have ord: "ordered = map (the \<circ> by_id) ids"
    by (simp add: ordered_def map_filter_all)
  have hit: "the (by_id i) \<in> set stored \<and> sn_id (the (by_id i)) = i" if "i \<in> set ids" for i
  proof -
    from that found obtain y where "by_id i = Some y" by (auto simp: list_all_iff)
    then show ?thesis using coll_get_Some [of sn_id i stored y] by (simp add: by_id_def)
  qed
  show "map sn_id ss = ids"
    using hit by (auto simp: ss ord intro: map_idI)
  show "set ss \<subseteq> set stored"
    using hit by (auto simp: ss ord)
  show "sn_project_id s = cx_project_id c" if "s \<in> set ss"
    using project that by (auto simp: ss list_ex_iff)
  show "po_allow_mutation p \<and> (cx_adapter_id c \<in> generic_adapters \<longrightarrow> po_max_dispatch_attempts p = 1)"
    if "s \<in> set ss" "\<not> is_safe_method (sn_method s)"
    using unsafe that by (auto simp: ss filter_empty_conv)
  show "list_all (\<lambda>(e, f). binding_ok e (f s)) (account_bindings c)"
    if "s \<in> set ss" "cx_auth_mode c = ''account''"
    using account that by (auto simp: ss list_ex_iff list_all_iff)
qed

section \<open>Facts: committing a batch\<close>

definition batch_checkpoints :: "time \<Rightarrow> security_test_run \<Rightarrow> request_snapshot list \<Rightarrow> string list \<Rightarrow>
    security_execution_checkpoint list" where
  "batch_checkpoints now run ss hosts =
     map (\<lambda>(i, s, h). new_checkpoint now run i s h) (zip [0..<length ss] (zip ss hosts))"

lemma ensure_eq:
  "ensure_checkpoints now run ss cps = Inr cps' \<longleftrightarrow>
     (\<exists>hosts. smap snapshot_host ss = Inr hosts \<and>
        cps' = coll_add_all cp_key (batch_checkpoints now run ss hosts) cps)"
  by (auto simp: ensure_checkpoints_def sbind_Inr_iff batch_checkpoints_def)

lemma batch_checkpoints_key:
  assumes "length hosts = length ss"
  shows "map cp_key (batch_checkpoints now run ss hosts) = map (\<lambda>s. (run_id run, sn_id s)) ss"
  using assms by (intro nth_equalityI) (auto simp: batch_checkpoints_def new_checkpoint_def cp_key_def)

lemma batch_checkpoints_fields:
  assumes "length hosts = length ss"
  shows "map (\<lambda>cp. (cp_snapshot_id cp, cp_ordinal cp, cp_status cp)) (batch_checkpoints now run ss hosts) =
     map (\<lambda>(i, s). (sn_id s, i, CP_PENDING)) (enumerate 0 ss)"
  using assms
  by (intro nth_equalityI) (auto simp: batch_checkpoints_def new_checkpoint_def nth_enumerate_eq)

lemma batch_checkpoints_run: "cp \<in> set (batch_checkpoints now run ss hosts) \<Longrightarrow> cp_run_id cp = run_id run"
  by (auto simp: batch_checkpoints_def new_checkpoint_def)

lemma ensure_fresh:
  assumes "ensure_checkpoints now run ss cps = Inr cps'" "distinct (map sn_id ss)"
    and "run_id run \<notin> cp_run_id ` set cps"
  obtains hosts where "length hosts = length ss" "cps' = cps @ batch_checkpoints now run ss hosts"
proof -
  from assms(1) obtain hosts where hosts: "smap snapshot_host ss = Inr hosts"
    and c: "cps' = coll_add_all cp_key (batch_checkpoints now run ss hosts) cps"
    by (auto simp: ensure_eq)
  from hosts have len: "length hosts = length ss" by (rule smap_Inr_length)
  from assms(2) have "distinct (map cp_key (batch_checkpoints now run ss hosts))"
    by (simp only: batch_checkpoints_key [OF len]) (simp add: distinct_map inj_on_def)
  moreover have "cp_key ` set (batch_checkpoints now run ss hosts) \<inter> cp_key ` set cps = {}"
    using assms(3) by (auto simp: cp_key_def dest!: batch_checkpoints_run) (metis imageI)
  ultimately show thesis using that len c by (simp add: coll_add_all_fresh)
qed

definition run_keys_ok :: "security_test_run list \<Rightarrow> bool" where
  "run_keys_ok runs \<longleftrightarrow> distinct (filter (\<lambda>k. k \<noteq> None) (map run_idempotency_key runs))"

lemma run_with_key_Some: "run_with_key key runs = Some r \<Longrightarrow> r \<in> set runs \<and> run_idempotency_key r = Some key"
  by (auto simp: run_with_key_def dest: find_Some_in)

lemma run_with_key_None: "run_with_key key runs = None \<longleftrightarrow> Some key \<notin> run_idempotency_key ` set runs"
  by (auto simp: run_with_key_def find_None_iff image_iff)

lemma mark_queued_simps [simp]:
  "run_id (mark_queued now n r) = run_id r" "run_status (mark_queued now n r) = QUEUED"
  "run_idempotency_key (mark_queued now n r) = run_idempotency_key r"
  "run_snapshot_ids (mark_queued now n r) = run_snapshot_ids r"
  "run_ctx (mark_queued now n r) = run_ctx r"
  by (simp_all add: mark_queued_def)

lemma new_run_simps [simp]:
  "run_id (new_run now i req key ids pd) = i" "run_status (new_run now i req key ids pd) = PREPARING"
  "run_idempotency_key (new_run now i req key ids pd) = Some key"
  "run_snapshot_ids (new_run now i req key ids pd) = ids"
  "run_ctx (new_run now i req key ids pd) = eq_context req"
  by (simp_all add: new_run_def)

lemma commit_target_keys:
  assumes "commit_target now i req key ids pd seen runs = (runs', r, b)" "run_keys_ok runs"
  shows "run_keys_ok runs'"
  using assms
  by (auto simp: commit_target_def run_keys_ok_def run_with_key_None split: option.splits)

lemma commit_shape:
  assumes "enqueue_commit now new_id req key ids pd ss seen s = Inr (s', run, created)"
  obtains runs r where "commit_target now new_id req key ids pd seen (db_runs s) = (runs, r, created)"
    and "db_snapshots s' = db_snapshots s" "db_results s' = db_results s"
    and "run_status r \<noteq> PREPARING \<Longrightarrow> s' = s\<lparr>db_runs := runs\<rparr> \<and> run = r"
    and "run_status r = PREPARING \<Longrightarrow>
      db_runs s' = coll_cas run_id (run_id r) (\<lambda>r. run_status r = PREPARING) (mark_queued now (length ids)) runs
      \<and> ensure_checkpoints now r ss (db_checkpoints s) = Inr (db_checkpoints s')
      \<and> run = (case coll_get run_id (run_id r) (db_runs s') of Some q \<Rightarrow> q | None \<Rightarrow> r)"
proof -
  obtain runs r b where t: "commit_target now new_id req key ids pd seen (db_runs s) = (runs, r, b)"
    by (cases "commit_target now new_id req key ids pd seen (db_runs s)") auto
  note a = assms [unfolded enqueue_commit_def t Let_def prod.case]
  show thesis
  proof (cases "run_status r = PREPARING")
    case True
    with a show ?thesis by (intro that [of runs r]) (auto simp: sbind_Inr_iff t)
  next
    case False
    with a show ?thesis by (intro that [of runs r]) (auto simp: t)
  qed
qed

text \<open>The guards of \<open>enqueue_snapshot_batch\<close>, and the commit it hands over to.\<close>

lemma enqueue_shape:
  assumes "enqueue_snapshot_batch digest parse now new_id req s = Inr (s', run, created)"
  obtains ids ss key pd where
    "validate_context (eq_context req) = Inr ()" "validate_policy (eq_policy req) = Inr ()"
    "normalize_snapshot_ids parse (eq_snapshot_ids req) = Inr ids"
    "load_and_validate_snapshots (db_snapshots s) ids (eq_context req) (eq_policy req) = Inr ss"
    "(if eq_idempotency_key req \<noteq> [] then Inr (eq_idempotency_key req)
      else build_idempotency_key digest Some (eq_context req) ids (eq_check_type req) (eq_policy req)) = Inr key"
    "policy_to_dict (eq_policy req) = Inr pd"
    "\<And>r. run_with_key key (db_runs s) = Some r \<Longrightarrow> set (run_snapshot_ids r) = set ids"
    "case run_with_key key (db_runs s) of
       Some r \<Rightarrow> if run_status r \<noteq> PREPARING then s' = s \<and> run = r \<and> \<not> created
         else enqueue_commit now new_id req key ids pd ss (Some r) s = Inr (s', run, created)
     | None \<Rightarrow> enqueue_commit now new_id req key ids pd ss None s = Inr (s', run, created)"
proof -
  from assms obtain ids ss key where
    c: "validate_context (eq_context req) = Inr ()" and p: "validate_policy (eq_policy req) = Inr ()"
    and i: "normalize_snapshot_ids parse (eq_snapshot_ids req) = Inr ids"
    and l: "load_and_validate_snapshots (db_snapshots s) ids (eq_context req) (eq_policy req) = Inr ss"
    and k: "(if eq_idempotency_key req \<noteq> [] then Inr (eq_idempotency_key req)
      else build_idempotency_key digest Some (eq_context req) ids (eq_check_type req) (eq_policy req)) = Inr key"
    unfolding enqueue_snapshot_batch_def Let_def sbind_Inr_iff by (elim exE conjE) simp
  from p obtain pd where d: "policy_to_dict (eq_policy req) = Inr pd"
    by (simp add: policy_to_dict_def)
  note body = assms [unfolded enqueue_snapshot_batch_def Let_def c p i l k d sbind_Inr]
  show thesis
  proof (cases "run_with_key key (db_runs s)")
    case None
    with body show ?thesis by (intro that [OF c p i l k d]) simp_all
  next
    case (Some r)
    then show ?thesis using body
      by (intro that [OF c p i l k d]) (simp_all split: if_splits)
  qed
qed

lemma commit_found:
  "enqueue_commit now new_id req key ids pd ss (Some r) s = Inr (s', run, created) \<Longrightarrow> \<not> created"
  by (erule commit_shape) (simp add: commit_target_def)

text \<open>A created run: its batch was accepted, and nothing else in the store was touched.\<close>

lemma created_shape:
  assumes "enqueue_snapshot_batch digest parse now new_id req s = Inr (s', run, True)"
    and "new_id \<notin> run_id ` set (db_runs s)" "new_id \<notin> cp_run_id ` set (db_checkpoints s)"
  obtains ids ss key pd hosts where
    "normalize_snapshot_ids parse (eq_snapshot_ids req) = Inr ids"
    "load_and_validate_snapshots (db_snapshots s) ids (eq_context req) (eq_policy req) = Inr ss"
    "length hosts = length ss"
    "run = mark_queued now (length ids) (new_run now new_id req key ids pd)"
    "policy_to_dict (eq_policy req) = Inr pd"
    "db_runs s' = db_runs s @ [run]"
    "db_checkpoints s' = db_checkpoints s @ batch_checkpoints now (new_run now new_id req key ids pd) ss hosts"
    "db_snapshots s' = db_snapshots s"
proof -
  obtain ids ss key pd where i: "normalize_snapshot_ids parse (eq_snapshot_ids req) = Inr ids"
    and l: "load_and_validate_snapshots (db_snapshots s) ids (eq_context req) (eq_policy req) = Inr ss"
    and d: "policy_to_dict (eq_policy req) = Inr pd"
    and c: "case run_with_key key (db_runs s) of
       Some r \<Rightarrow> if run_status r \<noteq> PREPARING then s' = s \<and> run = r \<and> \<not> True
         else enqueue_commit now new_id req key ids pd ss (Some r) s = Inr (s', run, True)
     | None \<Rightarrow> enqueue_commit now new_id req key ids pd ss None s = Inr (s', run, True)"
    by (rule enqueue_shape [OF assms(1)]) blast
  let ?n = "new_run now new_id req key ids pd"
  from c have none: "run_with_key key (db_runs s) = None"
    and cm: "enqueue_commit now new_id req key ids pd ss None s = Inr (s', run, True)"
    by (auto dest: commit_found split: option.splits if_splits)
  from none have t: "commit_target now new_id req key ids pd None (db_runs s) = (db_runs s @ [?n], ?n, True)"
    by (simp add: commit_target_def)
  obtain runs r where sh: "commit_target now new_id req key ids pd None (db_runs s) = (runs, r, True)"
    and snaps: "db_snapshots s' = db_snapshots s"
    and prep: "run_status r = PREPARING \<Longrightarrow>
      db_runs s' = coll_cas run_id (run_id r) (\<lambda>r. run_status r = PREPARING) (mark_queued now (length ids)) runs
      \<and> ensure_checkpoints now r ss (db_checkpoints s) = Inr (db_checkpoints s')
      \<and> run = (case coll_get run_id (run_id r) (db_runs s') of Some q \<Rightarrow> q | None \<Rightarrow> r)"
    by (rule commit_shape [OF cm]) blast
  from sh t have rr: "r = ?n" "runs = db_runs s @ [?n]" by auto
  have off: "update_where (\<lambda>d. run_id d = new_id \<and> run_status d = PREPARING) (mark_queued now (length ids)) (db_runs s)
      = db_runs s"
    using assms(2) by (intro update_where_none) (auto simp: exists_where_iff)
  have runs': "db_runs s' = db_runs s @ [mark_queued now (length ids) ?n]"
    using prep off by (simp add: rr coll_cas_def) (simp add: update_where_def)
  have "coll_get run_id new_id (db_runs s') = Some (mark_queued now (length ids) ?n)"
    using assms(2)
    by (simp add: runs' coll_get_append coll_get_Cons coll_get_None split: option.splits)
      (metis coll_get_None option.distinct(1))
  with prep have run: "run = mark_queued now (length ids) ?n" by (simp add: rr)
  from load_ok(1) [OF l] normalize_ids_ok(1) [OF i] have "distinct (map sn_id ss)" by simp
  moreover have "ensure_checkpoints now ?n ss (db_checkpoints s) = Inr (db_checkpoints s')"
    using prep by (simp add: rr)
  ultimately obtain hosts where "length hosts = length ss"
    "db_checkpoints s' = db_checkpoints s @ batch_checkpoints now ?n ss hosts"
    using ensure_fresh [of now ?n ss "db_checkpoints s" "db_checkpoints s'"] assms(3) by auto
  with i l d run runs' snaps show thesis by (intro that [of ids ss hosts key pd]) simp_all
qed

lemma run_with_key_cas:
  "run_with_key key (coll_cas run_id i g (mark_queued now n) runs) =
     map_option (\<lambda>r. if run_id r = i \<and> g r then mark_queued now n r else r) (run_with_key key runs)"
  unfolding run_with_key_def coll_cas_def by (induction runs) auto

lemma commit_result:
  assumes "enqueue_commit now new_id req key ids pd ss (run_with_key key (db_runs s)) s = Inr (s', run, created)"
    and "coll_ok run_id (db_runs s)" "new_id \<notin> run_id ` set (db_runs s)"
  shows "run_with_key key (db_runs s') = Some run" "run_status run \<noteq> PREPARING"
    "run_snapshot_ids run = (case run_with_key key (db_runs s) of Some r \<Rightarrow> run_snapshot_ids r | None \<Rightarrow> ids)"
proof -
  obtain runs r where t: "commit_target now new_id req key ids pd (run_with_key key (db_runs s)) (db_runs s)
      = (runs, r, created)"
    and np: "run_status r \<noteq> PREPARING \<Longrightarrow> s' = s\<lparr>db_runs := runs\<rparr> \<and> run = r"
    and p: "run_status r = PREPARING \<Longrightarrow>
      db_runs s' = coll_cas run_id (run_id r) (\<lambda>r. run_status r = PREPARING) (mark_queued now (length ids)) runs
      \<and> ensure_checkpoints now r ss (db_checkpoints s) = Inr (db_checkpoints s')
      \<and> run = (case coll_get run_id (run_id r) (db_runs s') of Some q \<Rightarrow> q | None \<Rightarrow> r)"
    by (rule commit_shape [OF assms(1)]) blast
  have key: "run_with_key key runs = Some r" and ok: "coll_ok run_id runs"
    and snaps: "run_snapshot_ids r = (case run_with_key key (db_runs s) of Some r \<Rightarrow> run_snapshot_ids r | None \<Rightarrow> ids)"
    using t assms(2,3)
    by (auto simp: commit_target_def run_with_key_def coll_ok_def find_None_iff split: option.splits)
      (auto simp: find_Some_iff nth_append split: if_splits)
  show "run_with_key key (db_runs s') = Some run" "run_status run \<noteq> PREPARING"
    "run_snapshot_ids run = (case run_with_key key (db_runs s) of Some r \<Rightarrow> run_snapshot_ids r | None \<Rightarrow> ids)"
  proof -
    have "run_with_key key (db_runs s') = Some run \<and> run_status run \<noteq> PREPARING \<and> run_snapshot_ids run = run_snapshot_ids r"
    proof (cases "run_status r = PREPARING")
      case True
      have "coll_get run_id (run_id r) runs = Some r"
        using key ok by (auto simp: coll_ok_iff_get dest: run_with_key_Some)
      with p [OF True] True key show ?thesis
        by (simp add: run_with_key_cas run_store.get_cas ok)
    next
      case False
      with np key show ?thesis by simp
    qed
    with snaps show "run_with_key key (db_runs s') = Some run" "run_status run \<noteq> PREPARING"
      "run_snapshot_ids run = (case run_with_key key (db_runs s) of Some r \<Rightarrow> run_snapshot_ids r | None \<Rightarrow> ids)"
      by simp_all
  qed
qed

section \<open>Properties\<close>

text \<open>a policy that validates survives being stored on the run: reading the dictionary
  \<open>to_dict\<close> wrote gives the same policy, and a policy that does not validate is never stored.\<close>

theorem policy_roundtrip:
  "sbind (policy_to_dict p) policy_from_dict = sbind (validate_policy p) (\<lambda>_. Inr p)"
proof (cases "policy_to_dict p")
  case (Inl e)
  then show ?thesis by (simp add: policy_to_dict_def sbind_Inl_iff)
next
  case (Inr d)
  then show ?thesis using policy_stored_roundtrip [OF Inr] by (auto simp: policy_to_dict_def sbind_Inr_iff)
qed

text \<open>the idempotency key identifies the batch, not its spelling: two requests over the same
  set of snapshot ids, in any order and with any repetitions, get the same key or the same error.\<close>

theorem idempotency_key_of_set:
  assumes "set vs = set ws"
  shows "build_idempotency_key digest parse c vs check_type p =
    build_idempotency_key digest parse c ws check_type p"
  using assms by (rule key_of_same_set)

text \<open>C7: a batch that is accepted as a new run is queued under the id the store gave it, over
  exactly the requested snapshots without repetition; all of them exist and belong to the run's
  project, an account run's snapshots are bound to no other account context, and a snapshot with an
  unsafe method is there only under an acknowledged mutation policy, with a single dispatch attempt
  when the adapter is a generic batch.\<close>

theorem created_batch_is_authorized:
  assumes "enqueue_snapshot_batch digest parse now new_id req s = Inr (s', run, True)"
    and "new_id \<notin> run_id ` set (db_runs s)" "new_id \<notin> cp_run_id ` set (db_checkpoints s)"
  shows "run_status run = QUEUED \<and> run_id run = new_id \<and> distinct (run_snapshot_ids run) \<and>
    set (run_snapshot_ids run) = (the \<circ> parse) ` set (eq_snapshot_ids req) \<and>
    (\<forall>i \<in> set (run_snapshot_ids run). \<exists>sn \<in> set (db_snapshots s). sn_id sn = i \<and>
       sn_project_id sn = cx_project_id (run_ctx run) \<and>
       (cx_auth_mode (run_ctx run) = ''account'' \<longrightarrow>
          list_all (\<lambda>(e, f). binding_ok e (f sn)) (account_bindings (run_ctx run))) \<and>
       (\<not> is_safe_method (sn_method sn) \<longrightarrow>
          po_allow_mutation (eq_policy req) \<and> po_mutation_acknowledged (eq_policy req) \<and>
          (cx_adapter_id (run_ctx run) \<in> generic_adapters \<longrightarrow> po_max_dispatch_attempts (eq_policy req) = 1)))"
proof -
  obtain ids ss key pd where i: "normalize_snapshot_ids parse (eq_snapshot_ids req) = Inr ids"
    and l: "load_and_validate_snapshots (db_snapshots s) ids (eq_context req) (eq_policy req) = Inr ss"
    and r: "run = mark_queued now (length ids) (new_run now new_id req key ids pd)"
    by (rule created_shape [OF assms]) blast
  have "validate_policy (eq_policy req) = Inr ()"
    by (rule enqueue_shape [OF assms(1)]) blast
  then have ack: "po_allow_mutation (eq_policy req) \<longrightarrow> po_mutation_acknowledged (eq_policy req)"
    by (simp add: validate_policy_def guards_ok_iff policy_guards_def)
  have "\<exists>sn \<in> set ss. sn_id sn = x" if "x \<in> set ids" for x
    using that load_ok(1) [OF l] by auto
  with load_ok [OF l] normalize_ids_ok [OF i] ack show ?thesis
    by (simp add: r) blast
qed

text \<open>creating a run adds exactly one pending checkpoint per requested snapshot, numbered in
  request order, and leaves every other run, checkpoint and snapshot as it was.\<close>

theorem created_batch_checkpoints:
  assumes "enqueue_snapshot_batch digest parse now new_id req s = Inr (s', run, True)"
    and "new_id \<notin> run_id ` set (db_runs s)" "new_id \<notin> cp_run_id ` set (db_checkpoints s)"
  shows "map (\<lambda>cp. (cp_snapshot_id cp, cp_ordinal cp, cp_status cp))
      (filter (\<lambda>cp. cp_run_id cp = new_id) (db_checkpoints s')) =
    map (\<lambda>(i, sid). (sid, i, CP_PENDING)) (enumerate 0 (run_snapshot_ids run)) \<and>
    filter (\<lambda>cp. cp_run_id cp \<noteq> new_id) (db_checkpoints s') = db_checkpoints s \<and>
    db_runs s' = db_runs s @ [run] \<and> db_snapshots s' = db_snapshots s"
proof -
  obtain ids ss key pd hosts where
    l: "load_and_validate_snapshots (db_snapshots s) ids (eq_context req) (eq_policy req) = Inr ss"
    and h: "length hosts = length ss"
    and r: "run = mark_queued now (length ids) (new_run now new_id req key ids pd)"
    and st: "db_runs s' = db_runs s @ [run]" "db_snapshots s' = db_snapshots s"
    and c: "db_checkpoints s' = db_checkpoints s @ batch_checkpoints now (new_run now new_id req key ids pd) ss hosts"
    by (rule created_shape [OF assms]) blast
  have old: "filter (\<lambda>cp. cp_run_id cp = new_id) (db_checkpoints s) = []"
    "filter (\<lambda>cp. cp_run_id cp \<noteq> new_id) (db_checkpoints s) = db_checkpoints s"
    using assms(3) by (auto simp: filter_empty_conv filter_id_conv)
  have new: "filter (\<lambda>cp. cp_run_id cp = new_id) (batch_checkpoints now (new_run now new_id req key ids pd) ss hosts)
      = batch_checkpoints now (new_run now new_id req key ids pd) ss hosts"
    "filter (\<lambda>cp. cp_run_id cp \<noteq> new_id) (batch_checkpoints now (new_run now new_id req key ids pd) ss hosts) = []"
    by (auto simp: filter_id_conv filter_empty_conv dest: batch_checkpoints_run)
  have "map (\<lambda>(i, s). (sn_id s, i, CP_PENDING)) (enumerate 0 ss) =
      map (\<lambda>(i, sid). (sid, i, CP_PENDING)) (enumerate 0 (map sn_id ss))"
    by (intro nth_equalityI) (simp_all add: nth_enumerate_eq)
  with load_ok(1) [OF l] old new show ?thesis
    by (simp add: st c r batch_checkpoints_fields [OF h])
qed

text \<open>C6: enqueueing is idempotent: once a request was accepted, the same request at any later time
  returns the same run, creates nothing and changes nothing in the store.\<close>

theorem enqueue_idempotent:
  assumes "enqueue_snapshot_batch digest parse now new_id req s = Inr (s', run, created)"
    and "coll_ok run_id (db_runs s)" "new_id \<notin> run_id ` set (db_runs s)"
  shows "enqueue_snapshot_batch digest parse now' new_id' req s' = Inr (s', run, False)"
proof -
  obtain ids ss key pd where g: "validate_context (eq_context req) = Inr ()" "validate_policy (eq_policy req) = Inr ()"
    "normalize_snapshot_ids parse (eq_snapshot_ids req) = Inr ids"
    "load_and_validate_snapshots (db_snapshots s) ids (eq_context req) (eq_policy req) = Inr ss"
    "(if eq_idempotency_key req \<noteq> [] then Inr (eq_idempotency_key req)
      else build_idempotency_key digest Some (eq_context req) ids (eq_check_type req) (eq_policy req)) = Inr key"
    "policy_to_dict (eq_policy req) = Inr pd"
    and same: "\<And>r. run_with_key key (db_runs s) = Some r \<Longrightarrow> set (run_snapshot_ids r) = set ids"
    and c: "case run_with_key key (db_runs s) of
       Some r \<Rightarrow> if run_status r \<noteq> PREPARING then s' = s \<and> run = r \<and> \<not> created
         else enqueue_commit now new_id req key ids pd ss (Some r) s = Inr (s', run, created)
     | None \<Rightarrow> enqueue_commit now new_id req key ids pd ss None s = Inr (s', run, created)"
    by (rule enqueue_shape [OF assms(1)]) blast
  have "db_snapshots s' = db_snapshots s \<and> run_with_key key (db_runs s') = Some run \<and>
      run_status run \<noteq> PREPARING \<and> set (run_snapshot_ids run) = set ids"
  proof (cases "s' = s \<and> run_with_key key (db_runs s) = Some run \<and> run_status run \<noteq> PREPARING")
    case True
    with same show ?thesis by simp
  next
    case False
    with c have cm: "enqueue_commit now new_id req key ids pd ss (run_with_key key (db_runs s)) s = Inr (s', run, created)"
      by (auto split: option.splits if_splits)
    have "db_snapshots s' = db_snapshots s" by (rule commit_shape [OF cm])
    with commit_result [OF cm assms(2,3)] same show ?thesis by (auto split: option.splits)
  qed
  then show ?thesis
    by (simp add: enqueue_snapshot_batch_def g)
qed

text \<open>two enqueuers racing on one key. Whatever the look-up of this one saw before the other
  inserted its run, the commit keeps idempotency keys unique and checkpoints unique per run and
  snapshot, and it rewrites no checkpoint and no run that has left PREPARING.\<close>

theorem enqueue_race_safe:
  assumes "enqueue_commit now new_id req key ids pd ss seen s = Inr (s', run, created)"
    and "run_keys_ok (db_runs s)" "coll_ok cp_key (db_checkpoints s)"
  shows "run_keys_ok (db_runs s') \<and> coll_ok cp_key (db_checkpoints s') \<and>
    set (db_checkpoints s) \<subseteq> set (db_checkpoints s') \<and>
    {r \<in> set (db_runs s). run_status r \<noteq> PREPARING} \<subseteq> set (db_runs s')"
proof -
  obtain runs r where t: "commit_target now new_id req key ids pd seen (db_runs s) = (runs, r, created)"
    and np: "run_status r \<noteq> PREPARING \<Longrightarrow> s' = s\<lparr>db_runs := runs\<rparr> \<and> run = r"
    and p: "run_status r = PREPARING \<Longrightarrow>
      db_runs s' = coll_cas run_id (run_id r) (\<lambda>r. run_status r = PREPARING) (mark_queued now (length ids)) runs
      \<and> ensure_checkpoints now r ss (db_checkpoints s) = Inr (db_checkpoints s')
      \<and> run = (case coll_get run_id (run_id r) (db_runs s') of Some q \<Rightarrow> q | None \<Rightarrow> r)"
    by (rule commit_shape [OF assms(1)]) blast
  have keys: "run_keys_ok runs" by (rule commit_target_keys [OF t assms(2)])
  have sub: "set (db_runs s) \<subseteq> set runs"
    using t by (auto simp: commit_target_def split: option.splits)
  show ?thesis
  proof (cases "run_status r = PREPARING")
    case True
    obtain hosts where c: "db_checkpoints s' = coll_add_all cp_key (batch_checkpoints now r ss hosts) (db_checkpoints s)"
      using p [OF True] by (auto simp: ensure_eq)
    have "run_keys_ok (db_runs s')"
      using keys p [OF True] by (simp add: run_keys_ok_def coll_cas_def map_update_where)
    moreover have "{r \<in> set (db_runs s). run_status r \<noteq> PREPARING} \<subseteq> set (db_runs s')"
      using sub p [OF True] by (force simp: coll_cas_def set_update_where)
    ultimately show ?thesis
      using assms(3) set_coll_add_all(1) [of "db_checkpoints s" cp_key "batch_checkpoints now r ss hosts"]
      by (simp add: c coll_ok_add_all)
  next
    case False
    with np keys sub assms(3) show ?thesis by auto
  qed
qed

section \<open>Concrete inputs\<close>

definition example_context :: execution_context where
  "example_context = default_context ''p''"

definition example_snapshot :: "oid \<Rightarrow> string \<Rightarrow> request_snapshot" where
  "example_snapshot i m = \<lparr>sn_id = i, sn_pathid = 7, sn_project_id = ''p'', sn_env_id = [],
     sn_account_id = [], sn_auth_provider_id = [], sn_auth_context_ref = [],
     sn_auth_profile_revision_id = [], sn_auth_realm_revision_id = [], sn_auth_adapter_version_id = [],
     sn_method = m, sn_url = ''http://h.x/a?b=1'', sn_path = ''/a'', sn_domain = ''H.x'',
     sn_parameter_sources = None\<rparr>"

definition example_request :: enqueue_request where
  "example_request = \<lparr>eq_name = ''b'', eq_check_type = ''unauth_access'', eq_context = example_context,
     eq_snapshot_ids = [''s2'', ''s1'', ''s2''], eq_policy = default_policy, eq_scope = [],
     eq_evidence_ref = [], eq_operator = [], eq_priority = 100, eq_queue_name = ''snapshot'',
     eq_idempotency_key = []\<rparr>"

definition example_db :: db where
  "example_db = \<lparr>db_snapshots = [example_snapshot ''s1'' ''GET'', example_snapshot ''s2'' ''HEAD''], db_runs = [],
     db_checkpoints = [], db_results = [], db_relations = [], db_wakeup = Some []\<rparr>"

definition example_enqueue :: "db \<Rightarrow> (db \<times> security_test_run \<times> bool) result_of" where
  "example_enqueue s = enqueue_snapshot_batch (\<lambda>_. ''key'') Some 5 ''r1'' example_request s"

lemma example_created: "\<exists>s' run. example_enqueue example_db = Inr (s', run, True)"
proof -
  have "(case example_enqueue example_db of Inr (s', run, b) \<Rightarrow> b | Inl e \<Rightarrow> False)" by code_simp
  then show ?thesis by (auto split: sum.splits)
qed

theorem idempotency_key_of_set_witness:
  "build_idempotency_key (\<lambda>_. ''key'') Some example_context [''s2'', ''s1'', ''s2''] ''c'' default_policy =
    build_idempotency_key (\<lambda>_. ''key'') Some example_context [''s1'', ''s2''] ''c'' default_policy"
  by (rule idempotency_key_of_set) auto

theorem created_batch_is_authorized_witness:
  "\<exists>s' run. example_enqueue example_db = Inr (s', run, True) \<and> run_status run = QUEUED \<and>
    set (run_snapshot_ids run) = {''s1'', ''s2''}"
proof -
  obtain s' run where e: "example_enqueue example_db = Inr (s', run, True)"
    using example_created by blast
  have "run_status run = QUEUED \<and> set (run_snapshot_ids run) = {''s1'', ''s2''}"
    using created_batch_is_authorized [OF e [unfolded example_enqueue_def]]
    by (simp add: example_db_def example_request_def insert_commute)
  with e show ?thesis by blast
qed

theorem created_batch_checkpoints_witness:
  "\<exists>s' run. example_enqueue example_db = Inr (s', run, True) \<and> db_runs s' = [run]"
proof -
  obtain s' run where e: "example_enqueue example_db = Inr (s', run, True)"
    using example_created by blast
  have "db_runs s' = [run]"
    using created_batch_checkpoints [OF e [unfolded example_enqueue_def]] by (simp add: example_db_def)
  with e show ?thesis by blast
qed

theorem enqueue_idempotent_witness:
  "\<exists>s' run. example_enqueue example_db = Inr (s', run, True) \<and> example_enqueue s' = Inr (s', run, False)"
proof -
  obtain s' run where e: "example_enqueue example_db = Inr (s', run, True)"
    using example_created by blast
  have "example_enqueue s' = Inr (s', run, False)"
    unfolding example_enqueue_def
    by (rule enqueue_idempotent [OF e [unfolded example_enqueue_def]])
      (simp_all add: example_db_def coll_ok_def)
  with e show ?thesis by blast
qed

theorem enqueue_race_safe_witness:
  "\<exists>s' run. enqueue_commit 5 ''r1'' example_request ''key'' [''s1''] [] [example_snapshot ''s1'' ''GET''] None example_db
      = Inr (s', run, True) \<and> run_keys_ok (db_runs s')"
proof -
  have "(case enqueue_commit 5 ''r1'' example_request ''key'' [''s1''] [] [example_snapshot ''s1'' ''GET''] None example_db
      of Inr (s', run, b) \<Rightarrow> b | Inl e \<Rightarrow> False)"
    by code_simp
  then obtain s' run where e: "enqueue_commit 5 ''r1'' example_request ''key'' [''s1''] []
      [example_snapshot ''s1'' ''GET''] None example_db = Inr (s', run, True)"
    by (auto split: sum.splits)
  have "run_keys_ok (db_runs s')"
    using enqueue_race_safe [OF e] by (simp add: example_db_def run_keys_ok_def coll_ok_def)
  with e show ?thesis by blast
qed

end
