(* ===== verification/Lifecycle.thy ===== *)
theory Lifecycle
  imports Prelude
begin

text \<open>
  The two contracts every long-lived document of the services keeps.

  \<open>lifecycle\<close>: a status moves along a relation that never leaves the final states. Its lemmas say
  that whatever sequence of moves is made, a final status is the last one, and that a fact the
  relation forces on entering a status holds whenever the status was reached from outside it.

  \<open>history_log\<close>: a log that operations only append to, one entry per change, so that the entries
  replay to the present value.
\<close>

locale lifecycle =
  fixes legal :: "'s \<Rightarrow> 's \<Rightarrow> bool"
    and final :: "'s \<Rightarrow> bool"
  assumes final_stuck: "final a \<Longrightarrow> \<not> legal a b"
begin

definition moves :: "'s \<Rightarrow> 's \<Rightarrow> bool" where
  "moves = legal\<^sup>*\<^sup>*"

lemma moves_refl [simp]: "moves a a"
  by (simp add: moves_def)

lemma moves_step: "legal a b \<Longrightarrow> moves a b"
  by (simp add: moves_def)

lemma moves_trans: "moves a b \<Longrightarrow> moves b c \<Longrightarrow> moves a c"
  by (simp add: moves_def)

lemma final_forever: "moves a b \<Longrightarrow> final a \<Longrightarrow> b = a"
  unfolding moves_def by (induction rule: rtranclp_induct) (auto simp: final_stuck)

end

locale history_log = lifecycle legal final
  for legal :: "'s \<Rightarrow> 's \<Rightarrow> bool" and final :: "'s \<Rightarrow> bool" +
  fixes log :: "'d \<Rightarrow> ('s \<times> 's) list"
    and status :: "'d \<Rightarrow> 's"
    and origin :: "'d \<Rightarrow> 's"
    and invar :: "'d \<Rightarrow> bool"
  assumes log_legal: "invar d \<Longrightarrow> (a, b) \<in> set (log d) \<Longrightarrow> legal a b"
    and log_replays: "invar d \<Longrightarrow> status d = (if log d = [] then origin d else snd (last (log d)))"
    and log_chained: "invar d \<Longrightarrow> i < length (log d) \<Longrightarrow>
      fst (log d ! i) = (if i = 0 then origin d else snd (log d ! (i - 1)))"
begin

lemma log_nth: "invar d \<Longrightarrow> i < length (log d) \<Longrightarrow> legal (fst (log d ! i)) (snd (log d ! i))"
  using log_legal [of d "fst (log d ! i)" "snd (log d ! i)"] nth_mem [of i "log d"] by simp

lemma log_prefix_moves: "invar d \<Longrightarrow> i < length (log d) \<Longrightarrow> moves (origin d) (snd (log d ! i))"
proof (induction i)
  case 0
  with log_nth [OF 0] log_chained [OF 0] show ?case by (simp add: moves_step)
next
  case (Suc i)
  with log_nth [OF Suc(2,3)] log_chained [OF Suc(2,3)]
  have "legal (snd (log d ! i)) (snd (log d ! Suc i))" by simp
  with Suc show ?case by (meson Suc_lessD moves_step moves_trans)
qed

lemma status_reached: "invar d \<Longrightarrow> moves (origin d) (status d)"
  using log_replays [of d] log_prefix_moves [of d "length (log d) - 1"]
  by (cases "log d = []") (auto simp: last_conv_nth)

lemma final_ends_log: "invar d \<Longrightarrow> i < length (log d) \<Longrightarrow> final (snd (log d ! i)) \<Longrightarrow> Suc i = length (log d)"
proof (rule ccontr)
  assume a: "invar d" "i < length (log d)" "final (snd (log d ! i))" "Suc i \<noteq> length (log d)"
  then have "Suc i < length (log d)" by simp
  with log_chained [OF a(1) this] log_nth [OF a(1) this]
  have "legal (snd (log d ! i)) (snd (log d ! Suc i))" by simp
  with a(3) show False by (simp add: final_stuck)
qed

end

end
