(* ===== verification/RunLifecycle.thy ===== *)
theory RunLifecycle
  imports BatchQueue Lifecycle "HOL-Library.Option_ord"
begin

text \<open>
  The run-level operations of \<open>apiAnalysis/tool/execution_scheduler.py\<close>: claiming under a lease,
  heartbeats, counting, cancelling, resuming, recovery of expired, orphaned and retired runs, and
  retrying. Each operation is a function on \<open>db\<close> that performs the queries of the source in its
  order; one clock reading \<open>now\<close> stands for the \<open>utcnow()\<close> calls of one operation, and \<open>token\<close> for
  \<open>uuid4().hex\<close>.

  The facts: a claim takes the first run of the highest priority (\<open>claim_takes_first\<close>), each
  operation moves a run's status only along \<open>legal_move\<close>, and recovery leaves nothing behind that it
  is responsible for.
\<close>

section \<open>Queries and updates on runs\<close>

definition FINAL_RUN_STATUSES :: "run_status set" where
  "FINAL_RUN_STATUSES = {DONE, FAILED, CANCELLED}"

definition run_get :: "oid \<Rightarrow> db \<Rightarrow> security_test_run option" where
  "run_get rid s = coll_get run_id rid (db_runs s)"

definition run_cas :: "oid \<Rightarrow> (security_test_run \<Rightarrow> bool) \<Rightarrow> (security_test_run \<Rightarrow> security_test_run) \<Rightarrow> db \<Rightarrow> db" where
  "run_cas rid g f s = s\<lparr>db_runs := coll_cas run_id rid g f (db_runs s)\<rparr>"

definition run_won :: "oid \<Rightarrow> (security_test_run \<Rightarrow> bool) \<Rightarrow> db \<Rightarrow> bool" where
  "run_won rid g s = coll_won run_id rid g (db_runs s)"

definition update_checkpoints :: "(security_execution_checkpoint \<Rightarrow> bool) \<Rightarrow>
    (security_execution_checkpoint \<Rightarrow> security_execution_checkpoint) \<Rightarrow> db \<Rightarrow> db" where
  "update_checkpoints q f s = s\<lparr>db_checkpoints := update_where q f (db_checkpoints s)\<rparr>"

definition lease_cleared :: "security_test_run \<Rightarrow> security_test_run" where
  "lease_cleared r = r\<lparr>run_lease_owner := None, run_lease_token := None, run_lease_expires_at := None\<rparr>"

definition wake :: "oid \<Rightarrow> db \<Rightarrow> db" where
  "wake rid s = s\<lparr>db_wakeup := fst (signal_execution_queue rid (db_wakeup s))\<rparr>"

text \<open>\<open>_sync_parameter_relation_run_state\<close>.\<close>

definition relation_syncable :: "string \<Rightarrow> string \<Rightarrow> bool" where
  "relation_syncable status current =
     (if status = ''running'' then current \<in> {''running'', ''needs_context'', ''automatic_failed''}
      else current = ''running'')"

definition sync_parameter_relations :: "time \<Rightarrow> security_test_run \<Rightarrow> string \<Rightarrow> string \<Rightarrow> db \<Rightarrow> db" where
  "sync_parameter_relations now run status reason s =
     (if cx_adapter_id (run_ctx run) \<noteq> ''parameter_relation_validation'' then s
      else s\<lparr>db_relations := update_where
        (\<lambda>pr. pr_last_validation_run_id pr = Some (run_id run) \<and> relation_syncable status (pr_preprocess_status pr))
        (\<lambda>pr. pr\<lparr>pr_preprocess_status := status, pr_mtime := now,
           pr_preprocess_reason_codes := (if reason \<noteq> [] then [take 120 reason] else pr_preprocess_reason_codes pr)\<rparr>)
        (db_relations s)\<rparr>)"

section \<open>Claiming and heartbeats\<close>

definition claim_order :: "security_test_run \<Rightarrow> int \<times> time option" where
  "claim_order r = (- run_priority r, run_queued_at r)"

definition claimable :: "string \<Rightarrow> security_test_run \<Rightarrow> bool" where
  "claimable queue r \<longleftrightarrow> run_scheduler_managed r \<and> run_queue_name r = queue \<and> run_status r = QUEUED"

definition claim_update :: "time \<Rightarrow> string \<Rightarrow> string \<Rightarrow> int \<Rightarrow> security_test_run \<Rightarrow> security_test_run" where
  "claim_update now token worker lease r = r\<lparr>run_status := RUNNING, run_lease_owner := Some worker,
     run_lease_token := Some token, run_lease_expires_at := Some (now + lease), run_heartbeat_at := Some now,
     run_started_at := Some now, run_updated_at := now, run_dispatch_attempt := run_dispatch_attempt r + 1\<rparr>"

definition claim_next_execution :: "time \<Rightarrow> string \<Rightarrow> string \<Rightarrow> string \<Rightarrow> int \<Rightarrow> db \<Rightarrow>
    (db \<times> security_test_run option) result_of" where
  "claim_next_execution now token worker queue lease s =
     sbind (guards [
       (worker = [], ValueError ''worker_id is required''),
       (outside 15 3600 lease, ValueError ''lease_seconds must be between 15 and 3600'')]) (\<lambda>_.
     case sort_key claim_order (filter (claimable queue) (db_runs s)) of
       [] \<Rightarrow> Inr (s, None)
     | r # _ \<Rightarrow> let s' = run_cas (run_id r) (claimable queue) (claim_update now token worker lease) s
         in Inr (s', run_get (run_id r) s'))"

definition leased :: "string \<Rightarrow> security_test_run \<Rightarrow> bool" where
  "leased token r \<longleftrightarrow> run_lease_token r = Some token"

definition heartbeat_guard :: "string \<Rightarrow> security_test_run \<Rightarrow> bool" where
  "heartbeat_guard token r \<longleftrightarrow> leased token r \<and> run_status r \<in> {RUNNING, CANCEL_REQUESTED}"

definition heartbeat_execution :: "time \<Rightarrow> oid \<Rightarrow> string \<Rightarrow> int \<Rightarrow> db \<Rightarrow> db \<times> bool" where
  "heartbeat_execution now rid token lease s =
     (run_cas rid (heartbeat_guard token) (\<lambda>r. r\<lparr>run_heartbeat_at := Some now,
        run_lease_expires_at := Some (now + lease), run_updated_at := now\<rparr>) s,
      run_won rid (heartbeat_guard token) s)"

section \<open>Counting\<close>

definition checkpoints_of :: "oid \<Rightarrow> db \<Rightarrow> security_execution_checkpoint list" where
  "checkpoints_of rid s = filter (\<lambda>cp. cp_run_id cp = rid) (db_checkpoints s)"

definition count_status :: "oid \<Rightarrow> checkpoint_status \<Rightarrow> db \<Rightarrow> nat" where
  "count_status rid st s = count_where (\<lambda>cp. cp_run_id cp = rid \<and> cp_status cp = st) (db_checkpoints s)"

definition checkpoint_counts :: "oid \<Rightarrow> db \<Rightarrow> case_counts" where
  "checkpoint_counts rid s = \<lparr>
     pending_cases = count_status rid CP_PENDING s,
     running_cases = count_status rid CP_RUNNING s,
     completed_cases = count_status rid CP_DONE s,
     failed_cases = count_status rid CP_ERROR s,
     skipped_cases = count_status rid CP_SKIPPED s,
     cancelled_cases = count_status rid CP_CANCELLED s\<rparr>"

section \<open>Cancelling and resuming\<close>

definition cancel_checkpoint :: "time \<Rightarrow> string \<Rightarrow> security_execution_checkpoint \<Rightarrow> security_execution_checkpoint" where
  "cancel_checkpoint now reason cp = cp\<lparr>cp_status := CP_CANCELLED, cp_reason_codes := [reason],
     cp_finished_at := Some now, cp_updated_at := now, cp_lease_token := None\<rparr>"

definition cancel_checkpoints :: "time \<Rightarrow> string \<Rightarrow> oid \<Rightarrow> db \<Rightarrow> db" where
  "cancel_checkpoints now reason rid = update_checkpoints
     (\<lambda>cp. cp_run_id cp = rid \<and> cp_status cp \<in> {CP_PENDING, CP_RUNNING}) (cancel_checkpoint now reason)"

definition finalize_cancelled_run :: "time \<Rightarrow> string \<Rightarrow> oid \<Rightarrow> db \<Rightarrow> db" where
  "finalize_cancelled_run now reason rid s = (let s1 = cancel_checkpoints now reason rid s in
     run_cas rid (\<lambda>_. True) (\<lambda>r. lease_cleared (r\<lparr>run_counts := checkpoint_counts rid s1,
       run_status := CANCELLED, run_finished_at := Some now, run_updated_at := now\<rparr>)) s1)"

definition managed_get :: "oid \<Rightarrow> db \<Rightarrow> security_test_run option" where
  "managed_get rid s = (case run_get rid s of Some r \<Rightarrow> if run_scheduler_managed r then Some r else None
     | None \<Rightarrow> None)"

definition request_execution_cancel :: "time \<Rightarrow> oid \<Rightarrow> string \<Rightarrow> db \<Rightarrow> db \<times> security_test_run option" where
  "request_execution_cancel now rid reason s = (case managed_get rid s of
     None \<Rightarrow> (s, None)
   | Some run \<Rightarrow>
       if run_status run \<in> FINAL_RUN_STATUSES then (s, Some run)
       else let s' = (if run_status run \<in> {PREPARING, QUEUED, PAUSED} then finalize_cancelled_run now reason rid s
           else run_cas rid (\<lambda>r. run_status r = RUNNING) (\<lambda>r. r\<lparr>run_status := CANCEL_REQUESTED,
             run_cancel_reason := reason, run_updated_at := now\<rparr>) s)
         in (s', run_get rid s'))"

definition requeue :: "time \<Rightarrow> security_test_run \<Rightarrow> security_test_run" where
  "requeue now r = r\<lparr>run_status := QUEUED, run_queued_at := Some now, run_updated_at := now\<rparr>"

definition resume_execution :: "time \<Rightarrow> oid \<Rightarrow> db \<Rightarrow> db \<times> security_test_run option" where
  "resume_execution now rid s = (case managed_get rid s of
     None \<Rightarrow> (s, None)
   | Some run \<Rightarrow> let s' = (if run_status run = PAUSED
         then wake rid (sync_parameter_relations now run ''running'' ''resumed''
           (run_cas rid (\<lambda>r. run_status r = PAUSED) (\<lambda>r. (requeue now r)\<lparr>run_last_error_type := None\<rparr>) s))
         else s)
       in (s', run_get rid s'))"

definition auth_paused_on :: "string \<Rightarrow> security_test_run \<Rightarrow> bool" where
  "auth_paused_on revision r \<longleftrightarrow> run_status r = PAUSED \<and> run_dependency_type r = Some ''auth_profile'' \<and>
     run_dependency_id r = Some revision"

definition resume_auth_dependency :: "(string \<Rightarrow> oid option) \<Rightarrow> time \<Rightarrow> string \<Rightarrow> string \<Rightarrow> db \<Rightarrow>
    db \<times> security_test_run option" where
  "resume_auth_dependency parse now run_ref revision s = (case parse run_ref of
     None \<Rightarrow> (s, None)
   | Some rid \<Rightarrow>
       if revision = [] then (s, run_get rid s)
       else case run_get rid s of
         None \<Rightarrow> (s, None)
       | Some run \<Rightarrow>
           if run_scheduler_managed run \<and> auth_paused_on revision run
           then let s' = wake rid (sync_parameter_relations now run ''running'' ''auth_repaired''
                 (run_cas rid (auth_paused_on revision) (\<lambda>r. (requeue now r)\<lparr>run_last_error_type := None,
                    run_pause_code := None, run_dependency_type := None, run_dependency_id := None,
                    run_dependency_revision_id := None\<rparr>) s))
             in (s', run_get rid s')
           else (s, Some run))"

section \<open>Recovery\<close>

record recovery_report =
  rc_recovered :: nat
  rc_orphaned_recovered :: nat
  rc_legacy_expired :: nat
  rc_cancelled :: nat
  rc_preparing_recovered :: nat
  rc_preparing_failed :: nat

definition in_queue :: "string \<Rightarrow> security_test_run \<Rightarrow> bool" where
  "in_queue queue r \<longleftrightarrow> queue = [] \<or> run_queue_name r = queue"

definition stale_preparing :: "time \<Rightarrow> string \<Rightarrow> security_test_run \<Rightarrow> bool" where
  "stale_preparing now queue r \<longleftrightarrow> run_scheduler_managed r \<and> run_status r = PREPARING \<and>
     run_updated_at r \<le> now - 300 \<and> in_queue queue r"

definition recover_preparing :: "time \<Rightarrow> security_test_run \<Rightarrow> db \<Rightarrow> (db \<times> nat \<times> nat) result_of" where
  "recover_preparing now run s =
     (let ids = run_snapshot_ids run;
          found = filter (\<lambda>sn. sn_id sn \<in> set ids) (db_snapshots s);
          preparing = (\<lambda>r. run_status r = PREPARING);
          won = (if run_won (run_id run) preparing s then 1 else 0)
      in if ids = [] \<or> length found \<noteq> length ids
         then Inr (run_cas (run_id run) preparing (\<lambda>r. r\<lparr>run_status := FAILED,
             run_last_error_type := Some ''PreparingSnapshotsUnavailable'', run_finished_at := Some now,
             run_updated_at := now\<rparr>) s, 0, won)
         else sbind (ensure_checkpoints now run (List.map_filter (\<lambda>i. coll_get sn_id i found) ids)
               (db_checkpoints s)) (\<lambda>cps.
           let s1 = s\<lparr>db_checkpoints := cps\<rparr>;
               s2 = run_cas (run_id run) preparing (\<lambda>r. (requeue now r)\<lparr>run_total_cases := length ids,
                 run_counts := (run_counts r)\<lparr>pending_cases := length ids\<rparr>\<rparr>) s1
           in Inr (if won = 1 then wake (run_id run) s2 else s2, won, 0)))"

fun recover_all_preparing :: "time \<Rightarrow> security_test_run list \<Rightarrow> db \<Rightarrow> (db \<times> nat \<times> nat) result_of" where
  "recover_all_preparing now [] s = Inr (s, 0, 0)"
| "recover_all_preparing now (r # rs) s = sbind (recover_preparing now r s) (\<lambda>(s1, a, b).
     sbind (recover_all_preparing now rs s1) (\<lambda>(s2, c, d). Inr (s2, a + c, b + d)))"

definition reset_checkpoint :: "time \<Rightarrow> security_execution_checkpoint \<Rightarrow> security_execution_checkpoint" where
  "reset_checkpoint now cp = cp\<lparr>cp_status := CP_PENDING, cp_updated_at := now, cp_lease_token := None,
     cp_started_at := None\<rparr>"

definition lease_expired :: "time \<Rightarrow> security_test_run \<Rightarrow> bool" where
  "lease_expired now r \<longleftrightarrow> (case run_lease_expires_at r of Some t \<Rightarrow> t \<le> now | None \<Rightarrow> False)"

definition expired_run :: "time \<Rightarrow> string \<Rightarrow> security_test_run \<Rightarrow> bool" where
  "expired_run now queue r \<longleftrightarrow> run_scheduler_managed r \<and> run_status r = RUNNING \<and> lease_expired now r \<and>
     in_queue queue r"

definition refresh_counts :: "oid \<Rightarrow> db \<Rightarrow> db" where
  "refresh_counts rid s = run_cas rid (\<lambda>_. True) (\<lambda>r. r\<lparr>run_counts := checkpoint_counts rid s\<rparr>) s"

text \<open>
  Both loops over \<open>RUNNING\<close> runs: give the checkpoints back, then the run if the guard still holds.
\<close>

definition release_run :: "time \<Rightarrow> (security_execution_checkpoint \<Rightarrow> bool) \<Rightarrow> (security_test_run \<Rightarrow> bool) \<Rightarrow>
    (security_test_run \<Rightarrow> security_test_run) \<Rightarrow> oid \<Rightarrow> db \<Rightarrow> db \<times> nat" where
  "release_run now q g f rid s =
     (let s1 = update_checkpoints (\<lambda>cp. cp_run_id cp = rid \<and> cp_status cp = CP_RUNNING \<and> q cp)
            (reset_checkpoint now) s
      in if run_won rid g s1
         then (wake rid (refresh_counts rid (run_cas rid g (\<lambda>r. lease_cleared (f (requeue now r))) s1)), 1)
         else (s1, 0))"

definition recover_expired_run :: "time \<Rightarrow> security_test_run \<Rightarrow> db \<Rightarrow> db \<times> nat" where
  "recover_expired_run now run s = (let token = (case run_lease_token run of Some t \<Rightarrow> t | None \<Rightarrow> []) in
     release_run now (\<lambda>cp. cp_lease_token cp = Some token)
       (\<lambda>r. run_status r = RUNNING \<and> run_lease_token r = Some token \<and> lease_expired now r)
       (\<lambda>r. r) (run_id run) s)"

definition orphaned_run :: "time \<Rightarrow> security_test_run \<Rightarrow> bool" where
  "orphaned_run cutoff r \<longleftrightarrow> run_scheduler_managed r \<and> run_status r = RUNNING \<and>
     (case run_started_at r of Some t \<Rightarrow> t \<le> cutoff | None \<Rightarrow> False) \<and> run_lease_expires_at r = None"

definition recover_orphaned_run :: "time \<Rightarrow> time \<Rightarrow> security_test_run \<Rightarrow> db \<Rightarrow> db \<times> nat" where
  "recover_orphaned_run now cutoff run s = release_run now (\<lambda>_. True) (orphaned_run cutoff)
     (\<lambda>r. r\<lparr>run_last_error_type := Some ''OrphanedLeaseRecovered''\<rparr>) (run_id run) s"

definition legacy_run :: "time \<Rightarrow> security_test_run \<Rightarrow> bool" where
  "legacy_run cutoff r \<longleftrightarrow> \<not> run_scheduler_managed r \<and> run_status r = RUNNING \<and>
     (case run_started_at r of Some t \<Rightarrow> t \<le> cutoff | None \<Rightarrow> False)"

definition expire_legacy_run :: "time \<Rightarrow> time \<Rightarrow> security_test_run \<Rightarrow> db \<Rightarrow> db \<times> nat" where
  "expire_legacy_run now cutoff run s =
     (run_cas (run_id run) (legacy_run cutoff) (\<lambda>r. r\<lparr>run_status := FAILED,
        run_last_error_type := Some ''LegacyRunExpired'', run_finished_at := Some now, run_updated_at := now\<rparr>) s,
      if run_won (run_id run) (legacy_run cutoff) s then 1 else 0)"

definition abandoned_cancel :: "time \<Rightarrow> string \<Rightarrow> security_test_run \<Rightarrow> bool" where
  "abandoned_cancel now queue r \<longleftrightarrow> run_scheduler_managed r \<and> run_status r = CANCEL_REQUESTED \<and>
     (lease_expired now r \<or> run_lease_expires_at r = None) \<and> in_queue queue r"

definition finish_cancel :: "time \<Rightarrow> security_test_run \<Rightarrow> db \<Rightarrow> db \<times> nat" where
  "finish_cancel now run s =
     (finalize_cancelled_run now (str_or (run_cancel_reason run) ''cancel_requested'') (run_id run) s, 1)"

fun for_each :: "('a \<Rightarrow> db \<Rightarrow> db \<times> nat) \<Rightarrow> 'a list \<Rightarrow> db \<Rightarrow> db \<times> nat" where
  "for_each f [] s = (s, 0)"
| "for_each f (r # rs) s = (case f r s of (s1, a) \<Rightarrow> (case for_each f rs s1 of (s2, b) \<Rightarrow> (s2, a + b)))"

definition recover_expired_executions :: "time \<Rightarrow> string \<Rightarrow> int \<Rightarrow> int \<Rightarrow> db \<Rightarrow> (db \<times> recovery_report) result_of" where
  "recover_expired_executions now queue orphan_grace legacy_stale s =
     sbind (recover_all_preparing now (filter (stale_preparing now queue) (db_runs s)) s) (\<lambda>(s1, prep, failed).
     let orphan_cutoff = now - max 60 orphan_grace;
         legacy_cutoff = now - max 3600 legacy_stale;
         (s2, recovered) = for_each (recover_expired_run now) (filter (expired_run now queue) (db_runs s1)) s1;
         (s3, orphaned) = for_each (recover_orphaned_run now orphan_cutoff)
           (filter (\<lambda>r. orphaned_run orphan_cutoff r \<and> in_queue queue r) (db_runs s2)) s2;
         (s4, legacy) = for_each (expire_legacy_run now legacy_cutoff)
           (filter (legacy_run legacy_cutoff) (db_runs s3)) s3;
         (s5, cancelled) = for_each (finish_cancel now) (filter (abandoned_cancel now queue) (db_runs s4)) s4
     in Inr (s5, \<lparr>rc_recovered = recovered, rc_orphaned_recovered = orphaned, rc_legacy_expired = legacy,
          rc_cancelled = cancelled, rc_preparing_recovered = prep, rc_preparing_failed = failed\<rparr>))"

section \<open>Retrying\<close>

definition default_retry_statuses :: "checkpoint_status list" where
  "default_retry_statuses = [CP_ERROR, CP_SKIPPED, CP_CANCELLED]"

definition retry_snapshot_ids :: "oid \<Rightarrow> checkpoint_status list \<Rightarrow> db \<Rightarrow> oid list" where
  "retry_snapshot_ids rid statuses s = map cp_snapshot_id (sort_key cp_ordinal
     (filter (\<lambda>cp. cp_run_id cp = rid \<and> cp_status cp \<in> set statuses) (db_checkpoints s)))"

definition retry_context :: "security_test_run \<Rightarrow> execution_context" where
  "retry_context old = (let c = run_ctx old in c\<lparr>
     cx_adapter_id := str_or (cx_adapter_id c) ''snapshot_batch'',
     cx_adapter_version := str_or (cx_adapter_version c) ''1'',
     cx_parent_run_id := Some (run_id old), cx_retry_of_run_id := Some (run_id old)\<rparr>)"

definition checkpoint_status_name :: "checkpoint_status \<Rightarrow> string" where
  "checkpoint_status_name st = (case st of CP_PENDING \<Rightarrow> ''pending'' | CP_RUNNING \<Rightarrow> ''running''
     | CP_DONE \<Rightarrow> ''done'' | CP_ERROR \<Rightarrow> ''error'' | CP_SKIPPED \<Rightarrow> ''skipped'' | CP_CANCELLED \<Rightarrow> ''cancelled'')"

text \<open>The ids are \<open>ObjectId\<close>s of the database here, which normalisation passes through.\<close>

definition retry_execution :: "(json \<Rightarrow> string) \<Rightarrow> time \<Rightarrow> oid \<Rightarrow> string \<Rightarrow> oid \<Rightarrow>
    checkpoint_status list \<Rightarrow> string \<Rightarrow> db \<Rightarrow> (db \<times> security_test_run \<times> bool) result_of" where
  "retry_execution digest now new_id retry_key rid statuses operator s =
     (case managed_get rid s of
       None \<Rightarrow> Inl (ValueError ''scheduled run not found'')
     | Some old \<Rightarrow> let ids = retry_snapshot_ids rid statuses s in
         if ids = [] then Inl (ValueError ''no checkpoints match retry statuses'')
         else sbind (policy_from_dict (run_execution_policy old)) (\<lambda>policy.
           enqueue_snapshot_batch digest Some now new_id \<lparr>
             eq_name = run_name old @ '' retry'', eq_check_type = run_check_type old,
             eq_context = retry_context old, eq_snapshot_ids = ids, eq_policy = policy,
             eq_scope = [(''retry_of_run_id'', JStr rid),
               (''retry_statuses'', JList (map (\<lambda>st. JStr (checkpoint_status_name st)) statuses))],
             eq_evidence_ref = run_evidence_ref old, eq_operator = operator,
             eq_priority = run_priority old, eq_queue_name = run_queue_name old,
             eq_idempotency_key = retry_key\<rparr> s))"

section \<open>The life of a run\<close>

text \<open>
  The status moves the scheduler makes, over all its operations: an operator cancels, a worker claims,
  finishes, pauses or gives a run back, recovery requeues or fails it.
\<close>

fun next_statuses :: "run_status \<Rightarrow> run_status list" where
  "next_statuses PREPARING = [QUEUED, FAILED, CANCELLED]"
| "next_statuses QUEUED = [RUNNING, CANCELLED]"
| "next_statuses RUNNING = [CANCEL_REQUESTED, QUEUED, PAUSED, DONE, FAILED, CANCELLED]"
| "next_statuses CANCEL_REQUESTED = [CANCELLED, DONE, QUEUED, PAUSED, FAILED]"
| "next_statuses PAUSED = [QUEUED, CANCELLED]"
| "next_statuses _ = []"

definition legal_move :: "run_status \<Rightarrow> run_status \<Rightarrow> bool" where
  "legal_move a b \<longleftrightarrow> b \<in> set (next_statuses a)"

interpretation run_life: lifecycle legal_move "\<lambda>st. st \<in> FINAL_RUN_STATUSES"
  by unfold_locales (auto simp: legal_move_def FINAL_RUN_STATUSES_def)

text \<open>What no operation changes of a run.\<close>

definition run_identity :: "security_test_run \<Rightarrow>
    oid \<times> execution_context \<times> oid list \<times> string \<times> bool \<times> string option \<times> json dict" where
  "run_identity r = (run_id r, run_ctx r, run_snapshot_ids r, run_check_type r, run_scheduler_managed r,
     run_idempotency_key r, run_execution_policy r)"

definition evolves :: "security_test_run \<Rightarrow> security_test_run \<Rightarrow> bool" where
  "evolves r r' \<longleftrightarrow> run_identity r' = run_identity r \<and> run_life.moves (run_status r) (run_status r')"

definition progress :: "db \<Rightarrow> db \<Rightarrow> bool" where
  "progress s s' \<longleftrightarrow> length (db_runs s) \<le> length (db_runs s') \<and>
     (\<forall>i < length (db_runs s). evolves (db_runs s ! i) (db_runs s' ! i)) \<and>
     set (db_results s) \<subseteq> set (db_results s')"

definition run_ok :: "security_test_run \<Rightarrow> bool" where
  "run_ok r \<longleftrightarrow> (run_lease_token r \<noteq> None \<longrightarrow> run_scheduler_managed r \<and> run_status r \<in> {RUNNING, CANCEL_REQUESTED}) \<and>
     (run_lease_expires_at r = None \<longleftrightarrow> run_lease_token r = None)"

definition cp_ok :: "security_execution_checkpoint \<Rightarrow> bool" where
  "cp_ok cp \<longleftrightarrow> (cp_lease_token cp \<noteq> None \<longleftrightarrow> cp_status cp = CP_RUNNING)"

definition sched_inv :: "db \<Rightarrow> bool" where
  "sched_inv s \<longleftrightarrow> coll_ok run_id (db_runs s) \<and> coll_ok cp_key (db_checkpoints s) \<and> run_keys_ok (db_runs s) \<and>
     list_all run_ok (db_runs s) \<and> list_all cp_ok (db_checkpoints s) \<and> results_ok (db_results s)"

definition good :: "db \<Rightarrow> db \<Rightarrow> bool" where
  "good s s' \<longleftrightarrow> (sched_inv s \<longrightarrow> sched_inv s' \<and> progress s s')"

section \<open>Facts: what single updates preserve\<close>

lemma evolves_refl [simp]: "evolves r r"
  by (simp add: evolves_def)

lemma evolves_trans: "evolves a b \<Longrightarrow> evolves b c \<Longrightarrow> evolves a c"
  unfolding evolves_def by (metis run_life.moves_trans)

lemma evolves_legal: "run_identity r' = run_identity r \<Longrightarrow> legal_move (run_status r) (run_status r') \<Longrightarrow> evolves r r'"
  by (simp add: evolves_def run_life.moves_step)

lemma evolves_same: "run_identity r' = run_identity r \<Longrightarrow> run_status r' = run_status r \<Longrightarrow> evolves r r'"
  by (simp add: evolves_def)

lemma progress_refl [simp]: "progress s s"
  by (simp add: progress_def)

lemma progress_trans: "progress a b \<Longrightarrow> progress b c \<Longrightarrow> progress a c"
  unfolding progress_def by (meson evolves_trans order_trans order_less_le_trans subset_trans)

lemma good_refl [simp]: "good s s"
  by (simp add: good_def)

lemma good_trans: "good a b \<Longrightarrow> good b c \<Longrightarrow> good a c"
  unfolding good_def by (meson progress_trans)

lemma good_same:
  "db_runs s' = db_runs s \<Longrightarrow> db_checkpoints s' = db_checkpoints s \<Longrightarrow> db_results s' = db_results s \<Longrightarrow> good s s'"
  by (simp add: good_def sched_inv_def progress_def)

lemma good_run_cas:
  assumes "\<And>r. run_ok r \<Longrightarrow> r \<in> set (db_runs s) \<Longrightarrow> run_id r = rid \<Longrightarrow> g r \<Longrightarrow> run_ok (f r) \<and> evolves r (f r)"
  shows "good s (run_cas rid g f s)"
  unfolding good_def
proof
  assume inv: "sched_inv s"
  define h where "h = (\<lambda>d. if run_id d = rid \<and> g d then f d else d)"
  have runs_eq: "db_runs (run_cas rid g f s) = map h (db_runs s)"
    by (simp add: run_cas_def coll_cas_def update_where_def h_def)
  have each: "run_ok (h r) \<and> evolves r (h r)" if "r \<in> set (db_runs s)" for r
    using assms [of r] inv that by (auto simp: sched_inv_def list_all_iff h_def)
  then have ids: "run_id (h r) = run_id r \<and> run_idempotency_key (h r) = run_idempotency_key r"
    if "r \<in> set (db_runs s)" for r
    using that by (fastforce simp: evolves_def run_identity_def)
  define runs where "runs = map h (db_runs s)"
  have "map run_id runs = map run_id (db_runs s)"
    and "map run_idempotency_key runs = map run_idempotency_key (db_runs s)"
    using ids by (simp_all add: runs_def)
  moreover have "list_all run_ok runs"
    using each by (auto simp: runs_def list_all_iff)
  moreover have "db_runs (run_cas rid g f s) = runs" "db_checkpoints (run_cas rid g f s) = db_checkpoints s"
    "db_results (run_cas rid g f s) = db_results s"
    by (simp_all add: runs_eq runs_def) (simp_all add: run_cas_def)
  ultimately have "sched_inv (run_cas rid g f s)"
    using inv by (simp add: sched_inv_def coll_ok_def run_keys_ok_def)
  moreover have "progress s (run_cas rid g f s)"
    using each by (simp add: progress_def runs_eq) (simp add: run_cas_def)
  ultimately show "sched_inv (run_cas rid g f s) \<and> progress s (run_cas rid g f s)" ..
qed

lemma good_update_checkpoints:
  assumes "\<And>cp. cp_ok cp \<Longrightarrow> q cp \<Longrightarrow> cp_ok (f cp) \<and> cp_key (f cp) = cp_key cp"
  shows "good s (update_checkpoints q f s)"
  unfolding good_def
proof
  assume inv: "sched_inv s"
  define h where "h = (\<lambda>d. if q d then f d else d)"
  have each: "cp_ok (h cp) \<and> cp_key (h cp) = cp_key cp" if "cp \<in> set (db_checkpoints s)" for cp
    using assms [of cp] inv that by (auto simp: sched_inv_def list_all_iff h_def)
  define cps where "cps = map h (db_checkpoints s)"
  have "map cp_key cps = map cp_key (db_checkpoints s)" "list_all cp_ok cps"
    using each by (simp_all add: cps_def list_all_iff)
  moreover have "db_checkpoints (update_checkpoints q f s) = cps"
    by (simp add: update_checkpoints_def update_where_def cps_def h_def)
  ultimately show "sched_inv (update_checkpoints q f s) \<and> progress s (update_checkpoints q f s)"
    using inv by (simp add: sched_inv_def coll_ok_def progress_def) (simp add: update_checkpoints_def)
qed

lemma good_wake [simp]: "good s (wake rid s)"
  by (rule good_same) (simp_all add: wake_def)

lemma good_sync [simp]: "good s (sync_parameter_relations now run status reason s)"
  by (rule good_same) (simp_all add: sync_parameter_relations_def)

lemma cp_ok_reset [simp]: "cp_ok (reset_checkpoint now cp)" "cp_key (reset_checkpoint now cp) = cp_key cp"
  by (simp_all add: cp_ok_def reset_checkpoint_def cp_key_def)

lemma cp_ok_cancel [simp]: "cp_ok (cancel_checkpoint now reason cp)" "cp_key (cancel_checkpoint now reason cp) = cp_key cp"
  by (simp_all add: cp_ok_def cancel_checkpoint_def cp_key_def)

lemmas run_defs = run_ok_def run_identity_def lease_cleared_def requeue_def

section \<open>Facts: every operation keeps the invariant and only moves runs forward\<close>

lemma good_claim:
  assumes "claim_next_execution now token worker queue lease s = Inr (s', r)"
  shows "good s s'"
proof -
  have "good s (run_cas rid (claimable queue) (claim_update now token worker lease) s)" for rid
    by (rule good_run_cas)
      (auto simp: claimable_def claim_update_def run_defs legal_move_def intro!: evolves_legal)
  with assms show ?thesis
    by (auto simp: claim_next_execution_def sbind_Inr_iff Let_def split: list.splits)
qed

lemma good_heartbeat: "good s (fst (heartbeat_execution now rid token lease s))"
  unfolding heartbeat_execution_def fst_conv
  by (rule good_run_cas) (auto simp: heartbeat_guard_def leased_def run_defs intro!: evolves_same)

lemma good_cancel_checkpoints: "good s (cancel_checkpoints now reason rid s)"
  unfolding cancel_checkpoints_def by (rule good_update_checkpoints) simp

lemma db_runs_update_checkpoints [simp]: "db_runs (update_checkpoints q f s) = db_runs s"
  by (simp add: update_checkpoints_def)

lemma good_finalize:
  assumes "\<And>r. r \<in> set (db_runs s) \<Longrightarrow> run_id r = rid \<Longrightarrow> run_status r \<notin> FINAL_RUN_STATUSES"
  shows "good s (finalize_cancelled_run now reason rid s)"
proof -
  have can: "legal_move st CANCELLED" if "st \<notin> FINAL_RUN_STATUSES" for st
    using that by (cases st) (auto simp: legal_move_def FINAL_RUN_STATUSES_def)
  have "legal_move (run_status r) CANCELLED" if "r \<in> set (db_runs s)" "run_id r = rid" for r
    using assms [OF that] by (rule can)
  then have "good (cancel_checkpoints now reason rid s) (finalize_cancelled_run now reason rid s)"
    unfolding finalize_cancelled_run_def Let_def
    by (intro good_run_cas conjI evolves_legal) (simp_all add: cancel_checkpoints_def run_defs)
  with good_cancel_checkpoints show ?thesis by (rule good_trans)
qed

lemma run_get_unique:
  "coll_ok run_id (db_runs s) \<Longrightarrow> run_get rid s = Some r \<Longrightarrow> r' \<in> set (db_runs s) \<Longrightarrow> run_id r' = rid \<Longrightarrow> r' = r"
  unfolding run_get_def by (metis coll_get_in option.inject)

lemma managed_get_Some: "managed_get rid s = Some r \<longleftrightarrow> run_get rid s = Some r \<and> run_scheduler_managed r"
  by (auto simp: managed_get_def split: option.splits)

lemma good_if_inv: "(sched_inv s \<Longrightarrow> good s s') \<Longrightarrow> good s s'"
  by (auto simp: good_def)

lemma good_cancel: "good s (fst (request_execution_cancel now rid reason s))"
proof (rule good_if_inv)
  assume inv: "sched_inv s"
  show ?thesis
  proof (cases "managed_get rid s")
    case (Some run)
    then have run: "run_get rid s = Some run" by (simp add: managed_get_Some)
    have "good s (run_cas rid (\<lambda>r. run_status r = RUNNING) (\<lambda>r. r\<lparr>run_status := CANCEL_REQUESTED,
        run_cancel_reason := reason, run_updated_at := now\<rparr>) s)"
      by (rule good_run_cas) (auto simp: run_defs legal_move_def intro!: evolves_legal)
    moreover have "good s (finalize_cancelled_run now reason rid s)" if "run_status run \<notin> FINAL_RUN_STATUSES"
      using run_get_unique [OF _ run] inv that by (intro good_finalize) (auto simp: sched_inv_def)
    ultimately show ?thesis using Some by (auto simp: request_execution_cancel_def Let_def)
  qed (simp add: request_execution_cancel_def)
qed

lemma good_resume: "good s (fst (resume_execution now rid s))"
proof -
  have "good s (run_cas rid (\<lambda>r. run_status r = PAUSED) (\<lambda>r. (requeue now r)\<lparr>run_last_error_type := None\<rparr>) s)"
    by (rule good_run_cas) (auto simp: run_defs legal_move_def intro!: evolves_legal)
  then have "good s (wake rid (sync_parameter_relations now run a b
      (run_cas rid (\<lambda>r. run_status r = PAUSED) (\<lambda>r. (requeue now r)\<lparr>run_last_error_type := None\<rparr>) s)))" for run a b
    by (meson good_trans good_sync good_wake)
  then show ?thesis by (auto simp: resume_execution_def Let_def split: option.splits)
qed

lemma good_resume_auth: "good s (fst (resume_auth_dependency parse now run_ref revision s))"
proof -
  let ?f = "\<lambda>r. (requeue now r)\<lparr>run_last_error_type := None, run_pause_code := None, run_dependency_type := None,
    run_dependency_id := None, run_dependency_revision_id := None\<rparr>"
  have "good s (run_cas rid (auth_paused_on revision) ?f s)" for rid
    by (rule good_run_cas) (auto simp: auth_paused_on_def run_defs legal_move_def intro!: evolves_legal)
  then have "good s (wake rid (sync_parameter_relations now run a b (run_cas rid (auth_paused_on revision) ?f s)))"
    for run a b rid
    by (meson good_trans good_sync good_wake)
  then show ?thesis by (auto simp: resume_auth_dependency_def Let_def split: option.splits)
qed

lemma good_refresh: "good s (refresh_counts rid s)"
  unfolding refresh_counts_def by (rule good_run_cas) (auto simp: run_defs intro!: evolves_same)

lemma good_release_run:
  assumes "\<And>r. g r \<Longrightarrow> run_status r = RUNNING"
    and "\<And>r. run_identity (f r) = run_identity r \<and> run_status (f r) = run_status r"
  shows "good s (fst (release_run now q g f rid s))"
proof -
  let ?s1 = "update_checkpoints (\<lambda>cp. cp_run_id cp = rid \<and> cp_status cp = CP_RUNNING \<and> q cp) (reset_checkpoint now) s"
  have "good s ?s1" by (rule good_update_checkpoints) simp
  moreover have "good ?s1 (run_cas rid g (\<lambda>r. lease_cleared (f (requeue now r))) ?s1)"
  proof (rule good_run_cas)
    fix r assume r: "run_ok r" "g r"
    have f: "run_identity (f (requeue now r)) = run_identity r" "run_status (f (requeue now r)) = QUEUED"
      using assms(2) [of "requeue now r"] by (simp_all add: run_identity_def requeue_def)
    then have "run_ok (lease_cleared (f (requeue now r)))" by (simp add: run_ok_def lease_cleared_def)
    moreover have "evolves r (lease_cleared (f (requeue now r)))"
      using f assms(1) [OF r(2)]
      by (intro evolves_legal) (simp_all add: run_identity_def lease_cleared_def legal_move_def)
    ultimately show "run_ok (lease_cleared (f (requeue now r))) \<and> evolves r (lease_cleared (f (requeue now r)))" ..
  qed
  ultimately have "good s (wake rid (refresh_counts rid (run_cas rid g (\<lambda>r. lease_cleared (f (requeue now r))) ?s1)))"
    by (meson good_trans good_refresh good_wake)
  with \<open>good s ?s1\<close> show ?thesis by (simp add: release_run_def Let_def)
qed

lemma good_recover_expired_run: "good s (fst (recover_expired_run now run s))"
  unfolding recover_expired_run_def Let_def by (rule good_release_run) auto

lemma good_recover_orphaned_run: "good s (fst (recover_orphaned_run now cutoff run s))"
  unfolding recover_orphaned_run_def
  by (rule good_release_run) (auto simp: orphaned_run_def run_identity_def)

lemma good_expire_legacy: "good s (fst (expire_legacy_run now cutoff run s))"
  unfolding expire_legacy_run_def fst_conv
  by (rule good_run_cas) (auto simp: legacy_run_def run_defs legal_move_def intro!: evolves_legal)

lemma good_for_each: "(\<And>r s. r \<in> set rs \<Longrightarrow> good s (fst (f r s))) \<Longrightarrow> good s (fst (for_each f rs s))"
proof (induction rs arbitrary: s)
  case (Cons r rs)
  have "good s (fst (f r s))" "good (fst (f r s)) (fst (for_each f rs (fst (f r s))))"
    using Cons by auto
  from good_trans [OF this] show ?case
    by (cases "f r s"; cases "for_each f rs (fst (f r s))") simp
qed simp

lemma good_ensure:
  assumes "ensure_checkpoints now run ss (db_checkpoints s) = Inr cps"
  shows "good s (s\<lparr>db_checkpoints := cps\<rparr>)"
proof -
  from assms obtain hosts where cps: "cps = coll_add_all cp_key (batch_checkpoints now run ss hosts) (db_checkpoints s)"
    by (auto simp: ensure_eq)
  have "cp_ok cp" if "cp \<in> set (batch_checkpoints now run ss hosts)" for cp
    using that by (auto simp: batch_checkpoints_def new_checkpoint_def cp_ok_def)
  then have "list_all cp_ok cps" if "list_all cp_ok (db_checkpoints s)"
    using that set_coll_add_all(2) [of cp_key "batch_checkpoints now run ss hosts" "db_checkpoints s"]
    unfolding cps list_all_iff by blast
  then show ?thesis
    by (simp add: good_def sched_inv_def progress_def cps coll_ok_add_all)
qed

lemma good_recover_preparing:
  assumes "recover_preparing now run s = Inr (s', a, b)"
  shows "good s s'"
proof (cases "run_snapshot_ids run = [] \<or>
    length (filter (\<lambda>sn. sn_id sn \<in> set (run_snapshot_ids run)) (db_snapshots s)) \<noteq> length (run_snapshot_ids run)")
  case True
  have "good s (run_cas (run_id run) (\<lambda>r. run_status r = PREPARING) (\<lambda>r. r\<lparr>run_status := FAILED,
      run_last_error_type := Some ''PreparingSnapshotsUnavailable'', run_finished_at := Some now,
      run_updated_at := now\<rparr>) s)"
    by (rule good_run_cas) (auto simp: run_defs legal_move_def intro!: evolves_legal)
  with assms True show ?thesis by (simp add: recover_preparing_def Let_def)
next
  case False
  let ?f = "\<lambda>r. (requeue now r)\<lparr>run_total_cases := length (run_snapshot_ids run),
    run_counts := (run_counts r)\<lparr>pending_cases := length (run_snapshot_ids run)\<rparr>\<rparr>"
  from assms False obtain ss cps where cps: "ensure_checkpoints now run ss (db_checkpoints s) = Inr cps"
    and s': "s' = run_cas (run_id run) (\<lambda>r. run_status r = PREPARING) ?f (s\<lparr>db_checkpoints := cps\<rparr>) \<or>
      s' = wake (run_id run) (run_cas (run_id run) (\<lambda>r. run_status r = PREPARING) ?f (s\<lparr>db_checkpoints := cps\<rparr>))"
    by (auto simp: recover_preparing_def Let_def sbind_Inr_iff split: if_splits)
  have "good s1 (run_cas (run_id run) (\<lambda>r. run_status r = PREPARING) ?f s1)" for s1
    by (rule good_run_cas) (auto simp: run_defs legal_move_def intro!: evolves_legal)
  then show ?thesis using s' good_ensure [OF cps] by (meson good_trans good_wake)
qed

lemma good_recover_all_preparing:
  "recover_all_preparing now rs s = Inr (s', a, b) \<Longrightarrow> good s s'"
proof (induction rs arbitrary: s s' a b)
  case (Cons r rs)
  then obtain s1 a1 b1 a2 b2 where "recover_preparing now r s = Inr (s1, a1, b1)"
    "recover_all_preparing now rs s1 = Inr (s', a2, b2)"
    by (auto simp: sbind_Inr_iff)
  then show ?case using good_recover_preparing Cons.IH good_trans by blast
qed simp

section \<open>Facts: what recovery reaches and what it spares\<close>

definition active :: "run_status \<Rightarrow> bool" where
  "active st \<longleftrightarrow> st \<in> {PREPARING, RUNNING, CANCEL_REQUESTED}"

text \<open>The step made no run active that was not there before, as it was.\<close>

definition settles :: "db \<Rightarrow> db \<Rightarrow> bool" where
  "settles s s' \<longleftrightarrow> (\<forall>d \<in> set (db_runs s'). active (run_status d) \<longrightarrow> d \<in> set (db_runs s))"

text \<open>The step wrote only to the run \<open>rid\<close> and its checkpoints.\<close>

definition only_run :: "oid \<Rightarrow> db \<Rightarrow> db \<Rightarrow> bool" where
  "only_run rid s s' \<longleftrightarrow> (\<forall>d \<in> set (db_runs s). run_id d \<noteq> rid \<longrightarrow> d \<in> set (db_runs s')) \<and>
     (\<forall>k. k \<noteq> rid \<longrightarrow> checkpoints_of k s' = checkpoints_of k s)"

lemma settles_refl [simp]: "settles s s"
  by (simp add: settles_def)

lemma settles_trans: "settles a b \<Longrightarrow> settles b c \<Longrightarrow> settles a c"
  unfolding settles_def by blast

lemma only_run_refl [simp]: "only_run rid s s"
  by (simp add: only_run_def)

lemma only_run_trans: "only_run rid a b \<Longrightarrow> only_run rid b c \<Longrightarrow> only_run rid a c"
  unfolding only_run_def by (metis (no_types, lifting))

lemma runs_run_cas: "set (db_runs (run_cas rid g f s)) = (\<lambda>d. if run_id d = rid \<and> g d then f d else d) ` set (db_runs s)"
  by (simp add: run_cas_def coll_cas_def set_update_where)

lemma checkpoints_run_cas [simp]: "db_checkpoints (run_cas rid g f s) = db_checkpoints s"
  "checkpoints_of k (run_cas rid g f s) = checkpoints_of k s"
  by (simp_all add: run_cas_def checkpoints_of_def)

lemma parts_wake [simp]: "db_runs (wake rid s) = db_runs s" "db_checkpoints (wake rid s) = db_checkpoints s"
  "checkpoints_of k (wake rid s) = checkpoints_of k s"
  by (simp_all add: wake_def checkpoints_of_def)

lemma settles_run_cas:
  assumes "\<And>d. d \<in> set (db_runs s) \<Longrightarrow> run_id d = rid \<Longrightarrow> g d \<Longrightarrow> \<not> active (run_status (f d))"
  shows "settles s (run_cas rid g f s)"
  using assms unfolding settles_def runs_run_cas by auto

lemma only_run_cas: "only_run rid s (run_cas rid g f s)"
  unfolding only_run_def runs_run_cas by force

lemma only_run_update_checkpoints:
  assumes "\<And>cp. q cp \<Longrightarrow> cp_run_id cp = rid" "\<And>cp. q cp \<Longrightarrow> cp_run_id (f cp) = rid"
  shows "only_run rid s (update_checkpoints q f s)"
proof -
  have "filter (\<lambda>cp. cp_run_id cp = k) (update_where q f cps) = filter (\<lambda>cp. cp_run_id cp = k) cps"
    if "k \<noteq> rid" for k cps
    using that assms by (induction cps) auto
  then show ?thesis by (simp add: only_run_def update_checkpoints_def checkpoints_of_def)
qed

lemma settles_update_checkpoints [simp]: "settles s (update_checkpoints q f s)"
  by (simp add: settles_def)

lemma parts_same: "db_runs s' = db_runs s \<Longrightarrow> settles s s'"
  by (simp add: settles_def)

lemma only_run_wake [simp]: "only_run rid s (wake k s)"
  by (simp add: only_run_def)

lemma only_release_run: "only_run rid s (fst (release_run now q g f rid s))"
proof -
  let ?s1 = "update_checkpoints (\<lambda>cp. cp_run_id cp = rid \<and> cp_status cp = CP_RUNNING \<and> q cp) (reset_checkpoint now) s"
  let ?s2 = "run_cas rid g (\<lambda>r. lease_cleared (f (requeue now r))) ?s1"
  have "only_run rid s ?s1" by (rule only_run_update_checkpoints) (auto simp: reset_checkpoint_def)
  moreover have "only_run rid ?s1 ?s2" by (rule only_run_cas)
  moreover have "only_run rid ?s2 (wake rid (refresh_counts rid ?s2))"
    unfolding refresh_counts_def by (rule only_run_trans [OF only_run_cas only_run_wake])
  ultimately show ?thesis unfolding release_run_def Let_def
    by (auto intro: only_run_trans)
qed

lemma coll_unique: "coll_ok key ds \<Longrightarrow> d \<in> set ds \<Longrightarrow> e \<in> set ds \<Longrightarrow> key d = key e \<Longrightarrow> d = e"
  by (metis coll_get_in option.inject)

lemma run_cas_target:
  assumes "coll_ok run_id (db_runs s)" "r \<in> set (db_runs s)" "run_id r = rid" "g r" "\<And>d. run_id (h d) = run_id d"
    and "e \<in> set (db_runs (run_cas rid g h s))" "run_id e = rid"
  shows "e = h r"
proof -
  from assms(6) obtain d where d: "d \<in> set (db_runs s)" "e = (if run_id d = rid \<and> g d then h d else d)"
    by (auto simp: runs_run_cas)
  with assms(5,7) have "run_id d = rid" by (auto split: if_splits)
  with coll_unique [OF assms(1) d(1) assms(2)] assms(3) have "d = r" by simp
  with d(2) assms(3,4) show ?thesis by simp
qed

lemma release_run_won:
  assumes "coll_ok run_id (db_runs s)" "\<And>r. run_status (f r) = run_status r" "\<And>r. run_id (f r) = run_id r"
    and "r \<in> set (db_runs s)" "run_id r = rid" "g r"
  shows "settles s (fst (release_run now q g f rid s))"
    and "e \<in> set (db_runs (fst (release_run now q g f rid s))) \<Longrightarrow> run_id e = rid \<Longrightarrow> run_status e = QUEUED"
proof -
  define s1 where "s1 = update_checkpoints (\<lambda>cp. cp_run_id cp = rid \<and> cp_status cp = CP_RUNNING \<and> q cp) (reset_checkpoint now) s"
  define h where "h = (\<lambda>r. lease_cleared (f (requeue now r)))"
  have h: "run_status (h d) = QUEUED" "run_id (h d) = run_id d" for d
    using assms(2,3) [of "requeue now d"] by (simp_all add: h_def lease_cleared_def requeue_def)
  have runs1: "db_runs s1 = db_runs s" by (simp add: s1_def)
  have "run_won rid g s1"
    using assms(4-6) by (auto simp: run_won_def coll_won_def exists_where_iff runs1)
  then have res: "fst (release_run now q g f rid s) = wake rid (refresh_counts rid (run_cas rid g h s1))"
    by (simp add: release_run_def Let_def s1_def h_def)
  have target: "e = h r" if "e \<in> set (db_runs (run_cas rid g h s1))" "run_id e = rid" for e
    using run_cas_target [of s1 r rid g h e] assms(1,4-6) h(2) that by (simp add: runs1)
  have last: "run_status e = QUEUED" if "e \<in> set (db_runs (refresh_counts rid (run_cas rid g h s1)))" "run_id e = rid" for e
  proof -
    from that(1) obtain x n where x: "x \<in> set (db_runs (run_cas rid g h s1))" "e = x \<or> e = x\<lparr>run_counts := n\<rparr>"
      by (auto simp: refresh_counts_def runs_run_cas [of rid "\<lambda>_. True"] split: if_splits)
    with that(2) have "run_id x = rid" by auto
    with target x(1) have "x = h r" by blast
    with h(1) [of r] have "run_status x = QUEUED" by simp
    with x(2) show ?thesis by auto
  qed
  show "settles s (fst (release_run now q g f rid s))"
    unfolding res settles_def
  proof (intro ballI impI)
    fix d assume d: "d \<in> set (db_runs (wake rid (refresh_counts rid (run_cas rid g h s1))))" "active (run_status d)"
    with last have "run_id d \<noteq> rid" by (auto simp: active_def)
    with d(1) have "d \<in> set (db_runs (run_cas rid g h s1))"
      by (auto simp: refresh_counts_def runs_run_cas [of rid "\<lambda>_. True"] split: if_splits)
    with \<open>run_id d \<noteq> rid\<close> h(2) show "d \<in> set (db_runs s)"
      by (auto simp: runs_run_cas runs1 split: if_splits)
  qed
  show "run_status e = QUEUED" if "e \<in> set (db_runs (fst (release_run now q g f rid s)))" "run_id e = rid"
    using last [of e] that by (simp add: res)
qed

lemma settle_release_run:
  assumes "coll_ok run_id (db_runs s)" "\<And>r. run_status (f r) = run_status r" "\<And>r. run_id (f r) = run_id r"
  shows "settles s (fst (release_run now q g f rid s))"
    and "r \<in> set (db_runs s) \<Longrightarrow> run_id r = rid \<Longrightarrow> g r \<Longrightarrow> active (run_status r) \<Longrightarrow>
      r \<notin> set (db_runs (fst (release_run now q g f rid s)))"
proof -
  show "settles s (fst (release_run now q g f rid s))"
  proof (cases "\<exists>r \<in> set (db_runs s). run_id r = rid \<and> g r")
    case True
    then show ?thesis using release_run_won(1) [OF assms] by blast
  next
    case False
    then have "\<not> run_won rid g (update_checkpoints (\<lambda>cp. cp_run_id cp = rid \<and> cp_status cp = CP_RUNNING \<and> q cp)
        (reset_checkpoint now) s)"
      by (auto simp: run_won_def coll_won_def exists_where_iff)
    then show ?thesis by (simp add: release_run_def Let_def)
  qed
  show "r \<notin> set (db_runs (fst (release_run now q g f rid s)))"
    if r: "r \<in> set (db_runs s)" "run_id r = rid" "g r" "active (run_status r)"
    using release_run_won(2) [where s = s and f = f and r = r and rid = rid and g = g and e = r and now = now and q = q]
      assms r by (auto simp: active_def)
qed

text \<open>
  One iteration of a recovery loop: it keeps the invariant, settles, writes only to its own run, and
  the run it was called for, still being as it was read, is gone afterwards. \<open>chain\<close> is the loop.
\<close>

definition recovers :: "(security_test_run \<Rightarrow> bool) \<Rightarrow> (security_test_run \<Rightarrow> db \<Rightarrow> db \<Rightarrow> bool) \<Rightarrow> bool" where
  "recovers P iter \<longleftrightarrow> (\<forall>r s s'. sched_inv s \<longrightarrow> r \<in> set (db_runs s) \<longrightarrow> P r \<longrightarrow> iter r s s' \<longrightarrow>
     good s s' \<and> settles s s' \<and> only_run (run_id r) s s' \<and> r \<notin> set (db_runs s'))"

lemma recoversI:
  assumes "\<And>r s s'. sched_inv s \<Longrightarrow> r \<in> set (db_runs s) \<Longrightarrow> P r \<Longrightarrow> iter r s s' \<Longrightarrow>
    good s s' \<and> settles s s' \<and> only_run (run_id r) s s' \<and> r \<notin> set (db_runs s')"
  shows "recovers P iter"
  unfolding recovers_def by (intro allI impI) (rule assms)

lemma recoversD:
  assumes "recovers P iter" "sched_inv s" "r \<in> set (db_runs s)" "P r" "iter r s s'"
  shows "sched_inv s'" "progress s s'" "settles s s'" "only_run (run_id r) s s'" "r \<notin> set (db_runs s')"
  using assms unfolding recovers_def good_def by blast+

fun chain :: "(security_test_run \<Rightarrow> db \<Rightarrow> db \<Rightarrow> bool) \<Rightarrow> security_test_run list \<Rightarrow> db \<Rightarrow> db \<Rightarrow> bool" where
  "chain iter [] s s' = (s' = s)"
| "chain iter (r # rs) s s' = (\<exists>s1. iter r s s1 \<and> chain iter rs s1 s')"

lemma chain_for_each: "chain (\<lambda>r s s'. s' = fst (f r s)) rs s (fst (for_each f rs s))"
proof (induction rs arbitrary: s)
  case (Cons r rs)
  have "fst (for_each f (r # rs) s) = fst (for_each f rs (fst (f r s)))"
    by (cases "f r s"; cases "for_each f rs (fst (f r s))") simp
  with Cons show ?case by simp
qed simp

lemma chain_preparing:
  "recover_all_preparing now rs s = Inr (s', a, b) \<Longrightarrow>
     chain (\<lambda>r s s'. \<exists>a b. recover_preparing now r s = Inr (s', a, b)) rs s s'"
proof (induction rs arbitrary: s a b)
  case (Cons r rs)
  then obtain s1 a1 b1 a2 b2 where "recover_preparing now r s = Inr (s1, a1, b1)"
    "recover_all_preparing now rs s1 = Inr (s', a2, b2)"
    by (auto simp: sbind_Inr_iff)
  with Cons.IH show ?case by auto
qed simp

definition swept :: "security_test_run list \<Rightarrow> db \<Rightarrow> db \<Rightarrow> bool" where
  "swept rs s s' \<longleftrightarrow> (\<forall>r \<in> set rs. r \<notin> set (db_runs s')) \<and>
     (\<forall>d \<in> set (db_runs s). run_id d \<notin> run_id ` set rs \<longrightarrow> d \<in> set (db_runs s')) \<and>
     (\<forall>k. k \<notin> run_id ` set rs \<longrightarrow> checkpoints_of k s' = checkpoints_of k s)"

lemma chain_recovers:
  assumes "recovers P iter" "sched_inv s" "set rs \<subseteq> {r \<in> set (db_runs s). P r}" "distinct (map run_id rs)"
    and act: "\<And>r. P r \<Longrightarrow> active (run_status r)" and "chain iter rs s s'"
  shows "sched_inv s' \<and> progress s s' \<and> settles s s' \<and> swept rs s s'"
  using assms(2-4,6)
proof (induction rs arbitrary: s)
  case (Cons r rs)
  from Cons.prems(4) obtain s1 where s1: "iter r s s1" "chain iter rs s1 s'" by auto
  have r: "r \<in> set (db_runs s)" "P r" using Cons.prems(2) by auto
  note d = recoversD [OF assms(1) Cons.prems(1) r s1(1)]
  have sub: "set rs \<subseteq> {x \<in> set (db_runs s1). P x}"
  proof
    fix x assume x: "x \<in> set rs"
    with Cons.prems(3) have "run_id x \<noteq> run_id r" by (auto simp: image_iff)
    with x Cons.prems(2) d(4) show "x \<in> {x \<in> set (db_runs s1). P x}" by (auto simp: only_run_def)
  qed
  have dist: "distinct (map run_id rs)" using Cons.prems(3) by simp
  from Cons.IH [OF d(1) sub dist s1(2)]
  have ih: "sched_inv s'" "progress s1 s'" "settles s1 s'" "swept rs s1 s'" by blast+
  have "r \<notin> set (db_runs s')" using ih(3) d(5) act [OF r(2)] by (auto simp: settles_def)
  with ih(4) d(4) have "swept (r # rs) s s'" by (simp add: swept_def only_run_def)
  then show ?case
    by (intro conjI ih(1) progress_trans [OF d(2) ih(2)] settles_trans [OF d(3) ih(3)])
qed (simp add: swept_def)

text \<open>A whole loop: no run of its kind is left, and the others are untouched.\<close>

lemma loop_clears:
  assumes "recovers P iter" "sched_inv s" "\<And>r. P r \<Longrightarrow> active (run_status r)"
    and "chain iter (filter P (db_runs s)) s s'"
  shows "sched_inv s'" "progress s s'" "settles s s'" "\<not> (\<exists>r \<in> set (db_runs s'). P r)"
    "d \<in> set (db_runs s) \<Longrightarrow> \<not> P d \<Longrightarrow> d \<in> set (db_runs s') \<and> checkpoints_of (run_id d) s' = checkpoints_of (run_id d) s"
proof -
  have ok: "coll_ok run_id (db_runs s)" using assms(2) by (simp add: sched_inv_def)
  then have dist: "distinct (map run_id (filter P (db_runs s)))"
    by (simp add: coll_ok_def distinct_map_filter)
  have sub: "set (filter P (db_runs s)) \<subseteq> {r \<in> set (db_runs s). P r}" by auto
  from chain_recovers [OF assms(1,2) sub dist assms(3,4)]
  show "sched_inv s'" "progress s s'" and settle: "settles s s'" by blast+
  from chain_recovers [OF assms(1,2) sub dist assms(3,4)]
  have sw: "swept (filter P (db_runs s)) s s'" by blast
  show "\<not> (\<exists>r \<in> set (db_runs s'). P r)"
  proof
    assume "\<exists>r \<in> set (db_runs s'). P r"
    then obtain r where r: "r \<in> set (db_runs s')" "P r" by blast
    with settle assms(3) have "r \<in> set (filter P (db_runs s))" by (simp add: settles_def)
    with sw r(1) show False unfolding swept_def by blast
  qed
  show "d \<in> set (db_runs s') \<and> checkpoints_of (run_id d) s' = checkpoints_of (run_id d) s"
    if "d \<in> set (db_runs s)" "\<not> P d"
  proof -
    have "run_id d \<notin> run_id ` set (filter P (db_runs s))"
      using that coll_unique [OF ok that(1)] by auto
    with sw that(1) show ?thesis unfolding swept_def by blast
  qed
qed

lemma release_recovers:
  assumes "sched_inv s" "r \<in> set (db_runs s)" "g r"
    and "\<And>r. g r \<Longrightarrow> run_status r = RUNNING"
    and "\<And>r. run_identity (f r) = run_identity r \<and> run_status (f r) = run_status r"
    and s': "s' = fst (release_run now q g f (run_id r) s)"
  shows "good s s' \<and> settles s s' \<and> only_run (run_id r) s s' \<and> r \<notin> set (db_runs s')"
proof -
  have ok: "coll_ok run_id (db_runs s)" using assms(1) by (simp add: sched_inv_def)
  have f: "run_status (f d) = run_status d" "run_id (f d) = run_id d" for d
    using assms(5) [of d] by (simp_all add: run_identity_def)
  have "active (run_status r)" using assms(3,4) by (simp add: active_def)
  then show ?thesis unfolding s'
    by (intro conjI good_release_run only_release_run settle_release_run(1) [OF ok f]
        settle_release_run(2) [OF ok f assms(2) refl, where g = g] assms(3)) (use assms(4,5) in auto)
qed

lemma recovers_expired: "recovers (expired_run now queue) (\<lambda>r s s'. s' = fst (recover_expired_run now r s))"
proof (rule recoversI)
  fix r s s'
  assume inv: "sched_inv s" and r: "r \<in> set (db_runs s)" "expired_run now queue r"
    and s': "s' = fst (recover_expired_run now r s)"
  have "run_ok r" using inv r by (auto simp: sched_inv_def list_all_iff)
  with r(2) obtain t where t: "run_lease_token r = Some t"
    by (auto simp: run_ok_def expired_run_def lease_expired_def split: option.splits)
  show "good s s' \<and> settles s s' \<and> only_run (run_id r) s s' \<and> r \<notin> set (db_runs s')"
    by (rule release_recovers [OF inv r(1) _ _ _ s' [unfolded recover_expired_run_def Let_def t option.case]])
      (use r t in \<open>auto simp: expired_run_def\<close>)
qed

lemma recovers_orphaned:
  "recovers (\<lambda>r. orphaned_run cutoff r \<and> in_queue queue r) (\<lambda>r s s'. s' = fst (recover_orphaned_run now cutoff r s))"
proof (rule recoversI)
  fix r s s'
  assume inv: "sched_inv s" and r: "r \<in> set (db_runs s)" "orphaned_run cutoff r \<and> in_queue queue r"
    and s': "s' = fst (recover_orphaned_run now cutoff r s)"
  show "good s s' \<and> settles s s' \<and> only_run (run_id r) s s' \<and> r \<notin> set (db_runs s')"
    by (rule release_recovers [OF inv r(1) _ _ _ s' [unfolded recover_orphaned_run_def]])
      (use r in \<open>auto simp: orphaned_run_def run_identity_def\<close>)
qed

lemma run_cas_gone:
  assumes "g r" "\<And>d. run_status (f d) \<noteq> run_status r"
  shows "r \<notin> set (db_runs (run_cas (run_id r) g f s))"
proof
  assume "r \<in> set (db_runs (run_cas (run_id r) g f s))"
  then obtain d where "r = (if run_id d = run_id r \<and> g d then f d else d)"
    unfolding runs_run_cas by blast
  with assms show False by (metis (full_types))
qed

lemma recovers_legacy: "recovers (legacy_run cutoff) (\<lambda>r s s'. s' = fst (expire_legacy_run now cutoff r s))"
proof (rule recoversI)
  fix r s s'
  assume r: "r \<in> set (db_runs s)" "legacy_run cutoff r" and s': "s' = fst (expire_legacy_run now cutoff r s)"
  have "settles s s'" unfolding s' expire_legacy_run_def fst_conv
    by (rule settles_run_cas) (simp add: active_def)
  moreover have "only_run (run_id r) s s'" unfolding s' expire_legacy_run_def fst_conv by (rule only_run_cas)
  moreover have "r \<notin> set (db_runs s')"
    unfolding s' expire_legacy_run_def fst_conv using r(2)
    by (intro run_cas_gone) (simp_all add: legacy_run_def)
  ultimately show "good s s' \<and> settles s s' \<and> only_run (run_id r) s s' \<and> r \<notin> set (db_runs s')"
    using good_expire_legacy by (simp add: s')
qed

lemma settles_finalize: "settles s (finalize_cancelled_run now reason rid s)"
  unfolding finalize_cancelled_run_def Let_def cancel_checkpoints_def
  by (rule settles_trans [OF settles_update_checkpoints settles_run_cas]) (simp add: active_def lease_cleared_def)

lemma only_finalize: "only_run rid s (finalize_cancelled_run now reason rid s)"
  unfolding finalize_cancelled_run_def Let_def cancel_checkpoints_def
  by (rule only_run_trans [OF only_run_update_checkpoints only_run_cas]) (auto simp: cancel_checkpoint_def)

lemma recovers_cancelled: "recovers (abandoned_cancel now queue) (\<lambda>r s s'. s' = fst (finish_cancel now r s))"
proof (rule recoversI)
  fix r s s'
  assume inv: "sched_inv s" and r: "r \<in> set (db_runs s)" "abandoned_cancel now queue r"
    and s': "s' = fst (finish_cancel now r s)"
  have st: "run_status r = CANCEL_REQUESTED" using r(2) by (simp add: abandoned_cancel_def)
  have "run_status d \<notin> FINAL_RUN_STATUSES" if "d \<in> set (db_runs s)" "run_id d = run_id r" for d
    using coll_unique [of run_id "db_runs s" d r] that r(1) inv st
    by (auto simp: sched_inv_def FINAL_RUN_STATUSES_def)
  then have "good s s'" unfolding s' finish_cancel_def fst_conv by (rule good_finalize)
  moreover have "r \<notin> set (db_runs s')"
    unfolding s' finish_cancel_def fst_conv finalize_cancelled_run_def Let_def
    by (rule run_cas_gone) (simp_all add: st lease_cleared_def)
  ultimately show "good s s' \<and> settles s s' \<and> only_run (run_id r) s s' \<and> r \<notin> set (db_runs s')"
    using settles_finalize only_finalize by (simp add: s' finish_cancel_def)
qed

lemma recovers_preparing:
  "recovers (stale_preparing now queue) (\<lambda>r s s'. \<exists>a b. recover_preparing now r s = Inr (s', a, b))"
proof (rule recoversI)
  fix r s s'
  assume r: "r \<in> set (db_runs s)" "stale_preparing now queue r"
    and "\<exists>a b. recover_preparing now r s = Inr (s', a, b)"
  then obtain a b where rec: "recover_preparing now r s = Inr (s', a, b)" by blast
  have st: "run_status r = PREPARING" using r(2) by (simp add: stale_preparing_def)
  let ?g = "\<lambda>r. run_status r = PREPARING"
  obtain f s1 where runs: "db_runs s' = db_runs (run_cas (run_id r) ?g f s1)" "db_runs s1 = db_runs s"
    and only: "only_run (run_id r) s s'" and f: "\<And>d. run_status (f d) \<in> {QUEUED, FAILED}"
  proof (cases "run_snapshot_ids r = [] \<or>
      length (filter (\<lambda>sn. sn_id sn \<in> set (run_snapshot_ids r)) (db_snapshots s)) \<noteq> length (run_snapshot_ids r)")
    case True
    with rec show thesis
      by (intro that [of "\<lambda>r. r\<lparr>run_status := FAILED, run_last_error_type := Some ''PreparingSnapshotsUnavailable'',
          run_finished_at := Some now, run_updated_at := now\<rparr>" s])
        (auto simp: recover_preparing_def Let_def only_run_cas)
  next
    case False
    let ?f = "\<lambda>d. (requeue now d)\<lparr>run_total_cases := length (run_snapshot_ids r),
      run_counts := (run_counts d)\<lparr>pending_cases := length (run_snapshot_ids r)\<rparr>\<rparr>"
    from rec False obtain ss cps where cps: "ensure_checkpoints now r ss (db_checkpoints s) = Inr cps"
      and s': "s' = run_cas (run_id r) ?g ?f (s\<lparr>db_checkpoints := cps\<rparr>) \<or>
        s' = wake (run_id r) (run_cas (run_id r) ?g ?f (s\<lparr>db_checkpoints := cps\<rparr>))"
      by (auto simp: recover_preparing_def Let_def sbind_Inr_iff split: if_splits)
    from cps obtain hosts where c: "cps = coll_add_all cp_key (batch_checkpoints now r ss hosts) (db_checkpoints s)"
      by (auto simp: ensure_eq)
    have "filter (\<lambda>cp. cp_run_id cp = k) cps = filter (\<lambda>cp. cp_run_id cp = k) (db_checkpoints s)" if "k \<noteq> run_id r" for k
      unfolding c using that batch_checkpoints_run [of _ now r ss hosts]
      by (intro filter_coll_add_all) auto
    then have "only_run (run_id r) s (s\<lparr>db_checkpoints := cps\<rparr>)"
      by (simp add: only_run_def checkpoints_of_def)
    then have "only_run (run_id r) s s'"
      using s' by (meson only_run_cas only_run_trans only_run_wake)
    with s' show thesis
      by (intro that [of ?f "s\<lparr>db_checkpoints := cps\<rparr>"]) (auto simp: requeue_def)
  qed
  have "settles s1 (run_cas (run_id r) ?g f s1)"
  proof (rule settles_run_cas)
    fix d show "\<not> active (run_status (f d))" using f [of d] by (auto simp: active_def)
  qed
  then have "settles s s'" by (simp add: settles_def runs)
  moreover have "r \<notin> set (db_runs s')"
  proof -
    have "run_status (f d) \<noteq> run_status r" for d using f [of d] st by auto
    then show ?thesis unfolding runs(1) by (intro run_cas_gone) (use st in auto)
  qed
  ultimately show "good s s' \<and> settles s s' \<and> only_run (run_id r) s s' \<and> r \<notin> set (db_runs s')"
    using good_recover_preparing [OF rec] only by blast
qed

text \<open>The five loops of \<open>recover_expired_executions\<close>, one after the other.\<close>

lemma recovery_phases:
  assumes "recover_expired_executions now queue grace stale s = Inr (s', rep)"
  obtains s1 s2 s3 s4 where
    "chain (\<lambda>r s s'. \<exists>a b. recover_preparing now r s = Inr (s', a, b)) (filter (stale_preparing now queue) (db_runs s)) s s1"
    "chain (\<lambda>r s s'. s' = fst (recover_expired_run now r s)) (filter (expired_run now queue) (db_runs s1)) s1 s2"
    "chain (\<lambda>r s s'. s' = fst (recover_orphaned_run now (now - max 60 grace) r s))
      (filter (\<lambda>r. orphaned_run (now - max 60 grace) r \<and> in_queue queue r) (db_runs s2)) s2 s3"
    "chain (\<lambda>r s s'. s' = fst (expire_legacy_run now (now - max 3600 stale) r s))
      (filter (legacy_run (now - max 3600 stale)) (db_runs s3)) s3 s4"
    "chain (\<lambda>r s s'. s' = fst (finish_cancel now r s)) (filter (abandoned_cancel now queue) (db_runs s4)) s4 s'"
proof -
  from assms obtain s1 a b where p: "recover_all_preparing now (filter (stale_preparing now queue) (db_runs s)) s = Inr (s1, a, b)"
    by (auto simp: recover_expired_executions_def sbind_Inr_iff)
  define s2 where "s2 = fst (for_each (recover_expired_run now) (filter (expired_run now queue) (db_runs s1)) s1)"
  define s3 where "s3 = fst (for_each (recover_orphaned_run now (now - max 60 grace))
    (filter (\<lambda>r. orphaned_run (now - max 60 grace) r \<and> in_queue queue r) (db_runs s2)) s2)"
  define s4 where "s4 = fst (for_each (expire_legacy_run now (now - max 3600 stale))
    (filter (legacy_run (now - max 3600 stale)) (db_runs s3)) s3)"
  have s': "s' = fst (for_each (finish_cancel now) (filter (abandoned_cancel now queue) (db_runs s4)) s4)"
    using assms by (auto simp: recover_expired_executions_def p s2_def s3_def s4_def Let_def case_prod_beta)
  show thesis
  proof (rule that [OF chain_preparing [OF p], of s2 s3 s4])
    show "chain (\<lambda>r s s'. s' = fst (recover_expired_run now r s)) (filter (expired_run now queue) (db_runs s1)) s1 s2"
      unfolding s2_def by (rule chain_for_each)
    show "chain (\<lambda>r s s'. s' = fst (recover_orphaned_run now (now - max 60 grace) r s))
        (filter (\<lambda>r. orphaned_run (now - max 60 grace) r \<and> in_queue queue r) (db_runs s2)) s2 s3"
      unfolding s3_def by (rule chain_for_each)
    show "chain (\<lambda>r s s'. s' = fst (expire_legacy_run now (now - max 3600 stale) r s))
        (filter (legacy_run (now - max 3600 stale)) (db_runs s3)) s3 s4"
      unfolding s4_def by (rule chain_for_each)
    show "chain (\<lambda>r s s'. s' = fst (finish_cancel now r s)) (filter (abandoned_cancel now queue) (db_runs s4)) s4 s'"
      unfolding s' by (rule chain_for_each)
  qed
qed

lemma length_run_cas [simp]: "length (db_runs (run_cas rid g f s)) = length (db_runs s)"
  by (simp add: run_cas_def coll_cas_def)

lemma length_release [simp]: "length (db_runs (fst (release_run now q g f rid s))) = length (db_runs s)"
  by (simp add: release_run_def Let_def refresh_counts_def)

lemma length_preparing:
  "recover_preparing now r s = Inr (s', a, b) \<Longrightarrow> length (db_runs s') = length (db_runs s)"
  by (auto simp: recover_preparing_def Let_def sbind_Inr_iff split: if_splits)

lemma chain_length:
  assumes "chain iter rs s s'" "\<And>r s s'. iter r s s' \<Longrightarrow> length (db_runs s') = length (db_runs s)"
  shows "length (db_runs s') = length (db_runs s)"
  using assms(1) by (induction rs arbitrary: s) (auto dest: assms(2))

lemma recovery_length:
  assumes "recover_expired_executions now queue grace stale s = Inr (s', rep)"
  shows "length (db_runs s') = length (db_runs s)"
proof (rule recovery_phases [OF assms], goal_cases)
  case (1 s1 s2 s3 s4)
  have "length (db_runs s1) = length (db_runs s)"
    using 1(1) by (rule chain_length) (auto dest: length_preparing)
  moreover have "length (db_runs s2) = length (db_runs s1)"
    using 1(2) by (rule chain_length) (simp add: recover_expired_run_def Let_def)
  moreover have "length (db_runs s3) = length (db_runs s2)"
    using 1(3) by (rule chain_length) (simp add: recover_orphaned_run_def)
  moreover have "length (db_runs s4) = length (db_runs s3)"
    using 1(4) by (rule chain_length) (simp add: expire_legacy_run_def)
  moreover have "length (db_runs s') = length (db_runs s4)"
    using 1(5) by (rule chain_length)
      (simp add: finish_cancel_def finalize_cancelled_run_def Let_def cancel_checkpoints_def)
  ultimately show ?case by simp
qed

lemma recovery_all:
  assumes "recover_expired_executions now queue grace stale s = Inr (s', rep)" "sched_inv s"
  shows "sched_inv s'" "progress s s'"
    "r \<in> set (db_runs s') \<Longrightarrow> \<not> stale_preparing now queue r \<and> \<not> expired_run now queue r \<and>
      \<not> (orphaned_run (now - max 60 grace) r \<and> in_queue queue r) \<and> \<not> legacy_run (now - max 3600 stale) r \<and>
      \<not> abandoned_cancel now queue r"
    "d \<in> set (db_runs s) \<Longrightarrow> \<not> stale_preparing now queue d \<and> \<not> expired_run now queue d \<and>
      \<not> (orphaned_run (now - max 60 grace) d \<and> in_queue queue d) \<and> \<not> legacy_run (now - max 3600 stale) d \<and>
      \<not> abandoned_cancel now queue d \<Longrightarrow>
      d \<in> set (db_runs s') \<and> checkpoints_of (run_id d) s' = checkpoints_of (run_id d) s"
proof -
  obtain s1 s2 s3 s4 where
    c1: "chain (\<lambda>r s s'. \<exists>a b. recover_preparing now r s = Inr (s', a, b)) (filter (stale_preparing now queue) (db_runs s)) s s1"
    and c2: "chain (\<lambda>r s s'. s' = fst (recover_expired_run now r s)) (filter (expired_run now queue) (db_runs s1)) s1 s2"
    and c3: "chain (\<lambda>r s s'. s' = fst (recover_orphaned_run now (now - max 60 grace) r s))
      (filter (\<lambda>r. orphaned_run (now - max 60 grace) r \<and> in_queue queue r) (db_runs s2)) s2 s3"
    and c4: "chain (\<lambda>r s s'. s' = fst (expire_legacy_run now (now - max 3600 stale) r s))
      (filter (legacy_run (now - max 3600 stale)) (db_runs s3)) s3 s4"
    and c5: "chain (\<lambda>r s s'. s' = fst (finish_cancel now r s)) (filter (abandoned_cancel now queue) (db_runs s4)) s4 s'"
    by (rule recovery_phases [OF assms(1)])
  have act: "stale_preparing now queue r \<Longrightarrow> active (run_status r)" "expired_run now queue r \<Longrightarrow> active (run_status r)"
    "orphaned_run (now - max 60 grace) r \<and> in_queue queue r \<Longrightarrow> active (run_status r)"
    "legacy_run (now - max 3600 stale) r \<Longrightarrow> active (run_status r)"
    "abandoned_cancel now queue r \<Longrightarrow> active (run_status r)" for r
    by (auto simp: active_def stale_preparing_def expired_run_def orphaned_run_def legacy_run_def abandoned_cancel_def)
  note l1 = loop_clears [OF recovers_preparing assms(2) act(1) c1]
  note l2 = loop_clears [OF recovers_expired l1(1) act(2) c2]
  note l3 = loop_clears [OF recovers_orphaned l2(1) act(3) c3]
  note l4 = loop_clears [OF recovers_legacy l3(1) act(4) c4]
  note l5 = loop_clears [OF recovers_cancelled l4(1) act(5) c5]
  show "sched_inv s'" by (rule l5(1))
  show "progress s s'" by (meson l1(2) l2(2) l3(2) l4(2) l5(2) progress_trans)
  show "\<not> stale_preparing now queue r \<and> \<not> expired_run now queue r \<and>
      \<not> (orphaned_run (now - max 60 grace) r \<and> in_queue queue r) \<and> \<not> legacy_run (now - max 3600 stale) r \<and>
      \<not> abandoned_cancel now queue r" if r: "r \<in> set (db_runs s')"
  proof (cases "active (run_status r)")
    case True
    have r4: "r \<in> set (db_runs s4)" using l5(3) r True unfolding settles_def by blast
    have r3: "r \<in> set (db_runs s3)" using l4(3) r4 True unfolding settles_def by blast
    have r2: "r \<in> set (db_runs s2)" using l3(3) r3 True unfolding settles_def by blast
    have r1: "r \<in> set (db_runs s1)" using l2(3) r2 True unfolding settles_def by blast
    from l1(4) l2(4) l3(4) l4(4) l5(4) r r1 r2 r3 r4 show ?thesis by blast
  next
    case False
    with act show ?thesis by blast
  qed
  show "d \<in> set (db_runs s') \<and> checkpoints_of (run_id d) s' = checkpoints_of (run_id d) s"
    if d: "d \<in> set (db_runs s)" and n: "\<not> stale_preparing now queue d \<and> \<not> expired_run now queue d \<and>
      \<not> (orphaned_run (now - max 60 grace) d \<and> in_queue queue d) \<and> \<not> legacy_run (now - max 3600 stale) d \<and>
      \<not> abandoned_cancel now queue d"
  proof -
    have d1: "d \<in> set (db_runs s1) \<and> checkpoints_of (run_id d) s1 = checkpoints_of (run_id d) s"
      using l1(5) d n by blast
    have d2: "d \<in> set (db_runs s2) \<and> checkpoints_of (run_id d) s2 = checkpoints_of (run_id d) s1"
      using l2(5) d1 n by blast
    have d3: "d \<in> set (db_runs s3) \<and> checkpoints_of (run_id d) s3 = checkpoints_of (run_id d) s2"
      using l3(5) d2 n by blast
    have d4: "d \<in> set (db_runs s4) \<and> checkpoints_of (run_id d) s4 = checkpoints_of (run_id d) s3"
      using l4(5) d3 n by blast
    have d5: "d \<in> set (db_runs s') \<and> checkpoints_of (run_id d) s' = checkpoints_of (run_id d) s4"
      using l5(5) d4 n by blast
    with d1 d2 d3 d4 show ?thesis by simp
  qed
qed

section \<open>Facts: claiming, counting, retrying\<close>

lemma run_get_cas:
  assumes "coll_ok run_id (db_runs s)" "\<And>d. run_id (f d) = run_id d"
  shows "run_get k (run_cas rid g f s) =
    (if k = rid then map_option (\<lambda>d. if g d then f d else d) (run_get rid s) else run_get k s)"
  using run_store.get_cas [OF assms, of k rid g] by (simp add: run_get_def run_cas_def)

lemma run_get_in: "coll_ok run_id (db_runs s) \<Longrightarrow> r \<in> set (db_runs s) \<Longrightarrow> run_get (run_id r) s = Some r"
  by (simp add: run_get_def coll_get_in)

lemma claim_update_simps [simp]:
  "run_id (claim_update now token worker lease r) = run_id r"
  "run_status (claim_update now token worker lease r) = RUNNING"
  "run_lease_token (claim_update now token worker lease r) = Some token"
  "run_lease_expires_at (claim_update now token worker lease r) = Some (now + lease)"
  "run_dispatch_attempt (claim_update now token worker lease r) = run_dispatch_attempt r + 1"
  by (simp_all add: claim_update_def)

lemma cancelled_none_left:
  assumes "cp \<in> set (checkpoints_of rid (cancel_checkpoints now reason rid s))"
  shows "cp_status cp \<notin> {CP_PENDING, CP_RUNNING}"
proof -
  have "(cp \<in> cancel_checkpoint now reason ` set (db_checkpoints s) \<or>
      (cp_run_id cp = rid \<longrightarrow> cp_status cp \<notin> {CP_PENDING, CP_RUNNING})) \<and> cp_run_id cp = rid"
    using assms
    by (fastforce simp: checkpoints_of_def cancel_checkpoints_def update_checkpoints_def set_update_where)
  then show ?thesis by (auto simp: cancel_checkpoint_def)
qed

lemma count_total:
  "pending_cases (checkpoint_counts rid s) + running_cases (checkpoint_counts rid s) +
     completed_cases (checkpoint_counts rid s) + failed_cases (checkpoint_counts rid s) +
     skipped_cases (checkpoint_counts rid s) + cancelled_cases (checkpoint_counts rid s) =
   length (checkpoints_of rid s)"
proof -
  have "count_where (\<lambda>cp. cp_run_id cp = rid \<and> cp_status cp = CP_PENDING) cps +
      count_where (\<lambda>cp. cp_run_id cp = rid \<and> cp_status cp = CP_RUNNING) cps +
      count_where (\<lambda>cp. cp_run_id cp = rid \<and> cp_status cp = CP_DONE) cps +
      count_where (\<lambda>cp. cp_run_id cp = rid \<and> cp_status cp = CP_ERROR) cps +
      count_where (\<lambda>cp. cp_run_id cp = rid \<and> cp_status cp = CP_SKIPPED) cps +
      count_where (\<lambda>cp. cp_run_id cp = rid \<and> cp_status cp = CP_CANCELLED) cps =
      length (filter (\<lambda>cp. cp_run_id cp = rid) cps)" for cps
  proof (induction cps)
    case (Cons cp cps)
    then show ?case by (cases "cp_status cp") (auto simp: count_where_Cons)
  qed simp
  then show ?thesis by (simp add: checkpoint_counts_def count_status_def checkpoints_of_def)
qed

section \<open>Properties\<close>

text \<open>C10: recovery is complete: afterwards the queue has no stale preparation, no managed run whose lease
  has expired, no orphan past its grace, no abandoned cancellation and no stale legacy run, every
  run keeps its identity, and the scheduler's invariant still holds.\<close>

theorem recovery_is_complete:
  assumes "recover_expired_executions now queue grace stale s = Inr (s', rep)" "sched_inv s"
  shows "list_all (\<lambda>r. \<not> stale_preparing now queue r \<and> \<not> expired_run now queue r \<and>
      \<not> (orphaned_run (now - max 60 grace) r \<and> in_queue queue r) \<and> \<not> legacy_run (now - max 3600 stale) r \<and>
      \<not> abandoned_cancel now queue r) (db_runs s') \<and>
    map run_identity (db_runs s') = map run_identity (db_runs s) \<and> sched_inv s'"
proof -
  have len: "length (db_runs s') = length (db_runs s)"
    using recovery_length [OF assms(1)] .
  have "map run_identity (db_runs s') = map run_identity (db_runs s)"
    using recovery_all(2) [OF assms] len by (intro nth_equalityI) (auto simp: progress_def evolves_def)
  with recovery_all(1,3) [OF assms] show ?thesis by (simp add: list_all_iff)
qed

text \<open>recovery never takes a run from a live worker: a managed run whose lease is still running is
  left exactly as it is, with all its checkpoints, whether it is running or being cancelled.\<close>

theorem recovery_spares_live_leases:
  assumes "recover_expired_executions now queue grace stale s = Inr (s', rep)" "sched_inv s"
    and "run_get rid s = Some r" "run_lease_expires_at r = Some t" "now < t"
  shows "run_get rid s' = Some r \<and> checkpoints_of rid s' = checkpoints_of rid s"
proof -
  have r: "r \<in> set (db_runs s)" "run_id r = rid"
    using assms(3) coll_get_Some [of run_id rid "db_runs s" r] by (simp_all add: run_get_def)
  then have "run_ok r" using assms(2) by (auto simp: sched_inv_def list_all_iff)
  with assms(4) have "run_scheduler_managed r" "run_status r \<in> {RUNNING, CANCEL_REQUESTED}"
    by (auto simp: run_ok_def)
  with assms(4,5) have "\<not> stale_preparing now queue r \<and> \<not> expired_run now queue r \<and>
      \<not> (orphaned_run (now - max 60 grace) r \<and> in_queue queue r) \<and> \<not> legacy_run (now - max 3600 stale) r \<and>
      \<not> abandoned_cancel now queue r"
    by (auto simp: stale_preparing_def expired_run_def orphaned_run_def legacy_run_def abandoned_cancel_def lease_expired_def)
  with recovery_all(4) [OF assms(1,2) r(1)] r(2)
  have "r \<in> set (db_runs s')" "checkpoints_of rid s' = checkpoints_of rid s" by simp_all
  moreover have "coll_ok run_id (db_runs s')" using recovery_all(1) [OF assms(1,2)] by (simp add: sched_inv_def)
  ultimately show ?thesis using r(2) run_get_in by blast
qed

text \<open>a claim is fair and exclusive: it takes a queued managed run of the worker's queue that no other
  claimable run precedes (higher priority first, then longest queued), puts it under the fresh lease
  with one more dispatch attempt, and touches no other run; it finds none only if there is none.\<close>

theorem claim_is_fair_and_exclusive:
  assumes "claim_next_execution now token worker queue lease s = Inr (s', claimed)" "sched_inv s"
  shows "(case claimed of
      None \<Rightarrow> s' = s \<and> list_all (\<lambda>r. \<not> claimable queue r) (db_runs s)
    | Some c \<Rightarrow> (\<exists>r. run_get (run_id c) s = Some r \<and> claimable queue r \<and>
        c = claim_update now token worker lease r \<and> run_get (run_id c) s' = Some c \<and>
        list_all (\<lambda>q. claimable queue q \<longrightarrow> claim_order r \<le> claim_order q) (db_runs s) \<and>
        (\<forall>k. k \<noteq> run_id c \<longrightarrow> run_get k s' = run_get k s)))"
proof -
  have ok: "coll_ok run_id (db_runs s)" using assms(2) by (simp add: sched_inv_def)
  define cands where "cands = sort_key claim_order (filter (claimable queue) (db_runs s))"
  have body: "(case cands of [] \<Rightarrow> Inr (s, None)
      | r # _ \<Rightarrow> let s' = run_cas (run_id r) (claimable queue) (claim_update now token worker lease) s
          in Inr (s', run_get (run_id r) s')) = (Inr (s', claimed) :: (db \<times> security_test_run option) result_of)"
    using assms(1) unfolding claim_next_execution_def cands_def by (auto simp: sbind_Inr_iff)
  show ?thesis
  proof (cases cands)
    case Nil
    then have "filter (claimable queue) (db_runs s) = []" by (simp add: cands_def)
    with body Nil show ?thesis by (auto simp: list_all_iff filter_empty_conv)
  next
    case (Cons r rest)
    have "set cands = {q \<in> set (db_runs s). claimable queue q}" by (auto simp: cands_def)
    with Cons have r: "r \<in> set (db_runs s)" "claimable queue r" by auto
    have "sorted (map claim_order cands)" by (simp add: cands_def)
    with Cons \<open>set cands = _\<close> have least: "claim_order r \<le> claim_order q"
      if "q \<in> set (db_runs s)" "claimable queue q" for q
      using that by (cases "q = r") auto
    have get: "run_get k (run_cas (run_id r) (claimable queue) (claim_update now token worker lease) s) =
        (if k = run_id r then Some (claim_update now token worker lease r) else run_get k s)" for k
      using run_get_cas [OF ok, of "claim_update now token worker lease" k "run_id r" "claimable queue"]
        run_get_in [OF ok r(1)] r(2) by simp
    from body Cons have s': "s' = run_cas (run_id r) (claimable queue) (claim_update now token worker lease) s"
      and c: "claimed = run_get (run_id r) s'" by (auto simp: Let_def)
    have "claimed = Some (claim_update now token worker lease r)" using c get by (simp add: s')
    then show ?thesis
      using run_get_in [OF ok r(1)] r(2) least get by (auto simp: s' list_all_iff)
  qed
qed

text \<open>cancelling is immediate when nobody runs the batch and cooperative otherwise: a managed run
  that is preparing, queued or paused is cancelled with all its unfinished checkpoints, a running one is
  only asked to stop and keeps its lease and checkpoints, one that has ended stays as it is.\<close>

theorem cancel_by_status:
  assumes "managed_get rid s = Some r" "request_execution_cancel now rid reason s = (s', r')" "sched_inv s"
  shows "if run_status r \<in> FINAL_RUN_STATUSES \<union> {CANCEL_REQUESTED} then r' = Some r \<and> run_get rid s' = Some r
    else if run_status r = RUNNING
      then r' = Some (r\<lparr>run_status := CANCEL_REQUESTED, run_cancel_reason := reason, run_updated_at := now\<rparr>) \<and>
        db_checkpoints s' = db_checkpoints s
    else (\<exists>c. r' = Some c \<and> run_status c = CANCELLED \<and> run_lease_token c = None \<and>
      list_all (\<lambda>cp. cp_status cp \<notin> {CP_PENDING, CP_RUNNING}) (checkpoints_of rid s') \<and>
      run_counts c = checkpoint_counts rid s')"
proof -
  have ok: "coll_ok run_id (db_runs s)" using assms(3) by (simp add: sched_inv_def)
  have get: "run_get rid s = Some r" "run_scheduler_managed r" using assms(1) by (simp_all add: managed_get_Some)
  have stay: "run_get rid (run_cas rid g f s) = Some (if g r then f r else r)"
    if "\<And>d. run_id (f d) = run_id d" for g f
    using run_get_cas [OF ok that, of rid rid g] get by simp
  show ?thesis
  proof (cases "run_status r \<in> {PREPARING, QUEUED, PAUSED}")
    case True
    let ?s1 = "cancel_checkpoints now reason rid s"
    let ?f = "\<lambda>r. lease_cleared (r\<lparr>run_counts := checkpoint_counts rid ?s1,
       run_status := CANCELLED, run_finished_at := Some now, run_updated_at := now\<rparr>)"
    have s': "s' = run_cas rid (\<lambda>_. True) ?f ?s1" and r': "r' = run_get rid s'"
      using assms(1,2) True
      by (auto simp: request_execution_cancel_def finalize_cancelled_run_def Let_def FINAL_RUN_STATUSES_def)
    have runs1: "db_runs ?s1 = db_runs s" by (simp add: cancel_checkpoints_def)
    have ok1: "coll_ok run_id (db_runs ?s1)" using ok by (simp add: runs1)
    have keep: "run_id (?f d) = run_id d" for d by (simp add: lease_cleared_def)
    have "run_get rid ?s1 = Some r" using get(1) by (simp add: run_get_def runs1)
    then have "run_get rid s' = Some (?f r)"
      unfolding s' run_get_cas [OF ok1 keep] by simp
    moreover have "list_all (\<lambda>cp. cp_status cp \<notin> {CP_PENDING, CP_RUNNING}) (checkpoints_of rid s')"
      using cancelled_none_left by (simp add: s' list_all_iff)
    moreover have "checkpoint_counts rid s' = checkpoint_counts rid ?s1"
      by (simp add: s' checkpoint_counts_def count_status_def)
    ultimately have "r' = Some (?f r) \<and> run_status (?f r) = CANCELLED \<and> run_lease_token (?f r) = None \<and>
        list_all (\<lambda>cp. cp_status cp \<notin> {CP_PENDING, CP_RUNNING}) (checkpoints_of rid s') \<and>
        run_counts (?f r) = checkpoint_counts rid s'"
      unfolding r' by (simp add: lease_cleared_def)
    moreover have "run_status r \<notin> FINAL_RUN_STATUSES \<union> {CANCEL_REQUESTED}" "run_status r \<noteq> RUNNING"
      using True by (auto simp: FINAL_RUN_STATUSES_def)
    ultimately show ?thesis by (simp only: if_False) blast
  next
    case False
    then show ?thesis using assms(1,2) get stay
      by (cases "run_status r")
        (auto simp: request_execution_cancel_def Let_def FINAL_RUN_STATUSES_def)
  qed
qed

text \<open>a repaired credential resumes only what waits for it: \<open>resume_auth_dependency\<close> queues a run
  exactly when it is managed and paused on that very revision, clears its pause, and otherwise changes
  nothing at all.\<close>

theorem auth_resume_is_targeted:
  assumes "resume_auth_dependency parse now run_ref revision s = (s', r')" "sched_inv s"
  shows "if \<exists>rid r. parse run_ref = Some rid \<and> revision \<noteq> [] \<and> run_get rid s = Some r \<and>
        run_scheduler_managed r \<and> auth_paused_on revision r
    then (\<exists>c. r' = Some c \<and> run_status c = QUEUED \<and> run_dependency_id c = None \<and> run_pause_code c = None \<and>
      run_identity c = run_identity (the (run_get (the (parse run_ref)) s)))
    else s' = s"
proof (cases "\<exists>rid r. parse run_ref = Some rid \<and> revision \<noteq> [] \<and> run_get rid s = Some r \<and>
        run_scheduler_managed r \<and> auth_paused_on revision r")
  case True
  then obtain rid r where r: "parse run_ref = Some rid" "revision \<noteq> []" "run_get rid s = Some r"
    "run_scheduler_managed r" "auth_paused_on revision r" by blast
  let ?f = "\<lambda>r. (requeue now r)\<lparr>run_last_error_type := None,
    run_pause_code := None, run_dependency_type := None, run_dependency_id := None,
    run_dependency_revision_id := None\<rparr>"
  have ok: "coll_ok run_id (db_runs s)" using assms(2) by (simp add: sched_inv_def)
  have "run_get rid (run_cas rid (auth_paused_on revision) ?f s) = Some (?f r)"
    using run_get_cas [OF ok, of ?f rid rid "auth_paused_on revision"] r by (simp add: requeue_def)
  then have "r' = Some (?f r)"
    using assms(1) r
    by (auto simp: resume_auth_dependency_def Let_def run_get_def wake_def sync_parameter_relations_def)
  moreover have "run_identity (?f r) = run_identity r" by (simp add: run_identity_def requeue_def)
  ultimately show ?thesis using True r by (simp add: requeue_def)
next
  case False
  with assms(1) show ?thesis
    by (auto simp: resume_auth_dependency_def Let_def split: option.splits if_splits)
qed

text \<open>a retry is the old run over again, for what is left of it: the new run is queued under its own id
  with the old run as parent, it has the old run's project, account and check type and its stored
  execution policy, and it covers exactly the snapshots whose checkpoint has one of the chosen statuses.\<close>

theorem retry_keeps_identity:
  assumes "retry_execution digest now new_id key rid statuses operator s = Inr (s', run, True)"
    and "run_get rid s = Some old" "new_id \<notin> run_id ` set (db_runs s)" "new_id \<notin> cp_run_id ` set (db_checkpoints s)"
  shows "run_scheduler_managed old \<and> run_id run = new_id \<and> run_status run = QUEUED \<and>
    run_ctx run = retry_context old \<and> run_check_type run = run_check_type old \<and>
    policy_from_dict (run_execution_policy run) = policy_from_dict (run_execution_policy old) \<and>
    set (run_snapshot_ids run) =
      cp_snapshot_id ` {cp \<in> set (checkpoints_of rid s). cp_status cp \<in> set statuses} \<and>
    db_runs s' = db_runs s @ [run]"
proof -
  obtain policy req where managed: "run_scheduler_managed old"
    and p: "policy_from_dict (run_execution_policy old) = Inr policy"
    and req: "eq_context req = retry_context old" "eq_check_type req = run_check_type old" "eq_policy req = policy"
      "eq_snapshot_ids req = retry_snapshot_ids rid statuses s"
    and e: "enqueue_snapshot_batch digest Some now new_id req s = Inr (s', run, True)"
    using assms(1,2)
    by (auto simp: retry_execution_def managed_get_def Let_def sbind_Inr_iff split: option.splits if_splits)
      (metis enqueue_request.select_convs(2,3,4,5))
  obtain ids ss k pd hosts where i: "normalize_snapshot_ids Some (eq_snapshot_ids req) = Inr ids"
    and r: "run = mark_queued now (length ids) (new_run now new_id req k ids pd)"
    and runs: "db_runs s' = db_runs s @ [run]"
    and pd: "policy_to_dict (eq_policy req) = Inr pd"
    by (rule created_shape [OF e assms(3,4)]) blast
  have "set (run_snapshot_ids run) = cp_snapshot_id ` {cp \<in> set (checkpoints_of rid s). cp_status cp \<in> set statuses}"
    using normalize_ids_ok(3) [OF i] by (auto simp: r req retry_snapshot_ids_def checkpoints_of_def)
  with managed runs p policy_stored_roundtrip [OF pd] show ?thesis
    by (simp add: r req) (simp add: mark_queued_def new_run_def req)
qed

section \<open>Concrete inputs\<close>

text \<open>
  A queue with a run under a live lease, a run under an expired one, a queued run and a run paused on
  a credential; the first has a running checkpoint.
\<close>

definition leased_run :: "oid \<Rightarrow> time \<Rightarrow> security_test_run" where
  "leased_run i t = (example_run i example_context RUNNING)\<lparr>run_lease_owner := Some ''w'',
     run_lease_token := Some i, run_lease_expires_at := Some t, run_started_at := Some 0\<rparr>"

definition paused_run :: security_test_run where
  "paused_run = (example_run ''r4'' example_context PAUSED)\<lparr>run_dependency_type := Some ''auth_profile'',
     run_dependency_id := Some ''v1''\<rparr>"

definition example_checkpoint :: "oid \<Rightarrow> oid \<Rightarrow> checkpoint_status \<Rightarrow> string option \<Rightarrow> security_execution_checkpoint" where
  "example_checkpoint rid sid st token = \<lparr>cp_run_id = rid, cp_snapshot_id = sid, cp_project_id = ''p'',
     cp_env_id = [], cp_pathid = 7, cp_ordinal = 0, cp_host = ''h.x'', cp_status = st,
     cp_attempt_count = 1, cp_lease_token = token, cp_result_id = None, cp_reason_codes = [],
     cp_outcome_summary = [], cp_error_type = [], cp_started_at = None, cp_finished_at = None,
     cp_updated_at = 0, cp_expires_at = None\<rparr>"

definition busy_db :: db where
  "busy_db = example_db\<lparr>
     db_runs := [leased_run ''r1'' 100, leased_run ''r2'' 10, example_run ''r3'' example_context QUEUED, paused_run],
     db_checkpoints := [example_checkpoint ''r1'' ''s1'' CP_RUNNING (Some ''r1''),
       example_checkpoint ''r2'' ''s1'' CP_RUNNING (Some ''r2''), example_checkpoint ''r4'' ''s1'' CP_PENDING None]\<rparr>"

lemma busy_inv: "sched_inv busy_db"
  by (simp add: sched_inv_def busy_db_def example_db_def coll_ok_def run_keys_ok_def results_ok_def run_ok_def
    cp_ok_def cp_key_def leased_run_def paused_run_def example_run_def example_checkpoint_def)

theorem recovery_is_complete_witness:
  "\<exists>s' rep. recover_expired_executions 50 [] 60 3600 busy_db = Inr (s', rep) \<and> rc_recovered rep = 1 \<and>
     list_all (\<lambda>r. \<not> expired_run 50 [] r) (db_runs s') \<and> sched_inv s'"
proof -
  have "(case recover_expired_executions 50 [] 60 3600 busy_db of Inr (s', rep) \<Rightarrow> rc_recovered rep = 1 | Inl e \<Rightarrow> False)"
    by code_simp
  then obtain s' rep where r: "recover_expired_executions 50 [] 60 3600 busy_db = Inr (s', rep)" "rc_recovered rep = 1"
    by (auto split: sum.splits)
  from recovery_is_complete [OF r(1) busy_inv] r show ?thesis by (auto simp: list_all_iff)
qed

theorem recovery_spares_live_leases_witness:
  "\<exists>s' rep. recover_expired_executions 50 [] 60 3600 busy_db = Inr (s', rep) \<and>
     run_get ''r1'' s' = Some (leased_run ''r1'' 100)"
proof -
  have "(case recover_expired_executions 50 [] 60 3600 busy_db of Inr (s', rep) \<Rightarrow> True | Inl e \<Rightarrow> False)"
    by code_simp
  then obtain s' rep where r: "recover_expired_executions 50 [] 60 3600 busy_db = Inr (s', rep)"
    by (auto split: sum.splits)
  have "run_get ''r1'' busy_db = Some (leased_run ''r1'' 100)" by code_simp
  from recovery_spares_live_leases [OF r busy_inv this, of 100] r show ?thesis by (simp add: leased_run_def)
qed

theorem claim_is_fair_and_exclusive_witness:
  "\<exists>s' c. claim_next_execution 50 ''t'' ''w'' ''snapshot'' 60 busy_db = Inr (s', Some c) \<and>
     run_get ''r4'' s' = run_get ''r4'' busy_db"
proof -
  have "(case claim_next_execution 50 ''t'' ''w'' ''snapshot'' 60 busy_db of Inr (s', Some c) \<Rightarrow> run_id c = ''r3''
      | _ \<Rightarrow> False)" by code_simp
  then obtain s' c where r: "claim_next_execution 50 ''t'' ''w'' ''snapshot'' 60 busy_db = Inr (s', Some c)"
    "run_id c = ''r3''"
    by (auto split: sum.splits option.splits)
  from claim_is_fair_and_exclusive [OF r(1) busy_inv] r show ?thesis by auto
qed

theorem cancel_by_status_witness:
  "\<exists>s' c. request_execution_cancel 50 ''r4'' ''stop'' busy_db = (s', Some c) \<and> run_status c = CANCELLED"
proof -
  have m: "managed_get ''r4'' busy_db = Some paused_run" by code_simp
  obtain s' c where r: "request_execution_cancel 50 ''r4'' ''stop'' busy_db = (s', c)"
    by (cases "request_execution_cancel 50 ''r4'' ''stop'' busy_db")
  have "run_status paused_run = PAUSED" by code_simp
  with cancel_by_status [OF m r busy_inv] r show ?thesis by (auto simp: FINAL_RUN_STATUSES_def)
qed

theorem auth_resume_is_targeted_witness:
  "\<exists>s' c. resume_auth_dependency Some 50 ''r4'' ''v1'' busy_db = (s', Some c) \<and> run_status c = QUEUED"
proof -
  have m: "run_get ''r4'' busy_db = Some paused_run" "run_scheduler_managed paused_run" "auth_paused_on ''v1'' paused_run"
    by (code_simp, code_simp, code_simp)
  obtain s' c where r: "resume_auth_dependency Some 50 ''r4'' ''v1'' busy_db = (s', c)"
    by (cases "resume_auth_dependency Some 50 ''r4'' ''v1'' busy_db")
  with auth_resume_is_targeted [OF r busy_inv] m show ?thesis by auto
qed

definition retry_db :: db where
  "retry_db = example_db\<lparr>
     db_runs := [(example_run ''r1'' example_context DONE)\<lparr>run_execution_policy := sum.projr (policy_to_dict default_policy)\<rparr>],
     db_checkpoints := [example_checkpoint ''r1'' ''s1'' CP_ERROR None, example_checkpoint ''r1'' ''s2'' CP_DONE None]\<rparr>"

theorem retry_keeps_identity_witness:
  "\<exists>s' run. retry_execution (\<lambda>_. ''key'') 50 ''r9'' ''k'' ''r1'' default_retry_statuses [] retry_db = Inr (s', run, True) \<and>
     set (run_snapshot_ids run) = {''s1''}"
proof -
  have "(case retry_execution (\<lambda>_. ''key'') 50 ''r9'' ''k'' ''r1'' default_retry_statuses [] retry_db of
      Inr (s', run, b) \<Rightarrow> b | Inl e \<Rightarrow> False)" by code_simp
  then obtain s' run where r: "retry_execution (\<lambda>_. ''key'') 50 ''r9'' ''k'' ''r1'' default_retry_statuses [] retry_db =
      Inr (s', run, True)"
    by (auto split: sum.splits)
  have fresh: "''r9'' \<notin> run_id ` set (db_runs retry_db)" "''r9'' \<notin> cp_run_id ` set (db_checkpoints retry_db)"
    by (simp_all add: retry_db_def example_run_def example_checkpoint_def)
  obtain old where "run_get ''r1'' retry_db = Some old" using r
    by (auto simp: retry_execution_def managed_get_def split: option.splits)
  from retry_keeps_identity [OF r this fresh] have "set (run_snapshot_ids run) = cp_snapshot_id `
      {cp \<in> set (checkpoints_of ''r1'' retry_db). cp_status cp \<in> set default_retry_statuses}" by simp
  also have "\<dots> = set (map cp_snapshot_id (filter (\<lambda>cp. cp_status cp \<in> set default_retry_statuses)
      (checkpoints_of ''r1'' retry_db)))" by simp
  also have "map cp_snapshot_id (filter (\<lambda>cp. cp_status cp \<in> set default_retry_statuses)
      (checkpoints_of ''r1'' retry_db)) = [''s1'']" by code_simp
  finally show ?thesis using r by auto
qed

end
