(* ===== verification/HostPolicy.thy ===== *)
theory HostPolicy
  imports BatchQueue
begin

text \<open>
  \<open>HostPolicyCoordinator\<close> of \<open>apiAnalysis/tool/execution_scheduler.py\<close>: per-host permits, pacing and
  stop state shared by the threads of one run, and the request executor built on it.

  Each section the code runs under its lock, and each semaphore operation, is one function on the
  coordinator. \<open>host_step\<close> interleaves the threads: a thread's position inside \<open>acquire\<close> is its
  \<open>permit_phase\<close>, and what the code reads from outside (\<open>should_abort\<close>, the monotonic clock) is an
  argument of the step. The clock counts milliseconds.

  The facts: a host never has more than \<open>per_host_workers\<close> permits out and no release can fail
  (\<open>permits_inv\<close>), the starts granted on a host are at least the interval apart, and the stop state
  implements its abstract description by streaks of outcomes (\<open>history_reason\<close>).
\<close>

section \<open>State\<close>

record host_state =
  hs_transport_errors :: int
  hs_rate_limits :: int
  hs_server_errors :: int
  hs_stopped_reason :: string
  hs_next_allowed :: int

record coordinator =
  co_policy :: execution_policy
  co_free :: "nat dict"
  co_states :: "host_state dict"

definition host_key :: "string \<Rightarrow> string" where
  "host_key h = py_lower (str_or h ''<unknown>'')"

definition fresh_state :: host_state where
  "fresh_state = \<lparr>hs_transport_errors = 0, hs_rate_limits = 0, hs_server_errors = 0,
     hs_stopped_reason = [], hs_next_allowed = 0\<rparr>"

definition restored_state :: "host_row \<Rightarrow> host_state" where
  "restored_state row = \<lparr>hs_transport_errors = hr_transport_errors row, hs_rate_limits = hr_rate_limits row,
     hs_server_errors = hr_server_errors row, hs_stopped_reason = hr_stopped_reason row, hs_next_allowed = 0\<rparr>"

definition new_coordinator :: "execution_policy \<Rightarrow> host_row list \<Rightarrow> coordinator" where
  "new_coordinator p persisted = \<lparr>co_policy = p, co_free = [],
     co_states = dict_update [] (map (\<lambda>row. (host_key (hr_host row), restored_state row)) persisted)\<rparr>"

definition state_of :: "coordinator \<Rightarrow> string \<Rightarrow> host_state" where
  "state_of co h = (case map_of (co_states co) h of Some st \<Rightarrow> st | None \<Rightarrow> fresh_state)"

definition set_state :: "string \<Rightarrow> host_state \<Rightarrow> coordinator \<Rightarrow> coordinator" where
  "set_state h st co = co\<lparr>co_states := dict_set h st (co_states co)\<rparr>"

section \<open>\<open>acquire\<close> and \<open>release\<close>\<close>

definition per_host :: "coordinator \<Rightarrow> nat" where
  "per_host co = nat (po_per_host_workers (co_policy co))"

definition open_semaphore :: "string \<Rightarrow> coordinator \<Rightarrow> coordinator" where
  "open_semaphore h co = co\<lparr>co_free := dict_setdefault h (per_host co) (co_free co)\<rparr>"

definition free_permits :: "string \<Rightarrow> coordinator \<Rightarrow> nat" where
  "free_permits h co = (case map_of (co_free co) h of Some n \<Rightarrow> n | None \<Rightarrow> per_host co)"

definition take_permit :: "string \<Rightarrow> coordinator \<Rightarrow> coordinator option" where
  "take_permit h co = (if free_permits h co = 0 then None
     else Some (co\<lparr>co_free := dict_set h (free_permits h co - 1) (co_free co)\<rparr>))"

text \<open>\<open>BoundedSemaphore.release\<close>.\<close>

definition release_permit :: "string \<Rightarrow> coordinator \<Rightarrow> coordinator result_of" where
  "release_permit h co = (if per_host co \<le> free_permits h co
     then Inl (ValueError ''Semaphore released too many times'')
     else Inr (co\<lparr>co_free := dict_set h (Suc (free_permits h co)) (co_free co)\<rparr>))"

text \<open>
  The second locked section: a stopped host refuses with its reason; otherwise the slot is booked
  and the time at which the request may start is returned.
\<close>

definition enter_pacing :: "string \<Rightarrow> int \<Rightarrow> coordinator \<Rightarrow> coordinator \<times> (string + int)" where
  "enter_pacing h now co = (let st = state_of co h in
     if hs_stopped_reason st \<noteq> [] then (set_state h st co, Inl (hs_stopped_reason st))
     else let start_at = max now (hs_next_allowed st)
       in (set_state h (st\<lparr>hs_next_allowed := start_at + po_min_interval_ms (co_policy co)\<rparr>) co, Inr start_at))"

text \<open>The last check: \<open>None\<close> grants the permit.\<close>

definition refusal :: "string \<Rightarrow> bool \<Rightarrow> coordinator \<Rightarrow> string option" where
  "refusal h abort co = (let reason = hs_stopped_reason (state_of co h) in
     if reason \<noteq> [] \<or> abort then Some (str_or reason ''execution_stopping'') else None)"

section \<open>\<open>record_outcome\<close>\<close>

datatype outcome_kind = TransportError | RateLimited | ServerError | Answered

definition outcome_kind_of :: "json dict \<Rightarrow> outcome_kind result_of" where
  "outcome_kind_of evidence =
     (if truthy (dget evidence ''error_type'') \<or> truthy (dget evidence ''error'') then Inr TransportError
      else let status = dget evidence ''status_code'' in
        if py_eq status (JInt 429) then Inr RateLimited
        else if status = JNull then Inr Answered
        else sbind (py_int status) (\<lambda>n. Inr (if 500 \<le> n \<and> n < 600 then ServerError else Answered)))"

definition stop_at :: "int \<Rightarrow> int \<Rightarrow> string \<Rightarrow> string" where
  "stop_at threshold n reason = (if threshold \<noteq> 0 \<and> threshold \<le> n then reason else [])"

fun count_outcome :: "execution_policy \<Rightarrow> outcome_kind \<Rightarrow> host_state \<Rightarrow> host_state" where
  "count_outcome p TransportError st = (let n = hs_transport_errors st + 1 in
     st\<lparr>hs_transport_errors := n, hs_rate_limits := 0, hs_server_errors := 0,
        hs_stopped_reason := stop_at (po_transport_error_stop p) n ''transport_error_threshold''\<rparr>)"
| "count_outcome p RateLimited st = (let n = hs_rate_limits st + 1 in
     st\<lparr>hs_transport_errors := 0, hs_rate_limits := n, hs_server_errors := 0,
        hs_stopped_reason := stop_at (po_rate_limit_stop p) n ''rate_limit_threshold''\<rparr>)"
| "count_outcome p ServerError st = (let n = hs_server_errors st + 1 in
     st\<lparr>hs_transport_errors := 0, hs_rate_limits := 0, hs_server_errors := n,
        hs_stopped_reason := stop_at (po_server_error_stop p) n ''server_error_threshold''\<rparr>)"
| "count_outcome p Answered st =
     st\<lparr>hs_transport_errors := 0, hs_rate_limits := 0, hs_server_errors := 0, hs_stopped_reason := []\<rparr>"

definition update_host :: "execution_policy \<Rightarrow> outcome_kind \<Rightarrow> host_state \<Rightarrow> host_state" where
  "update_host p k st = (if hs_stopped_reason st \<noteq> [] then st else count_outcome p k st)"

text \<open>The exception of \<open>int(status)\<close> leaves the counters alone; the host is known from then on.\<close>

definition record_outcome :: "string \<Rightarrow> json dict \<Rightarrow> coordinator \<Rightarrow> coordinator \<times> string result_of" where
  "record_outcome host evidence co = (let h = host_key host; st = state_of co h in
     if hs_stopped_reason st \<noteq> [] then (set_state h st co, Inr (hs_stopped_reason st))
     else case outcome_kind_of evidence of
       Inl e \<Rightarrow> (set_state h st co, Inl e)
     | Inr k \<Rightarrow> let st' = update_host (co_policy co) k st
         in (set_state h st' co, Inr (hs_stopped_reason st')))"

definition host_snapshot :: "coordinator \<Rightarrow> host_row list" where
  "host_snapshot co = map (\<lambda>h. let st = state_of co h in
     \<lparr>hr_host = h, hr_transport_errors = hs_transport_errors st, hr_rate_limits = hs_rate_limits st,
      hr_server_errors = hs_server_errors st, hr_stopped_reason = hs_stopped_reason st\<rparr>)
     (sort (map fst (co_states co)))"

section \<open>\<open>_build_coordinated_request_executor\<close>\<close>

text \<open>
  What a granted request does: the callback returns evidence (alone or as the first component of a
  tuple), returns something else, is blocked, or raises. The executor records and releases.
\<close>

datatype request_outcome =
    ReturnedEvidence "json dict"
  | ReturnedOther
  | RequestBlocked string
  | RequestRaised string string

datatype executor_result =
    ExecutorReturned "json dict"
  | ExecutorBlocked string
  | ExecutorRaised string

definition record_in_executor :: "string \<Rightarrow> json dict \<Rightarrow> executor_result \<Rightarrow> coordinator \<Rightarrow>
    coordinator \<times> executor_result" where
  "record_in_executor host evidence r co = (case record_outcome host evidence co of
     (co', Inr _) \<Rightarrow> (co', r) | (co', Inl _) \<Rightarrow> (co', ExecutorRaised ''ValueError''))"

definition run_granted_request :: "string \<Rightarrow> request_outcome \<Rightarrow> coordinator \<Rightarrow>
    coordinator \<times> executor_result" where
  "run_granted_request host outcome co = (case outcome of
     ReturnedEvidence ev \<Rightarrow> record_in_executor host ev (ExecutorReturned ev) co
   | ReturnedOther \<Rightarrow> (co, ExecutorRaised ''TypeError'')
   | RequestBlocked reason \<Rightarrow> (co, ExecutorBlocked reason)
   | RequestRaised cls msg \<Rightarrow> record_in_executor host
       [(''error_type'', JStr cls), (''error'', JStr msg)] (ExecutorRaised cls) co)"

definition coordinated_request :: "string \<Rightarrow> request_outcome \<Rightarrow> coordinator \<Rightarrow>
    (coordinator \<times> executor_result) result_of" where
  "coordinated_request host outcome co = (case run_granted_request host outcome co of
     (co', r) \<Rightarrow> sbind (release_permit (host_key host) co') (\<lambda>co''. Inr (co'', r)))"

section \<open>Threads\<close>

datatype permit_phase =
    Idle
  | Waiting string
  | Taken string
  | Pacing string int
  | Holding string

fun holds :: "string \<Rightarrow> permit_phase \<Rightarrow> bool" where
  "holds h (Taken h') = (h' = h)"
| "holds h (Pacing h' _) = (h' = h)"
| "holds h (Holding h') = (h' = h)"
| "holds h _ = False"

type_synonym host_world = "coordinator \<times> permit_phase list"

inductive host_step :: "host_world \<Rightarrow> host_world \<Rightarrow> bool" where
  begin_acquire: "i < length ts \<Longrightarrow> ts ! i = Idle \<Longrightarrow>
    host_step (co, ts) (open_semaphore (host_key h) co, ts[i := Waiting (host_key h)])"
| abort_waiting: "i < length ts \<Longrightarrow> ts ! i = Waiting h \<Longrightarrow>
    host_step (co, ts) (co, ts[i := Idle])"
| win_permit: "i < length ts \<Longrightarrow> ts ! i = Waiting h \<Longrightarrow> take_permit h co = Some co' \<Longrightarrow>
    host_step (co, ts) (co', ts[i := Taken h])"
| refused_stopped: "i < length ts \<Longrightarrow> ts ! i = Taken h \<Longrightarrow> enter_pacing h now co = (co', Inl reason) \<Longrightarrow>
    release_permit h co' = Inr co'' \<Longrightarrow> host_step (co, ts) (co'', ts[i := Idle])"
| book_start: "i < length ts \<Longrightarrow> ts ! i = Taken h \<Longrightarrow> enter_pacing h now co = (co', Inr start_at) \<Longrightarrow>
    host_step (co, ts) (co', ts[i := Pacing h start_at])"
| abort_pacing: "i < length ts \<Longrightarrow> ts ! i = Pacing h start_at \<Longrightarrow> now < start_at \<Longrightarrow>
    release_permit h co = Inr co' \<Longrightarrow> host_step (co, ts) (co', ts[i := Idle])"
| refused_late: "i < length ts \<Longrightarrow> ts ! i = Pacing h start_at \<Longrightarrow> start_at \<le> now \<Longrightarrow>
    refusal h abort co = Some reason \<Longrightarrow> release_permit h co = Inr co' \<Longrightarrow>
    host_step (co, ts) (co', ts[i := Idle])"
| granted: "i < length ts \<Longrightarrow> ts ! i = Pacing h start_at \<Longrightarrow> start_at \<le> now \<Longrightarrow>
    refusal h False co = None \<Longrightarrow> host_step (co, ts) (co, ts[i := Holding h])"
| outcome: "record_outcome host evidence co = (co', r) \<Longrightarrow> host_step (co, ts) (co', ts)"
| finish: "i < length ts \<Longrightarrow> ts ! i = Holding h \<Longrightarrow> release_permit h co = Inr co' \<Longrightarrow>
    host_step (co, ts) (co', ts[i := Idle])"

inductive host_reachable :: "execution_policy \<Rightarrow> host_row list \<Rightarrow> nat \<Rightarrow> host_world \<Rightarrow> bool"
  for p :: execution_policy and rows :: "host_row list" and n :: nat where
  start: "host_reachable p rows n (new_coordinator p rows, replicate n Idle)"
| step: "host_reachable p rows n w \<Longrightarrow> host_step w w' \<Longrightarrow> host_reachable p rows n w'"

inductive_cases host_stepE: "host_step (co, ts) (co', ts')"

lemmas host_step_cases = host_stepE [consumes 1, case_names begin_acquire abort_waiting win_permit
  refused_stopped book_start abort_pacing refused_late granted outcome finish]

section \<open>Facts: permits\<close>

definition holders :: "string \<Rightarrow> permit_phase list \<Rightarrow> nat" where
  "holders h ts = count_where (holds h) ts"

lemma holders_update:
  "i < length ts \<Longrightarrow> holders h (ts[i := x]) + (if holds h (ts ! i) then 1 else 0) =
     holders h ts + (if holds h x then 1 else 0)"
  unfolding holders_def
proof (induction ts arbitrary: i)
  case (Cons t ts)
  show ?case
  proof (cases i)
    case 0
    then show ?thesis by (simp add: count_where_Cons)
  next
    case (Suc j)
    with Cons.prems Cons.IH [of j] show ?thesis by (simp add: count_where_Cons split: if_splits)
  qed
qed simp

lemma holders_pos: "i < length ts \<Longrightarrow> holds h (ts ! i) \<Longrightarrow> 0 < holders h ts"
  unfolding holders_def count_where_def by (auto simp: filter_empty_conv intro: nth_mem)

named_theorems host_simps \<open>what the coordinator's parts see of an update\<close>

lemma per_host_simps [simp, host_simps]:
  "per_host (co\<lparr>co_free := fr\<rparr>) = per_host co" "per_host (co\<lparr>co_states := sts\<rparr>) = per_host co"
  by (simp_all add: per_host_def)

lemma co_simps [simp, host_simps]:
  "co_policy (set_state h st co) = co_policy co" "co_policy (open_semaphore h co) = co_policy co"
  "co_free (set_state h st co) = co_free co" "co_states (open_semaphore h co) = co_states co"
  "per_host (set_state h st co) = per_host co" "per_host (open_semaphore h co) = per_host co"
  "free_permits k (set_state h st co) = free_permits k co"
  "state_of (open_semaphore h co) k = state_of co k"
  by (simp_all add: set_state_def open_semaphore_def free_permits_def state_of_def cong: option.case_cong)

lemma free_open [simp, host_simps]: "free_permits k (open_semaphore h co) = free_permits k co"
  by (simp add: free_permits_def open_semaphore_def split: option.splits)

lemma state_set_state [simp, host_simps]: "state_of (set_state h st co) k = (if k = h then st else state_of co k)"
  by (simp add: state_of_def set_state_def)

lemma take_permit_Some:
  "take_permit h co = Some co' \<Longrightarrow> 0 < free_permits h co \<and> co_policy co' = co_policy co \<and>
     co_states co' = co_states co \<and> per_host co' = per_host co \<and>
     (\<forall>k. free_permits k co' = (if k = h then free_permits h co - 1 else free_permits k co))"
  by (auto simp: take_permit_def free_permits_def split: if_splits cong: option.case_cong)

lemma release_permit_Inr:
  "release_permit h co = Inr co' \<Longrightarrow> free_permits h co < per_host co \<and> co_policy co' = co_policy co \<and>
     co_states co' = co_states co \<and> per_host co' = per_host co \<and>
     (\<forall>k. free_permits k co' = (if k = h then Suc (free_permits h co) else free_permits k co))"
  by (auto simp: release_permit_def free_permits_def split: if_splits cong: option.case_cong)

lemma release_permit_ok: "free_permits h co < per_host co \<Longrightarrow> succeeds (release_permit h co)"
  by (simp add: release_permit_def)

lemma enter_pacing_parts:
  assumes "enter_pacing h now co = (co', r)"
  shows "co_policy co' = co_policy co" "free_permits k co' = free_permits k co" "per_host co' = per_host co"
  using assms by (auto simp: enter_pacing_def Let_def split: if_splits)

lemma record_outcome_parts:
  assumes "record_outcome host ev co = (co', r)"
  shows "co_policy co' = co_policy co" "free_permits k co' = free_permits k co" "per_host co' = per_host co"
  using assms by (auto simp: record_outcome_def Let_def split: if_splits sum.splits)

definition permits_inv :: "execution_policy \<Rightarrow> host_world \<Rightarrow> bool" where
  "permits_inv p w = (case w of (co, ts) \<Rightarrow> co_policy co = p \<and>
     (\<forall>h. free_permits h co + holders h ts = per_host co))"

lemma permits_inv_start: "permits_inv p (new_coordinator p rows, replicate n Idle)"
  by (simp add: permits_inv_def new_coordinator_def free_permits_def holders_def count_where_def)

text \<open>A thread moving between phases keeps the invariant if the permits follow it.\<close>

lemma permits_inv_move:
  assumes "permits_inv p (co, ts)" "i < length ts"
    and "co_policy co' = co_policy co" "per_host co' = per_host co"
    and "\<And>k. free_permits k co' + (if holds k x then 1 else 0) =
      free_permits k co + (if holds k (ts ! i) then 1 else 0)"
  shows "permits_inv p (co', ts[i := x])"
proof -
  have "free_permits k co' + holders k (ts[i := x]) = per_host co'" for k
  proof -
    have "free_permits k co + holders k ts = per_host co"
      using assms(1) by (simp add: permits_inv_def)
    with assms(4) assms(5) [of k] holders_update [OF assms(2), of k x] show ?thesis by linarith
  qed
  with assms(1,3) show ?thesis by (simp add: permits_inv_def)
qed

lemma permits_inv_step:
  assumes "host_step w w'" "permits_inv p w"
  shows "permits_inv p w'"
  using assms
proof (induction rule: host_step.induct)
  case (win_permit i ts h co co')
  then show ?case using take_permit_Some [OF win_permit(3)] by (intro permits_inv_move) auto
next
  case (refused_stopped i ts h now co co' reason co'')
  then show ?case using enter_pacing_parts [OF refused_stopped(3)] release_permit_Inr [OF refused_stopped(4)]
    by (intro permits_inv_move [of p co]) auto
next
  case (book_start i ts h now co co' start_at)
  then show ?case using enter_pacing_parts [OF book_start(3)] by (intro permits_inv_move [of p co]) auto
next
  case (abort_pacing i ts h start_at now co co')
  then show ?case using release_permit_Inr [OF abort_pacing(4)] by (intro permits_inv_move [of p co]) auto
next
  case (refused_late i ts h start_at now abort co reason co')
  then show ?case using release_permit_Inr [OF refused_late(5)] by (intro permits_inv_move [of p co]) auto
next
  case (outcome host evidence co co' r ts)
  then show ?case using record_outcome_parts [OF outcome(1)] by (simp add: permits_inv_def)
next
  case (finish i ts h co co')
  then show ?case using release_permit_Inr [OF finish(3)] by (intro permits_inv_move [of p co]) auto
qed (auto intro: permits_inv_move)

lemma permits_inv_reachable: "host_reachable p rows n w \<Longrightarrow> permits_inv p w"
  by (induction rule: host_reachable.induct) (auto intro: permits_inv_start permits_inv_step)

section \<open>Facts: what never goes back\<close>

text \<open>How one step may move a host's state: a booking or an outcome, nothing else.\<close>

lemma host_state_step:
  assumes "host_step (co, ts) (co', ts')"
  shows "co_policy co' = co_policy co \<and>
    (state_of co' h = state_of co h \<or>
     (hs_stopped_reason (state_of co h) = [] \<and>
      ((\<exists>now. state_of co' h = (state_of co h)\<lparr>hs_next_allowed :=
          max now (hs_next_allowed (state_of co h)) + po_min_interval_ms (co_policy co)\<rparr>) \<or>
       (\<exists>k. state_of co' h = update_host (co_policy co) k (state_of co h)))))"
  using assms
proof (cases rule: host_step_cases)
  case (win_permit i k)
  then show ?thesis using take_permit_Some [of k co co'] by (auto simp: state_of_def)
next
  case (refused_stopped i k now co1 reason)
  then show ?thesis using release_permit_Inr [of k co1 co']
    by (auto simp: enter_pacing_def Let_def state_of_def split: if_splits)
      (auto simp: set_state_def)
next
  case (book_start i k now start_at)
  then show ?thesis by (auto simp: enter_pacing_def Let_def split: if_splits)
next
  case (abort_pacing i k start_at now)
  then show ?thesis using release_permit_Inr [of k co co'] by (auto simp: state_of_def)
next
  case (refused_late i k start_at now abort reason)
  then show ?thesis using release_permit_Inr [of k co co'] by (auto simp: state_of_def)
next
  case (outcome host evidence r)
  then show ?thesis by (auto simp: record_outcome_def Let_def split: if_splits sum.splits)
next
  case (finish i k)
  then show ?thesis using release_permit_Inr [of k co co'] by (auto simp: state_of_def)
qed auto

lemma count_outcome_next [simp]: "hs_next_allowed (count_outcome p k st) = hs_next_allowed st"
  by (cases k) (simp_all add: Let_def)

lemma update_host_if:
  "hs_stopped_reason st = [] \<Longrightarrow> update_host p k st = count_outcome p k st"
  "hs_stopped_reason st \<noteq> [] \<Longrightarrow> update_host p k st = st"
  by (simp_all add: update_host_def)

lemma update_host_next [simp]: "hs_next_allowed (update_host p k st) = hs_next_allowed st"
  by (simp add: update_host_def)

lemma next_allowed_mono:
  assumes "host_step\<^sup>*\<^sup>* (co, ts) (co', ts')" "0 \<le> po_min_interval_ms (co_policy co)"
  shows "co_policy co' = co_policy co \<and> hs_next_allowed (state_of co h) \<le> hs_next_allowed (state_of co' h)"
  using assms(1)
proof (induction rule: rtranclp_induct2)
  case (step co1 ts1 co2 ts2)
  with host_state_step [OF step(2), of h] assms(2) show ?case by auto
qed simp

lemma stop_is_final:
  assumes "host_step\<^sup>*\<^sup>* (co, ts) (co', ts')" "hs_stopped_reason (state_of co h) = reason" "reason \<noteq> []"
  shows "hs_stopped_reason (state_of co' h) = reason \<and>
    (\<forall>i < length ts'. ts' ! i = Holding h \<longrightarrow> i < length ts \<and> ts ! i = Holding h)"
  using assms(1)
proof (induction rule: rtranclp_induct2)
  case refl
  with assms show ?case by simp
next
  case (step co1 ts1 co2 ts2)
  have stopped: "hs_stopped_reason (state_of co1 h) = reason" using step.IH by blast
  then have "hs_stopped_reason (state_of co2 h) = reason"
    using host_state_step [OF step(2), of h] assms(3) by auto
  moreover have "\<forall>i < length ts2. ts2 ! i = Holding h \<longrightarrow> i < length ts1 \<and> ts1 ! i = Holding h"
    using step(2) stopped assms(3)
    by (cases rule: host_step_cases) (auto simp: nth_list_update refusal_def Let_def split: if_splits)
  ultimately show ?case using step.IH by blast
qed

section \<open>Facts: stopping, by the history of outcomes\<close>

fun threshold_of :: "execution_policy \<Rightarrow> outcome_kind \<Rightarrow> int" where
  "threshold_of p TransportError = po_transport_error_stop p"
| "threshold_of p RateLimited = po_rate_limit_stop p"
| "threshold_of p ServerError = po_server_error_stop p"
| "threshold_of p Answered = 0"

fun reason_of :: "outcome_kind \<Rightarrow> string" where
  "reason_of TransportError = ''transport_error_threshold''"
| "reason_of RateLimited = ''rate_limit_threshold''"
| "reason_of ServerError = ''server_error_threshold''"
| "reason_of Answered = []"

definition streak :: "outcome_kind \<Rightarrow> outcome_kind list \<Rightarrow> nat" where
  "streak k history = length (takeWhile (\<lambda>x. x = k) (rev history))"

text \<open>The reason the last outcome alone would stop the host for.\<close>

definition reason_at :: "execution_policy \<Rightarrow> outcome_kind list \<Rightarrow> string" where
  "reason_at p history = (if history = [] then []
     else stop_at (threshold_of p (last history)) (int (streak (last history) history)) (reason_of (last history)))"

text \<open>The reason of the first prefix of the history that ends in a long enough streak.\<close>

definition history_reason :: "execution_policy \<Rightarrow> outcome_kind list \<Rightarrow> string" where
  "history_reason p history =
     (case find (\<lambda>i. reason_at p (take i history) \<noteq> []) [1..<Suc (length history)] of
        None \<Rightarrow> [] | Some i \<Rightarrow> reason_at p (take i history))"

lemma find_append: "find P (xs @ ys) = (case find P xs of Some x \<Rightarrow> Some x | None \<Rightarrow> find P ys)"
  by (induction xs) auto

lemma history_reason_snoc:
  "history_reason p (hist @ [k]) =
     (if history_reason p hist \<noteq> [] then history_reason p hist else reason_at p (hist @ [k]))"
proof -
  have "find (\<lambda>i. reason_at p (take i (hist @ [k])) \<noteq> []) [1..<Suc (length hist)] =
      find (\<lambda>i. reason_at p (take i hist) \<noteq> []) [1..<Suc (length hist)]"
    by (rule find_cong_on) auto
  then show ?thesis
    by (auto simp: history_reason_def find_append split: option.splits dest: find_Some_in)
qed

lemma streak_snoc: "streak k (hist @ [k']) = (if k' = k then Suc (streak k hist) else 0)"
  by (simp add: streak_def)

definition streaks_counted :: "outcome_kind list \<Rightarrow> host_state \<Rightarrow> bool" where
  "streaks_counted hist st \<longleftrightarrow> hs_transport_errors st = int (streak TransportError hist) \<and>
     hs_rate_limits st = int (streak RateLimited hist) \<and> hs_server_errors st = int (streak ServerError hist)"

lemma count_outcome_streaks:
  assumes "streaks_counted hist st"
  shows "streaks_counted (hist @ [k]) (count_outcome p k st) \<and>
    hs_stopped_reason (count_outcome p k st) = reason_at p (hist @ [k])"
  using assms by (cases k) (auto simp: streaks_counted_def streak_snoc reason_at_def Let_def stop_at_def)

lemma stop_state_history:
  "hs_stopped_reason (fold (update_host p) hist fresh_state) = history_reason p hist \<and>
     (history_reason p hist = [] \<longrightarrow> streaks_counted hist (fold (update_host p) hist fresh_state))"
proof (induction hist rule: rev_induct)
  case Nil
  show ?case by (simp add: history_reason_def fresh_state_def streaks_counted_def streak_def)
next
  case (snoc k hist)
  let ?st = "fold (update_host p) hist fresh_state"
  show ?case
  proof (cases "history_reason p hist = []")
    case True
    with snoc count_outcome_streaks [of hist ?st k p] show ?thesis
      by (simp add: update_host_if history_reason_snoc)
  next
    case False
    with snoc show ?thesis by (simp add: update_host_if history_reason_snoc)
  qed
qed

section \<open>Facts: the persisted snapshot\<close>

lemma host_key_idem [simp]: "host_key (host_key h) = host_key h"
  by (simp add: host_key_def str_or_def)

fun phase_host :: "permit_phase \<Rightarrow> string option" where
  "phase_host Idle = None"
| "phase_host (Waiting h) = Some h"
| "phase_host (Taken h) = Some h"
| "phase_host (Pacing h _) = Some h"
| "phase_host (Holding h) = Some h"

definition normal :: "string \<Rightarrow> bool" where
  "normal h \<longleftrightarrow> host_key h = h"

definition keys_ok :: "host_state dict \<Rightarrow> bool" where
  "keys_ok d \<longleftrightarrow> distinct (map fst d) \<and> (\<forall>h \<in> fst ` set d. normal h)"

definition phase_ok :: "permit_phase \<Rightarrow> bool" where
  "phase_ok t \<longleftrightarrow> (case phase_host t of Some h \<Rightarrow> normal h | None \<Rightarrow> True)"

definition keys_inv :: "host_world \<Rightarrow> bool" where
  "keys_inv w = (case w of (co, ts) \<Rightarrow> keys_ok (co_states co) \<and> list_all phase_ok ts)"

lemma normal_host_key [simp]: "normal (host_key h)"
  by (simp add: normal_def)

lemma phase_ok_simps [simp]: "phase_ok Idle" "phase_ok (Waiting h) = normal h" "phase_ok (Taken h) = normal h"
  "phase_ok (Pacing h s) = normal h" "phase_ok (Holding h) = normal h"
  by (simp_all add: phase_ok_def)

lemma keys_ok_set_state: "keys_ok (co_states co) \<Longrightarrow> normal h \<Longrightarrow> keys_ok (co_states (set_state h st co))"
  using keys_dict_set [of h st "co_states co"] distinct_dict_set [of "co_states co" h st]
  by (simp add: keys_ok_def set_state_def)

lemma keys_inv_move:
  assumes "keys_inv (co, ts)" "phase_ok x"
    and "co_states co' = co_states co \<or> (\<exists>h st. co_states co' = co_states (set_state h st co) \<and> normal h)"
  shows "keys_inv (co', ts[i := x])"
proof -
  have "list_all phase_ok (ts[i := x])"
    using assms(1,2) set_update_subset_insert [of ts i x] by (auto simp: keys_inv_def list_all_iff)
  moreover have "keys_ok (co_states co')"
    using assms(1,3) keys_ok_set_state [of co] by (auto simp: keys_inv_def)
  ultimately show ?thesis by (simp add: keys_inv_def)
qed

lemma keys_inv_phase: "keys_inv (co, ts) \<Longrightarrow> i < length ts \<Longrightarrow> phase_ok (ts ! i)"
  by (auto simp: keys_inv_def list_all_length)

lemma enter_pacing_states:
  "enter_pacing h now co = (co', r) \<Longrightarrow> \<exists>st. co_states co' = co_states (set_state h st co)"
  by (auto simp: enter_pacing_def Let_def split: if_splits)

lemma record_outcome_states:
  "record_outcome host ev co = (co', r) \<Longrightarrow> \<exists>st. co_states co' = co_states (set_state (host_key host) st co)"
  by (auto simp: record_outcome_def Let_def split: if_splits sum.splits)

lemma keys_inv_step:
  assumes "host_step w w'" "keys_inv w"
  shows "keys_inv w'"
  using assms
proof (induction rule: host_step.induct)
  case (win_permit i ts h co co')
  then show ?case using take_permit_Some [OF win_permit(3)] keys_inv_phase [of co ts i]
    by (intro keys_inv_move) auto
next
  case (refused_stopped i ts h now co co' reason co'')
  then show ?case using enter_pacing_states [OF refused_stopped(3)] release_permit_Inr [OF refused_stopped(4)]
      keys_inv_phase [of co ts i]
    by (intro keys_inv_move [of co]) auto
next
  case (book_start i ts h now co co' start_at)
  then show ?case using enter_pacing_states [OF book_start(3)] keys_inv_phase [of co ts i]
    by (intro keys_inv_move [of co]) auto
next
  case (abort_pacing i ts h start_at now co co')
  then show ?case using release_permit_Inr [OF abort_pacing(4)] by (intro keys_inv_move [of co]) auto
next
  case (refused_late i ts h start_at now abort co reason co')
  then show ?case using release_permit_Inr [OF refused_late(5)] by (intro keys_inv_move [of co]) auto
next
  case (granted i ts h start_at now co)
  then show ?case using keys_inv_phase [of co ts i] by (intro keys_inv_move) auto
next
  case (outcome host evidence co co' r ts)
  from record_outcome_states [OF outcome(1)] obtain st where
    "co_states co' = co_states (set_state (host_key host) st co)" by blast
  with outcome(2) keys_ok_set_state [of co "host_key host" st] show ?case
    by (simp add: keys_inv_def)
next
  case (finish i ts h co co')
  then show ?case using release_permit_Inr [OF finish(3)] by (intro keys_inv_move [of co]) auto
qed (auto intro: keys_inv_move)

lemma keys_inv_start: "keys_inv (new_coordinator p rows, replicate n Idle)"
proof -
  let ?e = "map (\<lambda>row. (host_key (hr_host row), restored_state row)) rows"
  have k: "distinct (map fst (dict_update [] ?e))" "fst ` set (dict_update [] ?e) = fst ` set ?e"
    using keys_dict_update [of "[]" ?e] by simp_all
  have "\<forall>h \<in> fst ` set ?e. normal h" by auto
  then have "keys_ok (dict_update [] ?e)"
    unfolding keys_ok_def k(2) by (intro conjI k(1))
  then show ?thesis by (simp add: keys_inv_def new_coordinator_def list_all_iff)
qed

lemma keys_inv_reachable: "host_reachable p rows n w \<Longrightarrow> keys_inv w"
  by (induction rule: host_reachable.induct) (auto intro: keys_inv_start keys_inv_step)

lemma snapshot_restores:
  assumes "keys_inv (co, ts)"
  shows "state_of (new_coordinator p (host_snapshot co)) h = (state_of co h)\<lparr>hs_next_allowed := 0\<rparr>"
proof -
  let ?row = "\<lambda>h. (h, (state_of co h)\<lparr>hs_next_allowed := 0\<rparr>)"
  from assms have fixed: "\<And>k. k \<in> fst ` set (co_states co) \<Longrightarrow> host_key k = k"
    and dist: "distinct (map fst (co_states co))" by (auto simp: keys_inv_def keys_ok_def normal_def)
  have "map (\<lambda>row. (host_key (hr_host row), restored_state row)) (host_snapshot co) =
      map ?row (sort (map fst (co_states co)))"
    using fixed by (auto simp: host_snapshot_def restored_state_def Let_def)
  moreover have "distinct (map fst (map ?row (sort (map fst (co_states co)))))"
    using dist by (simp add: comp_def)
  ultimately have "map_of (co_states (new_coordinator p (host_snapshot co))) =
      map_of (map ?row (sort (map fst (co_states co))))"
    by (simp add: new_coordinator_def map_of_dict_update)
  then have "map_of (co_states (new_coordinator p (host_snapshot co))) h =
      (if h \<in> fst ` set (co_states co) then Some ((state_of co h)\<lparr>hs_next_allowed := 0\<rparr>) else None)"
    by (simp add: map_of_map_restrict)
  moreover have "state_of co h = fresh_state" if "h \<notin> fst ` set (co_states co)"
    using that by (simp add: state_of_def map_of_eq_None_iff [THEN iffD2])
  ultimately show ?thesis
    by (simp add: state_of_def [of "new_coordinator p (host_snapshot co)"] fresh_state_def)
qed

section \<open>Properties\<close>

text \<open>C40: in every reachable interleaving of a run's threads, the permits in use and the free ones of
  a host add up to \<open>per_host_workers\<close>, so a host never sees more concurrent requests than the policy
  allows; and a thread that holds a permit can always release it.\<close>

theorem host_permits_bounded:
  assumes "host_reachable p rows n (co, ts)"
  shows "free_permits h co + holders h ts = nat (po_per_host_workers p) \<and>
    (i < length ts \<longrightarrow> holds h (ts ! i) \<longrightarrow> succeeds (release_permit h co))"
proof -
  have inv: "permits_inv p (co, ts)" by (rule permits_inv_reachable [OF assms])
  then have sum: "free_permits h co + holders h ts = per_host co" and "per_host co = nat (po_per_host_workers p)"
    by (auto simp: permits_inv_def per_host_def)
  moreover have "succeeds (release_permit h co)" if "i < length ts" "holds h (ts ! i)"
    using sum holders_pos [OF that] by (intro release_permit_ok) simp
  ultimately show ?thesis by auto
qed

theorem host_permits_bounded_witness:
  "free_permits ''h'' (new_coordinator default_policy []) + holders ''h'' [Idle, Idle] = 4"
  using host_permits_bounded [OF host_reachable.start [of default_policy "[]" 2], of "''h''"]
  by (simp add: default_policy_def numeral_2_eq_2)

text \<open>a stopped host stays stopped for its first reason, whatever the threads and outcomes do
  next, and from then on no thread is granted a request to it: the threads holding its permit only
  become fewer.\<close>

theorem stopped_host_starts_nothing:
  assumes "host_step\<^sup>*\<^sup>* (co, ts) (co', ts')" "hs_stopped_reason (state_of co h) \<noteq> []"
  shows "hs_stopped_reason (state_of co' h) = hs_stopped_reason (state_of co h) \<and>
    {i. i < length ts' \<and> ts' ! i = Holding h} \<subseteq> {i. i < length ts \<and> ts ! i = Holding h}"
  using stop_is_final [OF assms(1) refl assms(2)] by auto

definition example_stopped :: coordinator where
  "example_stopped = new_coordinator default_policy [\<lparr>hr_host = ''h'', hr_transport_errors = 2, hr_rate_limits = 0,
     hr_server_errors = 0, hr_stopped_reason = ''transport_error_threshold''\<rparr>]"

theorem stopped_host_starts_nothing_witness:
  "hs_stopped_reason (state_of (open_semaphore ''h'' example_stopped) ''h'') = ''transport_error_threshold''"
proof -
  have stopped: "hs_stopped_reason (state_of example_stopped ''h'') = ''transport_error_threshold''"
    by code_simp
  have "host_step (example_stopped, [Idle])
      (open_semaphore (host_key ''h'') example_stopped, [Idle][0 := Waiting (host_key ''h'')])"
    by (rule host_step.begin_acquire) simp_all
  moreover have "host_key ''h'' = ''h''" by code_simp
  ultimately have "host_step\<^sup>*\<^sup>* (example_stopped, [Idle]) (open_semaphore ''h'' example_stopped, [Waiting ''h''])"
    by (auto intro: r_into_rtranclp)
  from stopped_host_starts_nothing [OF this, of "''h''"] stopped show ?thesis by simp
qed

text \<open>requests to one host are paced: between two granted start times there is at least the
  policy's interval, whatever clock values the threads observe and whatever they do in between.\<close>

theorem starts_are_paced:
  assumes "enter_pacing h now co = (co1, Inr start1)" "host_step\<^sup>*\<^sup>* (co1, ts) (co2, ts')"
    and "enter_pacing h now' co2 = (co3, Inr start2)" "0 \<le> po_min_interval_ms (co_policy co)"
  shows "start1 + po_min_interval_ms (co_policy co) \<le> start2 \<and> now \<le> start1 \<and> now' \<le> start2"
proof -
  have one: "hs_next_allowed (state_of co1 h) = start1 + po_min_interval_ms (co_policy co)" "now \<le> start1"
    "co_policy co1 = co_policy co"
    using assms(1) by (auto simp: enter_pacing_def Let_def split: if_splits)
  have two: "start2 = max now' (hs_next_allowed (state_of co2 h))"
    using assms(3) by (auto simp: enter_pacing_def Let_def split: if_splits)
  from next_allowed_mono [OF assms(2), of h] assms(4) one(3)
  have "hs_next_allowed (state_of co1 h) \<le> hs_next_allowed (state_of co2 h)" by simp
  with one two show ?thesis by simp
qed

theorem starts_are_paced_witness:
  "snd (enter_pacing ''h'' 10 (fst (enter_pacing ''h'' 5 (new_coordinator default_policy [])))) = Inr 30"
proof -
  let ?co = "new_coordinator default_policy []"
  have one: "enter_pacing ''h'' 5 ?co = (fst (enter_pacing ''h'' 5 ?co), Inr 5)" by code_simp
  have two: "enter_pacing ''h'' 10 (fst (enter_pacing ''h'' 5 ?co)) =
      (fst (enter_pacing ''h'' 10 (fst (enter_pacing ''h'' 5 ?co))), Inr 30)" by code_simp
  have "5 + po_min_interval_ms (co_policy ?co) \<le> 30"
    using starts_are_paced [OF one rtranclp.rtrancl_refl two]
    by (simp add: new_coordinator_def default_policy_def)
  with two show ?thesis by (metis snd_conv)
qed

text \<open>C23: stopping implements its specification by history: after any sequence of outcomes on a host
  that starts fresh, the stop reason is that of the first moment at which the outcomes ended in a
  streak of one kind of failure as long as its (non-zero) threshold, and empty if there was none.\<close>

theorem stop_reason_by_history:
  assumes "smap outcome_kind_of evidences = Inr kinds"
  shows "hs_stopped_reason (state_of (fold (\<lambda>ev co. fst (record_outcome host ev co)) evidences
      (new_coordinator p [])) (host_key host)) = history_reason p kinds"
proof -
  have "state_of (fold (\<lambda>ev co. fst (record_outcome host ev co)) evidences co) (host_key host) =
      fold (update_host (co_policy co)) kinds (state_of co (host_key host))" for co
    using assms
  proof (induction evidences arbitrary: kinds co)
    case (Cons ev evidences)
    from Cons.prems obtain k ks where k: "outcome_kind_of ev = Inr k"
      and ks: "smap outcome_kind_of evidences = Inr ks" "kinds = k # ks"
      by (auto simp: sbind_Inr_iff)
    let ?co = "fst (record_outcome host ev co)"
    have "state_of ?co (host_key host) = update_host (co_policy co) k (state_of co (host_key host))"
      "co_policy ?co = co_policy co"
      by (simp_all add: record_outcome_def Let_def k update_host_def)
    with Cons.IH [OF ks(1), of ?co] ks(2) show ?case by simp
  qed simp
  moreover have "co_policy (new_coordinator p []) = p" "state_of (new_coordinator p []) (host_key host) = fresh_state"
    by (simp_all add: new_coordinator_def state_of_def dict_update_def)
  ultimately show ?thesis using stop_state_history [of p kinds] by simp
qed

theorem stop_reason_by_history_witness:
  "hs_stopped_reason (state_of (fold (\<lambda>ev co. fst (record_outcome ''h'' ev co))
      [ [(''status_code'', JInt 429)], [(''error_type'', JStr ''Timeout'')], [(''error_type'', JStr ''Timeout'')] ]
      (new_coordinator default_policy [])) (host_key ''h'')) =
    history_reason default_policy [RateLimited, TransportError, TransportError]"
  by (rule stop_reason_by_history)
    (simp add: outcome_kind_of_def dget_def)

text \<open>the persisted host state loses nothing that decides: a worker that resumes a run from the
  snapshot another one saved has the same error counts and stop reason for every host, only the
  pacing clock starts anew.\<close>

theorem host_snapshot_roundtrip:
  assumes "host_reachable p rows n (co, ts)"
  shows "state_of (new_coordinator p' (host_snapshot co)) h = (state_of co h)\<lparr>hs_next_allowed := 0\<rparr>"
  by (rule snapshot_restores [OF keys_inv_reachable [OF assms]])

theorem host_snapshot_roundtrip_witness:
  "state_of (new_coordinator default_policy (host_snapshot (new_coordinator default_policy []))) ''h'' = fresh_state"
  using host_snapshot_roundtrip [OF host_reachable.start [of default_policy "[]" 0], of default_policy "''h''"]
  by (simp add: new_coordinator_def state_of_def dict_update_def fresh_state_def)

text \<open>the request executor gives its permit back on every path: whether the request returns
  evidence, returns something else, is blocked or raises, and even when recording its outcome raises,
  exactly one permit of that host is free again and the policy is untouched.\<close>

theorem executor_returns_permit:
  assumes "free_permits (host_key host) co < per_host co"
  shows "\<exists>co' r. coordinated_request host outcome co = Inr (co', r) \<and> co_policy co' = co_policy co \<and>
    (\<forall>k. free_permits k co' = free_permits k co + (if k = host_key host then 1 else 0))"
proof -
  obtain co1 r where run: "run_granted_request host outcome co = (co1, r)"
    by (cases "run_granted_request host outcome co")
  have same: "co_policy co1 = co_policy co \<and> per_host co1 = per_host co \<and> (\<forall>k. free_permits k co1 = free_permits k co)"
  proof (cases "co1 = co")
    case False
    with run obtain ev x where "record_outcome host ev co = (co1, x)"
      by (auto simp: run_granted_request_def record_in_executor_def split: request_outcome.splits prod.splits sum.splits)
    from record_outcome_parts [OF this] show ?thesis by simp
  qed simp
  with assms have "free_permits (host_key host) co1 < per_host co1" by simp
  then obtain co2 where rel: "release_permit (host_key host) co1 = Inr co2"
    using succeeds_Inr [OF release_permit_ok] by blast
  with release_permit_Inr [OF rel] same show ?thesis
    by (auto simp: coordinated_request_def run)
qed

theorem executor_returns_permit_witness:
  "\<exists>co' r. coordinated_request ''h'' ReturnedOther (the (take_permit ''h'' (new_coordinator default_policy []))) =
     Inr (co', r) \<and> free_permits ''h'' co' = 4"
proof -
  let ?co = "the (take_permit ''h'' (new_coordinator default_policy []))"
  have "host_key ''h'' = ''h''" "free_permits ''h'' ?co = 3" "per_host ?co = 4" by code_simp+
  with executor_returns_permit [of "''h''" ?co ReturnedOther] show ?thesis by auto
qed

end
