(* ===== verification/ResultClassify.thy ===== *)
theory ResultClassify
  imports BatchQueue "HOL-Library.Multiset"
begin

text \<open>
  What \<open>apiAnalysis/tool/execution_scheduler.py\<close> keeps of an execution and how it reads it: the
  evidence allowlist, response clusters, the two built-in judges and the bounded run summary.

  The facts: sanitised evidence carries nothing but allowlisted keys and the cluster key; the judges
  never turn a failed transport into anything but an error; the summary partitions the checkpoints
  into clusters and its flags say exactly when something was cut.
\<close>

section \<open>Evidence\<close>

definition allowed_evidence_keys :: "string list" where
  "allowed_evidence_keys = [
     ''status_code'', ''expected_status_codes'', ''ok'', ''elapsed_ms'',
     ''response_len'', ''domain'', ''auth_mode'', ''error_type'',
     ''response_sha256'', ''response_content_type'', ''response_json_type'',
     ''response_record_count'', ''response_collection_path'',
     ''response_top_level_keys'', ''response_field_names'',
     ''request_method'', ''request_origin'', ''request_path'',
     ''request_query_names'', ''request_header_names'', ''request_cookie_names'',
     ''request_auth_header_names'', ''request_auth_cookie_names'',
     ''request_body_bytes'', ''request_content_type'',
     ''request_timeout_seconds'', ''request_allow_redirects'',
     ''request_tls_verify'', ''auth_request_count'',
     ''apifox_experiment'', ''mutation_request'',
     ''before_readback_attempted'', ''after_readback_attempted'',
     ''cleanup_attempted'', ''final_readback_attempted'', ''lifecycle_gap'',
     ''lifecycle_strategy'', ''lifecycle_request_count'',
     ''before_status_code'', ''mutation_status_code'', ''after_status_code'',
     ''cleanup_status_code'', ''final_status_code'', ''effect_observed'',
     ''cleanup_verified'', ''restore_payload_ready'', ''created_id_extracted'',
     ''source_status_code'', ''consumer_status_code'',
     ''authorization_matrix_case'', ''authorization_case_key'',
     ''authorization_policy_key'', ''authorization_policy_version_id'',
     ''authorization_policy_version'', ''resource_owner_principal_id'',
     ''subject_principal_id'', ''authorization_expected_decision'',
     ''authorization_observed_decision'', ''authorization_matched_rule_id'',
     ''authorization_rule_reason_codes'', ''authorization_resource_family'',
     ''authorization_action'', ''authorization_resource_match_count'',
     ''authorization_resource_field_count'', ''resource_path'', ''value_digest'',
     ''sqli_screen'',
     ''parameter_quality'']"

definition length_bucket :: "int \<Rightarrow> string" where
  "length_bucket n = (if n = 0 then ''0'' else if n < 100 then ''1-99'' else if n < 1000 then ''100-999''
     else if n < 10000 then ''1k-9k'' else ''10k+'')"

text \<open>\<open>str(evidence.get(k) or default)\<close>.\<close>

definition text_or :: "json dict \<Rightarrow> string \<Rightarrow> string \<Rightarrow> string" where
  "text_or d k dflt = (if truthy (dget d k) then py_str (dget d k) else dflt)"

definition response_cluster_key :: "json dict \<Rightarrow> string result_of" where
  "response_cluster_key evidence = (let error_type = dtext evidence ''error_type'' in
     if error_type \<noteq> [] then Inr (''transport:'' @ error_type)
     else sbind (dint evidence ''response_len'') (\<lambda>n.
       let status = dget evidence ''status_code'' in
       Inr (join '':'' [''http'', (if status = JNull then ''none'' else py_str status),
         text_or evidence ''response_content_type'' ''unknown'',
         text_or evidence ''response_json_type'' ''none'', length_bucket n])))"

definition kept_evidence :: "json dict \<Rightarrow> json dict" where
  "kept_evidence evidence = List.map_filter
     (\<lambda>k. map_option (\<lambda>v. (k, v)) (map_of evidence k)) allowed_evidence_keys"

definition sanitize_execution_evidence :: "json dict \<Rightarrow> json dict result_of" where
  "sanitize_execution_evidence evidence = (let kept = kept_evidence evidence in
     sbind (response_cluster_key kept) (\<lambda>c. Inr (dict_set ''cluster_key'' (JStr c) kept)))"

section \<open>The built-in judges\<close>

definition UNAUTH_CHECKS :: "string set" where
  "UNAUTH_CHECKS = {''unauth_access'', ''anonymous_access''}"

definition classify_status :: "bool \<Rightarrow> int \<Rightarrow> judgement" where
  "classify_status is_unauth status =
     (if is_unauth \<and> status \<in> {401, 403} then (''no_vuln'', [''anonymous_authentication_required''], 97 / 100)
      else if is_unauth \<and> 200 \<le> status \<and> status < 300
        then (''need_review'', [''anonymous_2xx_requires_content_review''], 65 / 100)
      else if status = 429 then (''not_evaluable'', [''rate_limited''], 9 / 10)
      else if 500 \<le> status \<and> status < 600 then (''not_evaluable'', [''server_error''], 8 / 10)
      else if 300 \<le> status \<and> status < 400 then (''not_evaluable'', [''redirect_requires_review''], 65 / 100)
      else if is_unauth then (''not_evaluable'', [''anonymous_response_not_conclusive''], 6 / 10)
      else (''not_evaluable'', [''adapter_judge_required''], 95 / 100))"

definition transport_failure :: judgement where
  "transport_failure = (''error'', [''transport_error''], 9 / 10)"

definition evidence_failed :: "json dict \<Rightarrow> bool" where
  "evidence_failed evidence \<longleftrightarrow> truthy (dget evidence ''error_type'') \<or> truthy (dget evidence ''error'')"

definition classify_execution_result :: "json dict \<Rightarrow> string \<Rightarrow> string \<Rightarrow> judgement result_of" where
  "classify_execution_result evidence check_type auth_mode =
     (if evidence_failed evidence then Inr transport_failure
      else if dget evidence ''status_code'' = JNull then Inr transport_failure
      else sbind (py_int (dget evidence ''status_code'')) (\<lambda>status.
        Inr (classify_status (auth_mode = ''anonymous'' \<and> check_type \<in> UNAUTH_CHECKS) status)))"

definition classify_mutation_status :: "int \<Rightarrow> judgement" where
  "classify_mutation_status status =
     (if status = 429 then (''not_evaluable'', [''rate_limited''], 9 / 10)
      else if 500 \<le> status \<and> status < 600 then (''not_evaluable'', [''server_error''], 8 / 10)
      else if 300 \<le> status \<and> status < 400 then (''not_evaluable'', [''redirect_requires_review''], 65 / 100)
      else (''need_review'', [''mutation_response_requires_effect_review''], 75 / 100))"

definition classify_generic_mutation_result :: "json dict \<Rightarrow> judgement result_of" where
  "classify_generic_mutation_result evidence =
     (if evidence_failed evidence then Inr transport_failure
      else if dget evidence ''status_code'' = JNull then Inr transport_failure
      else sbind (py_int (dget evidence ''status_code'')) (\<lambda>status. Inr (classify_mutation_status status)))"

section \<open>The run summary\<close>

record cluster_row =
  cl_host :: string
  cl_key :: string
  cl_count :: nat
  cl_hashes :: "string list"
  cl_pathid :: int
  cl_snapshot :: oid

definition cluster_of :: "security_execution_checkpoint \<Rightarrow> (string \<times> string) result_of" where
  "cluster_of cp = (let summary = cp_outcome_summary cp; k = dtext summary ''cluster_key'' in
     sbind (if k \<noteq> [] then Inr k else response_cluster_key summary)
       (\<lambda>key. Inr (str_or (cp_host cp) ''<unknown>'', key)))"

definition set_add :: "'a \<Rightarrow> 'a list \<Rightarrow> 'a list" where
  "set_add x xs = (if x \<in> set xs then xs else xs @ [x])"

text \<open>One iteration of the grouping loop: \<open>setdefault\<close>, count, remember the response hash.\<close>

definition group_default :: "(string \<times> string) \<Rightarrow> security_execution_checkpoint \<Rightarrow>
    ((string \<times> string) \<times> cluster_row) list \<Rightarrow> cluster_row" where
  "group_default key cp groups = (case map_of groups key of Some r \<Rightarrow> r
     | None \<Rightarrow> \<lparr>cl_host = fst key, cl_key = snd key, cl_count = 0, cl_hashes = [],
         cl_pathid = cp_pathid cp, cl_snapshot = cp_snapshot_id cp\<rparr>)"

definition count_checkpoint :: "security_execution_checkpoint \<Rightarrow> cluster_row \<Rightarrow> cluster_row" where
  "count_checkpoint cp row = (let h = dtext (cp_outcome_summary cp) ''response_sha256'' in
     row\<lparr>cl_count := Suc (cl_count row),
         cl_hashes := (if h \<noteq> [] then set_add h (cl_hashes row) else cl_hashes row)\<rparr>)"

definition add_to_groups :: "((string \<times> string) \<times> security_execution_checkpoint) \<Rightarrow>
    ((string \<times> string) \<times> cluster_row) list \<Rightarrow> ((string \<times> string) \<times> cluster_row) list" where
  "add_to_groups kc groups = (case kc of (key, cp) \<Rightarrow>
     dict_set key (count_checkpoint cp (group_default key cp groups)) groups)"

definition REVIEW_VERDICTS :: "string set" where
  "REVIEW_VERDICTS = {''need_review'', ''potential_vuln'', ''error''}"

definition counter :: "string list \<Rightarrow> nat dict" where
  "counter xs = map (\<lambda>x. (x, count_list xs x)) (sorted_set xs)"

definition result_verdict :: "security_test_result \<Rightarrow> string" where
  "result_verdict r = str_or (res_verdict r) ''unknown''"

record execution_aggregate =
  ag_cluster_count :: nat
  ag_clusters :: "cluster_row list"
  ag_clusters_truncated :: bool
  ag_verdict_counts :: "nat dict"
  ag_reason_counts :: "nat dict"
  ag_review_candidate_count :: nat
  ag_review_candidates :: "security_test_result list"
  ag_review_candidates_truncated :: bool

definition summarize_execution_records :: "security_execution_checkpoint list \<Rightarrow>
    security_test_result list \<Rightarrow> nat \<Rightarrow> nat \<Rightarrow> execution_aggregate result_of" where
  "summarize_execution_records checkpoints results max_clusters max_review_candidates =
     sbind (smap cluster_of checkpoints) (\<lambda>keys.
     let groups = fold add_to_groups (zip keys checkpoints) [];
         clusters = sort_key (\<lambda>g. (- int (cl_count g), cl_host g, cl_key g)) (map snd groups);
         verdict_counts = counter (map result_verdict results);
         review = sum_list (map snd (filter (\<lambda>(v, n). v \<in> REVIEW_VERDICTS) verdict_counts));
         candidates = take max_review_candidates (filter (\<lambda>r. result_verdict r \<in> REVIEW_VERDICTS) results)
     in Inr \<lparr>
       ag_cluster_count = length clusters,
       ag_clusters = take max_clusters clusters,
       ag_clusters_truncated = (max_clusters < length clusters),
       ag_verdict_counts = verdict_counts,
       ag_reason_counts = counter (concat (map res_reason_codes results)),
       ag_review_candidate_count = review,
       ag_review_candidates = candidates,
       ag_review_candidates_truncated = (length candidates < review)\<rparr>)"

section \<open>Facts\<close>

lemma cluster_key_not_allowed: "''cluster_key'' \<notin> set allowed_evidence_keys"
  by (simp add: allowed_evidence_keys_def)

lemma map_of_map_filter:
  "map_of (List.map_filter (\<lambda>k. map_option (\<lambda>v. (k, v)) (m k)) ks) k = (if k \<in> set ks then m k else None)"
  by (induction ks) (auto simp: List.map_filter_simps split: option.splits)

lemma map_filter_cong_on:
  "(\<And>x. x \<in> set xs \<Longrightarrow> f x = g x) \<Longrightarrow> List.map_filter f xs = List.map_filter g xs"
  by (induction xs) (auto simp: List.map_filter_simps split: option.splits)

lemma kept_lookup: "map_of (kept_evidence e) k = (if k \<in> set allowed_evidence_keys then map_of e k else None)"
  unfolding kept_evidence_def by (rule map_of_map_filter)

lemma counter_lookup: "map_of (counter xs) x = (if x \<in> set xs then Some (count_list xs x) else None)"
  unfolding counter_def by (simp add: map_of_map_restrict)

lemma sum_count_list:
  "finite S \<Longrightarrow> S \<subseteq> V \<Longrightarrow> set xs \<inter> V \<subseteq> S \<Longrightarrow> sum (count_list xs) S = length (filter (\<lambda>x. x \<in> V) xs)"
proof (induction xs)
  case (Cons x xs)
  have "sum (count_list (x # xs)) S = (\<Sum>v \<in> S. count_list xs v + (if v = x then 1 else 0))"
    by (rule sum.cong) auto
  also have "\<dots> = sum (count_list xs) S + (if x \<in> S then 1 else 0)"
    using Cons.prems(1) by (simp add: sum.distrib)
  also have "sum (count_list xs) S = length (filter (\<lambda>x. x \<in> V) xs)"
    using Cons by auto
  finally show ?case using Cons.prems(2,3) by auto
qed simp

lemma sum_counter:
  "sum_list (map snd (filter (\<lambda>(v, n). v \<in> V) (counter xs))) = length (filter (\<lambda>x. x \<in> V) xs)"
proof -
  have "sum_list (map snd (filter (\<lambda>(v, n). v \<in> V) (counter xs))) =
      sum_list (map (count_list xs) (filter (\<lambda>v. v \<in> V) (sorted_set xs)))"
    by (simp add: counter_def filter_map comp_def)
  also have "\<dots> = sum (count_list xs) (set xs \<inter> V)"
    by (subst sum.distinct_set_conv_list [symmetric]) (auto intro: sum.cong)
  also have "\<dots> = length (filter (\<lambda>x. x \<in> V) xs)"
    by (rule sum_count_list) auto
  finally show ?thesis .
qed

text \<open>The groups after the loop: one row per key, under its own key, counting its checkpoints.\<close>

definition groups_ok :: "((string \<times> string) \<times> 'a) list \<Rightarrow> ((string \<times> string) \<times> cluster_row) list \<Rightarrow> bool" where
  "groups_ok seen groups \<longleftrightarrow> distinct (map fst groups) \<and> set (map fst groups) = set (map fst seen) \<and>
     (\<forall>(k, row) \<in> set groups. k = (cl_host row, cl_key row) \<and> cl_count row = count_list (map fst seen) k)"

lemma set_dict_set: "distinct (map fst d) \<Longrightarrow>
  set (dict_set k v d) = {(k, v)} \<union> {(k', v') \<in> set d. k' \<noteq> k}"
  by (induction k v d rule: dict_set.induct) (auto simp: rev_image_eqI)

lemma groups_ok_add:
  assumes "groups_ok seen groups"
  shows "groups_ok (seen @ [kc]) (add_to_groups kc groups)"
proof -
  obtain key cp where kc: "kc = (key, cp)" by (cases kc)
  define row where "row = count_checkpoint cp (group_default key cp groups)"
  have add: "add_to_groups kc groups = dict_set key row groups"
    by (simp add: add_to_groups_def kc row_def)
  have "key = (cl_host (group_default key cp groups), cl_key (group_default key cp groups)) \<and>
      cl_count (group_default key cp groups) = count_list (map fst seen) key"
  proof (cases "map_of groups key")
    case None
    then have "key \<notin> set (map fst seen)"
      using assms by (simp only: groups_ok_def map_of_eq_None_iff) simp
    then have "count_list (map fst seen) key = 0" by (simp add: count_list_0_iff)
    then show ?thesis by (simp add: group_default_def None)
  next
    case (Some old)
    then have "(key, old) \<in> set groups" by (rule map_of_SomeD)
    with assms show ?thesis by (auto simp: groups_ok_def group_default_def Some)
  qed
  then have r: "key = (cl_host row, cl_key row)" "cl_count row = Suc (count_list (map fst seen) key)"
    by (simp_all add: row_def count_checkpoint_def Let_def)
  have d: "distinct (map fst groups)" using assms by (simp add: groups_ok_def)
  show ?thesis
    unfolding groups_ok_def add
  proof (intro conjI)
    show "distinct (map fst (dict_set key row groups))" by (rule distinct_dict_set [OF d])
    show "set (map fst (dict_set key row groups)) = set (map fst (seen @ [kc]))"
      using assms keys_dict_set [of key row groups] by (simp add: groups_ok_def kc insert_commute)
    show "\<forall>(k, row) \<in> set (dict_set key row groups). k = (cl_host row, cl_key row) \<and>
        cl_count row = count_list (map fst (seen @ [kc])) k"
      using assms r by (auto simp: set_dict_set [OF d] groups_ok_def kc)
  qed
qed

lemma groups_ok_fold: "groups_ok seen groups \<Longrightarrow> groups_ok (seen @ kcs) (fold add_to_groups kcs groups)"
proof (induction kcs arbitrary: seen groups)
  case (Cons kc kcs)
  from Cons.IH [OF groups_ok_add [OF Cons.prems, of kc]] show ?case by simp
qed simp

lemma groups_total:
  assumes "groups_ok seen groups"
  shows "sum_list (map (cl_count \<circ> snd) groups) = length seen"
proof -
  have d: "distinct (map fst groups)" "set (map fst groups) = set (map fst seen)"
    using assms by (simp_all only: groups_ok_def)
  have "cl_count (snd g) = count_list (map fst seen) (fst g)" if "g \<in> set groups" for g
    using assms that by (cases g) (auto simp: groups_ok_def)
  then have "sum_list (map (cl_count \<circ> snd) groups) = sum_list (map (count_list (map fst seen) \<circ> fst) groups)"
    by (intro arg_cong [where f = sum_list] map_cong) simp_all
  also have "\<dots> = sum_list (map (count_list (map fst seen)) (map fst groups))"
    by simp
  also have "\<dots> = sum (count_list (map fst seen)) (set (map fst seen))"
    by (simp only: sum.distinct_set_conv_list [OF d(1), symmetric] d(2))
  also have "\<dots> = length seen"
    using sum_count_list [of "set (map fst seen)" UNIV "map fst seen"] by simp
  finally show ?thesis .
qed

lemma count_list_smap:
  "smap f xs = Inr ks \<Longrightarrow> count_list ks k = length (filter (\<lambda>x. f x = Inr k) xs)"
  by (induction xs arbitrary: ks) (auto simp: sbind_Inr_iff)

section \<open>Properties\<close>

text \<open>nothing but allowlisted metadata is persisted of an execution. The sanitised evidence has the
  allowlisted keys of the evidence with their values, plus the cluster key, and nothing else (no raw
  error, no body sample); sanitising what was sanitised changes nothing.\<close>

theorem sanitized_evidence_allowlisted:
  assumes "sanitize_execution_evidence evidence = Inr s"
  shows "(\<forall>k. map_of s k = (if k = ''cluster_key'' then map_option JStr (Some (sum.projr (response_cluster_key s)))
      else if k \<in> set allowed_evidence_keys then map_of evidence k else None)) \<and>
    map_of s ''error'' = None \<and> map_of s ''text_sample'' = None \<and>
    sanitize_execution_evidence s = Inr s"
proof -
  from assms obtain c where c: "response_cluster_key (kept_evidence evidence) = Inr c"
    and s: "s = dict_set ''cluster_key'' (JStr c) (kept_evidence evidence)"
    by (auto simp: sanitize_execution_evidence_def Let_def sbind_Inr_iff)
  have look: "map_of s k = (if k = ''cluster_key'' then Some (JStr c)
      else if k \<in> set allowed_evidence_keys then map_of evidence k else None)" for k
    by (simp add: s kept_lookup)
  have kept: "kept_evidence s = kept_evidence evidence"
  proof -
    have "map_of s k = map_of evidence k" if "k \<in> set allowed_evidence_keys" for k
      using that cluster_key_not_allowed by (auto simp: look)
    then show ?thesis unfolding kept_evidence_def by (intro map_filter_cong_on) simp
  qed
  have same: "dget s k = dget (kept_evidence evidence) k" if "k \<noteq> ''cluster_key''" for k
    using that by (simp add: s dget_def)
  have "response_cluster_key s = Inr c"
    using c by (simp add: response_cluster_key_def dtext_def dint_def text_or_def Let_def same cong: if_cong)
  moreover have "''error'' \<notin> set allowed_evidence_keys" "''text_sample'' \<notin> set allowed_evidence_keys"
    by (simp_all add: allowed_evidence_keys_def)
  ultimately show ?thesis
    using look by (simp add: sanitize_execution_evidence_def Let_def kept c s [symmetric])
qed

theorem sanitized_evidence_allowlisted_witness:
  "\<exists>s. sanitize_execution_evidence [(''status_code'', JInt 200), (''text_sample'', JStr ''secret'')] = Inr s \<and>
     map_of s ''text_sample'' = None"
proof -
  have "succeeds (sanitize_execution_evidence [(''status_code'', JInt 200), (''text_sample'', JStr ''secret'')])"
    by code_simp
  then obtain s where s: "sanitize_execution_evidence [(''status_code'', JInt 200), (''text_sample'', JStr ''secret'')] = Inr s"
    by (auto simp: succeeds_iff)
  with sanitized_evidence_allowlisted [OF s] show ?thesis by blast
qed

text \<open>the built-in judge is conservative: a result is an error exactly when the transport failed or
  there is no status; it is a pass only for an anonymous access check that was answered 401 or 403;
  it never claims a vulnerability; and its confidence is a probability.\<close>

theorem classify_is_conservative:
  assumes "classify_execution_result evidence check_type auth_mode = Inr (verdict, reasons, confidence)"
  shows "(verdict = ''error'' \<longleftrightarrow> evidence_failed evidence \<or> dget evidence ''status_code'' = JNull) \<and>
    (verdict \<in> PASS_BLOCKING_VERDICTS \<longleftrightarrow> \<not> evidence_failed evidence \<and> auth_mode = ''anonymous'' \<and>
       check_type \<in> UNAUTH_CHECKS \<and> py_int (dget evidence ''status_code'') \<in> {Inr 401, Inr 403}) \<and>
    verdict \<noteq> ''potential_vuln'' \<and> length reasons = 1 \<and> 0 \<le> confidence \<and> confidence \<le> 1"
proof (cases "evidence_failed evidence \<or> dget evidence ''status_code'' = JNull")
  case True
  with assms have "verdict = ''error''" "length reasons = 1" "confidence = 9 / 10"
    by (auto simp: classify_execution_result_def transport_failure_def split: if_splits)
  with True show ?thesis by (auto simp: PASS_BLOCKING_VERDICTS_def)
next
  case False
  with assms obtain n where n: "py_int (dget evidence ''status_code'') = Inr n"
    and c: "classify_status (auth_mode = ''anonymous'' \<and> check_type \<in> UNAUTH_CHECKS) n = (verdict, reasons, confidence)"
    by (auto simp: classify_execution_result_def sbind_Inr_iff)
  from c have "verdict \<noteq> ''error'' \<and> verdict \<noteq> ''potential_vuln'' \<and> length reasons = 1 \<and>
      0 \<le> confidence \<and> confidence \<le> 1"
    by (auto simp: classify_status_def split: if_splits)
  moreover from c have "verdict \<in> PASS_BLOCKING_VERDICTS \<longleftrightarrow>
      (auth_mode = ''anonymous'' \<and> check_type \<in> UNAUTH_CHECKS) \<and> n \<in> {401, 403}"
    by (auto simp: classify_status_def PASS_BLOCKING_VERDICTS_def split: if_splits)
  ultimately show ?thesis using False n by auto
qed

theorem classify_is_conservative_witness:
  "''no_vuln'' \<in> PASS_BLOCKING_VERDICTS"
proof -
  have "classify_execution_result [(''status_code'', JInt 401)] ''unauth_access'' ''anonymous'' =
      Inr (''no_vuln'', [''anonymous_authentication_required''], 97 / 100)"
    by code_simp
  from classify_is_conservative [OF this] show ?thesis
    by (simp add: evidence_failed_def UNAUTH_CHECKS_def dget_def)
qed

text \<open>the run summary partitions the checkpoints: the clusters are distinct, sorted by falling
  count, and each counts exactly the checkpoints of its host and cluster key; the flag tells exactly
  whether rows were cut, and when none were the counts add up to all checkpoints.\<close>

theorem summary_partitions_checkpoints:
  assumes "summarize_execution_records cps results max_clusters max_review = Inr ag"
  shows "distinct (map (\<lambda>r. (cl_host r, cl_key r)) (ag_clusters ag)) \<and>
    sorted (map (\<lambda>r. - int (cl_count r)) (ag_clusters ag)) \<and>
    (\<forall>r \<in> set (ag_clusters ag). cl_count r =
       length (filter (\<lambda>cp. cluster_of cp = Inr (cl_host r, cl_key r)) cps)) \<and>
    (ag_clusters_truncated ag \<longleftrightarrow> length (ag_clusters ag) < ag_cluster_count ag) \<and>
    (\<not> ag_clusters_truncated ag \<longrightarrow> sum_list (map cl_count (ag_clusters ag)) = length cps)"
proof -
  from assms obtain keys where k: "smap cluster_of cps = Inr keys"
    by (auto simp: summarize_execution_records_def sbind_Inr_iff)
  define groups where "groups = fold add_to_groups (zip keys cps) []"
  define key where "key = (\<lambda>g :: cluster_row. (- int (cl_count g), cl_host g, cl_key g))"
  define clusters where "clusters = sort_key key (map snd groups)"
  have ag: "ag_clusters ag = take max_clusters clusters" "ag_cluster_count ag = length clusters"
    "ag_clusters_truncated ag \<longleftrightarrow> max_clusters < length clusters"
    using assms by (auto simp: summarize_execution_records_def Let_def k clusters_def key_def groups_def)
  have len: "length keys = length cps" using k by (rule smap_Inr_length)
  have ok: "groups_ok (zip keys cps) groups"
    using groups_ok_fold [of "[]" "[]" "zip keys cps"] by (simp add: groups_ok_def groups_def)
  have gk: "map (\<lambda>r. (cl_host r, cl_key r)) (map snd groups) = map fst groups"
    using ok by (auto simp: groups_ok_def)
  have "mset (map (\<lambda>r. (cl_host r, cl_key r)) clusters) = mset (map fst groups)"
    unfolding clusters_def gk [symmetric] by (simp only: mset_map mset_sort)
  then have "distinct (map (\<lambda>r. (cl_host r, cl_key r)) clusters)"
    using ok by (metis groups_ok_def mset_eq_imp_distinct_iff)
  then have 1: "distinct (map (\<lambda>r. (cl_host r, cl_key r)) (ag_clusters ag))"
    by (simp add: ag(1) take_map [symmetric])
  have "sorted (map key clusters)" by (simp add: clusters_def)
  then have "sorted (map fst (map key clusters))"
    by (auto simp: sorted_iff_nth_mono less_eq_prod_def intro: order.strict_implies_order)
  then have 2: "sorted (map (\<lambda>r. - int (cl_count r)) (ag_clusters ag))"
    by (simp add: ag(1) key_def comp_def take_map [symmetric] sorted_wrt_take)
  have 3: "cl_count r = length (filter (\<lambda>cp. cluster_of cp = Inr (cl_host r, cl_key r)) cps)"
    if "r \<in> set (ag_clusters ag)" for r
  proof -
    from that have "r \<in> set (map snd groups)"
      unfolding ag(1) clusters_def by (metis in_set_takeD set_sort)
    then obtain kk where "(kk, r) \<in> set groups" by auto
    with ok have "cl_count r = count_list keys (cl_host r, cl_key r)"
      by (auto simp: groups_ok_def len)
    then show ?thesis by (simp add: count_list_smap [OF k])
  qed
  have "sum_list (map cl_count clusters) = sum_list (map (cl_count \<circ> snd) groups)"
  proof -
    have "mset (map cl_count clusters) = mset (map (cl_count \<circ> snd) groups)"
      by (simp add: clusters_def multiset.map_comp)
    then show ?thesis by (metis sum_mset_sum_list)
  qed
  then have "sum_list (map cl_count clusters) = length cps"
    using groups_total [OF ok] by (simp add: len)
  with 1 2 3 show ?thesis by (auto simp: ag)
qed

definition example_finished :: "nat \<Rightarrow> oid \<Rightarrow> string \<Rightarrow> security_execution_checkpoint" where
  "example_finished i s k = (new_checkpoint 0 (example_run ''r1'' example_context RUNNING) i
     (example_snapshot s ''GET'') ''h'')\<lparr>cp_status := CP_DONE, cp_outcome_summary := [(''cluster_key'', JStr k)]\<rparr>"

definition example_summary :: "execution_aggregate result_of" where
  "example_summary = summarize_execution_records
     [example_finished 0 ''s1'' ''k1'', example_finished 1 ''s2'' ''k2'', example_finished 2 ''s3'' ''k2'']
     [build_result 1 ''x1'' (example_run ''r1'' example_context RUNNING) None
        (example_input\<lparr>ri_verdict := ''need_review''\<rparr>)] 2 0"

theorem summary_partitions_checkpoints_witness:
  "\<exists>ag. example_summary = Inr ag \<and> sum_list (map cl_count (ag_clusters ag)) = 3"
proof -
  have "(case example_summary of Inr ag \<Rightarrow> \<not> ag_clusters_truncated ag | Inl _ \<Rightarrow> False)" by code_simp
  then obtain ag where s: "example_summary = Inr ag" and t: "\<not> ag_clusters_truncated ag"
    by (auto split: sum.splits)
  have "sum_list (map cl_count (ag_clusters ag)) = length [example_finished 0 ''s1'' ''k1'',
      example_finished 1 ''s2'' ''k2'', example_finished 2 ''s3'' ''k2'']"
    using summary_partitions_checkpoints [OF s [unfolded example_summary_def]] t by blast
  then have "sum_list (map cl_count (ag_clusters ag)) = 3" by simp
  with s show ?thesis by blast
qed

text \<open>the review queue of the summary is exact: the count is the number of results that need a
  review, the candidates are the first of them in recorded order, and the flag tells exactly whether
  some were left out.\<close>

theorem summary_review_queue_exact:
  assumes "summarize_execution_records cps results max_clusters max_review = Inr ag"
  shows "ag_review_candidate_count ag = length (filter (\<lambda>r. result_verdict r \<in> REVIEW_VERDICTS) results) \<and>
    ag_review_candidates ag = take max_review (filter (\<lambda>r. result_verdict r \<in> REVIEW_VERDICTS) results) \<and>
    (ag_review_candidates_truncated ag \<longleftrightarrow> max_review < ag_review_candidate_count ag) \<and>
    map_of (ag_verdict_counts ag) v = (if v \<in> result_verdict ` set results
      then Some (length (filter (\<lambda>r. result_verdict r = v) results)) else None)"
proof -
  have c: "count_list (map result_verdict results) v = length (filter (\<lambda>r. result_verdict r = v) results)"
    by (induction results) auto
  have l: "map_of (ag_verdict_counts ag) v = map_of (counter (map result_verdict results)) v"
    "ag_review_candidate_count ag = length (filter (\<lambda>r. result_verdict r \<in> REVIEW_VERDICTS) results)"
    "ag_review_candidates ag = take max_review (filter (\<lambda>r. result_verdict r \<in> REVIEW_VERDICTS) results)"
    "ag_review_candidates_truncated ag \<longleftrightarrow> length (ag_review_candidates ag) < ag_review_candidate_count ag"
    using assms by (auto simp: summarize_execution_records_def sbind_Inr_iff Let_def sum_counter filter_map comp_def)
  have "ag_review_candidates_truncated ag \<longleftrightarrow> max_review < ag_review_candidate_count ag"
    unfolding l(4) l(2,3) by (simp add: min_def)
  with l(1-3) c show ?thesis by (simp add: counter_lookup)
qed

theorem summary_review_queue_exact_witness:
  "\<exists>ag. example_summary = Inr ag \<and> ag_review_candidate_count ag = 1 \<and> ag_review_candidates_truncated ag"
proof -
  have "succeeds example_summary" by code_simp
  then obtain ag where s: "example_summary = Inr ag" by (auto simp: succeeds_iff)
  have "ag_review_candidate_count ag = 1"
    using summary_review_queue_exact [OF s [unfolded example_summary_def], of "[]", THEN conjunct1]
    by (simp add: result_verdict_def build_result_def example_input_def str_or_def REVIEW_VERDICTS_def Let_def)
  moreover have "ag_review_candidates_truncated ag \<longleftrightarrow> 0 < ag_review_candidate_count ag"
    using summary_review_queue_exact [OF s [unfolded example_summary_def], of "[]"] by blast
  ultimately have "ag_review_candidate_count ag = 1 \<and> ag_review_candidates_truncated ag" by simp
  with s show ?thesis by blast
qed

end
