(* ===== verification/ExecutionAdapters.thy ===== *)
theory ExecutionAdapters
  imports ExecutionContract
begin

text \<open>
  \<open>apiAnalysis/tool/execution_adapter.py\<close>: the typed contract between the worker and what executes
  a snapshot. An adapter's \<open>replay\<close>, \<open>judge\<close> and \<open>record\<close> are callables the contract only calls, so
  they are function fields of the model's record: \<open>replay\<close> returns evidence, is blocked by the host
  policy, or raises; \<open>judge\<close> returns verdict, reasons and confidence, or raises; the \<open>record\<close> hook
  returns the class name of the exception it raised, if any.

  The facts are what the worker relies on: an accepted run matches the adapter's identity, version
  and modes (\<open>validate_adapter_ok\<close>), and a registry has one well-formed adapter per id
  (\<open>registry_ok\<close>).
\<close>

datatype replay_outcome =
    Evidence "json dict"
  | ReplayBlocked string
  | ReplayRaised string

type_synonym judge_fun = "json dict \<Rightarrow> string \<Rightarrow> string \<Rightarrow> judgement result_of"

record execution_adapter =
  ad_id :: string
  ad_version :: string
  ad_replay :: "request_snapshot \<Rightarrow> replay_outcome"
  ad_judge :: judge_fun
  ad_auth_modes :: "string list"
  ad_requires_account_context :: bool
  ad_supports_mutation :: bool
  ad_request_policy_scope :: string
  ad_record :: "(security_test_run \<Rightarrow> request_snapshot \<Rightarrow> json dict \<Rightarrow> security_test_result \<Rightarrow>
     string option) option"

definition REQUEST_POLICY_SCOPES :: "string set" where
  "REQUEST_POLICY_SCOPES = {''checkpoint'', ''request''}"

text \<open>\<open>ExecutionRequestBlocked.reason\<close>.\<close>

definition blocked_reason :: "string \<Rightarrow> string" where
  "blocked_reason reason = str_or reason ''request_blocked''"

section \<open>\<open>ExecutionAdapter.validate\<close>\<close>

definition validate_adapter :: "execution_adapter \<Rightarrow> security_test_run \<Rightarrow> bool \<Rightarrow> unit result_of" where
  "validate_adapter a run allow_mutation = (let c = run_ctx run in guards [
     (cx_adapter_id c \<noteq> ad_id a, UnsupportedAdapter),
     (str_or (cx_adapter_version c) ''1'' \<noteq> ad_version a, UnsupportedAdapterVersion),
     (str_or (cx_auth_mode c) ''inherit'' \<notin> set (ad_auth_modes a), AdapterAuthModeMismatch),
     (allow_mutation \<and> \<not> ad_supports_mutation a, AdapterMutationMismatch)])"

section \<open>Registries\<close>

definition builtin_execution_adapters :: "(request_snapshot \<Rightarrow> replay_outcome) \<Rightarrow> judge_fun \<Rightarrow>
    (string \<times> execution_adapter) list" where
  "builtin_execution_adapters replay judge = map (\<lambda>a. (ad_id a, a)) [
     \<lparr>ad_id = ''snapshot_batch'', ad_version = ''1'', ad_replay = replay, ad_judge = judge,
      ad_auth_modes = [''anonymous'', ''inherit''], ad_requires_account_context = False,
      ad_supports_mutation = True, ad_request_policy_scope = ''checkpoint'', ad_record = None\<rparr>,
     \<lparr>ad_id = ''authenticated_snapshot_batch'', ad_version = ''1'', ad_replay = replay, ad_judge = judge,
      ad_auth_modes = [''account''], ad_requires_account_context = True,
      ad_supports_mutation = True, ad_request_policy_scope = ''checkpoint'', ad_record = None\<rparr>]"

text \<open>The checks of one loop iteration; callability is a matter of the model's types.\<close>

definition adapter_checks :: "(string \<times> execution_adapter) list \<Rightarrow> execution_adapter \<Rightarrow> guard list" where
  "adapter_checks seen a = [
     (ad_id a = [] \<or> ad_version a = [],
      ValueError ''execution adapter id, version, replay and judge are required''),
     (ad_auth_modes a = [] \<or>
        \<not> list_all (\<lambda>m. m \<in> {''anonymous'', ''account'', ''inherit'', ''matrix''}) (ad_auth_modes a),
      ValueError ''execution adapter auth_modes are invalid''),
     ((''account'' \<in> set (ad_auth_modes a)) \<noteq> ad_requires_account_context a,
      ValueError ''account adapters must require AccountContext''),
     (ad_request_policy_scope a \<notin> REQUEST_POLICY_SCOPES,
      ValueError ''execution adapter request_policy_scope is invalid''),
     (map_of seen (ad_id a) \<noteq> None, ValueError ''duplicate execution adapter id'')]"

fun registry_from :: "(string \<times> execution_adapter) list \<Rightarrow> execution_adapter list \<Rightarrow>
    (string \<times> execution_adapter) list result_of" where
  "registry_from seen [] = Inr seen"
| "registry_from seen (a # as) =
     sbind (guards (adapter_checks seen a)) (\<lambda>_. registry_from (seen @ [(ad_id a, a)]) as)"

definition adapter_registry :: "execution_adapter list \<Rightarrow> (string \<times> execution_adapter) list result_of" where
  "adapter_registry adapters = registry_from [] adapters"

section \<open>Facts\<close>

definition well_formed_adapter :: "execution_adapter \<Rightarrow> bool" where
  "well_formed_adapter a \<longleftrightarrow> ad_id a \<noteq> [] \<and> ad_version a \<noteq> [] \<and> ad_auth_modes a \<noteq> [] \<and>
     set (ad_auth_modes a) \<subseteq> AUTH_MODES \<and>
     (''account'' \<in> set (ad_auth_modes a) \<longleftrightarrow> ad_requires_account_context a) \<and>
     ad_request_policy_scope a \<in> REQUEST_POLICY_SCOPES"

lemma validate_adapter_ok:
  "validate_adapter a run m = Inr u \<longleftrightarrow>
     cx_adapter_id (run_ctx run) = ad_id a \<and>
     str_or (cx_adapter_version (run_ctx run)) ''1'' = ad_version a \<and>
     str_or (cx_auth_mode (run_ctx run)) ''inherit'' \<in> set (ad_auth_modes a) \<and>
     (m \<longrightarrow> ad_supports_mutation a)"
  by (simp add: validate_adapter_def Let_def guards_ok_iff)

lemma adapter_checks_ok:
  "guards (adapter_checks seen a) = Inr u \<longleftrightarrow> well_formed_adapter a \<and> map_of seen (ad_id a) = None"
  by (auto simp: adapter_checks_def guards_ok_iff well_formed_adapter_def AUTH_MODES_def list_all_iff)

definition registry_ok :: "(string \<times> execution_adapter) list \<Rightarrow> bool" where
  "registry_ok reg \<longleftrightarrow> distinct (map fst reg) \<and>
     (\<forall>(k, a) \<in> set reg. k = ad_id a \<and> well_formed_adapter a)"

lemma registry_from_ok:
  "registry_from seen as = Inr reg \<Longrightarrow> registry_ok seen \<Longrightarrow>
     registry_ok reg \<and> reg = seen @ map (\<lambda>a. (ad_id a, a)) as"
proof (induction seen as rule: registry_from.induct)
  case (1 seen)
  then show ?case by simp
next
  case (2 seen a as)
  from "2.prems"(1) have chk: "guards (adapter_checks seen a) = Inr ()"
    and rest: "registry_from (seen @ [(ad_id a, a)]) as = Inr reg"
    by (auto simp: sbind_Inr_iff)
  from chk have "well_formed_adapter a" "ad_id a \<notin> fst ` set seen"
    by (simp_all add: adapter_checks_ok map_of_eq_None_iff)
  with "2.prems"(2) have "registry_ok (seen @ [(ad_id a, a)])"
    by (auto simp: registry_ok_def)
  from "2.IH" [OF rest this] have "registry_ok reg"
    and eq: "reg = (seen @ [(ad_id a, a)]) @ map (\<lambda>a. (ad_id a, a)) as"
    by blast+
  moreover from eq have "reg = seen @ map (\<lambda>a. (ad_id a, a)) (a # as)"
    by simp
  ultimately show ?case by blast
qed

lemma adapter_registry_ok:
  assumes "adapter_registry as = Inr reg"
  shows "registry_ok reg" "reg = map (\<lambda>a. (ad_id a, a)) as"
proof -
  have "registry_ok reg \<and> reg = [] @ map (\<lambda>a. (ad_id a, a)) as"
    using assms by (intro registry_from_ok) (simp_all add: adapter_registry_def registry_ok_def)
  then show "registry_ok reg" and "reg = map (\<lambda>a. (ad_id a, a)) as"
    by (blast, unfold append_Nil, blast)
qed

lemma registry_lookup:
  "registry_ok reg \<Longrightarrow> map_of reg k = Some a \<Longrightarrow> k = ad_id a \<and> well_formed_adapter a"
  by (auto simp: registry_ok_def dest!: map_of_SomeD)

lemma account_run_needs_context:
  assumes "well_formed_adapter a" "validate_adapter a run m = Inr u"
    and "cx_auth_mode (run_ctx run) = ''account''"
  shows "ad_requires_account_context a"
  using assms by (simp add: validate_adapter_ok well_formed_adapter_def str_or_def)

lemma builtin_registry_ok: "registry_ok (builtin_execution_adapters replay judge)"
  by (simp add: registry_ok_def builtin_execution_adapters_def well_formed_adapter_def AUTH_MODES_def
      REQUEST_POLICY_SCOPES_def)

section \<open>Properties\<close>

text \<open>dispatch is sound for any registry that was accepted: ids are unique, every entry is stored
  under its own id and is well formed, and an adapter that accepts a run is the one the run names, at
  the run's version, for its auth mode; an account run is only ever accepted by an adapter that
  requires the account context, and a mutation run only by one that supports mutation.\<close>

theorem adapter_dispatch_sound:
  assumes "adapter_registry adapters = Inr reg" "map_of reg (cx_adapter_id (run_ctx run)) = Some a"
    and "validate_adapter a run mutation = Inr ()"
  shows "distinct (map fst reg) \<and> well_formed_adapter a \<and> ad_id a = cx_adapter_id (run_ctx run) \<and>
    ad_version a = str_or (cx_adapter_version (run_ctx run)) ''1'' \<and>
    str_or (cx_auth_mode (run_ctx run)) ''inherit'' \<in> set (ad_auth_modes a) \<and>
    (cx_auth_mode (run_ctx run) = ''account'' \<longrightarrow> ad_requires_account_context a) \<and>
    (mutation \<longrightarrow> ad_supports_mutation a)"
  using adapter_registry_ok(1) [OF assms(1)] registry_lookup [OF _ assms(2)] assms(3)
    account_run_needs_context [of a run mutation "()"]
  by (auto simp: validate_adapter_ok registry_ok_def)

theorem adapter_dispatch_sound_witness:
  "ad_version (snd (hd (builtin_execution_adapters (\<lambda>_. Evidence []) (\<lambda>_ _ _. Inr (''error'', [], 0))))) = ''1''"
proof -
  define a where "a = snd (hd (builtin_execution_adapters (\<lambda>_. Evidence []) (\<lambda>_ _ _. Inr (''error'', [], 0))))"
  let ?run = "example_run ''r1'' (default_context ''p'') RUNNING"
  have fields: "ad_id a = ''snapshot_batch''" "ad_version a = ''1''"
    "ad_auth_modes a = [''anonymous'', ''inherit'']" "\<not> ad_requires_account_context a"
    "ad_request_policy_scope a = ''checkpoint''"
    by (simp_all add: a_def builtin_execution_adapters_def)
  have "well_formed_adapter a"
    by (simp add: well_formed_adapter_def fields AUTH_MODES_def REQUEST_POLICY_SCOPES_def)
  then have "guards (adapter_checks [] a) = Inr ()"
    by (simp only: adapter_checks_ok) simp
  then have reg: "adapter_registry [a] = Inr [(ad_id a, a)]"
    by (simp add: adapter_registry_def)
  have found: "map_of [(ad_id a, a)] (cx_adapter_id (run_ctx ?run)) = Some a"
    by (simp add: fields default_context_def example_run_def)
  have "validate_adapter a ?run False = Inr ()"
    by (simp add: validate_adapter_ok fields default_context_def example_run_def str_or_def)
  from adapter_dispatch_sound [OF reg found this] show ?thesis
    by (simp add: a_def example_run_def default_context_def str_or_def)
qed

end
