(* ===== verification/RunWorker.thy ===== *)
theory RunWorker
  imports RunLifecycle HostPolicy ResultClassify ExecutionAdapters
begin

text \<open>
  \<open>ExecutionWorker\<close> of \<open>apiAnalysis/tool/execution_scheduler.py\<close>: dispatching a claimed run, executing
  its checkpoints with a pool of threads, and the ways an execution ends.

  A worker's local state is the record \<open>worker\<close>. What happens inside \<open>execute_run\<close> between two
  accesses to shared state is one \<open>worker_event\<close>: a thread of the pool is submitted, claims its
  checkpoint (\<open>begin_checkpoint\<close>) and later ends it (\<open>end_checkpoint\<close>), the heartbeat thread beats,
  the loop polls the run's status or writes the counters. \<open>worker_do\<close> is one event, a list of
  events a schedule. What a thread finds out from outside (the permit, the abort flags it reads, the
  account context, the reply) is its \<open>case_env\<close> and the adapter's \<open>replay\<close>; the permits themselves
  are the subject of theory \<open>HostPolicy\<close>. Trace callbacks and the trace recorder only observe.

  Facts: every event keeps the scheduler's invariant (\<open>good_\<close>), and a worker that has lost its lease
  changes neither a run nor another worker's checkpoint.
\<close>

section \<open>Exceptions\<close>

record worker_exc =
  ex_class :: string
  ex_detail :: string
  ex_code :: string
  ex_is_context :: bool

fun error_class :: "py_error \<Rightarrow> string" where
  "error_class (ValueError _) = ''ValueError''"
| "error_class (TypeError _) = ''TypeError''"
| "error_class (KeyError _) = ''KeyError''"
| "error_class (AttributeError _) = ''AttributeError''"
| "error_class (NotImplementedError _) = ''NotImplementedError''"
| "error_class (NotUniqueError _) = ''NotUniqueError''"
| "error_class (RuleProtocolError _) = ''RuleProtocolError''"
| "error_class (RuleBudgetExceeded _) = ''RuleBudgetExceeded''"
| "error_class (UnknownPredicate _) = ''UnknownPredicate''"
| "error_class (UnknownOutputAdapter _) = ''UnknownOutputAdapter''"
| "error_class (MatrixBudgetExceeded _ _) = ''MatrixBudgetExceeded''"
| "error_class UnsupportedAdapter = ''UnsupportedExecutionAdapter''"
| "error_class UnsupportedAdapterVersion = ''UnsupportedExecutionAdapterVersion''"
| "error_class AdapterAuthModeMismatch = ''ExecutionAdapterAuthModeMismatch''"
| "error_class AdapterMutationMismatch = ''ExecutionAdapterMutationMismatch''"

definition adapter_exc :: "py_error \<Rightarrow> worker_exc" where
  "adapter_exc e = \<lparr>ex_class = error_class e, ex_detail = [], ex_code = [], ex_is_context = False\<rparr>"

section \<open>Account references and the auth summary\<close>

record account_context_ref =
  ar_project_id :: string
  ar_env_id :: string
  ar_account_id :: string
  ar_provider_id :: string
  ar_context_ref :: string

definition account_reference :: "security_test_run \<Rightarrow> account_context_ref" where
  "account_reference run = (let c = run_ctx run in \<lparr>
     ar_project_id = cx_project_id c, ar_env_id = cx_env_id c, ar_account_id = cx_account_id c,
     ar_provider_id = cx_auth_provider_id c, ar_context_ref = cx_auth_context_ref c\<rparr>)"

definition unavailable_auth_summary :: "security_test_run \<Rightarrow> worker_exc \<Rightarrow> json dict" where
  "unavailable_auth_summary run e = (let c = run_ctx run in map (\<lambda>(k, v). (k, JStr v)) (
     [(''status'', ''unavailable''),
      (''provider_id'', cx_auth_provider_id c),
      (''project_id'', cx_project_id c),
      (''env_id'', cx_env_id c),
      (''account_id'', cx_account_id c),
      (''context_ref'', str_or (cx_auth_context_ref c) (cx_account_id c)),
      (''error_type'', ex_class e),
      (''error_detail'', take 160 (ex_detail e))] @
     filter (\<lambda>(k, v). v \<noteq> [])
      [(''auth_profile_revision_id'', cx_auth_profile_revision_id c),
       (''auth_realm_revision_id'', cx_auth_realm_revision_id c),
       (''auth_adapter_version_id'', cx_auth_adapter_version_id c),
       (''error_code'', take 80 (ex_code e))]))"

section \<open>Pausing a claimed run and the preflight\<close>

definition held_by :: "security_test_run \<Rightarrow> security_test_run \<Rightarrow> bool" where
  "held_by run r \<longleftrightarrow> run_lease_token r = run_lease_token run"

definition auth_dependency :: "security_test_run \<Rightarrow> security_test_run \<Rightarrow> security_test_run" where
  "auth_dependency run r = r\<lparr>run_pause_code := Some ''auth_unavailable'',
     run_dependency_type := Some ''auth_profile'',
     run_dependency_id := Some (str_or (cx_auth_profile_revision_id (run_ctx run)) (cx_auth_context_ref (run_ctx run))),
     run_dependency_revision_id := Some (cx_auth_profile_revision_id (run_ctx run))\<rparr>"

definition pause_claimed_run :: "time \<Rightarrow> security_test_run \<Rightarrow> worker_exc \<Rightarrow> json dict option \<Rightarrow> db \<Rightarrow> db" where
  "pause_claimed_run now run e auth_summary s =
     sync_parameter_relations now run (if ex_is_context e then ''needs_context'' else ''automatic_failed'') (ex_class e)
       (run_cas (run_id run) (\<lambda>r. held_by run r \<and> run_status r = RUNNING)
          (\<lambda>r. lease_cleared (auth_dependency run (r\<lparr>run_status := PAUSED, run_last_error_type := Some (ex_class e),
             run_updated_at := now,
             run_auth_context_summary := (case auth_summary of None \<Rightarrow> run_auth_context_summary r | Some d \<Rightarrow> d)\<rparr>))) s)"

type_synonym context_resolver = "account_context_ref \<Rightarrow> string \<Rightarrow> int \<Rightarrow> worker_exc + json dict"

datatype preflight_failure = AdapterRefused py_error | ContextRefused worker_exc

fun resolve_hosts :: "(string \<Rightarrow> worker_exc + json dict) \<Rightarrow> string list \<Rightarrow> json dict option \<Rightarrow>
    worker_exc + json dict option" where
  "resolve_hosts resolve [] found = Inr found"
| "resolve_hosts resolve (h # hs) found = (case resolve h of Inl e \<Rightarrow> Inl e
     | Inr descriptor \<Rightarrow> resolve_hosts resolve hs (Some descriptor))"

definition run_hosts :: "security_test_run \<Rightarrow> db \<Rightarrow> string list" where
  "run_hosts run s = (let hosts = sorted_set (map cp_host (checkpoints_of (run_id run) s))
     in if hosts = [] then [ [] ] else hosts)"

definition preflight :: "context_resolver \<Rightarrow> time \<Rightarrow> security_test_run \<Rightarrow> execution_adapter \<Rightarrow>
    execution_policy \<Rightarrow> db \<Rightarrow> db \<times> preflight_failure option" where
  "preflight resolver now run adapter policy s =
     (case validate_adapter adapter run (po_allow_mutation policy) of
       Inl e \<Rightarrow> (s, Some (AdapterRefused e))
     | Inr _ \<Rightarrow>
         if \<not> ad_requires_account_context adapter then (s, None)
         else case resolve_hosts (\<lambda>h. resolver (account_reference run) h (max 30 (po_request_timeout_seconds policy + 5)))
             (run_hosts run s) None of
           Inl e \<Rightarrow> (s, Some (ContextRefused e))
         | Inr None \<Rightarrow> (s, None)
         | Inr (Some descriptor) \<Rightarrow> (run_cas (run_id run) (held_by run) (\<lambda>r. r\<lparr>run_auth_context_summary := descriptor,
             run_last_error_type := Some [], run_updated_at := now\<rparr>) s, None))"

section \<open>Writing a checkpoint\<close>

definition execution_key :: "security_test_run \<Rightarrow> oid \<Rightarrow> string" where
  "execution_key run sid = run_id run @ '':'' @ sid"

definition sync_counts :: "time \<Rightarrow> oid \<Rightarrow> coordinator \<Rightarrow> db \<Rightarrow> db" where
  "sync_counts now rid co s = run_cas rid (\<lambda>_. True) (\<lambda>r. r\<lparr>run_counts := checkpoint_counts rid s,
     run_updated_at := now, run_host_state := host_snapshot co\<rparr>) s"

text \<open>A checkpoint this worker holds.\<close>

definition cp_held :: "security_test_run \<Rightarrow> security_execution_checkpoint \<Rightarrow> bool" where
  "cp_held run cp \<longleftrightarrow> cp_status cp = CP_RUNNING \<and> cp_lease_token cp = run_lease_token run"

definition cp_cas :: "oid \<times> oid \<Rightarrow> (security_execution_checkpoint \<Rightarrow> bool) \<Rightarrow>
    (security_execution_checkpoint \<Rightarrow> security_execution_checkpoint) \<Rightarrow> db \<Rightarrow> db" where
  "cp_cas k g f s = s\<lparr>db_checkpoints := coll_cas cp_key k g f (db_checkpoints s)\<rparr>"

definition finish_checkpoint :: "time \<Rightarrow> security_test_run \<Rightarrow> oid \<times> oid \<Rightarrow> checkpoint_status \<Rightarrow> string list \<Rightarrow>
    json dict \<Rightarrow> oid option \<Rightarrow> string \<Rightarrow> db \<Rightarrow> db" where
  "finish_checkpoint now run k status reasons summary result_id err = cp_cas k (cp_held run)
     (\<lambda>cp. cp\<lparr>cp_status := status, cp_reason_codes := reasons, cp_outcome_summary := summary,
        cp_error_type := err, cp_finished_at := Some now, cp_updated_at := now, cp_lease_token := None,
        cp_result_id := (case result_id of None \<Rightarrow> cp_result_id cp | Some i \<Rightarrow> Some i)\<rparr>)"

definition give_back :: "time \<Rightarrow> string \<Rightarrow> security_execution_checkpoint \<Rightarrow> security_execution_checkpoint" where
  "give_back now reason cp = cp\<lparr>cp_status := CP_PENDING, cp_reason_codes := [reason], cp_updated_at := now,
     cp_lease_token := None, cp_started_at := None\<rparr>"

definition give_back_checkpoint :: "time \<Rightarrow> security_test_run \<Rightarrow> oid \<times> oid \<Rightarrow> string \<Rightarrow> db \<Rightarrow> db" where
  "give_back_checkpoint now run k reason = cp_cas k (cp_held run) (give_back now reason)"

text \<open>All checkpoints this worker still holds go back to the queue.\<close>

definition give_back_held :: "time \<Rightarrow> security_test_run \<Rightarrow> string \<Rightarrow> db \<Rightarrow> db" where
  "give_back_held now run reason = update_checkpoints
     (\<lambda>cp. cp_run_id cp = run_id run \<and> cp_held run cp) (give_back now reason)"

section \<open>Executing one checkpoint\<close>

record abort_flags =
  af_cancel :: bool
  af_lease_lost :: bool
  af_auth :: bool
  af_stop :: bool

definition should_abort :: "abort_flags \<Rightarrow> bool" where
  "should_abort f \<longleftrightarrow> af_cancel f \<or> af_lease_lost f \<or> af_auth f \<or> af_stop f"

text \<open>An aborted checkpoint goes back to the queue unless the run itself was cancelled.\<close>

definition aborted_status :: "abort_flags \<Rightarrow> checkpoint_status" where
  "aborted_status f = (if af_lease_lost f \<or> af_auth f \<or> af_stop f then CP_PENDING else CP_CANCELLED)"

text \<open>
  What a thread learns: the reason \<open>acquire\<close> refused with, if it did; the flags as \<open>finish_blocked\<close>
  and as the check after the permit read them; the exception of the account context resolver, if any.
\<close>

record case_env =
  ce_refused :: "string option"
  ce_at_block :: abort_flags
  ce_at_check :: abort_flags
  ce_context :: "worker_exc option"

datatype case_end =
    NotClaimed
  | Ended checkpoint_status
  | AuthPaused worker_exc
  | Raised string

datatype case_start =
    Over case_end
  | Running security_execution_checkpoint request_snapshot

definition per_checkpoint :: "execution_adapter \<Rightarrow> bool" where
  "per_checkpoint adapter \<longleftrightarrow> ad_request_policy_scope adapter = ''checkpoint''"

definition note_outcome :: "execution_adapter \<Rightarrow> string \<Rightarrow> json dict \<Rightarrow> coordinator \<Rightarrow> coordinator \<times> string result_of" where
  "note_outcome adapter host evidence co =
     (if per_checkpoint adapter then record_outcome host evidence co else (co, Inr []))"

definition hold_checkpoint :: "time \<Rightarrow> security_test_run \<Rightarrow> security_execution_checkpoint \<Rightarrow> security_execution_checkpoint" where
  "hold_checkpoint now run cp = cp\<lparr>cp_status := CP_RUNNING, cp_lease_token := run_lease_token run,
     cp_started_at := Some now, cp_updated_at := now, cp_attempt_count := cp_attempt_count cp + 1\<rparr>"

definition cp_pending :: "security_execution_checkpoint \<Rightarrow> bool" where
  "cp_pending cp \<longleftrightarrow> cp_status cp = CP_PENDING"

definition failed_summary :: "json dict \<Rightarrow> bool" where
  "failed_summary summary \<longleftrightarrow> truthy (dget summary ''error_type'')"

definition reuse_result :: "time \<Rightarrow> execution_adapter \<Rightarrow> security_test_run \<Rightarrow> security_execution_checkpoint \<Rightarrow>
    security_test_result \<Rightarrow> coordinator \<Rightarrow> db \<Rightarrow> db \<times> coordinator \<times> case_end" where
  "reuse_result now adapter run cp e co s =
     (let summary = res_evidence_summary e;
          status = (if res_verdict e = ''error'' \<or> failed_summary summary then CP_ERROR else CP_DONE)
      in case note_outcome adapter (cp_host cp) summary co of
           (co1, Inl err) \<Rightarrow> (s, co1, Raised (error_class err))
         | (co1, Inr _) \<Rightarrow> (finish_checkpoint now run (cp_key cp) status (res_reason_codes e) summary (Some (res_id e))
             (dtext summary ''error_type'') s, co1, Ended status))"

definition begin_checkpoint :: "time \<Rightarrow> execution_adapter \<Rightarrow> security_test_run \<Rightarrow> oid \<Rightarrow> coordinator \<Rightarrow> db \<Rightarrow>
    db \<times> coordinator \<times> case_start" where
  "begin_checkpoint now adapter run sid co s =
     (let k = (run_id run, sid); s1 = cp_cas k cp_pending (hold_checkpoint now run) s
      in case (if coll_won cp_key k cp_pending (db_checkpoints s)
               then coll_get cp_key k (db_checkpoints s1) else None) of
           None \<Rightarrow> (s1, co, Over NotClaimed)
         | Some cp \<Rightarrow> (case result_with_key (execution_key run sid) (db_results s1) of
             Some e \<Rightarrow> (case reuse_result now adapter run cp e co s1 of (s2, co1, r) \<Rightarrow> (s2, co1, Over r))
           | None \<Rightarrow> (case coll_get sn_id sid (db_snapshots s1) of
               None \<Rightarrow> (finish_checkpoint now run k CP_ERROR [''snapshot_not_found''] [] None ''SnapshotNotFound'' s1,
                 co, Over (Ended CP_ERROR))
             | Some sn \<Rightarrow> (s1, co, Running cp sn))))"

text \<open>\<open>finish_blocked\<close>.\<close>

definition finish_blocked :: "time \<Rightarrow> security_test_run \<Rightarrow> oid \<times> oid \<Rightarrow> abort_flags \<Rightarrow> string \<Rightarrow> db \<Rightarrow> db \<times> case_end" where
  "finish_blocked now run k flags reason s =
     (let status = (if reason = ''execution_stopping'' then aborted_status flags else CP_SKIPPED)
      in (if status = CP_PENDING then give_back_checkpoint now run k reason s
          else finish_checkpoint now run k status [reason] [] None [] s, Ended status))"

definition finish_aborted :: "time \<Rightarrow> security_test_run \<Rightarrow> oid \<times> oid \<Rightarrow> abort_flags \<Rightarrow> db \<Rightarrow> db \<times> case_end" where
  "finish_aborted now run k flags s = (let status = aborted_status flags in
     (if status = CP_PENDING
      then give_back_checkpoint now run k (if af_auth flags then ''account_context_unavailable'' else ''lease_lost'') s
      else finish_checkpoint now run k status [''cancel_requested''] [] None [] s, Ended status))"

definition pause_on_context :: "time \<Rightarrow> security_test_run \<Rightarrow> oid \<times> oid \<Rightarrow> worker_exc \<Rightarrow> db \<Rightarrow> db" where
  "pause_on_context now run k e = cp_cas k (cp_held run)
     (\<lambda>cp. (give_back now ''account_context_unavailable'' cp)\<lparr>cp_error_type := ex_class e\<rparr>)"

definition transport_evidence :: "security_test_run \<Rightarrow> string \<Rightarrow> string \<Rightarrow> json dict" where
  "transport_evidence run host cls = [
     (''status_code'', JNull), (''ok'', JBool False), (''elapsed_ms'', JInt 0), (''response_len'', JInt 0),
     (''domain'', JStr host), (''auth_mode'', JStr (cx_auth_mode (run_ctx run))), (''error_type'', JStr cls)]"

section \<open>The conclusion of a checkpoint\<close>

definition quality_json :: "quality_summary \<Rightarrow> json" where
  "quality_json q = JObj [
     (''blocks_pass'', JBool (blocks_pass q)),
     (''synthetic_required'', JList (map JStr (synthetic_required q))),
     (''placeholder_required'', JList (map JStr (placeholder_required q))),
     (''request_sample_only_required'', JList (map JStr (request_sample_only_required q)))]"

definition with_quality :: "request_snapshot \<Rightarrow> json dict \<Rightarrow> json dict" where
  "with_quality sn evidence = (let q = required_parameter_quality_summary (sn_parameter_sources sn) in
     if blocks_pass q \<or> request_sample_only_required q \<noteq> []
     then dict_set ''parameter_quality'' (quality_json q) evidence else evidence)"

text \<open>The gate reads \<open>summary.get("blocks_pass")\<close> of what the evidence carries.\<close>

definition gate_verdict :: "json dict \<Rightarrow> judgement \<Rightarrow> judgement result_of" where
  "gate_verdict evidence j = (if fst j \<notin> PASS_BLOCKING_VERDICTS then Inr j
     else case dget evidence ''parameter_quality'' of
       JObj d \<Rightarrow> Inr (apply_required_parameter_gate j (Some \<lparr>blocks_pass = truthy (dget d ''blocks_pass''),
         synthetic_required = [], placeholder_required = [], request_sample_only_required = []\<rparr>))
     | v \<Rightarrow> if truthy v then Inl (AttributeError ''get'') else Inr (apply_required_parameter_gate j None))"

definition judge_evidence :: "execution_adapter \<Rightarrow> security_test_run \<Rightarrow> request_snapshot \<Rightarrow> json dict \<Rightarrow>
    judgement result_of" where
  "judge_evidence adapter run sn evidence =
     (if ad_id adapter \<in> generic_adapters \<and> \<not> is_safe_method (sn_method sn)
      then classify_generic_mutation_result evidence
      else ad_judge adapter evidence (run_check_type run) (cx_auth_mode (run_ctx run)))"

definition case_name :: "request_snapshot \<Rightarrow> string result_of" where
  "case_name sn = sbind (if sn_path sn \<noteq> [] then Inr (sn_path sn)
       else sbind (urlsplit (sn_url sn)) (\<lambda>u. Inr (url_path u)))
     (\<lambda>path. Inr (sn_method sn @ '' '' @ path))"

definition case_input :: "security_test_run \<Rightarrow> request_snapshot \<Rightarrow> json dict \<Rightarrow> json dict \<Rightarrow> judgement \<Rightarrow> string \<Rightarrow>
    execution_result_input" where
  "case_input run sn evidence summary j name = (case j of (verdict, reasons, confidence) \<Rightarrow> \<lparr>
     ri_case_name = name, ri_check_type = run_check_type run, ri_verdict = verdict,
     ri_target = JObj (dict_or_empty (dget evidence ''result_target'')), ri_method = [],
     ri_evidence_summary = JObj summary, ri_evidence_ref = run_evidence_ref run,
     ri_reason_codes = reasons, ri_confidence = confidence, ri_priority = [], ri_severity = [],
     ri_related_pathid = None, ri_execution_key = execution_key run (sn_id sn)\<rparr>)"

text \<open>Everything the worker computes of a reply before it records the result.\<close>

definition conclusion :: "execution_adapter \<Rightarrow> security_test_run \<Rightarrow> request_snapshot \<Rightarrow> json dict \<Rightarrow>
    (json dict \<times> execution_result_input) result_of" where
  "conclusion adapter run sn evidence0 = (let evidence = with_quality sn evidence0 in
     sbind (sanitize_execution_evidence evidence) (\<lambda>summary.
     sbind (judge_evidence adapter run sn evidence) (\<lambda>j0.
     sbind (gate_verdict evidence j0) (\<lambda>j.
     sbind (case_name sn) (\<lambda>name.
     Inr (summary, case_input run sn evidence summary j name))))))"

definition run_hook :: "execution_adapter \<Rightarrow> security_test_run \<Rightarrow> request_snapshot \<Rightarrow> json dict \<Rightarrow>
    security_test_result \<Rightarrow> string option" where
  "run_hook adapter run sn evidence r = (case ad_record adapter of None \<Rightarrow> None
     | Some hook \<Rightarrow> hook run sn (with_quality sn evidence) r)"

definition record_conclusion :: "time \<Rightarrow> oid \<Rightarrow> execution_adapter \<Rightarrow> security_test_run \<Rightarrow> security_execution_checkpoint \<Rightarrow>
    request_snapshot \<Rightarrow> json dict \<Rightarrow> db \<Rightarrow> db \<times> case_end" where
  "record_conclusion now new_id adapter run cp sn evidence s =
     (case conclusion adapter run sn evidence of
       Inl e \<Rightarrow> (s, Raised (error_class e))
     | Inr (summary, v) \<Rightarrow>
         (case record_execution_result_input now new_id run (Some sn) v (db_results s) of
           Inl e \<Rightarrow> (s, Raised (error_class e))
         | Inr (results, r) \<Rightarrow>
             (let s1 = s\<lparr>db_results := results\<rparr>;
                  status = (if failed_summary summary then CP_ERROR else CP_DONE)
              in case run_hook adapter run sn evidence r of
                   Some cls \<Rightarrow> (s1, Raised cls)
                 | None \<Rightarrow> (finish_checkpoint now run (cp_key cp) status (ri_reason_codes v) summary
                     (Some (res_id r)) (dtext summary ''error_type'') s1, Ended status))))"

definition conclude_checkpoint :: "time \<Rightarrow> oid \<Rightarrow> execution_adapter \<Rightarrow> security_test_run \<Rightarrow>
    security_execution_checkpoint \<Rightarrow> request_snapshot \<Rightarrow> json dict \<Rightarrow> coordinator \<Rightarrow> db \<Rightarrow>
    db \<times> coordinator \<times> case_end" where
  "conclude_checkpoint now new_id adapter run cp sn evidence co s =
     (case note_outcome adapter (cp_host cp) evidence co of
       (co1, Inl e) \<Rightarrow> (s, co1, Raised (error_class e))
     | (co1, Inr _) \<Rightarrow> (case record_conclusion now new_id adapter run cp sn evidence s of
         (s1, r) \<Rightarrow> (s1, co1, r)))"

definition end_checkpoint :: "time \<Rightarrow> oid \<Rightarrow> execution_adapter \<Rightarrow> security_test_run \<Rightarrow> case_env \<Rightarrow>
    security_execution_checkpoint \<Rightarrow> request_snapshot \<Rightarrow> coordinator \<Rightarrow> db \<Rightarrow> db \<times> coordinator \<times> case_end" where
  "end_checkpoint now new_id adapter run env cp sn co s =
     (let k = cp_key cp;
          blocked = (\<lambda>reason. case finish_blocked now run k (ce_at_block env) reason s of (s1, r) \<Rightarrow> (s1, co, r))
      in case (if per_checkpoint adapter then ce_refused env else None) of
           Some reason \<Rightarrow> blocked reason
         | None \<Rightarrow>
             if should_abort (ce_at_check env)
             then (case finish_aborted now run k (ce_at_check env) s of (s1, r) \<Rightarrow> (s1, co, r))
             else (case (if ad_requires_account_context adapter then ce_context env else None) of
               Some e \<Rightarrow> (pause_on_context now run k e s, co, AuthPaused e)
             | None \<Rightarrow> (case ad_replay adapter sn of
                 ReplayBlocked reason \<Rightarrow> blocked (blocked_reason reason)
               | ReplayRaised cls \<Rightarrow> conclude_checkpoint now new_id adapter run cp sn
                   (transport_evidence run (cp_host cp) cls) co s
               | Evidence evidence \<Rightarrow> conclude_checkpoint now new_id adapter run cp sn evidence co s)))"

definition execute_checkpoint :: "time \<Rightarrow> oid \<Rightarrow> execution_adapter \<Rightarrow> security_test_run \<Rightarrow> case_env \<Rightarrow> oid \<Rightarrow>
    coordinator \<Rightarrow> db \<Rightarrow> db \<times> coordinator \<times> case_end" where
  "execute_checkpoint now new_id adapter run env sid co s =
     (case begin_checkpoint now adapter run sid co s of
       (s1, co1, Over r) \<Rightarrow> (s1, co1, r)
     | (s1, co1, Running cp sn) \<Rightarrow> end_checkpoint now new_id adapter run env cp sn co1 s1)"

definition mark_future_failure :: "time \<Rightarrow> security_test_run \<Rightarrow> oid \<times> oid \<Rightarrow> string \<Rightarrow> db \<Rightarrow> db" where
  "mark_future_failure now run k cls = finish_checkpoint now run k CP_ERROR [''worker_case_failure''] [] None cls"

text \<open>\<open>report_progress\<close> of the adapters that report it.\<close>

definition bounded_text :: "nat \<Rightarrow> json dict \<Rightarrow> string \<Rightarrow> json" where
  "bounded_text n d k = JStr (take n (dtext d k))"

definition safe_progress :: "json dict \<Rightarrow> json dict result_of" where
  "safe_progress p =
     sbind (dint p ''request_count'') (\<lambda>rc.
     sbind (dint p ''request_budget'') (\<lambda>rb.
     sbind (dint p ''attempt'') (\<lambda>attempt. Inr [
       (''phase'', bounded_text 60 p ''phase''),
       (''message'', bounded_text 240 p ''message''),
       (''request_count'', JInt (max 0 rc)),
       (''request_budget'', JInt (max 0 rb)),
       (''attempt'', JInt (max 0 attempt)),
       (''status_code'', dget p ''status_code'')])))"

definition report_progress :: "time \<Rightarrow> security_test_run \<Rightarrow> oid \<times> oid \<Rightarrow> json dict \<Rightarrow> db \<Rightarrow> db result_of" where
  "report_progress now run k p s = sbind (safe_progress p) (\<lambda>d. Inr (cp_cas k (cp_held run)
     (\<lambda>cp. cp\<lparr>cp_outcome_summary := d, cp_updated_at := now\<rparr>) s))"

section \<open>The loop of \<open>execute_run\<close>\<close>

text \<open>
  \<open>wk_todo\<close> is what the cursor has not passed, \<open>wk_submitted\<close> the futures whose thread has not
  claimed its checkpoint yet, \<open>wk_active\<close> the ones between claim and end. The flags are the events
  \<open>cancel_event\<close>, \<open>heartbeat.lost_event\<close>, \<open>auth_failure_event\<close> and \<open>stop_event\<close>.
\<close>

record worker =
  wk_run :: security_test_run
  wk_adapter :: execution_adapter
  wk_policy :: execution_policy
  wk_lease_seconds :: int
  wk_coordinator :: coordinator
  wk_todo :: "oid list"
  wk_submitted :: "oid list"
  wk_active :: "(security_execution_checkpoint \<times> request_snapshot) list"
  wk_cancel :: bool
  wk_lost :: bool
  wk_auth :: bool
  wk_stop :: bool
  wk_auth_failure :: "json dict"

definition pending_ids :: "oid \<Rightarrow> db \<Rightarrow> oid list" where
  "pending_ids rid s = map cp_snapshot_id (sort_key cp_ordinal (filter cp_pending (checkpoints_of rid s)))"

definition new_worker :: "security_test_run \<Rightarrow> execution_adapter \<Rightarrow> execution_policy \<Rightarrow> int \<Rightarrow> db \<Rightarrow> worker" where
  "new_worker run adapter policy lease s = \<lparr>
     wk_run = run, wk_adapter = adapter, wk_policy = policy, wk_lease_seconds = lease,
     wk_coordinator = new_coordinator policy (run_host_state run),
     wk_todo = pending_ids (run_id run) s, wk_submitted = [], wk_active = [],
     wk_cancel = False, wk_lost = False, wk_auth = False, wk_stop = False, wk_auth_failure = []\<rparr>"

definition may_submit :: "worker \<Rightarrow> bool" where
  "may_submit w \<longleftrightarrow> wk_todo w \<noteq> [] \<and>
     int (length (wk_submitted w) + length (wk_active w)) < po_max_workers (wk_policy w) \<and>
     \<not> wk_cancel w \<and> \<not> wk_lost w \<and> \<not> wk_auth w"

definition futures_empty :: "worker \<Rightarrow> bool" where
  "futures_empty w \<longleftrightarrow> wk_submitted w = [] \<and> wk_active w = []"

definition loop_over :: "worker \<Rightarrow> bool" where
  "loop_over w \<longleftrightarrow> futures_empty w \<and> (wk_todo w = [] \<or> wk_cancel w \<or> wk_lost w \<or> wk_auth w)"

definition remove_nth :: "nat \<Rightarrow> 'a list \<Rightarrow> 'a list" where
  "remove_nth i xs = take i xs @ drop (Suc i) xs"

text \<open>
  What is left of a finished future: the auth failure the thread noted (the first one stands), or the
  exception \<open>_mark_future_failure\<close> writes down.
\<close>

definition note_auth_failure :: "case_end \<Rightarrow> worker \<Rightarrow> worker" where
  "note_auth_failure r w = (case r of
     AuthPaused e \<Rightarrow> w\<lparr>wk_auth := True, wk_auth_failure :=
       (if wk_auth_failure w = [] then unavailable_auth_summary (wk_run w) e else wk_auth_failure w)\<rparr>
   | _ \<Rightarrow> w)"

definition reap :: "time \<Rightarrow> security_test_run \<Rightarrow> oid \<times> oid \<Rightarrow> case_end \<Rightarrow> db \<Rightarrow> db" where
  "reap now run k r s = (case r of Raised cls \<Rightarrow> mark_future_failure now run k cls s | _ \<Rightarrow> s)"

text \<open>The events are never cleared, so flags a thread has read are still set when it ends.\<close>

definition flags_set :: "worker \<Rightarrow> abort_flags \<Rightarrow> bool" where
  "flags_set w f \<longleftrightarrow> (af_cancel f \<longrightarrow> wk_cancel w) \<and> (af_lease_lost f \<longrightarrow> wk_lost w) \<and>
     (af_auth f \<longrightarrow> wk_auth w) \<and> (af_stop f \<longrightarrow> wk_stop w)"

definition env_possible :: "worker \<Rightarrow> case_env \<Rightarrow> bool" where
  "env_possible w env \<longleftrightarrow> flags_set w (ce_at_block env) \<and> flags_set w (ce_at_check env)"

datatype worker_event =
    StopSignal
  | Beat time
  | PollStatus
  | PollFlags
  | Submit
  | BeginCase time oid
  | EndCase time oid nat case_env
  | Progress time nat "json dict"
  | SyncCounts time

definition begin_case :: "time \<Rightarrow> oid \<Rightarrow> worker \<Rightarrow> db \<Rightarrow> db \<times> worker" where
  "begin_case now sid w s =
     (let w1 = w\<lparr>wk_submitted := remove1 sid (wk_submitted w)\<rparr>; run = wk_run w
      in case begin_checkpoint now (wk_adapter w) run sid (wk_coordinator w) s of
           (s1, co, Over r) \<Rightarrow> (reap now run (run_id run, sid) r s1, w1\<lparr>wk_coordinator := co\<rparr>)
         | (s1, co, Running cp sn) \<Rightarrow> (s1, w1\<lparr>wk_coordinator := co, wk_active := wk_active w @ [(cp, sn)]\<rparr>))"

definition end_case :: "time \<Rightarrow> oid \<Rightarrow> nat \<Rightarrow> case_env \<Rightarrow> worker \<Rightarrow> db \<Rightarrow> db \<times> worker" where
  "end_case now new_id i env w s =
     (case wk_active w ! i of (cp, sn) \<Rightarrow>
      case end_checkpoint now new_id (wk_adapter w) (wk_run w) env cp sn (wk_coordinator w) s of
        (s1, co, r) \<Rightarrow> (reap now (wk_run w) (cp_key cp) r s1,
          note_auth_failure r (w\<lparr>wk_coordinator := co, wk_active := remove_nth i (wk_active w)\<rparr>)))"

fun worker_do :: "worker_event \<Rightarrow> db \<times> worker \<Rightarrow> (db \<times> worker) option" where
  "worker_do StopSignal (s, w) = Some (s, w\<lparr>wk_stop := True\<rparr>)"
| "worker_do (Beat now) (s, w) = (let rid = run_id (wk_run w); token = run_lease_token (wk_run w) in
     case token of None \<Rightarrow> Some (s, w\<lparr>wk_lost := True\<rparr>)
     | Some t \<Rightarrow> (case heartbeat_execution now rid t (wk_lease_seconds w) s of
         (s1, ok) \<Rightarrow> Some (s1, if ok then w else w\<lparr>wk_lost := True\<rparr>)))"
| "worker_do PollStatus (s, w) = Some (s, (case run_get (run_id (wk_run w)) s of
     Some r \<Rightarrow> if run_status r = CANCEL_REQUESTED then w\<lparr>wk_cancel := True\<rparr> else w
   | None \<Rightarrow> w))"
| "worker_do PollFlags (s, w) = Some (s, if wk_lost w \<or> wk_stop w then w\<lparr>wk_cancel := True\<rparr> else w)"
| "worker_do Submit (s, w) = (if may_submit w
     then Some (s, w\<lparr>wk_todo := tl (wk_todo w), wk_submitted := wk_submitted w @ [hd (wk_todo w)]\<rparr>) else None)"
| "worker_do (BeginCase now sid) (s, w) = (if sid \<in> set (wk_submitted w) then Some (begin_case now sid w s) else None)"
| "worker_do (EndCase now new_id i env) (s, w) = (if i < length (wk_active w) \<and> env_possible w env
     then Some (end_case now new_id i env w s) else None)"
| "worker_do (Progress now i p) (s, w) = (if i < length (wk_active w)
     then (case report_progress now (wk_run w) (cp_key (fst (wk_active w ! i))) p s of
       Inr s1 \<Rightarrow> Some (s1, w) | Inl _ \<Rightarrow> Some (s, w)) else None)"
| "worker_do (SyncCounts now) (s, w) = Some (sync_counts now (run_id (wk_run w)) (wk_coordinator w) s, w)"

fun run_events :: "worker_event list \<Rightarrow> db \<times> worker \<Rightarrow> (db \<times> worker) option" where
  "run_events [] c = Some c"
| "run_events (e # es) c = (case worker_do e c of None \<Rightarrow> None | Some c' \<Rightarrow> run_events es c')"

section \<open>How an execution ends\<close>

datatype run_end = LeaseLost | WorkerStopped | AuthPause | Finished run_status

definition counts_json :: "case_counts \<Rightarrow> json dict" where
  "counts_json c = map (\<lambda>(k, n). (k, JInt (int n))) [
     (''pending_cases'', pending_cases c), (''running_cases'', running_cases c),
     (''completed_cases'', completed_cases c), (''failed_cases'', failed_cases c),
     (''skipped_cases'', skipped_cases c), (''cancelled_cases'', cancelled_cases c)]"

definition host_state_json :: "coordinator \<Rightarrow> json" where
  "host_state_json co = JObj (map (\<lambda>row. (hr_host row, JObj [
     (''transport_errors'', JInt (hr_transport_errors row)), (''rate_limits'', JInt (hr_rate_limits row)),
     (''server_errors'', JInt (hr_server_errors row)), (''stopped_reason'', JStr (hr_stopped_reason row))]))
     (host_snapshot co))"

definition nat_json :: "nat \<Rightarrow> json" where
  "nat_json n = JInt (int n)"

definition cluster_json :: "cluster_row \<Rightarrow> json" where
  "cluster_json g = JObj [
     (''host'', JStr (cl_host g)), (''cluster_key'', JStr (cl_key g)), (''count'', nat_json (cl_count g)),
     (''representative_pathid'', JInt (cl_pathid g)), (''representative_snapshot_id'', JStr (cl_snapshot g)),
     (''distinct_response_hashes'', nat_json (length (cl_hashes g)))]"

definition candidate_json :: "security_test_result \<Rightarrow> json" where
  "candidate_json r = JObj [
     (''result_id'', JStr (res_id r)),
     (''snapshot_id'', JStr (case res_snapshot_id r of None \<Rightarrow> [] | Some i \<Rightarrow> i)),
     (''pathid'', optional_int (res_related_pathid r)),
     (''verdict'', JStr (result_verdict r)),
     (''reason_codes'', JList (map JStr (res_reason_codes r)))]"

definition aggregate_json :: "execution_aggregate \<Rightarrow> json dict" where
  "aggregate_json a = [
     (''cluster_count'', nat_json (ag_cluster_count a)),
     (''clusters'', JList (map cluster_json (ag_clusters a))),
     (''clusters_truncated'', JBool (ag_clusters_truncated a)),
     (''verdict_counts'', JObj (map (\<lambda>(k, n). (k, nat_json n)) (ag_verdict_counts a))),
     (''reason_counts'', JObj (map (\<lambda>(k, n). (k, nat_json n)) (ag_reason_counts a))),
     (''review_candidate_count'', nat_json (ag_review_candidate_count a)),
     (''review_candidates'', JList (map candidate_json (ag_review_candidates a))),
     (''review_candidates_truncated'', JBool (ag_review_candidates_truncated a))]"

definition finish_summary :: "case_counts \<Rightarrow> coordinator \<Rightarrow> execution_aggregate \<Rightarrow> json dict" where
  "finish_summary counts co a = dict_update (counts_json counts)
     ([(''processed_cases'', nat_json (completed_cases counts + failed_cases counts + skipped_cases counts)),
       (''host_state'', host_state_json co),
       (''requests_are_at_least_once'', JBool True)] @ aggregate_json a)"

text \<open>The lease was lost or the worker is stopping: what it holds goes back, the run too if it may.\<close>

definition finish_stopping :: "time \<Rightarrow> worker \<Rightarrow> db \<Rightarrow> db \<times> run_end" where
  "finish_stopping now w s =
     (let run = wk_run w; rid = run_id run;
          s1 = sync_counts now rid (wk_coordinator w) (give_back_held now run ''lease_lost'' s);
          mine = (\<lambda>r. held_by run r \<and> run_status r = RUNNING)
      in if wk_stop w \<and> \<not> wk_lost w
         then (let s2 = run_cas rid mine (\<lambda>r. lease_cleared (requeue now r)) s1
               in (if run_won rid mine s1 then wake rid s2 else s2, WorkerStopped))
         else (s1, LeaseLost))"

definition finish_auth :: "time \<Rightarrow> worker \<Rightarrow> db \<Rightarrow> db \<times> run_end" where
  "finish_auth now w s =
     (let run = wk_run w; rid = run_id run; co = wk_coordinator w;
          s1 = sync_counts now rid co (give_back_held now run ''account_context_unavailable'' s);
          counts = checkpoint_counts rid s1;
          err = text_or (wk_auth_failure w) ''error_type'' ''AccountContextUnavailable'';
          s2 = run_cas rid (held_by run) (\<lambda>r. lease_cleared (auth_dependency run (r\<lparr>run_status := PAUSED,
            run_summary := dict_set ''pause_reason'' (JStr ''account_context_unavailable'') (counts_json counts),
            run_auth_context_summary := wk_auth_failure w, run_last_error_type := Some err,
            run_host_state := host_snapshot co, run_updated_at := now\<rparr>))) s1
      in (sync_parameter_relations now run ''needs_context'' err s2, AuthPause))"

definition finish_normal :: "time \<Rightarrow> worker \<Rightarrow> db \<Rightarrow> db \<times> run_end result_of" where
  "finish_normal now w s =
     (let run = wk_run w; rid = run_id run; co = wk_coordinator w;
          final = (if wk_cancel w then CANCELLED else DONE);
          s1 = sync_counts now rid co (if wk_cancel w then cancel_checkpoints now ''cancel_requested'' rid s else s)
      in case summarize_execution_records (checkpoints_of rid s1)
             (filter (\<lambda>r. res_run_id r = rid) (db_results s1)) 1000 1000 of
           Inl e \<Rightarrow> (s1, Inl e)
         | Inr a \<Rightarrow>
             (let s2 = run_cas rid (held_by run) (\<lambda>r. lease_cleared (r\<lparr>run_status := final,
                 run_summary := finish_summary (checkpoint_counts rid s1) co a, run_host_state := host_snapshot co,
                 run_finished_at := Some now, run_updated_at := now\<rparr>)) s1
              in (if wk_cancel w then sync_parameter_relations now run ''automatic_failed'' ''cancelled'' s2 else s2,
                  Inr (Finished final))))"

definition finish_run :: "time \<Rightarrow> worker \<Rightarrow> db \<Rightarrow> db \<times> run_end result_of" where
  "finish_run now w s =
     (if wk_lost w \<or> wk_stop w then (case finish_stopping now w s of (s1, r) \<Rightarrow> (s1, Inr r))
      else if wk_auth w \<and> \<not> wk_cancel w then (case finish_auth now w s of (s1, r) \<Rightarrow> (s1, Inr r))
      else finish_normal now w s)"

text \<open>
  \<open>execute_run\<close> under a schedule of the loop; \<open>None\<close> when the list of events is no complete run of
  the loop.
\<close>

definition execute_run :: "time \<Rightarrow> int \<Rightarrow> worker_event list \<Rightarrow> time \<Rightarrow> security_test_run \<Rightarrow> execution_adapter \<Rightarrow> db \<Rightarrow>
    (db \<times> run_end result_of) option" where
  "execute_run now lease_seconds events finish_time run adapter s =
     (case policy_from_dict (run_execution_policy run) of
       Inl e \<Rightarrow> Some (s, Inl e)
     | Inr policy \<Rightarrow>
         (let lease = max lease_seconds (po_lease_seconds policy);
              (s1, alive) = (case run_lease_token run of None \<Rightarrow> (s, False)
                | Some t \<Rightarrow> heartbeat_execution now (run_id run) t lease s)
          in if \<not> alive then Some (s1, Inr LeaseLost)
             else case run_events events (s1, new_worker run adapter policy lease s1) of
               None \<Rightarrow> None
             | Some (s2, w) \<Rightarrow> if loop_over w then Some (finish_run finish_time w s2) else None))"

definition handle_dispatch_failure :: "time \<Rightarrow> security_test_run \<Rightarrow> string \<Rightarrow> db \<Rightarrow> db" where
  "handle_dispatch_failure now run cls s =
     (let s1 = give_back_held now run ''worker_dispatch_failure'' s; rid = run_id run;
          retryable = (run_dispatch_attempt run <
            (if run_max_dispatch_attempts run = 0 then 3 else run_max_dispatch_attempts run));
          s2 = run_cas rid (held_by run) (\<lambda>r. lease_cleared (
            (if retryable then requeue now r
             else r\<lparr>run_status := FAILED, run_finished_at := Some now, run_updated_at := now\<rparr>)
            \<lparr>run_last_error_type := Some cls\<rparr>)) s1
      in if retryable then wake rid s2 else sync_parameter_relations now run ''automatic_failed'' cls s2)"

section \<open>\<open>run_once\<close>\<close>

text \<open>The registry the constructor puts together; \<open>workflow\<close> are the adapters of the other modules.\<close>

definition worker_registry :: "(request_snapshot \<Rightarrow> replay_outcome) \<Rightarrow> judge_fun \<Rightarrow> execution_adapter list \<Rightarrow>
    execution_adapter list \<Rightarrow> string list option \<Rightarrow> (string \<times> execution_adapter) list result_of" where
  "worker_registry replay judge workflow extra supported =
     sbind (adapter_registry workflow) (\<lambda>flows.
     sbind (if extra = [] then Inr [] else adapter_registry extra) (\<lambda>more.
     let registered = dict_update (dict_update (builtin_execution_adapters replay judge) flows) more
     in Inr (case supported of None \<Rightarrow> registered
       | Some ids \<Rightarrow> filter (\<lambda>(k, a). k \<in> set ids) registered)))"

datatype dispatch_result =
    NothingQueued
  | DispatchPaused
  | DispatchRaised py_error
  | Dispatched security_test_run execution_adapter

definition dispatch_claimed :: "context_resolver \<Rightarrow> time \<Rightarrow> (string \<times> execution_adapter) list \<Rightarrow> security_test_run \<Rightarrow>
    db \<Rightarrow> db \<times> dispatch_result" where
  "dispatch_claimed resolver now adapters run s =
     (case map_of adapters (cx_adapter_id (run_ctx run)) of
       None \<Rightarrow> (pause_claimed_run now run (adapter_exc UnsupportedAdapter) None s, DispatchPaused)
     | Some adapter \<Rightarrow> (case policy_from_dict (run_execution_policy run) of
         Inl e \<Rightarrow> (s, DispatchRaised e)
       | Inr policy \<Rightarrow> (case preflight resolver now run adapter policy s of
           (s1, None) \<Rightarrow> (s1, Dispatched run adapter)
         | (s1, Some (AdapterRefused e)) \<Rightarrow> (pause_claimed_run now run (adapter_exc e) None s1, DispatchPaused)
         | (s1, Some (ContextRefused e)) \<Rightarrow>
             (pause_claimed_run now run e (Some (unavailable_auth_summary run e)) s1, DispatchPaused))))"

definition claim_and_dispatch :: "context_resolver \<Rightarrow> time \<Rightarrow> string \<Rightarrow> string \<Rightarrow> string \<Rightarrow> int \<Rightarrow>
    (string \<times> execution_adapter) list \<Rightarrow> db \<Rightarrow> (db \<times> dispatch_result) result_of" where
  "claim_and_dispatch resolver now token worker queue lease adapters s =
     sbind (recover_expired_executions now queue 300 86400 s) (\<lambda>(s1, report).
     sbind (claim_next_execution now token worker queue lease s1) (\<lambda>(s2, claimed).
     Inr (case claimed of None \<Rightarrow> (s2, NothingQueued)
       | Some run \<Rightarrow> dispatch_claimed resolver now adapters run s2)))"

text \<open>The result says whether a run was claimed; \<open>None\<close> is an incomplete schedule.\<close>

definition run_once :: "context_resolver \<Rightarrow> time \<Rightarrow> string \<Rightarrow> string \<Rightarrow> string \<Rightarrow> int \<Rightarrow>
    (string \<times> execution_adapter) list \<Rightarrow> worker_event list \<Rightarrow> time \<Rightarrow> db \<Rightarrow> (db \<times> bool) result_of option" where
  "run_once resolver now token worker queue lease adapters events finish_time s =
     (case claim_and_dispatch resolver now token worker queue lease adapters s of
       Inl e \<Rightarrow> Some (Inl e)
     | Inr (s1, NothingQueued) \<Rightarrow> Some (Inr (s1, False))
     | Inr (s1, DispatchPaused) \<Rightarrow> Some (Inr (s1, True))
     | Inr (s1, DispatchRaised e) \<Rightarrow> Some (Inl e)
     | Inr (s1, Dispatched run adapter) \<Rightarrow>
         (case execute_run now lease events finish_time run adapter s1 of
           None \<Rightarrow> None
         | Some (s2, Inr r) \<Rightarrow> Some (Inr (s2, True))
         | Some (s2, Inl e) \<Rightarrow> Some (Inr (handle_dispatch_failure finish_time run (error_class e) s2, True))))"

section \<open>Facts: every step keeps the scheduler's invariant\<close>

lemma cp_cas_eq: "cp_cas k g f = update_checkpoints (\<lambda>cp. cp_key cp = k \<and> g cp) f"
  by (rule ext) (simp add: cp_cas_def update_checkpoints_def coll_cas_def)

lemma good_cp_cas:
  "(\<And>cp. cp_ok cp \<Longrightarrow> g cp \<Longrightarrow> cp_ok (f cp) \<and> cp_key (f cp) = cp_key cp) \<Longrightarrow> good s (cp_cas k g f s)"
  unfolding cp_cas_eq by (rule good_update_checkpoints) blast

lemma good_finish_checkpoint: "status \<noteq> CP_RUNNING \<Longrightarrow> good s (finish_checkpoint now run k status rs d i e s)"
  unfolding finish_checkpoint_def by (rule good_cp_cas) (simp add: cp_ok_def cp_key_def)

lemma give_back_ok [simp]: "cp_ok (give_back now reason cp)" "cp_key (give_back now reason cp) = cp_key cp"
  by (simp_all add: cp_ok_def give_back_def cp_key_def)

lemma good_give_back [simp]: "good s (give_back_checkpoint now run k reason s)"
  unfolding give_back_checkpoint_def by (rule good_cp_cas) simp

lemma good_give_back_held [simp]: "good s (give_back_held now run reason s)"
  unfolding give_back_held_def by (rule good_update_checkpoints) simp

lemma good_hold: "run_lease_token run \<noteq> None \<Longrightarrow> good s (cp_cas k cp_pending (hold_checkpoint now run) s)"
  by (rule good_cp_cas) (simp add: cp_ok_def hold_checkpoint_def cp_key_def)

lemma good_sync_counts [simp]: "good s (sync_counts now rid co s)"
  unfolding sync_counts_def by (rule good_run_cas) (auto simp: run_defs intro!: evolves_same)

lemma good_results:
  assumes "record_execution_result_input now new_id run sn v (db_results s) = Inr (results, r)"
  shows "good s (s\<lparr>db_results := results\<rparr>)"
  using record_stores [OF assms] by (simp add: good_def sched_inv_def progress_def)

lemma good_blocked: "good s (fst (finish_blocked now run k flags reason s))"
  by (auto simp: finish_blocked_def Let_def aborted_status_def intro: good_finish_checkpoint)

lemma good_aborted: "good s (fst (finish_aborted now run k flags s))"
  by (auto simp: finish_aborted_def Let_def aborted_status_def intro: good_finish_checkpoint)

lemma good_pause_on_context: "good s (pause_on_context now run k e s)"
  unfolding pause_on_context_def
  by (rule good_cp_cas) (simp add: cp_ok_def give_back_def cp_key_def)

lemma good_record_conclusion: "good s (fst (record_conclusion now new_id adapter run cp sn evidence s))"
proof -
  have "good s (finish_checkpoint now run k status rs d i e (s\<lparr>db_results := results\<rparr>))"
    if "record_execution_result_input now new_id run (Some sn) v (db_results s) = Inr (results, r)"
      "status \<noteq> CP_RUNNING"
    for v results r k status rs d i e
    using good_results [OF that(1)] good_finish_checkpoint [OF that(2)] by (rule good_trans)
  then show ?thesis
    by (auto simp: record_conclusion_def Let_def good_results split: sum.splits option.splits)
qed

lemma good_conclude: "good s (fst (conclude_checkpoint now new_id adapter run cp sn evidence co s))"
  using good_record_conclusion [of s now new_id adapter run cp sn evidence]
  by (auto simp: conclude_checkpoint_def split: prod.splits sum.splits)

lemma good_end_checkpoint: "good s (fst (end_checkpoint now new_id adapter run env cp sn co s))"
  using good_blocked [of s now run "cp_key cp" "ce_at_block env"] good_aborted [of s now run "cp_key cp" "ce_at_check env"]
  by (auto simp: end_checkpoint_def Let_def good_conclude good_pause_on_context
      split: option.splits replay_outcome.splits prod.splits) (metis fst_conv)+

lemma good_reuse: "good s (fst (reuse_result now adapter run cp e co s))"
  by (auto simp: reuse_result_def Let_def intro: good_finish_checkpoint split: prod.splits sum.splits)

lemma good_begin_checkpoint:
  assumes "run_lease_token run \<noteq> None"
  shows "good s (fst (begin_checkpoint now adapter run sid co s))"
proof -
  define s1 where "s1 = cp_cas (run_id run, sid) cp_pending (hold_checkpoint now run) s"
  have "good s s1" unfolding s1_def using assms by (rule good_hold)
  moreover have "good s1 (fst (reuse_result now adapter run cp e co s1))" for cp e by (rule good_reuse)
  moreover have "good s1 (finish_checkpoint now run k CP_ERROR rs d i e s1)" for k rs d i e
    by (rule good_finish_checkpoint) simp
  ultimately show ?thesis
    unfolding begin_checkpoint_def Let_def s1_def [symmetric]
    by (auto split: option.splits prod.splits intro: good_trans) (metis fst_conv good_trans)+
qed

lemma good_reap: "good s (reap now run k r s)"
  by (auto simp: reap_def mark_future_failure_def intro: good_finish_checkpoint split: case_end.splits)

lemma note_auth_failure_run [simp]: "wk_run (note_auth_failure r w) = wk_run w"
  by (simp add: note_auth_failure_def split: case_end.splits)

lemma good_begin_case:
  assumes "run_lease_token (wk_run w) \<noteq> None"
  shows "good s (fst (begin_case now sid w s)) \<and> wk_run (snd (begin_case now sid w s)) = wk_run w"
  using good_begin_checkpoint [OF assms, of s now "wk_adapter w" sid "wk_coordinator w"]
  by (auto simp: begin_case_def Let_def intro: good_trans good_reap split: prod.splits case_start.splits)

lemma good_end_case: "good s (fst (end_case now new_id i env w s)) \<and> wk_run (snd (end_case now new_id i env w s)) = wk_run w"
proof -
  have "good s (fst (end_checkpoint now new_id (wk_adapter w) (wk_run w) env cp sn (wk_coordinator w) s))" for cp sn
    by (rule good_end_checkpoint)
  then show ?thesis
    by (auto simp: end_case_def intro: good_trans good_reap split: prod.splits) (metis fst_conv good_trans good_reap)
qed

lemma good_progress:
  "report_progress now run k p s = Inr s' \<Longrightarrow> good s s'"
  by (auto simp: report_progress_def sbind_Inr_iff intro!: good_cp_cas) (simp_all add: cp_ok_def cp_key_def)

lemma good_worker_do:
  assumes "worker_do e (s, w) = Some (s', w')" "run_lease_token (wk_run w) \<noteq> None"
  shows "good s s' \<and> wk_run w' = wk_run w"
proof (cases e)
  case (Beat now)
  then show ?thesis
    using assms good_heartbeat [of s now "run_id (wk_run w)" "the (run_lease_token (wk_run w))" "wk_lease_seconds w"]
    by (auto simp: Let_def split: prod.splits)
next
  case (BeginCase now sid)
  then show ?thesis using assms good_begin_case [OF assms(2), of s now sid] by (auto split: if_splits)
next
  case (EndCase now new_id i env)
  then show ?thesis using assms good_end_case [of s now new_id i env w] by (auto split: if_splits)
qed (use assms in \<open>auto simp: good_progress split: if_splits option.splits sum.splits\<close>)

lemma good_run_events:
  "run_events es (s, w) = Some (s', w') \<Longrightarrow> run_lease_token (wk_run w) \<noteq> None \<Longrightarrow> good s s' \<and> wk_run w' = wk_run w"
proof (induction es arbitrary: s w)
  case (Cons e es)
  then obtain s1 w1 where "worker_do e (s, w) = Some (s1, w1)" "run_events es (s1, w1) = Some (s', w')"
    by (auto split: option.splits)
  with Cons good_worker_do [of e s w s1 w1] show ?case by (metis good_trans)
qed simp

section \<open>Facts: how an execution ends\<close>

text \<open>A run under this lease is running or being cancelled, and may go anywhere an execution ends.\<close>

lemma good_end_held:
  assumes "run_lease_token run \<noteq> None" "\<And>r. run_identity (f r) = run_identity r \<and> run_status (f r) = st"
    and "st \<in> {DONE, CANCELLED, PAUSED, QUEUED, FAILED}"
  shows "good s (run_cas rid (held_by run) (\<lambda>r. lease_cleared (f r)) s)"
proof (rule good_run_cas)
  fix r assume r: "run_ok r" "held_by run r"
  with assms(1) have "run_status r \<in> {RUNNING, CANCEL_REQUESTED}" by (auto simp: run_ok_def held_by_def)
  with assms(3) have "legal_move (run_status r) st" by (auto simp: legal_move_def)
  moreover have "run_identity (lease_cleared (f r)) = run_identity r" "run_status (lease_cleared (f r)) = st"
    using assms(2) [of r] by (simp_all add: run_identity_def lease_cleared_def)
  ultimately show "run_ok (lease_cleared (f r)) \<and> evolves r (lease_cleared (f r))"
    by (auto simp: run_ok_def lease_cleared_def intro: evolves_legal)
qed

lemma good_finish_stopping: "good s (fst (finish_stopping now w s))"
proof -
  let ?run = "wk_run w" and ?mine = "\<lambda>r. held_by (wk_run w) r \<and> run_status r = RUNNING"
  define s1 where "s1 = sync_counts now (run_id ?run) (wk_coordinator w) (give_back_held now ?run ''lease_lost'' s)"
  have 1: "good s s1" unfolding s1_def by (rule good_trans [OF good_give_back_held good_sync_counts])
  have 2: "good s1 (run_cas (run_id ?run) ?mine (\<lambda>r. lease_cleared (requeue now r)) s1)"
    by (rule good_run_cas) (auto simp: run_defs legal_move_def intro!: evolves_legal)
  from good_trans [OF 1 2] 1 show ?thesis
    unfolding finish_stopping_def Let_def s1_def [symmetric] by (auto intro: good_trans)
qed

lemma good_finish_auth:
  assumes "run_lease_token (wk_run w) \<noteq> None"
  shows "good s (fst (finish_auth now w s))"
  unfolding finish_auth_def Let_def fst_conv
  by (rule good_trans [OF good_give_back_held], rule good_trans [OF good_sync_counts],
      rule good_trans [OF good_end_held good_sync])
    (use assms in \<open>auto simp: auth_dependency_def run_identity_def\<close>)

lemma good_finish_normal:
  assumes "run_lease_token (wk_run w) \<noteq> None"
  shows "good s (fst (finish_normal now w s))"
proof -
  let ?run = "wk_run w"
  define s1 where "s1 = sync_counts now (run_id ?run) (wk_coordinator w)
     (if wk_cancel w then cancel_checkpoints now ''cancel_requested'' (run_id ?run) s else s)"
  have 1: "good s s1" unfolding s1_def
    by (rule good_trans [OF _ good_sync_counts]) (simp add: good_cancel_checkpoints)
  have 2: "good s1 (run_cas (run_id ?run) (held_by ?run) (\<lambda>r. lease_cleared (f r)) s1)"
    if "\<And>r. run_identity (f r) = run_identity r \<and> run_status (f r) = (if wk_cancel w then CANCELLED else DONE)" for f
    by (rule good_end_held [OF assms that]) simp
  from good_trans [OF 1 2] show ?thesis
    unfolding finish_normal_def Let_def s1_def [symmetric]
    by (auto simp: 1 run_identity_def split: sum.splits intro!: good_trans [OF _ good_sync])
qed

lemma good_finish_run:
  "run_lease_token (wk_run w) \<noteq> None \<Longrightarrow> good s (fst (finish_run now w s))"
  using good_finish_stopping [of s now w] good_finish_auth [of w s now] good_finish_normal [of w s now]
  by (auto simp: finish_run_def split: prod.splits)

lemma good_dispatch_failure:
  assumes "run_lease_token run \<noteq> None"
  shows "good s (handle_dispatch_failure now run cls s)"
proof -
  define s1 where "s1 = give_back_held now run ''worker_dispatch_failure'' s"
  have "good s (run_cas rid (held_by run) (\<lambda>r. lease_cleared (f r)) s1)"
    if "\<And>r. run_identity (f r) = run_identity r \<and> run_status (f r) = st" "st \<in> {QUEUED, FAILED}" for rid f st
    unfolding s1_def by (rule good_trans [OF good_give_back_held good_end_held [OF assms that(1)]]) (use that in auto)
  then show ?thesis
    unfolding handle_dispatch_failure_def Let_def s1_def [symmetric]
    by (auto simp: run_identity_def requeue_def intro!: good_trans [OF _ good_wake] good_trans [OF _ good_sync])
qed

lemma good_pause_claimed: "good s (pause_claimed_run now run e d s)"
  unfolding pause_claimed_run_def
  by (rule good_trans [OF good_run_cas good_sync])
    (auto simp: auth_dependency_def run_defs legal_move_def intro!: evolves_legal)

lemma good_preflight: "good s (fst (preflight resolver now run adapter policy s))"
  by (auto simp: preflight_def run_defs split: sum.splits option.splits intro!: good_run_cas evolves_same)

lemma good_dispatch_claimed: "good s (fst (dispatch_claimed resolver now adapters run s))"
proof -
  have "good s (fst (preflight resolver now run adapter policy s))" for adapter policy by (rule good_preflight)
  then show ?thesis
    by (auto simp: dispatch_claimed_def good_pause_claimed split: option.splits sum.splits prod.splits preflight_failure.splits)
      (metis fst_conv good_trans good_pause_claimed)+
qed

lemma good_execute_run:
  assumes "execute_run now lease events fin run adapter s = Some (s', r)"
  shows "good s s'"
proof -
  have "good s s'" if "run_lease_token run = Some t" "heartbeat_execution now (run_id run) t l s = (s1, True)"
    "run_events events (s1, new_worker run adapter policy l s1) = Some (s2, w)" "finish_run fin w s2 = (s', r)"
    for t l s1 policy s2 w
  proof -
    have "good s s1" using good_heartbeat [of s now "run_id run" t l] that(2) by simp
    moreover have "good s1 s2" "wk_run w = run"
      using good_run_events [OF that(3)] that(1) by (auto simp: new_worker_def)
    moreover from this have "good s2 s'" using good_finish_run [of w s2 fin] that(1,4) by simp
    ultimately show ?thesis by (meson good_trans)
  qed
  moreover have "good s s1" if "heartbeat_execution now (run_id run) t l s = (s1, b)" for t l s1 b
    using good_heartbeat [of s now "run_id run" t l] that by simp
  ultimately show ?thesis
    using assms by (auto simp: execute_run_def Let_def split: sum.splits option.splits prod.splits if_splits)
qed

section \<open>Facts: a worker without the lease\<close>

text \<open>
  What only the holder of a lease may change: the status, lease and attempts of its run, and the
  checkpoints under its token.
\<close>

definition lease_view :: "security_test_run \<Rightarrow> run_status \<times> string option \<times> string option \<times> time option \<times> int" where
  "lease_view r = (run_status r, run_lease_owner r, run_lease_token r, run_lease_expires_at r, run_dispatch_attempt r)"

definition spares_runs :: "string option \<Rightarrow> db \<Rightarrow> db \<Rightarrow> bool" where
  "spares_runs t s s' \<longleftrightarrow> list_all2 (\<lambda>r r'. run_lease_token r \<noteq> t \<longrightarrow> lease_view r' = lease_view r) (db_runs s) (db_runs s')"

definition spares_checkpoints :: "string option \<Rightarrow> db \<Rightarrow> db \<Rightarrow> bool" where
  "spares_checkpoints t s s' \<longleftrightarrow>
     list_all2 (\<lambda>c c'. cp_status c = CP_RUNNING \<and> cp_lease_token c \<noteq> t \<longrightarrow> c' = c) (db_checkpoints s) (db_checkpoints s')"

definition spares :: "string option \<Rightarrow> db \<Rightarrow> db \<Rightarrow> bool" where
  "spares t s s' \<longleftrightarrow> spares_runs t s s' \<and> spares_checkpoints t s s'"

lemma spares_same: "db_runs s' = db_runs s \<Longrightarrow> db_checkpoints s' = db_checkpoints s \<Longrightarrow> spares t s s'"
  by (simp add: spares_def spares_runs_def spares_checkpoints_def list_all2_refl)

lemma spares_refl [simp]: "spares t s s"
  by (rule spares_same) simp_all

lemma spares_trans: "spares t a b \<Longrightarrow> spares t b c \<Longrightarrow> spares t a c"
  by (auto simp: spares_def spares_runs_def spares_checkpoints_def lease_view_def list_all2_conv_all_nth)

lemma spares_run_cas:
  assumes "\<And>r. g r \<Longrightarrow> run_lease_token r \<noteq> t \<Longrightarrow> lease_view (f r) = lease_view r"
  shows "spares t s (run_cas rid g f s)"
  using assms
  by (auto simp: spares_def spares_runs_def spares_checkpoints_def run_cas_def coll_cas_def update_where_def
      list_all2_map2 list_all2_same)

lemma spares_update_checkpoints:
  assumes "\<And>c. q c \<Longrightarrow> cp_status c = CP_RUNNING \<Longrightarrow> cp_lease_token c = t"
  shows "spares t s (update_checkpoints q f s)"
  using assms
  by (auto simp: spares_def spares_runs_def spares_checkpoints_def update_checkpoints_def update_where_def
      list_all2_map2 list_all2_same)

lemma spares_cp_cas_held: "spares (run_lease_token run) s (cp_cas k (cp_held run) f s)"
  unfolding cp_cas_eq by (rule spares_update_checkpoints) (simp add: cp_held_def)

lemma spares_hold: "spares t s (cp_cas k cp_pending (hold_checkpoint now run) s)"
  unfolding cp_cas_eq by (rule spares_update_checkpoints) (simp add: cp_pending_def)

lemma spares_finish_checkpoint: "spares (run_lease_token run) s (finish_checkpoint now run k st rs d i e s)"
  unfolding finish_checkpoint_def by (rule spares_cp_cas_held)

lemma spares_give_back: "spares (run_lease_token run) s (give_back_checkpoint now run k reason s)"
  unfolding give_back_checkpoint_def by (rule spares_cp_cas_held)

lemma spares_give_back_held: "spares (run_lease_token run) s (give_back_held now run reason s)"
  unfolding give_back_held_def by (rule spares_update_checkpoints) (simp add: cp_held_def)

lemma spares_sync_counts: "spares t s (sync_counts now rid co s)"
  unfolding sync_counts_def by (rule spares_run_cas) (simp add: lease_view_def)

lemma spares_held_cas: "spares (run_lease_token run) s (run_cas rid (\<lambda>r. held_by run r \<and> g r) f s)"
  by (rule spares_run_cas) (simp add: held_by_def)

lemmas spares_steps = spares_finish_checkpoint spares_give_back spares_give_back_held spares_sync_counts
  spares_held_cas spares_held_cas [where g = "\<lambda>_. True", simplified]

lemma spares_reap: "spares (run_lease_token run) s (reap now run k r s)"
  by (simp add: reap_def mark_future_failure_def spares_finish_checkpoint split: case_end.splits)

lemma spares_results: "spares t s (s\<lparr>db_results := rs\<rparr>)"
  by (rule spares_same) simp_all

lemma spares_record: "spares (run_lease_token run) s (fst (record_conclusion now new_id adapter run cp sn evidence s))"
  by (auto simp: record_conclusion_def Let_def spares_results split: sum.splits option.splits
      intro: spares_trans [OF spares_results spares_finish_checkpoint])

lemma spares_conclude: "spares (run_lease_token run) s (fst (conclude_checkpoint now new_id adapter run cp sn evidence co s))"
  using spares_record [of run s now new_id adapter cp sn evidence]
  by (auto simp: conclude_checkpoint_def split: prod.splits sum.splits)

lemma spares_blocked: "finish_blocked now run k flags reason s = (s1, r) \<Longrightarrow> spares (run_lease_token run) s s1"
  by (auto simp: finish_blocked_def Let_def spares_steps split: if_splits)

lemma spares_aborted: "finish_aborted now run k flags s = (s1, r) \<Longrightarrow> spares (run_lease_token run) s s1"
  by (auto simp: finish_aborted_def Let_def spares_steps split: if_splits)

lemma spares_end_checkpoint:
  "spares (run_lease_token run) s (fst (end_checkpoint now new_id adapter run env cp sn co s))"
  by (auto simp: end_checkpoint_def Let_def spares_conclude pause_on_context_def spares_cp_cas_held
      split: option.splits replay_outcome.splits prod.splits dest: spares_blocked spares_aborted)

lemma spares_end_reap:
  "end_checkpoint now new_id adapter run env cp sn co s = (s1, co1, r) \<Longrightarrow>
     spares (run_lease_token run) s (reap now' run k r s1)"
  using spares_end_checkpoint [of run s now new_id adapter env cp sn co] by (auto intro: spares_trans spares_reap)

lemma spares_begin_checkpoint: "spares (run_lease_token run) s (fst (begin_checkpoint now adapter run sid co s))"
proof -
  define s1 where "s1 = cp_cas (run_id run, sid) cp_pending (hold_checkpoint now run) s"
  have "spares (run_lease_token run) s s1" unfolding s1_def by (rule spares_hold)
  moreover have "spares (run_lease_token run) s1 (fst (reuse_result now adapter run cp e co s1))" for cp e
    by (auto simp: reuse_result_def Let_def spares_steps split: prod.splits sum.splits)
  ultimately show ?thesis
    unfolding begin_checkpoint_def Let_def s1_def [symmetric]
    by (auto split: option.splits prod.splits intro: spares_trans spares_finish_checkpoint) (metis fst_conv spares_trans)+
qed

lemma spares_worker_do:
  assumes "worker_do e (s, w) = Some (s', w')"
  shows "spares (run_lease_token (wk_run w)) s s' \<and> wk_run w' = wk_run w"
proof (cases e)
  case (Beat now)
  have "spares (Some t) s (fst (heartbeat_execution now rid t l s))" for rid t l
    unfolding heartbeat_execution_def fst_conv
    by (rule spares_run_cas) (simp add: heartbeat_guard_def leased_def)
  with Beat show ?thesis using assms
    by (auto simp: Let_def split: prod.splits option.splits) (metis fst_conv)
next
  case (BeginCase now sid)
  with assms spares_begin_checkpoint [of "wk_run w" s now "wk_adapter w" sid "wk_coordinator w"] show ?thesis
    by (auto simp: begin_case_def Let_def intro: spares_trans spares_reap
        split: if_splits prod.splits case_start.splits)
next
  case (EndCase now new_id i env)
  with assms show ?thesis by (auto simp: end_case_def spares_end_reap split: if_splits prod.splits)
next
  case (Progress now i p)
  with assms show ?thesis
    by (auto simp: report_progress_def sbind_Inr_iff spares_cp_cas_held split: if_splits sum.splits)
qed (use assms spares_sync_counts in \<open>auto split: if_splits option.splits\<close>)

lemma spares_run_events:
  "run_events es (s, w) = Some (s', w') \<Longrightarrow> spares (run_lease_token (wk_run w)) s s' \<and> wk_run w' = wk_run w"
proof (induction es arbitrary: s w)
  case (Cons e es)
  then obtain s1 w1 where "worker_do e (s, w) = Some (s1, w1)" "run_events es (s1, w1) = Some (s', w')"
    by (auto split: option.splits)
  with Cons spares_worker_do [of e s w s1 w1] show ?case by (metis spares_trans)
qed simp

lemma spares_finish_run:
  assumes "wk_lost w \<or> wk_stop w \<or> \<not> wk_cancel w"
  shows "spares (run_lease_token (wk_run w)) s (fst (finish_run now w s))"
proof -
  let ?run = "wk_run w" and ?t = "run_lease_token (wk_run w)"
  have give: "spares ?t s (sync_counts now rid co (give_back_held now ?run reason s))" for rid co reason
    by (rule spares_trans [OF spares_give_back_held spares_sync_counts])
  have sync: "spares ?t s (sync_parameter_relations now r a b s)" for s r a b
    by (rule spares_same; simp add: sync_parameter_relations_def)
  have wake: "spares ?t s s' \<Longrightarrow> spares ?t s (wake rid s')" for s s' rid
    by (simp add: spares_def spares_runs_def spares_checkpoints_def wake_def)
  have "spares ?t s (fst (finish_stopping now w s))"
    unfolding finish_stopping_def Let_def
    by (auto intro!: wake spares_trans [OF give] spares_held_cas give)
  moreover have "spares ?t s (fst (finish_auth now w s))"
    unfolding finish_auth_def Let_def fst_conv
    by (rule spares_trans [OF give spares_trans [OF spares_held_cas [where g = "\<lambda>_. True", simplified] sync]])
  moreover have "spares ?t s (fst (finish_normal now w s))" if "\<not> wk_cancel w"
    using that spares_sync_counts [of ?t s now "run_id ?run" "wk_coordinator w"] unfolding finish_normal_def Let_def
    by (auto intro: spares_trans [OF spares_sync_counts] spares_steps split: sum.splits)
  ultimately show ?thesis
    using assms by (auto simp: finish_run_def split: prod.splits)
qed

end
