(* ===== verification/WorkerCompletion.thy ===== *)
theory WorkerCompletion
  imports RunWorker
begin

text \<open>
  What a finished execution guarantees: every checkpoint of a run that ends as \<open>DONE\<close> was concluded
  (\<open>open_ok\<close> is the loop's invariant), a result recorded as a pass rests on established parameter
  values, and a failed dispatch is retried a bounded number of times.
\<close>

section \<open>Facts: what ending a checkpoint leaves\<close>

text \<open>
  \<open>ends_at run k P s s'\<close>: the checkpoints of \<open>s'\<close> are those of \<open>s\<close> that the run does not hold at key
  \<open>k\<close>, and ones at \<open>k\<close> whose status satisfies \<open>P\<close>.
\<close>

definition ends_at :: "security_test_run \<Rightarrow> oid \<times> oid \<Rightarrow> (checkpoint_status \<Rightarrow> bool) \<Rightarrow> db \<Rightarrow> db \<Rightarrow> bool" where
  "ends_at run k P s s' \<longleftrightarrow> (\<forall>cp \<in> set (db_checkpoints s').
     (cp \<in> set (db_checkpoints s) \<and> \<not> (cp_key cp = k \<and> cp_held run cp)) \<or> (cp_key cp = k \<and> P (cp_status cp)))"

definition concluded :: "checkpoint_status \<Rightarrow> bool" where
  "concluded st \<longleftrightarrow> st \<noteq> CP_PENDING \<and> st \<noteq> CP_RUNNING"

lemma ends_at_mono: "ends_at run k P s s' \<Longrightarrow> (\<And>st. P st \<Longrightarrow> Q st) \<Longrightarrow> ends_at run k Q s s'"
  by (auto simp: ends_at_def)

lemma ends_cp_cas:
  assumes "\<And>cp. cp_held run cp \<Longrightarrow> cp_key (f cp) = cp_key cp \<and> P (cp_status (f cp))"
  shows "ends_at run k P s (cp_cas k (cp_held run) f s)"
  using assms by (auto simp: ends_at_def cp_cas_eq update_checkpoints_def set_update_where)

lemma ends_finish: "P st \<Longrightarrow> ends_at run k P s (finish_checkpoint now run k st rs d i e s)"
  unfolding finish_checkpoint_def by (rule ends_cp_cas) (simp add: cp_key_def)

lemma ends_give_back: "P CP_PENDING \<Longrightarrow> ends_at run k P s (give_back_checkpoint now run k reason s)"
  unfolding give_back_checkpoint_def by (rule ends_cp_cas) (simp add: give_back_def cp_key_def)

lemma ends_results: "ends_at run k P (s\<lparr>db_results := rs\<rparr>) s' = ends_at run k P s s'"
  by (simp add: ends_at_def)

lemma ends_mark: "ends_at run k concluded s (mark_future_failure now run k cls s)"
  unfolding mark_future_failure_def by (rule ends_finish) (simp add: concluded_def)

lemma ends_record:
  assumes "record_conclusion now new_id adapter run cp sn evidence s = (s1, r)" "cp_key cp = k"
  shows "ends_at run k concluded s (reap now' run k r s1)"
proof -
  have "ends_at run k concluded s (mark_future_failure now' run k cls (s\<lparr>db_results := rs\<rparr>))" for rs cls
    using ends_mark [of run k "s\<lparr>db_results := rs\<rparr>"] by (simp add: ends_results)
  moreover have "ends_at run k concluded s (finish_checkpoint now run k st rs d i e (s\<lparr>db_results := results\<rparr>))"
    if "concluded st" for st rs d i e results
    using ends_finish [where P = concluded, OF that, of run k "s\<lparr>db_results := results\<rparr>"] by (simp add: ends_results)
  moreover have "concluded CP_ERROR" "concluded CP_DONE" by (simp_all add: concluded_def)
  ultimately show ?thesis
    using assms by (auto simp: record_conclusion_def Let_def reap_def ends_mark
        split: sum.splits option.splits if_splits prod.splits)
qed

lemma ends_conclude:
  assumes "conclude_checkpoint now new_id adapter run cp sn evidence co s = (s1, co1, r)" "cp_key cp = k"
  shows "ends_at run k concluded s (reap now' run k r s1)"
  using assms by (auto simp: conclude_checkpoint_def reap_def [of _ _ _ "Raised _"] ends_mark ends_record
      split: prod.splits sum.splits)

text \<open>A checkpoint is given back only on a flag, or together with the auth flag.\<close>

definition may_give_back :: "case_env \<Rightarrow> case_end \<Rightarrow> checkpoint_status \<Rightarrow> bool" where
  "may_give_back env r st \<longleftrightarrow> st \<noteq> CP_RUNNING \<and> (st = CP_PENDING \<longrightarrow> (\<exists>e. r = AuthPaused e) \<or>
     aborted_status (ce_at_block env) = CP_PENDING \<or> aborted_status (ce_at_check env) = CP_PENDING)"

lemma concluded_may: "concluded st \<Longrightarrow> may_give_back env r st"
  by (simp add: concluded_def may_give_back_def)

lemma ends_blocked:
  assumes "finish_blocked now run k (ce_at_block env) reason s = (s1, r)"
  shows "ends_at run k (may_give_back env r) s (reap now' run k r s1)"
  using assms
  by (auto simp: finish_blocked_def Let_def reap_def may_give_back_def aborted_status_def
      intro!: ends_finish ends_give_back split: if_splits)

lemma ends_aborted:
  assumes "finish_aborted now run k (ce_at_check env) s = (s1, r)"
  shows "ends_at run k (may_give_back env r) s (reap now' run k r s1)"
  using assms
  by (auto simp: finish_aborted_def Let_def reap_def may_give_back_def aborted_status_def
      intro!: ends_finish ends_give_back split: if_splits)

lemma ends_end_checkpoint:
  assumes "end_checkpoint now new_id adapter run env cp sn co s = (s1, co1, r)"
  shows "ends_at run (cp_key cp) (may_give_back env r) s (reap now' run (cp_key cp) r s1)"
proof -
  have conclude: "ends_at run (cp_key cp) (may_give_back env r) s (reap now' run (cp_key cp) r s1)"
    if "conclude_checkpoint now new_id adapter run cp sn evidence co s = (s1, co1, r)" for evidence
    using ends_conclude [OF that refl] concluded_may by (rule ends_at_mono)
  have pause: "ends_at run k (may_give_back env (AuthPaused e)) s (pause_on_context now run k e s)" for e k
    unfolding pause_on_context_def by (rule ends_cp_cas) (simp add: give_back_def may_give_back_def cp_key_def)
  from assms show ?thesis
    by (auto simp: end_checkpoint_def Let_def reap_def [of _ _ _ "AuthPaused _"] pause
        split: option.splits replay_outcome.splits prod.splits if_splits
        intro: ends_blocked ends_aborted conclude)
qed

section \<open>Facts: beginning a checkpoint\<close>

text \<open>
  After \<open>begin_checkpoint\<close> nothing at its key is pending: what was is now concluded, or is held and
  running.
\<close>

definition begun :: "security_test_run \<Rightarrow> oid \<times> oid \<Rightarrow> bool \<Rightarrow> db \<Rightarrow> db \<Rightarrow> bool" where
  "begun run k running s s' \<longleftrightarrow> (\<forall>cp \<in> set (db_checkpoints s').
     (cp \<in> set (db_checkpoints s) \<and> \<not> (cp_key cp = k \<and> cp_status cp = CP_PENDING)) \<or>
     (cp_key cp = k \<and> (concluded (cp_status cp) \<or> running \<and> cp_held run cp)))"

lemma begunD:
  "begun run k running s s' \<Longrightarrow> cp \<in> set (db_checkpoints s') \<Longrightarrow>
     (cp \<in> set (db_checkpoints s) \<and> \<not> (cp_key cp = k \<and> cp_status cp = CP_PENDING)) \<or>
     (cp_key cp = k \<and> (concluded (cp_status cp) \<or> running \<and> cp_held run cp))"
  by (simp add: begun_def)

lemma begun_hold: "begun run k True s (cp_cas k cp_pending (hold_checkpoint now run) s)"
  by (auto simp: begun_def cp_cas_eq update_checkpoints_def set_update_where hold_checkpoint_def cp_held_def
      cp_pending_def cp_key_def)

lemma begun_not_won:
  assumes "\<not> coll_won cp_key k cp_pending (db_checkpoints s)"
  shows "begun run k False s (cp_cas k cp_pending f s)"
  using assms by (auto simp: begun_def cp_cas_eq update_checkpoints_def set_update_where coll_won_def exists_where_iff
      cp_pending_def)

lemma begun_ended:
  assumes "begun run k True s s1" "ends_at run k concluded s1 s2"
  shows "begun run k False s s2"
  using assms unfolding begun_def ends_at_def by (metis (no_types, lifting))

lemma ends_reuse:
  assumes "reuse_result now adapter run cp e co s = (s1, co1, r)" "cp_key cp = k"
  shows "ends_at run k concluded s (reap now' run k r s1)"
  using assms by (auto simp: reuse_result_def Let_def reap_def ends_mark
      intro!: ends_finish split: prod.splits sum.splits if_splits) (simp_all add: concluded_def)

lemma held_found:
  assumes "coll_won cp_key k cp_pending (db_checkpoints s)"
  shows "coll_get cp_key k (db_checkpoints (cp_cas k cp_pending (hold_checkpoint now run) s)) \<noteq> None"
proof -
  from assms obtain d where d: "d \<in> set (db_checkpoints s)" "cp_key d = k" "cp_pending d"
    by (auto simp: coll_won_def exists_where_iff)
  then have "hold_checkpoint now run d \<in> set (db_checkpoints (cp_cas k cp_pending (hold_checkpoint now run) s))"
    by (force simp: cp_cas_eq update_checkpoints_def set_update_where)
  moreover have "cp_key (hold_checkpoint now run d) = k" using d(2) by (simp add: hold_checkpoint_def cp_key_def)
  ultimately show ?thesis unfolding coll_get_None by (metis image_eqI)
qed

lemma begin_over:
  assumes "begin_checkpoint now adapter run sid co s = (s1, co1, Over r)"
  shows "begun run (run_id run, sid) False s (reap now' run (run_id run, sid) r s1)"
proof -
  define k where "k = (run_id run, sid)"
  define h where "h = cp_cas k cp_pending (hold_checkpoint now run) s"
  note b = assms [unfolded begin_checkpoint_def Let_def, folded k_def, folded h_def]
  have hold: "begun run k True s h" unfolding h_def by (rule begun_hold)
  show ?thesis
  proof (cases "coll_won cp_key k cp_pending (db_checkpoints s)")
    case False
    with b show ?thesis
      using begun_not_won [OF False, of run] by (auto simp: reap_def h_def k_def [symmetric])
  next
    case True
    with held_found [OF True, of now run] obtain cp where cp: "coll_get cp_key k (db_checkpoints h) = Some cp"
      unfolding h_def by blast
    then have key: "cp_key cp = k" by (auto dest: coll_get_Some)
    have "ends_at run k concluded h (reap now' run k r s1)"
    proof (cases "result_with_key (execution_key run sid) (db_results h)")
      case (Some e)
      with b True cp obtain co1 where "reuse_result now adapter run cp e co h = (s1, co1, r)"
        by (auto split: prod.splits)
      then show ?thesis by (rule ends_reuse [OF _ key])
    next
      case None
      with b True cp show ?thesis
        by (auto simp: reap_def concluded_def intro!: ends_finish split: option.splits)
    qed
    with hold show ?thesis unfolding k_def [symmetric] by (rule begun_ended)
  qed
qed

lemma begin_running:
  assumes "begin_checkpoint now adapter run sid co s = (s1, co1, Running cp sn)"
  shows "begun run (run_id run, sid) True s s1" "cp_key cp = (run_id run, sid)"
proof -
  from assms have "s1 = cp_cas (run_id run, sid) cp_pending (hold_checkpoint now run) s"
    and "coll_get cp_key (run_id run, sid) (db_checkpoints s1) = Some cp"
    by (auto simp: begin_checkpoint_def Let_def split: option.splits if_splits prod.splits)
  then show "begun run (run_id run, sid) True s s1" "cp_key cp = (run_id run, sid)"
    by (auto simp: begun_hold dest: coll_get_Some)
qed

section \<open>Facts: the loop\<close>

text \<open>
  While a worker alone executes its run: what is pending is still to come unless a flag stopped the
  loop, what is running is one of its threads.
\<close>

definition halted :: "worker \<Rightarrow> bool" where
  "halted w \<longleftrightarrow> wk_lost w \<or> wk_auth w \<or> wk_stop w"

definition open_ok :: "db \<Rightarrow> worker \<Rightarrow> bool" where
  "open_ok s w \<longleftrightarrow> (\<forall>cp \<in> set (checkpoints_of (run_id (wk_run w)) s).
     (cp_status cp = CP_PENDING \<longrightarrow> cp_snapshot_id cp \<in> set (wk_todo w) \<union> set (wk_submitted w) \<or> halted w) \<and>
     (cp_status cp = CP_RUNNING \<longrightarrow> cp_held (wk_run w) cp \<and> cp_key cp \<in> cp_key ` fst ` set (wk_active w)))"

lemma open_okD:
  "open_ok s w \<Longrightarrow> cp \<in> set (db_checkpoints s) \<Longrightarrow> cp_run_id cp = run_id (wk_run w) \<Longrightarrow>
    (cp_status cp = CP_PENDING \<longrightarrow> cp_snapshot_id cp \<in> set (wk_todo w) \<union> set (wk_submitted w) \<or> halted w) \<and>
    (cp_status cp = CP_RUNNING \<longrightarrow> cp_held (wk_run w) cp \<and> cp_key cp \<in> cp_key ` fst ` set (wk_active w))"
  by (simp add: open_ok_def checkpoints_of_def)

lemma open_ok_begin:
  assumes "open_ok s w" "begin_case now sid w s = (s', w')"
  shows "open_ok s' w'"
proof -
  let ?run = "wk_run w" and ?k = "(run_id (wk_run w), sid)"
  obtain running where b: "begun ?run ?k running s s'"
    and w': "wk_run w' = ?run" "wk_todo w' = wk_todo w" "wk_submitted w' = remove1 sid (wk_submitted w)"
      "halted w' = halted w" "set (wk_active w) \<subseteq> set (wk_active w')"
    and act: "running \<Longrightarrow> ?k \<in> cp_key ` fst ` set (wk_active w')"
  proof (cases "begin_checkpoint now (wk_adapter w) ?run sid (wk_coordinator w) s")
    case (fields s1 co start)
    show ?thesis
    proof (cases start)
      case (Over r)
      with fields assms(2) have s': "s' = reap now ?run ?k r s1"
        and "w' = w\<lparr>wk_submitted := remove1 sid (wk_submitted w), wk_coordinator := co\<rparr>"
        by (auto simp: begin_case_def Let_def)
      with begin_over [OF fields [unfolded Over], of now] show ?thesis
        by (intro that [of False]) (simp_all add: halted_def)
    next
      case (Running cp sn)
      with fields assms(2) have "s' = s1" and w': "w' = w\<lparr>wk_submitted := remove1 sid (wk_submitted w),
          wk_coordinator := co, wk_active := wk_active w @ [(cp, sn)]\<rparr>"
        by (auto simp: begin_case_def Let_def)
      with begin_running [OF fields [unfolded Running]] show ?thesis
        by (intro that [of True]) (auto simp: halted_def)
    qed
  qed
  show ?thesis
    unfolding open_ok_def checkpoints_of_def
  proof (clarsimp simp: w'(1), intro conjI impI)
    fix cp assume cp: "cp \<in> set (db_checkpoints s')" "cp_run_id cp = run_id ?run"
    {
      assume p: "cp_status cp = CP_PENDING"
      with begunD [OF b cp(1)] have old: "cp \<in> set (db_checkpoints s)" "cp_key cp \<noteq> ?k"
        by (auto simp: concluded_def cp_held_def)
      have "cp_snapshot_id cp \<in> set (wk_todo w) \<union> set (wk_submitted w) \<or> halted w"
        using open_okD [OF assms(1) old(1) cp(2)] p by simp
      moreover have "cp_snapshot_id cp \<noteq> sid" using old(2) cp(2) by (simp add: cp_key_def)
      ultimately show "cp_snapshot_id cp \<in> set (wk_todo w') \<or> cp_snapshot_id cp \<in> set (wk_submitted w') \<or> halted w'"
        by (auto simp: w')
    }
    {
      assume p: "cp_status cp = CP_RUNNING"
      with begunD [OF b cp(1)] have "cp \<in> set (db_checkpoints s) \<or> (cp_key cp = ?k \<and> running \<and> cp_held ?run cp)"
        by (auto simp: concluded_def)
      then have "cp_held ?run cp \<and> cp_key cp \<in> cp_key ` fst ` set (wk_active w')"
      proof
        assume "cp \<in> set (db_checkpoints s)"
        with open_okD [OF assms(1) _ cp(2)] p have "cp_held ?run cp" "cp_key cp \<in> cp_key ` fst ` set (wk_active w)"
          by simp_all
        with w'(5) show ?thesis by (meson image_mono subsetD)
      qed (use act in simp)
      then show "cp_held ?run cp" "cp_key cp \<in> cp_key ` fst ` set (wk_active w')" by simp_all
    }
  qed
qed

lemma in_remove_nth: "i < length xs \<Longrightarrow> x \<in> set xs \<Longrightarrow> x \<noteq> xs ! i \<Longrightarrow> x \<in> set (remove_nth i xs)"
  by (subst (asm) id_take_nth_drop [of i xs]) (auto simp: remove_nth_def)

lemma aborted_halts: "aborted_status f = CP_PENDING \<Longrightarrow> flags_set w f \<Longrightarrow> halted w"
  by (auto simp: aborted_status_def flags_set_def halted_def split: if_splits)

lemma open_ok_end:
  assumes "open_ok s w" "end_case now new_id i env w s = (s', w')" "i < length (wk_active w)" "env_possible w env"
  shows "open_ok s' w'"
proof -
  let ?run = "wk_run w"
  obtain cp0 sn where i: "wk_active w ! i = (cp0, sn)" by (cases "wk_active w ! i")
  obtain s1 co r where e: "end_checkpoint now new_id (wk_adapter w) ?run env cp0 sn (wk_coordinator w) s = (s1, co, r)"
    by (cases "end_checkpoint now new_id (wk_adapter w) ?run env cp0 sn (wk_coordinator w) s")
  define k where "k = cp_key cp0"
  from assms(2) have s': "s' = reap now ?run k r s1"
    and w': "w' = note_auth_failure r (w\<lparr>wk_coordinator := co, wk_active := remove_nth i (wk_active w)\<rparr>)"
    by (simp_all add: end_case_def i e k_def)
  have ends: "ends_at ?run k (may_give_back env r) s s'"
    unfolding s' k_def by (rule ends_end_checkpoint [OF e])
  have lists: "wk_run w' = ?run" "wk_todo w' = wk_todo w" "wk_submitted w' = wk_submitted w"
    "wk_active w' = remove_nth i (wk_active w)" "halted w \<Longrightarrow> halted w'" "r = AuthPaused ex \<Longrightarrow> halted w'" for ex
    by (auto simp: w' note_auth_failure_def halted_def split: case_end.splits)
  show ?thesis
    unfolding open_ok_def checkpoints_of_def
  proof (clarsimp simp: lists(1), intro conjI impI)
    fix cp assume cp: "cp \<in> set (db_checkpoints s')" "cp_run_id cp = run_id ?run"
    then consider (old) "cp \<in> set (db_checkpoints s)" "\<not> (cp_key cp = k \<and> cp_held ?run cp)"
      | (new) "cp_key cp = k" "may_give_back env r (cp_status cp)"
      using ends by (auto simp: ends_at_def)
    note cases = this
    {
      assume p: "cp_status cp = CP_PENDING"
      from cases show "cp_snapshot_id cp \<in> set (wk_todo w') \<or> cp_snapshot_id cp \<in> set (wk_submitted w') \<or> halted w'"
      proof cases
        case old
        with open_okD [OF assms(1) _ cp(2)] p lists show ?thesis by auto
      next
        case new
        with p assms(4) lists(5,6) show ?thesis
          by (auto simp: may_give_back_def env_possible_def dest: aborted_halts)
      qed
    }
    {
      assume p: "cp_status cp = CP_RUNNING"
      with cases have old: "cp \<in> set (db_checkpoints s)" "\<not> (cp_key cp = k \<and> cp_held ?run cp)"
        by (auto simp: may_give_back_def)
      with open_okD [OF assms(1) _ cp(2)] p have h: "cp_held ?run cp" "cp_key cp \<in> cp_key ` fst ` set (wk_active w)"
        by auto
      then obtain x where "x \<in> set (wk_active w)" "cp_key (fst x) = cp_key cp" by auto
      moreover have "cp_key (fst (wk_active w ! i)) = k" by (simp add: i k_def)
      ultimately have "x \<in> set (wk_active w')" "cp_key (fst x) = cp_key cp"
        using old(2) h(1) assms(3) by (auto simp: lists(4) intro!: in_remove_nth)
      with h(1) show "cp_held ?run cp" "cp_key cp \<in> cp_key ` fst ` set (wk_active w')"
        by (auto simp: image_iff) (metis prod.collapse)
    }
  qed
qed

lemma open_ok_same:
  assumes "open_ok s w" "db_checkpoints s' = db_checkpoints s" "wk_run w' = wk_run w"
    and "set (wk_todo w) \<union> set (wk_submitted w) \<subseteq> set (wk_todo w') \<union> set (wk_submitted w')"
    and "wk_active w' = wk_active w" "halted w \<Longrightarrow> halted w'"
  shows "open_ok s' w'"
  using assms by (fastforce simp: open_ok_def checkpoints_of_def)

lemma open_ok_progress:
  assumes "open_ok s w" "report_progress now (wk_run w) k p s = Inr s'"
  shows "open_ok s' w"
proof -
  from assms(2) obtain d where "s' = cp_cas k (cp_held (wk_run w)) (\<lambda>cp. cp\<lparr>cp_outcome_summary := d, cp_updated_at := now\<rparr>) s"
    by (auto simp: report_progress_def sbind_Inr_iff)
  then have same: "\<exists>d \<in> set (db_checkpoints s). cp_run_id d = cp_run_id cp \<and> cp_status d = cp_status cp \<and>
      cp_lease_token d = cp_lease_token cp \<and> cp_snapshot_id d = cp_snapshot_id cp"
    if "cp \<in> set (db_checkpoints s')" for cp
    using that by (fastforce simp: cp_cas_eq update_checkpoints_def set_update_where)
  show ?thesis
    unfolding open_ok_def checkpoints_of_def
  proof (rule ballI)
    fix cp assume cp: "cp \<in> set (filter (\<lambda>cp. cp_run_id cp = run_id (wk_run w)) (db_checkpoints s'))"
    with same [of cp] obtain d where d: "d \<in> set (db_checkpoints s)" "cp_run_id d = run_id (wk_run w)" "cp_run_id d = cp_run_id cp"
      "cp_status d = cp_status cp" "cp_lease_token d = cp_lease_token cp" "cp_snapshot_id d = cp_snapshot_id cp"
      by fastforce
    from open_okD [OF assms(1) d(1,2)] d(3-6) show "(cp_status cp = CP_PENDING \<longrightarrow>
        cp_snapshot_id cp \<in> set (wk_todo w) \<union> set (wk_submitted w) \<or> halted w) \<and>
      (cp_status cp = CP_RUNNING \<longrightarrow> cp_held (wk_run w) cp \<and> cp_key cp \<in> cp_key ` fst ` set (wk_active w))"
      by (simp add: cp_held_def cp_key_def)
  qed
qed

lemma open_ok_do:
  assumes "open_ok s w" "worker_do e (s, w) = Some (s', w')"
  shows "open_ok s' w'"
proof (cases e)
  case (BeginCase now sid)
  with assms open_ok_begin [OF assms(1), of now sid s' w'] show ?thesis by (auto split: if_splits)
next
  case (EndCase now new_id i env)
  with assms open_ok_end [OF assms(1), of now new_id i env s' w'] show ?thesis by (auto split: if_splits)
next
  case (Progress now i p)
  with assms show ?thesis by (auto split: if_splits sum.splits intro: open_ok_progress)
next
  case Submit
  with assms show ?thesis
    by (cases "wk_todo w") (auto simp: may_submit_def halted_def split: if_splits intro!: open_ok_same [OF assms(1)])
next
  case (Beat now)
  with assms show ?thesis
    by (auto simp: Let_def heartbeat_execution_def run_cas_def halted_def split: option.splits if_splits
        intro!: open_ok_same [OF assms(1)])
qed (use assms in \<open>auto simp: sync_counts_def run_cas_def halted_def split: option.splits if_splits
    intro!: open_ok_same [OF assms(1)]\<close>)

lemma open_ok_events: "run_events es (s, w) = Some (s', w') \<Longrightarrow> open_ok s w \<Longrightarrow> open_ok s' w'"
proof (induction es arbitrary: s w)
  case (Cons e es)
  then obtain s1 w1 where "worker_do e (s, w) = Some (s1, w1)" "run_events es (s1, w1) = Some (s', w')"
    by (auto split: option.splits)
  with Cons open_ok_do [of s w e s1 w1] show ?case by blast
qed simp

lemma open_ok_new:
  assumes "list_all (\<lambda>cp. cp_status cp \<noteq> CP_RUNNING) (checkpoints_of (run_id run) s)"
  shows "open_ok s (new_worker run adapter policy lease s)"
  using assms
  by (auto simp: open_ok_def new_worker_def pending_ids_def cp_pending_def list_all_iff checkpoints_of_def)

section \<open>Facts: the run document during the loop\<close>

definition run_keys :: "db \<Rightarrow> (oid \<times> string option) list" where
  "run_keys s = map (\<lambda>r. (run_id r, run_lease_token r)) (db_runs s)"

lemma run_keys_same [simp]:
  "run_keys (cp_cas k g f s) = run_keys s" "run_keys (s\<lparr>db_results := rs\<rparr>) = run_keys s"
  "run_keys (update_checkpoints q c s) = run_keys s"
  by (simp_all add: run_keys_def cp_cas_def)

lemma run_keys_cas:
  "(\<And>r. run_id (f r) = run_id r \<and> run_lease_token (f r) = run_lease_token r) \<Longrightarrow> run_keys (run_cas rid g f s) = run_keys s"
  by (simp add: run_keys_def run_cas_def coll_cas_def map_update_where)

lemmas run_keys_steps = finish_checkpoint_def give_back_checkpoint_def pause_on_context_def mark_future_failure_def

lemma run_keys_reap [simp]: "run_keys (reap now run k r s) = run_keys s"
  by (simp add: reap_def run_keys_steps split: case_end.splits)

lemma run_keys_blocked: "run_keys (fst (finish_blocked now run k flags reason s)) = run_keys s"
  "run_keys (fst (finish_aborted now run k flags s)) = run_keys s"
  by (simp_all add: finish_blocked_def finish_aborted_def Let_def run_keys_steps)

lemma run_keys_conclude: "run_keys (fst (conclude_checkpoint now new_id adapter run cp sn evidence co s)) = run_keys s"
  by (auto simp: conclude_checkpoint_def record_conclusion_def Let_def run_keys_steps
      split: prod.splits sum.splits option.splits)

lemma run_keys_end: "run_keys (fst (end_checkpoint now new_id adapter run env cp sn co s)) = run_keys s"
  using run_keys_blocked(1) [of now run "cp_key cp" "ce_at_block env" _ s]
    run_keys_blocked(2) [of now run "cp_key cp" "ce_at_check env" s]
  by (auto simp: end_checkpoint_def Let_def run_keys_conclude run_keys_steps
      split: option.splits replay_outcome.splits prod.splits) (metis fst_conv)+

lemma run_keys_begin: "run_keys (fst (begin_checkpoint now adapter run sid co s)) = run_keys s"
  by (auto simp: begin_checkpoint_def reuse_result_def Let_def run_keys_steps split: option.splits prod.splits sum.splits)

lemma run_keys_do:
  assumes "worker_do e (s, w) = Some (s', w')"
  shows "run_keys s' = run_keys s \<and> wk_run w' = wk_run w"
proof (cases e)
  case (Beat now)
  with assms show ?thesis
    by (auto simp: Let_def heartbeat_execution_def split: option.splits intro!: run_keys_cas)
next
  case (BeginCase now sid)
  with assms run_keys_begin [of now "wk_adapter w" "wk_run w" sid "wk_coordinator w" s] show ?thesis
    by (auto simp: begin_case_def Let_def split: if_splits prod.splits case_start.splits)
next
  case (EndCase now new_id i env)
  with assms show ?thesis
    using run_keys_end [of now new_id "wk_adapter w" "wk_run w" env "fst (wk_active w ! i)" "snd (wk_active w ! i)" "wk_coordinator w" s]
    by (auto simp: end_case_def split: if_splits prod.splits)
next
  case (Progress now i p)
  with assms show ?thesis by (auto simp: report_progress_def sbind_Inr_iff split: if_splits sum.splits)
next
  case (SyncCounts now)
  with assms show ?thesis by (auto simp: sync_counts_def intro!: run_keys_cas)
qed (use assms in \<open>auto split: if_splits option.splits\<close>)

lemma run_keys_events:
  "run_events es (s, w) = Some (s', w') \<Longrightarrow> run_keys s' = run_keys s \<and> wk_run w' = wk_run w"
proof (induction es arbitrary: s w)
  case (Cons e es)
  then obtain s1 w1 where "worker_do e (s, w) = Some (s1, w1)" "run_events es (s1, w1) = Some (s', w')"
    by (auto split: option.splits)
  with Cons run_keys_do [of e s w s1 w1] show ?case by auto
qed simp

lemma run_keys_held:
  assumes "run_keys s' = run_keys s" "r \<in> set (db_runs s)"
  shows "\<exists>r' \<in> set (db_runs s'). run_id r' = run_id r \<and> run_lease_token r' = run_lease_token r"
proof -
  have "(run_id r, run_lease_token r) \<in> set (run_keys s')"
    unfolding assms(1) using assms(2) by (simp add: run_keys_def)
  then show ?thesis by (auto simp: run_keys_def)
qed

lemma coll_ok_run_keys: "run_keys s' = run_keys s \<Longrightarrow> coll_ok run_id (db_runs s') = coll_ok run_id (db_runs s)"
proof -
  assume "run_keys s' = run_keys s"
  then have "map fst (run_keys s') = map fst (run_keys s)" by simp
  then show ?thesis by (simp add: run_keys_def coll_ok_def comp_def)
qed

section \<open>Facts: ending as DONE\<close>

lemma finish_done:
  assumes "finish_run now w s = (s', Inr (Finished DONE))" "open_ok s w" "loop_over w"
    and "coll_ok run_id (db_runs s)" "run_get (run_id (wk_run w)) s = Some r" "held_by (wk_run w) r"
  shows "checkpoints_of (run_id (wk_run w)) s' = checkpoints_of (run_id (wk_run w)) s"
    "list_all (\<lambda>cp. concluded (cp_status cp)) (checkpoints_of (run_id (wk_run w)) s')"
    "\<exists>r'. run_get (run_id (wk_run w)) s' = Some r' \<and> run_status r' = DONE \<and>
       run_counts r' = checkpoint_counts (run_id (wk_run w)) s'"
proof -
  let ?run = "wk_run w" and ?rid = "run_id (wk_run w)" and ?co = "wk_coordinator w"
  have w: "\<not> wk_lost w" "\<not> wk_stop w" "\<not> wk_cancel w" "\<not> wk_auth w"
    using assms(1) by (auto simp: finish_run_def finish_stopping_def finish_auth_def finish_normal_def Let_def
        split: if_splits prod.splits sum.splits)
  define s1 where "s1 = sync_counts now ?rid ?co s"
  obtain a where s': "s' = run_cas ?rid (held_by ?run) (\<lambda>r. lease_cleared (r\<lparr>run_status := DONE,
      run_summary := finish_summary (checkpoint_counts ?rid s1) ?co a, run_host_state := host_snapshot ?co,
      run_finished_at := Some now, run_updated_at := now\<rparr>)) s1"
    using assms(1) w by (auto simp: finish_run_def finish_normal_def Let_def s1_def split: sum.splits)
  show cps: "checkpoints_of ?rid s' = checkpoints_of ?rid s"
    by (simp add: s' s1_def sync_counts_def run_cas_def checkpoints_of_def)
  have "wk_todo w = []" "wk_submitted w = []" "wk_active w = []" "\<not> halted w"
    using assms(3) w by (auto simp: loop_over_def futures_empty_def halted_def)
  then show "list_all (\<lambda>cp. concluded (cp_status cp)) (checkpoints_of ?rid s')"
    using assms(2) by (auto simp: cps open_ok_def list_all_iff concluded_def)
  have counts: "checkpoint_counts ?rid s' = checkpoint_counts ?rid s"
    by (simp add: s' s1_def sync_counts_def run_cas_def checkpoint_counts_def count_status_def)
  have "run_get ?rid s1 = Some (r\<lparr>run_counts := checkpoint_counts ?rid s, run_updated_at := now,
      run_host_state := host_snapshot ?co\<rparr>)"
    using run_get_cas [OF assms(4), of "\<lambda>r. r\<lparr>run_counts := checkpoint_counts ?rid s, run_updated_at := now,
      run_host_state := host_snapshot ?co\<rparr>" ?rid ?rid "\<lambda>_. True"] assms(5)
    by (simp add: s1_def sync_counts_def)
  moreover have "coll_ok run_id (db_runs s1)"
    using assms(4) by (simp add: s1_def sync_counts_def run_cas_def run_store.invar_cas)
  ultimately show "\<exists>r'. run_get ?rid s' = Some r' \<and> run_status r' = DONE \<and> run_counts r' = checkpoint_counts ?rid s'"
    using assms(6) unfolding counts by (simp add: s' run_get_cas lease_cleared_def held_by_def)
qed

section \<open>Properties\<close>


text \<open>C3: no recorded pass rests on an unestablished value. Whatever the adapter's judge says of a reply,
  a result the worker adds is classified as a pass only if no required parameter of the snapshot is an
  empty default, unresolved or a placeholder; its evidence has none but allow-listed keys; it is the
  result of this run and this snapshot, under their execution key.\<close>

theorem recorded_pass_is_established:
  assumes "record_conclusion now new_id adapter run cp sn evidence s = (s', r)"
    and "res \<in> set (db_results s')" "res \<notin> set (db_results s)" "sn_parameter_sources sn = Some sources"
  shows "(res_outcome_class res = ''pass'' \<longrightarrow>
      \<not> list_ex (\<lambda>(name, entry). case entry of None \<Rightarrow> False | Some m \<Rightarrow> unestablished m) sources) \<and>
    fst ` set (res_evidence_summary res) \<subseteq> insert ''cluster_key'' (set allowed_evidence_keys) \<and>
    res_run_id res = run_id run \<and> res_snapshot_id res = Some (sn_id sn) \<and>
    res_execution_key res = Some (execution_key run (sn_id sn))"
proof -
  obtain summary v results rr where c: "conclusion adapter run sn evidence = Inr (summary, v)"
    and rec: "record_execution_result_input now new_id run (Some sn) v (db_results s) = Inr (results, rr)"
    and s': "db_results s' = results"
    using assms(1-3) by (auto simp: record_conclusion_def Let_def finish_checkpoint_def cp_cas_def
        split: sum.splits option.splits prod.splits)
  have save: "results = fst (save_execution_result (build_result now new_id run (Some sn) v) (db_results s))"
    using record_eq(2) [OF rec] by (metis fst_conv)
  then have res: "res = build_result now new_id run (Some sn) v"
    using assms(2,3) by (auto simp: s' save_execution_result_def split: option.splits)
  let ?ev = "with_quality sn evidence"
  from c obtain j0 j name where san: "sanitize_execution_evidence ?ev = Inr summary"
    and gate: "gate_verdict ?ev j0 = Inr j" and v: "v = case_input run sn ?ev summary j name"
    by (auto simp: conclusion_def Let_def sbind_Inr_iff)
  have "fst j \<notin> PASS_BLOCKING_VERDICTS"
    if "list_ex (\<lambda>(name, entry). case entry of None \<Rightarrow> False | Some m \<Rightarrow> unestablished m) sources"
  proof -
    let ?q = "required_parameter_quality_summary (sn_parameter_sources sn)"
    from that obtain name m where "(name, Some m) \<in> set sources" "unestablished m"
      by (auto simp: list_ex_iff split: option.splits)
    then have b: "blocks_pass ?q" unfolding assms(4) blocks_pass_iff by blast
    then have "dget ?ev ''parameter_quality'' = quality_json ?q"
      by (simp add: with_quality_def Let_def dget_dict_set)
    with gate b show ?thesis
      by (auto simp: gate_verdict_def quality_json_def dget_def apply_required_parameter_gate_def PASS_BLOCKING_VERDICTS_def
          split: prod.splits if_splits)
  qed
  moreover have "res_outcome_class res = project_outcome_class (fst j)"
    by (simp add: res build_result_def Let_def v case_input_def split: prod.splits)
  moreover have "fst ` set (res_evidence_summary res) \<subseteq> insert ''cluster_key'' (set allowed_evidence_keys)"
  proof -
    have "res_evidence_summary res = summary"
      by (simp add: res build_result_def Let_def v case_input_def split: prod.splits)
    moreover have "fst ` set (kept_evidence ?ev) \<subseteq> set allowed_evidence_keys"
      by (auto simp: kept_evidence_def List.map_filter_def)
    moreover obtain c where "summary = dict_set ''cluster_key'' (JStr c) (kept_evidence ?ev)"
      using san by (auto simp: sanitize_execution_evidence_def Let_def sbind_Inr_iff)
    ultimately have "fst ` set (res_evidence_summary res) \<subseteq> insert ''cluster_key'' (set allowed_evidence_keys)"
      by (auto simp: keys_dict_set)
    then show ?thesis .
  qed
  moreover have "res_run_id res = run_id run \<and> res_snapshot_id res = Some (sn_id sn) \<and>
      res_execution_key res = Some (execution_key run (sn_id sn))"
    by (simp add: res build_result_def Let_def v case_input_def execution_key_def split: prod.splits)
  ultimately show ?thesis by (auto simp: outcome_pass_iff)
qed

text \<open>a failed dispatch is retried a bounded number of times: whatever state the run was in under the
  worker's lease, it goes back to the queue exactly while its attempts are below its maximum and has
  failed for good otherwise; the lease and the worker's checkpoints are given back either way.\<close>

theorem dispatch_failure_bounded:
  assumes "sched_inv s" "run_get (run_id run) s = Some r" "held_by run r"
  shows "\<exists>r'. run_get (run_id run) (handle_dispatch_failure now run cls s) = Some r' \<and>
    run_status r' = (if run_dispatch_attempt run <
      (if run_max_dispatch_attempts run = 0 then 3 else run_max_dispatch_attempts run) then QUEUED else FAILED) \<and>
    run_lease_token r' = None \<and> run_last_error_type r' = Some cls \<and> run_dispatch_attempt r' = run_dispatch_attempt r \<and>
    list_all (\<lambda>cp. \<not> cp_held run cp) (checkpoints_of (run_id run) (handle_dispatch_failure now run cls s))"
proof -
  let ?rid = "run_id run"
  define retry where "retry \<longleftrightarrow> run_dispatch_attempt run <
      (if run_max_dispatch_attempts run = 0 then 3 else run_max_dispatch_attempts run)"
  define f where "f = (\<lambda>r. lease_cleared (
      (if retry then requeue now r else r\<lparr>run_status := FAILED, run_finished_at := Some now, run_updated_at := now\<rparr>)
      \<lparr>run_last_error_type := Some cls\<rparr>))"
  define s1 where "s1 = give_back_held now run ''worker_dispatch_failure'' s"
  have out: "db_runs (handle_dispatch_failure now run cls s) = db_runs (run_cas ?rid (held_by run) f s1)"
    "db_checkpoints (handle_dispatch_failure now run cls s) = db_checkpoints s1"
    unfolding handle_dispatch_failure_def Let_def s1_def [symmetric] retry_def [symmetric] f_def [symmetric]
    by (simp_all add: wake_def sync_parameter_relations_def run_cas_def)
  have get1: "run_get ?rid s1 = run_get ?rid s" by (simp add: s1_def give_back_held_def run_get_def)
  have "coll_ok run_id (db_runs s1)" using assms(1) by (simp add: s1_def give_back_held_def sched_inv_def)
  moreover have "run_id (f d) = run_id d" for d by (simp add: f_def lease_cleared_def requeue_def)
  ultimately have "run_get ?rid (run_cas ?rid (held_by run) f s1) = Some (f r)"
    using assms(2,3) get1 by (simp add: run_get_cas)
  then have "run_get ?rid (handle_dispatch_failure now run cls s) = Some (f r)" by (simp add: run_get_def out)
  moreover have "list_all (\<lambda>cp. \<not> cp_held run cp) (checkpoints_of ?rid (handle_dispatch_failure now run cls s))"
    unfolding checkpoints_of_def out(2) s1_def give_back_held_def update_checkpoints_def
    by (auto simp: list_all_iff set_update_where give_back_def cp_held_def)
  ultimately show ?thesis
    unfolding retry_def [symmetric] by (simp add: f_def lease_cleared_def requeue_def)
qed

section \<open>Concrete inputs\<close>

definition example_adapter :: execution_adapter where
  "example_adapter = \<lparr>ad_id = ''snapshot_batch'', ad_version = ''1'',
     ad_replay = (\<lambda>_. Evidence [(''status_code'', JInt 403)]),
     ad_judge = (\<lambda>_ _ _. Inr (''no_vuln'', [''denied''], 9 / 10)),
     ad_auth_modes = [''inherit''], ad_requires_account_context = False, ad_supports_mutation = False,
     ad_request_policy_scope = ''checkpoint'', ad_record = None\<rparr>"

definition example_claimed :: security_test_run where
  "example_claimed = (leased_run ''r1'' 100)\<lparr>run_dispatch_attempt := 1,
     run_execution_policy := sum.projr (policy_to_dict default_policy)\<rparr>"

definition example_work :: db where
  "example_work = example_db\<lparr>db_runs := [example_claimed],
     db_checkpoints := [example_checkpoint ''r1'' ''s1'' CP_PENDING None]\<rparr>"

definition no_flags :: abort_flags where
  "no_flags = \<lparr>af_cancel = False, af_lease_lost = False, af_auth = False, af_stop = False\<rparr>"

definition example_schedule :: "worker_event list" where
  "example_schedule = [Submit, BeginCase 20 ''s1'',
     EndCase 21 ''x1'' 0 \<lparr>ce_refused = None, ce_at_block = no_flags, ce_at_check = no_flags, ce_context = None\<rparr>]"

lemma example_executed:
  "\<exists>s'. execute_run 20 60 example_schedule 22 example_claimed example_adapter example_work = Some (s', Inr (Finished DONE))"
proof -
  have "(case execute_run 20 60 example_schedule 22 example_claimed example_adapter example_work of
      Some (s', r) \<Rightarrow> (case r of Inr e \<Rightarrow> e = Finished DONE | Inl _ \<Rightarrow> False) | None \<Rightarrow> False)" by code_simp
  then obtain s' r where "execute_run 20 60 example_schedule 22 example_claimed example_adapter example_work = Some (s', r)"
    and "case r of Inr e \<Rightarrow> e = Finished DONE | Inl _ \<Rightarrow> False" by (auto split: option.splits)
  then show ?thesis by (cases r) auto
qed


definition example_weak_snapshot :: request_snapshot where
  "example_weak_snapshot = (example_snapshot ''s1'' ''GET'')\<lparr>sn_parameter_sources :=
     Some [(''id'', Some \<lparr>pm_required = True, pm_source = SOURCE_UNRESOLVED, pm_value_quality = []\<rparr>)]\<rparr>"

theorem recorded_pass_is_established_witness:
  "\<exists>s' r res. record_conclusion 21 ''x1'' example_adapter example_claimed (example_checkpoint ''r1'' ''s1'' CP_RUNNING (Some ''r1''))
      example_weak_snapshot [(''status_code'', JInt 403)] example_work = (s', r) \<and> db_results s' = [res] \<and>
    res_outcome_class res \<noteq> ''pass''"
proof -
  obtain s' r where e: "record_conclusion 21 ''x1'' example_adapter example_claimed
      (example_checkpoint ''r1'' ''s1'' CP_RUNNING (Some ''r1'')) example_weak_snapshot [(''status_code'', JInt 403)] example_work = (s', r)"
    by fastforce
  have "length (db_results (fst (record_conclusion 21 ''x1'' example_adapter example_claimed
      (example_checkpoint ''r1'' ''s1'' CP_RUNNING (Some ''r1'')) example_weak_snapshot [(''status_code'', JInt 403)] example_work))) = 1"
    by code_simp
  then obtain res where r: "db_results s' = [res]" by (auto simp: e length_Suc_conv)
  obtain sources where src: "sn_parameter_sources example_weak_snapshot = Some sources"
    and bad: "list_ex (\<lambda>(name, entry). case entry of None \<Rightarrow> False | Some m \<Rightarrow> unestablished m) sources"
    by (simp add: example_weak_snapshot_def unestablished_def)
  have "db_results example_work = []" by code_simp
  with recorded_pass_is_established [OF e _ _ src, of res] bad r e show ?thesis by auto
qed

theorem dispatch_failure_bounded_witness:
  "\<exists>r. run_get ''r1'' (handle_dispatch_failure 30 (example_claimed\<lparr>run_dispatch_attempt := 3\<rparr>) ''Boom'' example_work) = Some r \<and>
     run_status r = FAILED"
proof -
  let ?run = "example_claimed\<lparr>run_dispatch_attempt := 3\<rparr>"
  have inv: "sched_inv example_work"
    by (simp add: sched_inv_def example_work_def example_db_def coll_ok_def run_keys_ok_def results_ok_def run_ok_def
      cp_ok_def cp_key_def example_claimed_def leased_run_def example_run_def example_checkpoint_def)
  have f: "run_id ?run = ''r1''" "run_get ''r1'' example_work = Some example_claimed" "held_by ?run example_claimed"
    "run_max_dispatch_attempts ?run = 3"
    by (code_simp, code_simp, simp add: held_by_def, code_simp)
  with dispatch_failure_bounded [OF inv, of ?run example_claimed 30 "''Boom''"] show ?thesis by auto
qed

text \<open>
  Two consequences the code does not intend. A run whose cancellation was requested goes back to the
  queue when its dispatch fails, so the cancellation is lost; and recovery requeues a run whose lease
  expired however often it was dispatched, also one restricted to a single attempt.
\<close>

lemma dispatch_failure_drops_cancellation:
  "\<exists>r. run_get ''r1'' (handle_dispatch_failure 30 example_claimed ''Boom''
      (fst (request_execution_cancel 25 ''r1'' ''stop'' example_work))) = Some r \<and> run_status r = QUEUED"
proof -
  have "(case run_get ''r1'' (handle_dispatch_failure 30 example_claimed ''Boom''
      (fst (request_execution_cancel 25 ''r1'' ''stop'' example_work))) of Some r \<Rightarrow> run_status r = QUEUED | None \<Rightarrow> False)"
    by code_simp
  then show ?thesis by (auto split: option.splits)
qed

lemma recovery_ignores_max_attempts:
  "\<exists>s' rep r. recover_expired_executions 500 [] 300 86400
      (example_work\<lparr>db_runs := [example_claimed\<lparr>run_max_dispatch_attempts := 1\<rparr>]\<rparr>) = Inr (s', rep) \<and>
    run_get ''r1'' s' = Some r \<and> claimable ''snapshot'' r \<and> run_dispatch_attempt r = run_max_dispatch_attempts r"
proof -
  have "(case recover_expired_executions 500 [] 300 86400
      (example_work\<lparr>db_runs := [example_claimed\<lparr>run_max_dispatch_attempts := 1\<rparr>]\<rparr>) of Inl e \<Rightarrow> False
    | Inr (s', rep) \<Rightarrow> (case run_get ''r1'' s' of None \<Rightarrow> False
      | Some r \<Rightarrow> claimable ''snapshot'' r \<and> run_dispatch_attempt r = run_max_dispatch_attempts r))"
    by code_simp
  then show ?thesis by (auto split: sum.splits option.splits)
qed

end
