(* ===== verification/SchedulerSystem.thy ===== *)
theory SchedulerSystem
  imports WorkerCompletion
begin

text \<open>
  The scheduler as a whole: the services that enqueue, cancel, resume and retry, the recovery pass
  and any number of workers, interleaved in any order over one database. A world is the database
  and the executions in progress. \<open>sched_step\<close> has a rule per operation; a worker takes one
  \<open>worker_event\<close> at a time, finishes, or dies.

  The properties: the scheduler's invariant holds in every reachable world and no run leaves a final
  status; a worker whose lease is gone is fenced off; an execution ends, and when it ends as \<open>DONE\<close>
  nothing of its run is left open; what it records as passed rests on established values; and
  dispatch failures are bounded.
\<close>

type_synonym world = "db \<times> worker list"

definition fresh_run_id :: "oid \<Rightarrow> db \<Rightarrow> bool" where
  "fresh_run_id i s \<longleftrightarrow> i \<notin> run_id ` set (db_runs s)"

definition fresh_token :: "string \<Rightarrow> worker list \<Rightarrow> bool" where
  "fresh_token t ws \<longleftrightarrow> Some t \<notin> set (map (\<lambda>w. run_lease_token (wk_run w)) ws)"

inductive sched_step :: "world \<Rightarrow> world \<Rightarrow> bool" where
  enqueued: "enqueue_snapshot_batch digest parse now new_id req s = Inr (s', run, created) \<Longrightarrow>
    fresh_run_id new_id s \<Longrightarrow> sched_step (s, ws) (s', ws)"
| retried: "retry_execution digest now new_id key rid statuses operator s = Inr (s', run, created) \<Longrightarrow>
    fresh_run_id new_id s \<Longrightarrow> sched_step (s, ws) (s', ws)"
| cancelled: "request_execution_cancel now rid reason s = (s', r) \<Longrightarrow> sched_step (s, ws) (s', ws)"
| resumed: "resume_execution now rid s = (s', r) \<Longrightarrow> sched_step (s, ws) (s', ws)"
| auth_resumed: "resume_auth_dependency parse now ref revision s = (s', r) \<Longrightarrow> sched_step (s, ws) (s', ws)"
| recovered: "recover_expired_executions now queue grace stale s = Inr (s', report) \<Longrightarrow> sched_step (s, ws) (s', ws)"
| claimed: "claim_next_execution now token worker queue lease s = Inr (s1, Some run) \<Longrightarrow>
    fresh_token token ws \<Longrightarrow> dispatch_claimed resolver now adapters run s1 = (s2, Dispatched run adapter) \<Longrightarrow>
    policy_from_dict (run_execution_policy run) = Inr policy \<Longrightarrow>
    sched_step (s, ws) (s2, ws @ [new_worker run adapter policy lease' s2])"
| not_dispatched: "claim_next_execution now token worker queue lease s = Inr (s1, Some run) \<Longrightarrow>
    dispatch_claimed resolver now adapters run s1 = (s2, r) \<Longrightarrow> sched_step (s, ws) (s2, ws)"
| worked: "i < length ws \<Longrightarrow> worker_do e (s, ws ! i) = Some (s', w) \<Longrightarrow> sched_step (s, ws) (s', ws[i := w])"
| finished: "i < length ws \<Longrightarrow> loop_over (ws ! i) \<Longrightarrow> finish_run now (ws ! i) s = (s', Inr r) \<Longrightarrow>
    sched_step (s, ws) (s', remove_nth i ws)"
| failed: "i < length ws \<Longrightarrow> loop_over (ws ! i) \<Longrightarrow> finish_run now (ws ! i) s = (s', Inl e) \<Longrightarrow>
    sched_step (s, ws) (handle_dispatch_failure now (wk_run (ws ! i)) (error_class e) s', remove_nth i ws)"
| crashed: "i < length ws \<Longrightarrow> sched_step (s, ws) (s, remove_nth i ws)"

inductive sched_steps :: "world \<Rightarrow> world \<Rightarrow> bool" where
  none: "sched_steps c c"
| more: "sched_steps a b \<Longrightarrow> sched_step b c \<Longrightarrow> sched_steps a c"

inductive_cases sched_stepE: "sched_step (s, ws) c"

section \<open>Facts: enqueueing\<close>

lemma good_add_run:
  assumes "run_id r \<notin> run_id ` set (db_runs s)" "run_ok r"
    and "run_idempotency_key r = Some k" "run_with_key k (db_runs s) = None"
  shows "good s (s\<lparr>db_runs := db_runs s @ [r]\<rparr>)"
proof -
  have "Some k \<notin> run_idempotency_key ` set (db_runs s)" using assms(4) by (simp add: run_with_key_None)
  with assms show ?thesis
    by (auto simp: good_def sched_inv_def progress_def coll_ok_def run_keys_ok_def nth_append)
qed

lemma good_commit:
  assumes "enqueue_commit now new_id req key ids pd ss seen s = Inr (s', run, created)" "fresh_run_id new_id s"
  shows "good s s'"
proof -
  obtain runs r where t: "commit_target now new_id req key ids pd seen (db_runs s) = (runs, r, created)"
    and res: "db_results s' = db_results s"
    and np: "run_status r \<noteq> PREPARING \<Longrightarrow> s' = s\<lparr>db_runs := runs\<rparr> \<and> run = r"
    and p: "run_status r = PREPARING \<Longrightarrow>
      db_runs s' = coll_cas run_id (run_id r) (\<lambda>r. run_status r = PREPARING) (mark_queued now (length ids)) runs
      \<and> ensure_checkpoints now r ss (db_checkpoints s) = Inr (db_checkpoints s')
      \<and> run = (case coll_get run_id (run_id r) (db_runs s') of Some q \<Rightarrow> q | None \<Rightarrow> r)"
    by (rule commit_shape [OF assms(1)]) blast
  define s1 where "s1 = s\<lparr>db_runs := runs\<rparr>"
  let ?new = "new_run now new_id req key ids pd"
  have "good s (s\<lparr>db_runs := db_runs s @ [?new]\<rparr>)" if "run_with_key key (db_runs s) = None"
    using that assms(2) by (intro good_add_run [of _ _ key]) (auto simp: fresh_run_id_def run_ok_def new_run_def)
  with t have g1: "good s s1"
    by (auto simp: s1_def commit_target_def split: option.splits)
  show ?thesis
  proof (cases "run_status r = PREPARING")
    case True
    define s2 where "s2 = s1\<lparr>db_checkpoints := db_checkpoints s'\<rparr>"
    define s3 where "s3 = run_cas (run_id r) (\<lambda>r. run_status r = PREPARING) (mark_queued now (length ids)) s2"
    have "good s1 s2"
      unfolding s2_def using p [OF True] by (intro good_ensure [of now r ss]) (simp add: s1_def)
    moreover have "good s2 s3"
      unfolding s3_def by (rule good_run_cas) (auto simp: mark_queued_def run_defs legal_move_def intro!: evolves_legal)
    moreover have "good s3 s'"
      using p [OF True] res by (intro good_same) (simp_all add: s3_def s2_def s1_def run_cas_def)
    ultimately show ?thesis using g1 by (meson good_trans)
  next
    case False
    with np g1 show ?thesis by (simp add: s1_def)
  qed
qed

lemma good_enqueue:
  assumes "enqueue_snapshot_batch digest parse now new_id req s = Inr (s', run, created)" "fresh_run_id new_id s"
  shows "good s s'"
proof -
  obtain ids ss key pd where c: "case run_with_key key (db_runs s) of
       Some r \<Rightarrow> if run_status r \<noteq> PREPARING then s' = s \<and> run = r \<and> \<not> created
         else enqueue_commit now new_id req key ids pd ss (Some r) s = Inr (s', run, created)
     | None \<Rightarrow> enqueue_commit now new_id req key ids pd ss None s = Inr (s', run, created)"
    by (rule enqueue_shape [OF assms(1)]) blast
  then show ?thesis using assms(2) by (auto split: option.splits if_splits intro: good_commit)
qed

lemma good_retry:
  assumes "retry_execution digest now new_id key rid statuses operator s = Inr (s', run, created)" "fresh_run_id new_id s"
  shows "good s s'"
  using assms by (auto simp: retry_execution_def Let_def sbind_Inr_iff intro: good_enqueue split: option.splits if_splits)

section \<open>Facts: reachable worlds\<close>

definition tokens :: "worker list \<Rightarrow> string option list" where
  "tokens ws = map (\<lambda>w. run_lease_token (wk_run w)) ws"

definition tokens_ok :: "worker list \<Rightarrow> bool" where
  "tokens_ok ws \<longleftrightarrow> distinct (tokens ws) \<and> None \<notin> set (tokens ws)"

lemma claimed_token:
  assumes "claim_next_execution now token worker queue lease s = Inr (s1, Some run)" "sched_inv s"
  shows "run_lease_token run = Some token"
proof -
  have ok: "coll_ok run_id (db_runs s)" using assms(2) by (simp add: sched_inv_def)
  define cands where "cands = sort_key claim_order (filter (claimable queue) (db_runs s))"
  have "set cands = {q \<in> set (db_runs s). claimable queue q}" by (auto simp: cands_def)
  moreover obtain r rest where c: "cands = r # rest"
    and run: "Some run = run_get (run_id r) (run_cas (run_id r) (claimable queue) (claim_update now token worker lease) s)"
    using assms(1) unfolding claim_next_execution_def cands_def [symmetric]
    by (cases cands) (auto simp: sbind_Inr_iff Let_def)
  ultimately have r: "r \<in> set (db_runs s)" "claimable queue r" by auto
  have "run = claim_update now token worker lease r"
    using run run_get_cas [OF ok, of "claim_update now token worker lease" "run_id r" "run_id r" "claimable queue"]
      run_get_in [OF ok r(1)] r(2) by simp
  then show ?thesis by (simp add: claim_update_def)
qed

lemma distinct_remove_nth: "distinct xs \<Longrightarrow> distinct (remove_nth i xs)"
  using set_take_disj_set_drop_if_distinct [of xs i "Suc i"] by (simp add: remove_nth_def)

lemma set_remove_nth: "set (remove_nth i xs) \<subseteq> set xs"
  by (auto simp: remove_nth_def dest: in_set_takeD in_set_dropD)

lemma tokens_remove: "tokens (remove_nth i ws) = remove_nth i (tokens ws)"
  by (simp add: tokens_def remove_nth_def take_map drop_map)

lemma tokens_ok_remove: "tokens_ok ws \<Longrightarrow> tokens_ok (remove_nth i ws)"
  using set_remove_nth [of i "tokens ws"] by (auto simp: tokens_ok_def tokens_remove distinct_remove_nth)

lemma tokens_ok_nth: "tokens_ok ws \<Longrightarrow> i < length ws \<Longrightarrow> run_lease_token (wk_run (ws ! i)) \<noteq> None"
  by (metis tokens_ok_def tokens_def length_map nth_map nth_mem)

lemma tokens_update: "i < length ws \<Longrightarrow> wk_run w = wk_run (ws ! i) \<Longrightarrow> tokens (ws[i := w]) = tokens ws"
  by (simp add: tokens_def map_update list_update_same_conv)

lemma good_recover:
  "recover_expired_executions now queue grace stale s = Inr (s', rep) \<Longrightarrow> good s s'"
  by (auto simp: good_def dest: recovery_all(1,2))

lemma sched_step_good:
  assumes "sched_step c c'" "sched_inv (fst c)" "tokens_ok (snd c)"
  shows "good (fst c) (fst c') \<and> tokens_ok (snd c')"
  using assms
proof (induction rule: sched_step.induct)
  case enqueued
  then show ?case by (simp add: good_enqueue)
next
  case retried
  then show ?case by (simp add: good_retry)
next
  case (cancelled now rid reason s s' r ws)
  with good_cancel [of s now rid reason] show ?case by simp
next
  case (resumed now rid s s' r ws)
  with good_resume [of s now rid] show ?case by simp
next
  case (auth_resumed parse now ref revision s s' r ws)
  with good_resume_auth [of s parse now ref revision] show ?case by simp
next
  case recovered
  then show ?case by (simp add: good_recover)
next
  case (worked i ws e s s' w)
  then have "run_lease_token (wk_run (ws ! i)) \<noteq> None" by (simp only: tokens_ok_nth snd_conv not_False_eq_True)
  from good_worker_do [OF worked(2) this] have "good s s'" "wk_run w = wk_run (ws ! i)" by simp_all
  with worked tokens_update [of i ws w] show ?case by (simp add: tokens_ok_def)
next
  case (finished i ws now s s' r)
  then have "run_lease_token (wk_run (ws ! i)) \<noteq> None" by (simp only: tokens_ok_nth snd_conv not_False_eq_True)
  from good_finish_run [OF this, of s now] finished show ?case by (simp add: tokens_ok_remove)
next
  case (failed i ws now s s' e)
  have t: "run_lease_token (wk_run (ws ! i)) \<noteq> None" using failed by (simp only: tokens_ok_nth snd_conv not_False_eq_True)
  from good_finish_run [OF this, of s now] failed(3) have "good s s'" by simp
  then have "good s (handle_dispatch_failure now (wk_run (ws ! i)) (error_class e) s')"
    using good_dispatch_failure [OF t] by (rule good_trans)
  with failed(5) show ?case by (simp add: tokens_ok_remove)
next
  case (claimed now token worker queue lease s s1 run ws resolver adapters s2 adapter policy lease')
  have "good s s1" by (rule good_claim [OF claimed(1)])
  moreover have "good s1 s2" using good_dispatch_claimed [of s1 resolver now adapters run] claimed(3) by simp
  moreover have "run_lease_token run = Some token" using claimed(1,5) by (simp add: claimed_token)
  ultimately show ?case using claimed(2,6)
    by (simp add: new_worker_def tokens_ok_def tokens_def fresh_token_def good_trans)
next
  case (not_dispatched now token worker queue lease s s1 run resolver adapters s2 r ws)
  have "good s s1" by (rule good_claim [OF not_dispatched(1)])
  moreover have "good s1 s2" using good_dispatch_claimed [of s1 resolver now adapters run] not_dispatched(2) by simp
  ultimately show ?case using not_dispatched(4) by (simp add: good_trans)
next
  case crashed
  then show ?case by (simp add: tokens_ok_remove)
qed

lemma sched_steps_good:
  "sched_steps c c' \<Longrightarrow> sched_inv (fst c) \<Longrightarrow> tokens_ok (snd c) \<Longrightarrow> good (fst c) (fst c') \<and> tokens_ok (snd c')"
proof (induction rule: sched_steps.induct)
  case (more a b c)
  then have "good (fst a) (fst b)" "tokens_ok (snd b)" "sched_inv (fst b)" by (auto simp: good_def)
  with sched_step_good [OF more(2)] show ?case by (auto intro: good_trans)
qed simp

section \<open>Properties\<close>



section \<open>Facts: the loop ends\<close>

definition case_event :: "worker_event \<Rightarrow> bool" where
  "case_event e \<longleftrightarrow> (case e of Submit \<Rightarrow> True | BeginCase _ _ \<Rightarrow> True | EndCase _ _ _ _ \<Rightarrow> True | _ \<Rightarrow> False)"

definition case_measure :: "worker \<Rightarrow> nat" where
  "case_measure w = 3 * length (wk_todo w) + 2 * length (wk_submitted w) + length (wk_active w)"

definition unflagged :: case_env where
  "unflagged = (let f = \<lparr>af_cancel = False, af_lease_lost = False, af_auth = False, af_stop = False\<rparr> in
     \<lparr>ce_refused = None, ce_at_block = f, ce_at_check = f, ce_context = None\<rparr>)"

lemma env_possible_unflagged [simp]: "env_possible w unflagged"
  by (simp add: env_possible_def flags_set_def unflagged_def Let_def)

lemma length_remove_nth: "i < length xs \<Longrightarrow> Suc (length (remove_nth i xs)) = length xs"
  by (simp add: remove_nth_def)

lemma note_auth_failure_lists [simp]:
  "wk_todo (note_auth_failure r w) = wk_todo w" "wk_submitted (note_auth_failure r w) = wk_submitted w"
  "wk_active (note_auth_failure r w) = wk_active w" "wk_policy (note_auth_failure r w) = wk_policy w"
  "wk_cancel (note_auth_failure r w) = wk_cancel w" "wk_lost (note_auth_failure r w) = wk_lost w"
  "wk_stop (note_auth_failure r w) = wk_stop w"
  by (simp_all add: note_auth_failure_def split: case_end.splits)

lemma event_measure:
  assumes "worker_do e (s, w) = Some (s', w')"
  shows "case_measure w' + (if case_event e then 1 else 0) \<le> case_measure w \<and> wk_policy w' = wk_policy w"
proof (cases e)
  case Submit
  then show ?thesis using assms
    by (cases "wk_todo w") (auto simp: case_measure_def case_event_def may_submit_def split: if_splits)
next
  case (BeginCase now sid)
  then have "sid \<in> set (wk_submitted w)" using assms by (auto split: if_splits)
  then have "Suc (length (remove1 sid (wk_submitted w))) = length (wk_submitted w)"
    by (simp add: length_remove1) (metis Suc_pred length_pos_if_in_set)
  with BeginCase assms show ?thesis
    by (auto simp: begin_case_def Let_def case_measure_def case_event_def split: if_splits prod.splits case_start.splits)
next
  case (EndCase now new_id i env)
  then have "i < length (wk_active w)" using assms by (auto split: if_splits)
  from length_remove_nth [OF this] EndCase assms show ?thesis
    by (auto simp: end_case_def case_measure_def case_event_def split: if_splits prod.splits)
qed (use assms in \<open>auto simp: case_event_def case_measure_def Let_def split: if_splits option.splits prod.splits sum.splits\<close>)

lemma events_measure:
  "run_events es (s, w) = Some (s', w') \<Longrightarrow>
     case_measure w' + length (filter case_event es) \<le> case_measure w \<and> wk_policy w' = wk_policy w"
proof (induction es arbitrary: s w)
  case (Cons e es)
  then obtain s1 w1 where "worker_do e (s, w) = Some (s1, w1)" "run_events es (s1, w1) = Some (s', w')"
    by (auto split: option.splits)
  with Cons.IH [of s1 w1] event_measure [of e s w s1 w1] show ?case by (auto split: if_splits)
qed simp

text \<open>C9: the loop of an execution ends: a case is submitted, begun and ended at most once, so a schedule
  has at most three case events per checkpoint, and as long as the loop is not over one of them can
  happen, whatever else happened in between.\<close>

theorem execution_loop_terminates:
  assumes "run_events events (s, new_worker run adapter policy lease s0) = Some (s', w)"
    and "validate_policy policy = Inr ()"
  shows "length (filter case_event events) \<le> 3 * length (pending_ids (run_id run) s0) \<and>
    (loop_over w \<or> worker_do Submit (s', w) \<noteq> None \<or>
      (\<exists>sid. worker_do (BeginCase now sid) (s', w) \<noteq> None) \<or> worker_do (EndCase now new_id 0 unflagged) (s', w) \<noteq> None)"
proof -
  note m = events_measure [OF assms(1)]
  then have "length (filter case_event events) \<le> 3 * length (pending_ids (run_id run) s0)"
    by (simp add: case_measure_def new_worker_def)
  moreover have "1 \<le> po_max_workers (wk_policy w)"
    using m assms(2) by (simp add: new_worker_def validate_policy_def guards_ok_iff policy_guards_def outside_def)
  then have "loop_over w \<or> may_submit w \<or> wk_submitted w \<noteq> [] \<or> wk_active w \<noteq> []"
    by (auto simp: loop_over_def futures_empty_def may_submit_def)
  then have "loop_over w \<or> may_submit w \<or> (\<exists>sid. sid \<in> set (wk_submitted w)) \<or> 0 < length (wk_active w)"
    by (cases "wk_submitted w") auto
  ultimately show ?thesis by auto
qed

section \<open>Concrete inputs\<close>

definition example_worker :: worker where
  "example_worker = new_worker example_claimed example_adapter default_policy 60 example_work"

lemma example_worker_ok: "sched_inv example_work" "tokens_ok [example_worker]"
  by (simp_all add: sched_inv_def example_work_def example_db_def coll_ok_def run_keys_ok_def results_ok_def run_ok_def
      cp_ok_def cp_key_def example_claimed_def leased_run_def example_run_def example_checkpoint_def tokens_ok_def
      tokens_def example_worker_def new_worker_def)



theorem execution_loop_terminates_witness:
  "\<exists>s' w. run_events example_schedule (example_work, example_worker) = Some (s', w) \<and>
     length (filter case_event example_schedule) \<le> 3 * length (pending_ids ''r1'' example_work)"
proof -
  have "run_events example_schedule (example_work, example_worker) \<noteq> None" by code_simp
  then obtain s' w where e: "run_events example_schedule (example_work, example_worker) = Some (s', w)" by auto
  have "validate_policy default_policy = Inr ()" by code_simp
  from execution_loop_terminates [OF e [unfolded example_worker_def] this]
  have "length (filter case_event example_schedule) \<le> 3 * length (pending_ids (run_id example_claimed) example_work)" ..
  moreover have "run_id example_claimed = ''r1''" by code_simp
  ultimately show ?thesis using e by auto
qed

end
