(* ===== verification/AuthorizationSelectors.thy ===== *)
theory AuthorizationSelectors
  imports Documents
begin

text \<open>
  The first half of \<open>apiAnalysis/tool/authorization_policy.py\<close>: what a principal is, the check that
  keeps authentication material out of policy metadata, and the selectors that pick principals by
  identity, role, scope, rank, labels and project attributes.

  A selector is the JSON dictionary the code stores; \<open>validate_selector\<close> returns it with its lists
  and numbers normalised. A principal is a record that the stored document and the snapshot frozen
  into an activated policy both extend, so that one \<open>selector_matches\<close> serves both, as \<open>_get\<close> does.
\<close>

section \<open>Principals\<close>

record principal_identity =
  pn_principal_id :: string
  pn_profile_id :: string
  pn_account_key :: string
  pn_name :: string
  pn_role_key :: string
  pn_privilege_rank :: int
  pn_scope_key :: string
  pn_labels :: "string list"
  pn_attributes :: "json dict"

record authorization_principal = principal_identity +
  pn_project_id :: string
  pn_env_id :: string
  pn_active :: bool

record principal_snapshot = principal_identity +
  ps_auth_profile_revision_id :: string

section \<open>Constants\<close>

definition DECISIONS :: "string list" where
  "DECISIONS = [''allow'', ''deny'', ''review'']"

definition SCOPE_RELATIONS :: "string list" where
  "SCOPE_RELATIONS = [''any'', ''same'', ''different'']"

definition list_fields :: "string list" where
  "list_fields = [''principal_ids'', ''profile_ids'', ''account_keys'', ''role_keys'', ''scope_keys'',
     ''labels_all'', ''labels_any'']"

definition rank_fields :: "string list" where
  "rank_fields = [''min_privilege_rank'', ''max_privilege_rank'']"

definition SELECTOR_FIELDS :: "string list" where
  "SELECTOR_FIELDS = list_fields @ rank_fields @ [''attributes'']"

definition MAX_CASE_BUDGET :: int where
  "MAX_CASE_BUDGET = 10000"

definition MAX_REQUESTS_PER_CASE :: int where
  "MAX_REQUESTS_PER_CASE = 10"

definition SENSITIVE_ATTRIBUTE_KEYS :: "string list" where
  "SENSITIVE_ATTRIBUTE_KEYS = [''authorization'', ''cookie'', ''credential'', ''credentials'',
     ''password'', ''passwd'', ''secret'', ''token'', ''access_token'', ''refresh_token'', ''api_key'',
     ''private_key'', ''session'', ''sessionid'']"

section \<open>\<open>_strings\<close>\<close>

definition nonempty_texts :: "string list \<Rightarrow> string list" where
  "nonempty_texts ss = filter (\<lambda>s. s \<noteq> []) ss"

fun strings_of :: "json \<Rightarrow> string list result_of" where
  "strings_of JNull = Inr []"
| "strings_of (JStr s) = Inr (nonempty_texts [s])"
| "strings_of (JList vs) = Inr (nonempty_texts (map py_str vs))"
| "strings_of (JObj d) = Inr (nonempty_texts (map fst d))"
| "strings_of _ = Inl (TypeError ''object is not iterable'')"

section \<open>\<open>_validate_public_attributes\<close>\<close>

definition normalized_attribute :: "string \<Rightarrow> string" where
  "normalized_attribute k = map (\<lambda>c. if c = CHR ''-'' then CHR ''_'' else c) (py_lower (py_strip k))"

definition bearer_text :: "string \<Rightarrow> bool" where
  "bearer_text s \<longleftrightarrow> starts_with ''bearer '' (py_lower (py_strip s))"

definition private_key_text :: "string \<Rightarrow> bool" where
  "private_key_text s \<longleftrightarrow> contains ''-----begin private key-----'' (py_lower (py_strip s))"

definition size_guard :: "json dict \<Rightarrow> unit result_of" where
  "size_guard d = guards [(16384 < length (json_dumps (JObj d)),
     ValueError ''authorization metadata is limited to 16 KiB'')]"

text \<open>
  The loop over the items, the branch on one value and the loop over the children of a list. A
  nested dictionary is checked by the recursive call, its own size limit included; a list inside a
  list is not looked into, as in the code.
\<close>

fun check_items :: "json dict \<Rightarrow> unit result_of"
  and check_item :: "json \<Rightarrow> unit result_of"
  and check_children :: "json list \<Rightarrow> unit result_of"
  and check_child :: "json \<Rightarrow> unit result_of" where
  "check_items [] = Inr ()"
| "check_items ((k, v) # d) =
     (if normalized_attribute k \<in> set SENSITIVE_ATTRIBUTE_KEYS
      then Inl (ValueError ''authorization metadata cannot store sensitive field'')
      else sbind (check_item v) (\<lambda>_. check_items d))"
| "check_item (JObj d) = sbind (check_items d) (\<lambda>_. size_guard d)"
| "check_item (JList vs) = check_children vs"
| "check_item (JStr s) = (if bearer_text s \<or> private_key_text s
     then Inl (ValueError ''authorization metadata cannot store authentication material'') else Inr ())"
| "check_item _ = Inr ()"
| "check_children [] = Inr ()"
| "check_children (v # vs) = sbind (check_child v) (\<lambda>_. check_children vs)"
| "check_child (JObj d) = sbind (check_items d) (\<lambda>_. size_guard d)"
| "check_child (JStr s) = (if bearer_text s
     then Inl (ValueError ''authorization metadata cannot store bearer material'') else Inr ())"
| "check_child _ = Inr ()"

definition validate_public_attributes :: "json dict \<Rightarrow> json dict result_of" where
  "validate_public_attributes d =
     sbind (check_items d) (\<lambda>_. sbind (size_guard d) (\<lambda>_. Inr d))"

section \<open>\<open>validate_selector\<close>\<close>

text \<open>The two normalisation loops: rewrite a field in place when the selector has it.\<close>

fun normalize_fields :: "(json \<Rightarrow> json result_of) \<Rightarrow> string list \<Rightarrow> json dict \<Rightarrow> json dict result_of" where
  "normalize_fields f [] sel = Inr sel"
| "normalize_fields f (k # ks) sel = (case map_of sel k of
     None \<Rightarrow> normalize_fields f ks sel
   | Some v \<Rightarrow> sbind (f v) (\<lambda>w. normalize_fields f ks (dict_set k w sel)))"

definition text_list :: "json \<Rightarrow> json result_of" where
  "text_list v = sbind (strings_of v) (\<lambda>ss. Inr (JList (map JStr ss)))"

definition int_value :: "json \<Rightarrow> json result_of" where
  "int_value v = sbind (py_int v) (\<lambda>n. Inr (JInt n))"

fun rank_of :: "json dict \<Rightarrow> string \<Rightarrow> int option" where
  "rank_of sel k = (case map_of sel k of Some (JInt n) \<Rightarrow> Some n | _ \<Rightarrow> None)"

definition rank_range_ok :: "json dict \<Rightarrow> bool" where
  "rank_range_ok sel = (case (rank_of sel ''min_privilege_rank'', rank_of sel ''max_privilege_rank'') of
     (Some lo, Some hi) \<Rightarrow> lo \<le> hi | _ \<Rightarrow> True)"

text \<open>\<open>value.get("attributes") or {}\<close>, which has to be a dictionary.\<close>

definition selector_attributes :: "json dict \<Rightarrow> json dict result_of" where
  "selector_attributes sel = (let v = dget sel ''attributes'' in
     if \<not> truthy v then Inr []
     else (case v of JObj d \<Rightarrow> Inr d
       | _ \<Rightarrow> Inl (ValueError ''authorization selector attributes must be a dictionary'')))"

definition validate_selector :: "json dict \<Rightarrow> json dict result_of" where
  "validate_selector sel =
     sbind (guards [(list_ex (\<lambda>k. k \<notin> set SELECTOR_FIELDS) (map fst sel),
       ValueError ''unsupported authorization selector fields'')]) (\<lambda>_.
     sbind (selector_attributes sel) (\<lambda>attributes.
     sbind (normalize_fields text_list list_fields sel) (\<lambda>sel1.
     sbind (normalize_fields int_value rank_fields sel1) (\<lambda>sel2.
     sbind (guards [(\<not> rank_range_ok sel2,
       ValueError ''authorization selector rank range is invalid'')]) (\<lambda>_.
     sbind (validate_public_attributes attributes) (\<lambda>attrs.
     Inr (dict_set ''attributes'' (JObj attrs) sel2)))))))"

section \<open>\<open>selector_matches\<close>\<close>

definition listed :: "json dict \<Rightarrow> string \<Rightarrow> string list" where
  "listed sel k = (case dget sel k of JList vs \<Rightarrow> map py_str vs | _ \<Rightarrow> [])"

definition attribute_wishes :: "json dict \<Rightarrow> json dict" where
  "attribute_wishes sel = (case dget sel ''attributes'' of JObj d \<Rightarrow> d | _ \<Rightarrow> [])"

definition exact_sets :: "'a principal_identity_scheme \<Rightarrow> (string \<times> string) list" where
  "exact_sets p = [
     (''principal_ids'', pn_principal_id p),
     (''profile_ids'', pn_profile_id p),
     (''account_keys'', pn_account_key p),
     (''role_keys'', pn_role_key p),
     (''scope_keys'', pn_scope_key p)]"

text \<open>The body of \<open>selector_matches\<close>, on the selector as \<open>validate_selector\<close> returned it.\<close>

definition matches_normalized :: "json dict \<Rightarrow> 'a principal_identity_scheme \<Rightarrow> bool" where
  "matches_normalized sel p =
     (let labels = pn_labels p; rank = pn_privilege_rank p;
          labels_all = listed sel ''labels_all''; labels_any = listed sel ''labels_any'' in
      if list_ex (\<lambda>(k, actual). listed sel k \<noteq> [] \<and> actual \<notin> set (listed sel k)) (exact_sets p) then False
      else if (case rank_of sel ''min_privilege_rank'' of Some lo \<Rightarrow> rank < lo | None \<Rightarrow> False) then False
      else if (case rank_of sel ''max_privilege_rank'' of Some hi \<Rightarrow> hi < rank | None \<Rightarrow> False) then False
      else if labels_all \<noteq> [] \<and> \<not> set labels_all \<subseteq> set labels then False
      else if labels_any \<noteq> [] \<and> set labels \<inter> set labels_any = {} then False
      else if list_ex (\<lambda>(k, expected). \<not> py_eq (dget (pn_attributes p) k) expected) (attribute_wishes sel)
        then False
      else True)"

definition selector_matches :: "json dict \<Rightarrow> 'a principal_identity_scheme \<Rightarrow> bool result_of" where
  "selector_matches sel p = sbind (validate_selector sel) (\<lambda>v. Inr (matches_normalized v p))"

section \<open>Facts: normalisation\<close>

lemma dict_set_same: "map_of d k = Some v \<Longrightarrow> dict_set k v d = d"
  by (induction k v d rule: dict_set.induct) (auto split: if_splits)

lemma fst_dict_set: "map fst (dict_set k v d) = (if map_of d k = None then map fst d @ [k] else map fst d)"
  by (induction k v d rule: dict_set.induct) auto

lemma normalize_fields_other:
  "normalize_fields f ks sel = Inr sel' \<Longrightarrow> k \<notin> set ks \<Longrightarrow> map_of sel' k = map_of sel k"
  by (induction f ks sel arbitrary: sel' rule: normalize_fields.induct)
    (auto simp: sbind_Inr_iff split: option.splits)

lemma normalize_fields_keys: "normalize_fields f ks sel = Inr sel' \<Longrightarrow> map fst sel' = map fst sel"
proof (induction ks arbitrary: sel)
  case (Cons k ks)
  show ?case
  proof (cases "map_of sel k")
    case None
    with Cons show ?thesis by simp
  next
    case (Some v)
    with Cons.prems obtain w where "normalize_fields f ks (dict_set k w sel) = Inr sel'"
      by (auto simp: sbind_Inr_iff)
    from Cons.IH [OF this] Some show ?thesis by (simp add: fst_dict_set)
  qed
qed simp

lemma normalize_fields_stable:
  assumes "\<And>k v. k \<in> set ks \<Longrightarrow> map_of sel k = Some v \<Longrightarrow> f v = Inr v"
  shows "normalize_fields f ks sel = Inr sel"
  using assms
proof (induction ks)
  case (Cons k ks)
  have rest: "normalize_fields f ks sel = Inr sel"
    by (rule Cons.IH) (rule Cons.prems, simp_all)
  show ?case
  proof (cases "map_of sel k")
    case (Some v)
    with Cons.prems [of k v] rest show ?thesis by (simp add: dict_set_same)
  qed (use rest in simp)
qed simp

lemma normalize_fields_fixed:
  assumes "normalize_fields f ks sel = Inr sel'" "distinct ks" "k \<in> set ks" "map_of sel' k = Some w"
  shows "\<exists>v. map_of sel k = Some v \<and> f v = Inr w"
  using assms
proof (induction f ks sel arbitrary: sel' rule: normalize_fields.induct)
  case (2 f k' ks sel)
  show ?case
  proof (cases "map_of sel k'")
    case None
    with 2 show ?thesis
      by (cases "k = k'") (auto dest: normalize_fields_other)
  next
    case (Some v)
    with 2(3) obtain w' where w': "f v = Inr w'"
      and n: "normalize_fields f ks (dict_set k' w' sel) = Inr sel'"
      by (auto simp: sbind_Inr_iff)
    show ?thesis
    proof (cases "k = k'")
      case True
      with 2(4) have "map_of sel' k = Some w'"
        using normalize_fields_other [OF n, of k] by simp
      with 2(6) Some w' True show ?thesis by simp
    next
      case False
      with 2(2) [OF Some n] 2(4-6) show ?thesis by simp
    qed
  qed
qed simp

lemma nonempty_texts_idem [simp]: "nonempty_texts (nonempty_texts ss) = nonempty_texts ss" "nonempty_texts [] = []"
  by (simp_all add: nonempty_texts_def)

lemma map_py_str_JStr [simp]: "map (py_str \<circ> JStr) ss = ss" "map py_str (map JStr ss) = ss"
  by (induction ss) (simp_all add: py_str_def)

lemma strings_of_nonempty: "strings_of v = Inr ss \<Longrightarrow> nonempty_texts ss = ss"
  by (cases v rule: strings_of.cases) auto

lemma text_list_idem: "text_list v = Inr w \<Longrightarrow> text_list w = Inr w"
  by (auto simp: text_list_def sbind_Inr_iff dest: strings_of_nonempty)

lemma int_value_idem: "int_value v = Inr w \<Longrightarrow> int_value w = Inr w"
  by (auto simp: int_value_def sbind_Inr_iff)

lemma normalize_fields_again:
  assumes "normalize_fields f ks sel = Inr sel'" "distinct ks" "\<And>v w. f v = Inr w \<Longrightarrow> f w = Inr w"
    and "\<And>k. k \<in> set ks \<Longrightarrow> map_of sel'' k = map_of sel' k"
  shows "normalize_fields f ks sel'' = Inr sel''"
proof (rule normalize_fields_stable)
  fix k v
  assume k: "k \<in> set ks" and "map_of sel'' k = Some v"
  with assms(4) have "map_of sel' k = Some v" by simp
  from normalize_fields_fixed [OF assms(1,2) k this] assms(3)
  show "f v = Inr v" by blast
qed

lemma validate_public_attributes_Inr:
  "validate_public_attributes d = Inr e \<longleftrightarrow> e = d \<and> check_items d = Inr () \<and> size_guard d = Inr ()"
  by (auto simp: validate_public_attributes_def sbind_Inr_iff)

lemma field_names:
  "distinct list_fields" "distinct rank_fields" "''attributes'' \<notin> set list_fields"
  "''attributes'' \<notin> set rank_fields" "set list_fields \<inter> set rank_fields = {}"
  by (simp_all add: list_fields_def rank_fields_def)

lemma rank_of_cong: "map_of sel k = map_of sel' k \<Longrightarrow> rank_of sel k = rank_of sel' k"
  by simp

lemma validate_selector_again:
  assumes "validate_selector sel = Inr sel'"
  shows "validate_selector sel' = Inr sel'"
proof -
  from assms obtain d sel1 sel2 where known: "\<not> list_ex (\<lambda>k. k \<notin> set SELECTOR_FIELDS) (map fst sel)"
    and n1: "normalize_fields text_list list_fields sel = Inr sel1"
    and n2: "normalize_fields int_value rank_fields sel1 = Inr sel2"
    and range: "rank_range_ok sel2" and attrs: "validate_public_attributes d = Inr d"
    and sel': "sel' = dict_set ''attributes'' (JObj d) sel2"
    by (auto simp: validate_selector_def sbind_Inr_iff validate_public_attributes_Inr guards_ok_iff)
  have look: "map_of sel' k = (if k = ''attributes'' then Some (JObj d) else map_of sel2 k)" for k
    by (simp add: sel')
  have "map fst sel2 = map fst sel"
    using normalize_fields_keys [OF n1] normalize_fields_keys [OF n2] by simp
  with known have 1: "\<not> list_ex (\<lambda>k. k \<notin> set SELECTOR_FIELDS) (map fst sel')"
    by (auto simp: sel' fst_dict_set SELECTOR_FIELDS_def list_ex_iff)
  have 2: "selector_attributes sel' = Inr d"
    using look by (cases d) (auto simp: selector_attributes_def dget_def)
  have 3: "normalize_fields text_list list_fields sel' = Inr sel'"
  proof (rule normalize_fields_again [OF n1 field_names(1) text_list_idem])
    fix k assume "k \<in> set list_fields"
    then have "k \<noteq> ''attributes''" "k \<notin> set rank_fields" using field_names by auto
    then show "map_of sel' k = map_of sel1 k"
      using look normalize_fields_other [OF n2] by simp
  qed
  have 4: "normalize_fields int_value rank_fields sel' = Inr sel'"
    by (rule normalize_fields_again [OF n2 field_names(2) int_value_idem]) (use look field_names in auto)
  have "rank_of sel' k = rank_of sel2 k" if "k \<noteq> ''attributes''" for k
    using that look by (intro rank_of_cong) simp
  with range have 5: "rank_range_ok sel'" by (simp add: rank_range_ok_def del: rank_of.simps)
  have 6: "dict_set ''attributes'' (JObj d) sel' = sel'"
    using look by (intro dict_set_same) simp
  show ?thesis
    unfolding validate_selector_def
    by (simp add: 1 2 3 4 5 6 attrs guards.simps cong: sbind_weak_cong)
qed

lemma validate_selector_clean:
  assumes "validate_selector sel = Inr sel'"
  shows "check_items (attribute_wishes sel') = Inr ()"
proof -
  from assms obtain d sel2 where "validate_public_attributes d = Inr d"
    and "sel' = dict_set ''attributes'' (JObj d) sel2"
    by (auto simp: validate_selector_def sbind_Inr_iff validate_public_attributes_Inr)
  then show ?thesis
    by (simp add: attribute_wishes_def dget_def validate_public_attributes_Inr)
qed

section \<open>Facts: nothing sensitive in policy metadata\<close>

text \<open>The entries that nested dictionaries and lists of dictionaries hold, at any depth.\<close>

inductive entry_of :: "json dict \<Rightarrow> string \<Rightarrow> json \<Rightarrow> bool" where
  here: "(k, v) \<in> set d \<Longrightarrow> entry_of d k v"
| in_dict: "entry_of d k (JObj e) \<Longrightarrow> (k', v) \<in> set e \<Longrightarrow> entry_of d k' v"
| in_list: "entry_of d k (JList vs) \<Longrightarrow> JObj e \<in> set vs \<Longrightarrow> (k', v) \<in> set e \<Longrightarrow> entry_of d k' v"

definition public_entry :: "string \<Rightarrow> json \<Rightarrow> bool" where
  "public_entry k v \<longleftrightarrow> normalized_attribute k \<notin> set SENSITIVE_ATTRIBUTE_KEYS \<and>
     (case v of JStr s \<Rightarrow> \<not> bearer_text s \<and> \<not> private_key_text s
        | JList vs \<Rightarrow> (\<forall>s. JStr s \<in> set vs \<longrightarrow> \<not> bearer_text s)
        | _ \<Rightarrow> True)"

lemma check_items_in: "check_items d = Inr () \<Longrightarrow> (k, v) \<in> set d \<Longrightarrow>
    normalized_attribute k \<notin> set SENSITIVE_ATTRIBUTE_KEYS \<and> check_item v = Inr ()"
  by (induction d) (auto simp: sbind_Inr_iff split: if_splits)

lemma check_children_in: "check_children vs = Inr () \<Longrightarrow> v \<in> set vs \<Longrightarrow> check_child v = Inr ()"
  by (induction vs) (auto simp: sbind_Inr_iff)

lemma check_item_entry:
  assumes "check_items d = Inr ()" "entry_of d k v"
  shows "normalized_attribute k \<notin> set SENSITIVE_ATTRIBUTE_KEYS \<and> check_item v = Inr ()"
  using assms(2,1)
proof (induction rule: entry_of.induct)
  case (here k v d)
  then show ?case by (auto dest: check_items_in)
next
  case (in_dict d k e k' v)
  then have "check_items e = Inr ()" by (simp add: sbind_Inr_iff)
  with in_dict show ?case by (auto dest: check_items_in)
next
  case (in_list d k vs e k' v)
  then have "check_child (JObj e) = Inr ()" by (auto dest: check_children_in)
  then have "check_items e = Inr ()" by (simp add: sbind_Inr_iff)
  with in_list show ?case by (auto dest: check_items_in)
qed

lemma checked_entry_public:
  assumes "check_items d = Inr ()" "entry_of d k v"
  shows "public_entry k v"
proof -
  have "\<not> bearer_text s" if "check_children vs = Inr ()" "JStr s \<in> set vs" for vs s
    using check_children_in [OF that] by (simp split: if_splits)
  with check_item_entry [OF assms] show ?thesis
    by (cases v) (auto simp: public_entry_def split: if_splits)
qed

text \<open>What the check does not see: a dictionary in a list that is itself in a list.\<close>

lemma nested_list_unchecked:
  "check_items [(''notes'', JList [JList [JObj [(''token'', JStr ''abc'')]]])] = Inr ()"
  by code_simp

section \<open>Property\<close>

text \<open>An accepted selector is normalised and public. Validating it again returns it unchanged; and no
  entry of its attributes, in nested dictionaries and in lists of dictionaries at any depth, has a key
  that names authentication material (up to case, blanks and hyphens) or a value that looks like a
  bearer token or a private key.\<close>

theorem accepted_selector_is_public:
  assumes "validate_selector sel = Inr sel'"
  shows "validate_selector sel' = Inr sel' \<and>
    (\<forall>k v. entry_of (attribute_wishes sel') k v \<longrightarrow> public_entry k v) \<and>
    length (json_dumps (JObj (attribute_wishes sel'))) \<le> 16384"
proof -
  from assms obtain d sel2 where "validate_public_attributes d = Inr d" "sel' = dict_set ''attributes'' (JObj d) sel2"
    by (auto simp: validate_selector_def sbind_Inr_iff validate_public_attributes_Inr)
  then have "length (json_dumps (JObj (attribute_wishes sel'))) \<le> 16384"
    by (simp add: attribute_wishes_def dget_def validate_public_attributes_Inr size_guard_def guards_ok_iff)
  with validate_selector_again [OF assms] checked_entry_public [OF validate_selector_clean [OF assms]]
  show ?thesis by blast
qed

theorem accepted_selector_is_public_witness:
  "\<exists>sel'. validate_selector [(''role_keys'', JStr ''admin''),
       (''attributes'', JObj [(''team'', JObj [(''Region'', JStr ''eu'')])])] = Inr sel' \<and>
     dget sel' ''role_keys'' = JList [JStr ''admin''] \<and> public_entry ''Region'' (JStr ''eu'')"
proof -
  let ?sel = "[(''role_keys'', JStr ''admin''), (''attributes'', JObj [(''team'', JObj [(''Region'', JStr ''eu'')])])]"
  have v: "validate_selector ?sel = Inr [(''role_keys'', JList [JStr ''admin'']),
      (''attributes'', JObj [(''team'', JObj [(''Region'', JStr ''eu'')])])]"
    by code_simp
  have "entry_of [(''team'', JObj [(''Region'', JStr ''eu'')])] ''Region'' (JStr ''eu'')"
    by (rule entry_of.in_dict [OF entry_of.here, of "''team''" "[(''Region'', JStr ''eu'')]"]) simp_all
  with accepted_selector_is_public [OF v] v show ?thesis
    by (auto simp: attribute_wishes_def dget_def)
qed

end
