(* ===== verification/AuthorizationExpansion.thy ===== *)
theory AuthorizationExpansion
  imports AuthorizationSelectors "HOL-Library.Multiset"
begin

text \<open>
  \<open>apiAnalysis/tool/authorization_policy.py\<close>, the pure core: the policy and rule documents, the
  decision a policy expects for a pair of principals, and the expansion of the complete bounded
  matrix of owners, subjects and resources.

  \<open>digest\<close> is SHA-256 of the canonical JSON dump. \<open>is_active\<close> is the \<open>active\<close> attribute of a
  principal, which the frozen snapshots of a policy do not have (the code then takes \<open>True\<close>).
\<close>

section \<open>Documents\<close>

datatype policy_lifecycle = DRAFT | ACTIVE | ARCHIVED

record authorization_policy =
  ap_policy_key :: string
  ap_policy_version_id :: string
  ap_project_id :: string
  ap_env_id :: string
  ap_name :: string
  ap_version :: int
  ap_lifecycle :: policy_lifecycle
  ap_principal_ids :: "string list"
  ap_principal_snapshots :: "principal_snapshot list"
  ap_resource_family :: string
  ap_action :: string
  ap_relation_ids :: "string list"
  ap_relation_snapshots :: "json dict list"
  ap_default_decision :: string
  ap_same_principal_decision :: string
  ap_include_self :: bool
  ap_case_budget :: int
  ap_request_budget_per_case :: int
  ap_parent_policy_version_id :: string
  ap_created_by :: string
  ap_activated_at :: "time option"

record authorization_rule =
  rl_rule_id :: string
  rl_policy_version_id :: string
  rl_priority :: int
  rl_subject_selector :: "json dict"
  rl_owner_selector :: "json dict"
  rl_scope_relation :: string
  rl_resource_family :: string
  rl_action :: string
  rl_expected_decision :: string
  rl_reason_codes :: "string list"
  rl_description :: string
  rl_active :: bool

section \<open>The decision a policy expects\<close>

definition scope_relation_matches :: "authorization_rule \<Rightarrow> 'a principal_identity_scheme \<Rightarrow>
    'b principal_identity_scheme \<Rightarrow> bool" where
  "scope_relation_matches rule owner subject =
     (let relation = str_or (rl_scope_relation rule) ''any'' in
      if relation \<notin> set SCOPE_RELATIONS then False
      else if relation = ''same''
      then pn_scope_key owner \<noteq> [] \<and> pn_scope_key subject \<noteq> [] \<and> pn_scope_key owner = pn_scope_key subject
      else if relation = ''different'' then pn_scope_key owner \<noteq> pn_scope_key subject
      else True)"

record expectation =
  ex_expected_decision :: string
  ex_matched_rule_id :: string
  ex_reason_codes :: "string list"

text \<open>The \<open>continue\<close> conditions of the loop: whether a rule decides this cell.\<close>

definition rule_applies :: "string \<Rightarrow> string \<Rightarrow> 'a principal_identity_scheme \<Rightarrow> 'b principal_identity_scheme \<Rightarrow>
    authorization_rule \<Rightarrow> bool result_of" where
  "rule_applies family action owner subject rule =
     (if rl_resource_family rule \<noteq> [] \<and> rl_resource_family rule \<noteq> family then Inr False
      else if rl_action rule \<noteq> [] \<and> rl_action rule \<noteq> action then Inr False
      else if \<not> scope_relation_matches rule owner subject then Inr False
      else sbind (selector_matches (rl_owner_selector rule) owner) (\<lambda>ok.
        if \<not> ok then Inr False else selector_matches (rl_subject_selector rule) subject))"

fun first_applying :: "string \<Rightarrow> string \<Rightarrow> 'a principal_identity_scheme \<Rightarrow> 'b principal_identity_scheme \<Rightarrow>
    authorization_rule list \<Rightarrow> authorization_rule option result_of" where
  "first_applying family action owner subject [] = Inr None"
| "first_applying family action owner subject (r # rs) =
     sbind (rule_applies family action owner subject r) (\<lambda>ok.
       if ok then Inr (Some r) else first_applying family action owner subject rs)"

definition rule_order :: "authorization_rule \<Rightarrow> int \<times> string" where
  "rule_order r = (- rl_priority r, rl_rule_id r)"

definition default_expectation :: "authorization_policy \<Rightarrow> 'a principal_identity_scheme \<Rightarrow>
    'b principal_identity_scheme \<Rightarrow> expectation result_of" where
  "default_expectation policy owner subject =
     (let same = (pn_principal_id owner = pn_principal_id subject);
          expected = (if same then ap_same_principal_decision policy else ap_default_decision policy)
      in if expected \<notin> set DECISIONS
         then Inl (ValueError ''authorization policy has an invalid default decision'')
         else Inr \<lparr>ex_expected_decision = expected, ex_matched_rule_id = [],
           ex_reason_codes = [if same then ''authorization_same_principal_default''
                              else ''authorization_policy_default'']\<rparr>)"

definition resolve_authorization_expectation :: "authorization_policy \<Rightarrow> authorization_rule list \<Rightarrow>
    'a principal_identity_scheme \<Rightarrow> 'b principal_identity_scheme \<Rightarrow> string \<Rightarrow> string \<Rightarrow> expectation result_of" where
  "resolve_authorization_expectation policy rules owner subject family action =
     sbind (first_applying family action owner subject (sort_key rule_order (filter rl_active rules))) (\<lambda>hit.
       case hit of
         Some rule \<Rightarrow>
           if rl_expected_decision rule \<notin> set DECISIONS
           then Inl (ValueError ''authorization rule has an invalid expected decision'')
           else Inr \<lparr>ex_expected_decision = rl_expected_decision rule,
             ex_matched_rule_id = rl_rule_id rule, ex_reason_codes = nonempty_texts (rl_reason_codes rule)\<rparr>
       | None \<Rightarrow> default_expectation policy owner subject)"

section \<open>The matrix\<close>

record matrix_resource =
  rs_resource_key :: string
  rs_relation_ids :: "string list"
  rs_resource_family :: string
  rs_action :: string

record 'p case_spec =
  cs_case_key :: string
  cs_resource_key :: string
  cs_relation_ids :: "string list"
  cs_resource_family :: string
  cs_action :: string
  cs_owner :: 'p
  cs_subject :: 'p
  cs_expected_decision :: string
  cs_matched_rule_id :: string
  cs_reason_codes :: "string list"

text \<open>\<open>AuthorizationCaseSpec.metadata\<close>; \<open>int(policy.version or 1)\<close>.\<close>

definition policy_version_number :: "authorization_policy \<Rightarrow> int" where
  "policy_version_number policy = (if ap_version policy = 0 then 1 else ap_version policy)"

definition case_metadata :: "authorization_policy \<Rightarrow> 'a principal_identity_scheme case_spec \<Rightarrow> json dict" where
  "case_metadata policy c = [
     (''case_key'', JStr (cs_case_key c)),
     (''policy_key'', JStr (ap_policy_key policy)),
     (''policy_version_id'', JStr (ap_policy_version_id policy)),
     (''policy_version'', JInt (policy_version_number policy)),
     (''resource_owner_principal_id'', JStr (pn_principal_id (cs_owner c))),
     (''subject_principal_id'', JStr (pn_principal_id (cs_subject c))),
     (''resource_family'', JStr (cs_resource_family c)),
     (''action'', JStr (cs_action c)),
     (''expected_decision'', JStr (cs_expected_decision c)),
     (''matched_rule_id'', JStr (cs_matched_rule_id c)),
     (''reason_codes'', JList (map JStr (cs_reason_codes c)))]"

definition case_identity :: "authorization_policy \<Rightarrow> string \<Rightarrow> string list \<Rightarrow> string \<Rightarrow> string \<Rightarrow> string \<Rightarrow>
    string \<Rightarrow> expectation \<Rightarrow> json" where
  "case_identity policy resource_key relation_ids family action owner subject e = JObj [
     (''policy_key'', JStr (ap_policy_key policy)),
     (''policy_version_id'', JStr (ap_policy_version_id policy)),
     (''policy_version'', JInt (policy_version_number policy)),
     (''resource_key'', JStr resource_key),
     (''relation_ids'', JList (map JStr relation_ids)),
     (''resource_family'', JStr family),
     (''action'', JStr action),
     (''owner'', JStr owner),
     (''subject'', JStr subject),
     (''expected'', JStr (ex_expected_decision e)),
     (''rule'', JStr (ex_matched_rule_id e))]"

definition expand_cell :: "(json \<Rightarrow> string) \<Rightarrow> authorization_policy \<Rightarrow> authorization_rule list \<Rightarrow> string \<Rightarrow>
    string list \<Rightarrow> string \<Rightarrow> string \<Rightarrow> ('a principal_identity_scheme \<times> 'a principal_identity_scheme) \<Rightarrow>
    'a principal_identity_scheme case_spec result_of" where
  "expand_cell digest policy rules resource_key relation_ids family action pair =
     (case pair of (owner, subject) \<Rightarrow>
      sbind (resolve_authorization_expectation policy rules owner subject family action) (\<lambda>e.
      Inr \<lparr>cs_case_key = ''authorization-case:'' @ digest (case_identity policy resource_key relation_ids
             family action (pn_principal_id owner) (pn_principal_id subject) e),
        cs_resource_key = resource_key, cs_relation_ids = relation_ids, cs_resource_family = family,
        cs_action = action, cs_owner = owner, cs_subject = subject,
        cs_expected_decision = ex_expected_decision e, cs_matched_rule_id = ex_matched_rule_id e,
        cs_reason_codes = ex_reason_codes e\<rparr>))"

text \<open>The two inner loops, in the order owner, then subject.\<close>

definition principal_pairs :: "bool \<Rightarrow> 'a principal_identity_scheme list \<Rightarrow>
    ('a principal_identity_scheme \<times> 'a principal_identity_scheme) list" where
  "principal_pairs include_self selected =
     filter (\<lambda>(o', s). include_self \<or> pn_principal_id o' \<noteq> pn_principal_id s)
       (List.product selected selected)"

definition resource_relation_ids :: "matrix_resource \<Rightarrow> string list" where
  "resource_relation_ids resource = sort (nonempty_texts (rs_relation_ids resource))"

definition resource_key_of :: "matrix_resource \<Rightarrow> string" where
  "resource_key_of resource = str_or (rs_resource_key resource) (join '':'' (resource_relation_ids resource))"

definition resource_action :: "authorization_policy \<Rightarrow> matrix_resource \<Rightarrow> string" where
  "resource_action policy resource = str_or (str_or (rs_action resource) (ap_action policy)) ''read''"

definition expand_resource :: "(json \<Rightarrow> string) \<Rightarrow> authorization_policy \<Rightarrow> authorization_rule list \<Rightarrow>
    'a principal_identity_scheme list \<Rightarrow> matrix_resource \<Rightarrow> 'a principal_identity_scheme case_spec list result_of" where
  "expand_resource digest policy rules selected resource =
     (if resource_relation_ids resource = []
      then Inl (ValueError ''authorization resource group requires relation ids'')
      else smap (expand_cell digest policy rules (resource_key_of resource) (resource_relation_ids resource)
             (rs_resource_family resource) (resource_action policy resource))
           (principal_pairs (ap_include_self policy) selected))"

definition pair_count :: "bool \<Rightarrow> nat \<Rightarrow> nat" where
  "pair_count include_self n = n * (if include_self then n else n - 1)"

text \<open>\<open>by_id\<close> is a dictionary: the last principal of an id wins.\<close>

definition expand_authorization_matrix :: "(json \<Rightarrow> string) \<Rightarrow> ('a principal_identity_scheme \<Rightarrow> bool) \<Rightarrow>
    authorization_policy \<Rightarrow> 'a principal_identity_scheme list \<Rightarrow> authorization_rule list \<Rightarrow>
    matrix_resource list \<Rightarrow> 'a principal_identity_scheme case_spec list result_of" where
  "expand_authorization_matrix digest is_active policy principals rules resources =
     (let selected_ids = nonempty_texts (ap_principal_ids policy);
          by_id = (\<lambda>i. find (\<lambda>p. pn_principal_id p = i) (rev (filter is_active principals)));
          selected = List.map_filter by_id selected_ids;
          required_cases = pair_count (ap_include_self policy) (length selected) * length resources
      in sbind (guards [
        (list_ex (\<lambda>i. by_id i = None) selected_ids,
         ValueError ''authorization policy principals are unavailable''),
        (selected = [], ValueError ''authorization policy requires at least one explicit principal''),
        (resources = [], ValueError ''authorization policy requires at least one resource relation group''),
        (\<not> (1 \<le> ap_case_budget policy \<and> ap_case_budget policy \<le> MAX_CASE_BUDGET),
         ValueError ''authorization policy case budget must be between 1 and 10000''),
        (ap_case_budget policy < int required_cases,
         MatrixBudgetExceeded required_cases (nat (ap_case_budget policy))),
        (\<not> (2 \<le> ap_request_budget_per_case policy \<and> ap_request_budget_per_case policy \<le> MAX_REQUESTS_PER_CASE),
         ValueError ''authorization request budget per case must be between 2 and 10'')]) (\<lambda>_.
      sbind (smap (expand_resource digest policy rules selected) (sort_key rs_resource_key resources)) (\<lambda>css.
      Inr (concat css))))"

section \<open>Facts: which rule decides\<close>

definition decides :: "string \<Rightarrow> string \<Rightarrow> 'a principal_identity_scheme \<Rightarrow> 'b principal_identity_scheme \<Rightarrow>
    authorization_rule \<Rightarrow> bool" where
  "decides family action owner subject r \<longleftrightarrow>
     rl_active r \<and> rule_applies family action owner subject r = Inr True"

lemma first_applying_Some:
  assumes "first_applying family action owner subject rs = Inr (Some r)" "sorted (map rule_order rs)"
  shows "r \<in> set rs \<and> rule_applies family action owner subject r = Inr True \<and>
    (\<forall>r' \<in> set rs. rule_applies family action owner subject r' = Inr True \<longrightarrow> rule_order r \<le> rule_order r')"
  using assms by (induction rs) (auto simp: sbind_Inr_iff split: if_splits)

lemma first_applying_None:
  assumes "first_applying family action owner subject rs = Inr None" "r \<in> set rs"
  shows "rule_applies family action owner subject r = Inr False"
  using assms by (induction rs) (auto simp: sbind_Inr_iff split: if_splits)

definition rule_expectation :: "authorization_rule \<Rightarrow> expectation" where
  "rule_expectation r = \<lparr>ex_expected_decision = rl_expected_decision r, ex_matched_rule_id = rl_rule_id r,
     ex_reason_codes = nonempty_texts (rl_reason_codes r)\<rparr>"

lemma resolve_Inr:
  assumes "resolve_authorization_expectation policy rules owner subject family action = Inr e"
  obtains hit where
    "first_applying family action owner subject (sort_key rule_order (filter rl_active rules)) = Inr hit"
    and "case hit of Some r \<Rightarrow> rl_expected_decision r \<in> set DECISIONS \<and> e = rule_expectation r
      | None \<Rightarrow> default_expectation policy owner subject = Inr e"
proof -
  from assms obtain hit where
    "first_applying family action owner subject (sort_key rule_order (filter rl_active rules)) = Inr hit"
    unfolding resolve_authorization_expectation_def sbind_Inr_iff by blast
  with assms that show ?thesis
    by (cases hit) (auto simp: resolve_authorization_expectation_def rule_expectation_def split: if_splits)
qed

lemma default_expectation_valid:
  "default_expectation policy owner subject = Inr e \<Longrightarrow> ex_expected_decision e \<in> set DECISIONS"
  by (auto simp: default_expectation_def Let_def split: if_splits)

lemma sorted_rules_eq:
  assumes "set rules = set rules'" "distinct rules" "distinct rules'" "inj_on rl_rule_id (set rules)"
  shows "sort_key rule_order (filter rl_active rules) = sort_key rule_order (filter rl_active rules')"
proof (rule sort_key_inj_key_eq)
  from assms have "mset rules = mset rules'" by (simp add: set_eq_iff_mset_eq_distinct)
  then show "mset (filter rl_active rules) = mset (sort_key rule_order (filter rl_active rules'))"
    by (simp add: mset_filter)
  show "inj_on rule_order (set (filter rl_active rules))"
    using assms(4) by (auto simp: inj_on_def rule_order_def)
qed simp

section \<open>Facts: the matrix\<close>

lemma expand_cell_Inr:
  "expand_cell digest policy rules key ids family action (ow, su) = Inr c \<Longrightarrow>
     cs_owner c = ow \<and> cs_subject c = su \<and> cs_resource_key c = key \<and> cs_resource_family c = family \<and>
     cs_action c = action \<and> cs_relation_ids c = ids \<and>
     resolve_authorization_expectation policy rules ow su family action =
       Inr \<lparr>ex_expected_decision = cs_expected_decision c, ex_matched_rule_id = cs_matched_rule_id c,
         ex_reason_codes = cs_reason_codes c\<rparr>"
  by (auto simp: expand_cell_def sbind_Inr_iff)

definition cell_of :: "'a principal_identity_scheme case_spec \<Rightarrow> string \<times> string \<times> string" where
  "cell_of c = (cs_resource_key c, pn_principal_id (cs_owner c), pn_principal_id (cs_subject c))"

definition expected_of_cell :: "authorization_policy \<Rightarrow> authorization_rule list \<Rightarrow>
    'a principal_identity_scheme case_spec \<Rightarrow> bool" where
  "expected_of_cell policy rules c \<longleftrightarrow>
     resolve_authorization_expectation policy rules (cs_owner c) (cs_subject c) (cs_resource_family c) (cs_action c) =
       Inr \<lparr>ex_expected_decision = cs_expected_decision c, ex_matched_rule_id = cs_matched_rule_id c,
         ex_reason_codes = cs_reason_codes c\<rparr>"

lemma smap_map: "smap f xs = Inr ys \<Longrightarrow> (\<And>x y. x \<in> set xs \<Longrightarrow> f x = Inr y \<Longrightarrow> g y = h x) \<Longrightarrow> map g ys = map h xs"
  by (induction xs arbitrary: ys) (auto simp: sbind_Inr_iff)

lemma smap_in: "smap f xs = Inr ys \<Longrightarrow> y \<in> set ys \<Longrightarrow> \<exists>x \<in> set xs. f x = Inr y"
  by (induction xs arbitrary: ys) (auto simp: sbind_Inr_iff)

lemma map_principal_pairs:
  fixes selected :: "'a principal_identity_scheme list"
  shows "map (\<lambda>(ow, su). (k, pn_principal_id ow, pn_principal_id su)) (principal_pairs self selected) =
   [(k, i, j). i \<leftarrow> map pn_principal_id selected, j \<leftarrow> map pn_principal_id selected, self \<or> i \<noteq> j]"
proof -
  have row: "map (\<lambda>(ow, su). (k, pn_principal_id ow, pn_principal_id su))
      (filter (\<lambda>(ow, su). self \<or> pn_principal_id ow \<noteq> pn_principal_id su) (map (Pair ow) ys)) =
    [(k, pn_principal_id ow, j). j \<leftarrow> map pn_principal_id ys, self \<or> pn_principal_id ow \<noteq> j]"
    for ow :: "'a principal_identity_scheme" and ys :: "'a principal_identity_scheme list"
    by (induction ys) auto
  have "map (\<lambda>(ow, su). (k, pn_principal_id ow, pn_principal_id su))
      (filter (\<lambda>(ow, su). self \<or> pn_principal_id ow \<noteq> pn_principal_id su) (List.product xs ys)) =
    [(k, i, j). i \<leftarrow> map pn_principal_id xs, j \<leftarrow> map pn_principal_id ys, self \<or> i \<noteq> j]"
    for xs ys :: "'a principal_identity_scheme list"
    by (induction xs) (simp_all add: row)
  from this [of selected selected] show ?thesis by (simp add: principal_pairs_def)
qed

lemma length_principal_pairs: "length (principal_pairs self selected) \<le> pair_count self (length selected)"
proof (cases self)
  case True
  then show ?thesis by (simp add: principal_pairs_def pair_count_def length_product)
next
  case False
  let ?n = "length selected" and ?ne = "\<lambda>ow su. pn_principal_id ow \<noteq> pn_principal_id su"
  have row: "length (filter (?ne ow) selected) \<le> ?n - 1" if "ow \<in> set selected" for ow
  proof -
    have "length (filter (?ne ow) selected) < ?n"
      using that by (auto intro!: length_filter_less)
    then show ?thesis by simp
  qed
  have "length (filter (\<lambda>(ow, su). ?ne ow su) (List.product xs selected)) \<le> length xs * (?n - 1)"
    if "set xs \<subseteq> set selected" for xs
    using that
  proof (induction xs)
    case (Cons x xs)
    have "length (filter (\<lambda>(ow, su). ?ne ow su) (map (Pair x) selected)) = length (filter (?ne x) selected)"
      by (simp add: filter_map o_def)
    with Cons row [of x] show ?case by (simp add: add_mono)
  qed simp
  from this [of selected] False show ?thesis by (simp add: principal_pairs_def pair_count_def)
qed

lemma expand_resource_Inr:
  assumes "expand_resource digest policy rules selected res = Inr cs"
  shows "map cell_of cs = map (\<lambda>(ow, su). (resource_key_of res, pn_principal_id ow, pn_principal_id su))
      (principal_pairs (ap_include_self policy) selected)"
    and "\<And>c. c \<in> set cs \<Longrightarrow> expected_of_cell policy rules c"
    and "length cs \<le> pair_count (ap_include_self policy) (length selected)"
proof -
  from assms have s: "smap (expand_cell digest policy rules (resource_key_of res) (resource_relation_ids res)
      (rs_resource_family res) (resource_action policy res)) (principal_pairs (ap_include_self policy) selected) = Inr cs"
    by (auto simp: expand_resource_def split: if_splits)
  show "map cell_of cs = map (\<lambda>(ow, su). (resource_key_of res, pn_principal_id ow, pn_principal_id su))
      (principal_pairs (ap_include_self policy) selected)"
    by (rule smap_map [OF s]) (auto simp: cell_of_def dest: expand_cell_Inr)
  show "expected_of_cell policy rules c" if "c \<in> set cs" for c
    using smap_in [OF s that] by (auto simp: expected_of_cell_def dest: expand_cell_Inr)
  show "length cs \<le> pair_count (ap_include_self policy) (length selected)"
    using smap_Inr_length [OF s] length_principal_pairs by metis
qed

lemma expand_Inr:
  assumes "expand_authorization_matrix digest is_active policy principals rules resources = Inr cs"
  obtains selected css where
    "map pn_principal_id selected = nonempty_texts (ap_principal_ids policy)"
    and "set selected \<subseteq> {p \<in> set principals. is_active p}"
    and "smap (expand_resource digest policy rules selected) (sort_key rs_resource_key resources) = Inr css"
    and "cs = concat css"
    and "int (pair_count (ap_include_self policy) (length selected) * length resources) \<le> ap_case_budget policy"
    and "ap_case_budget policy \<le> MAX_CASE_BUDGET"
proof -
  let ?by = "\<lambda>i. find (\<lambda>p. pn_principal_id p = i) (rev (filter is_active principals))"
  let ?ids = "nonempty_texts (ap_principal_ids policy)"
  let ?sel = "List.map_filter ?by ?ids"
  from assms obtain css where g: "\<not> list_ex (\<lambda>i. ?by i = None) ?ids"
    "\<not> ap_case_budget policy < int (pair_count (ap_include_self policy) (length ?sel) * length resources)"
    "ap_case_budget policy \<le> MAX_CASE_BUDGET"
    and css: "smap (expand_resource digest policy rules ?sel) (sort_key rs_resource_key resources) = Inr css"
    and cs: "cs = concat css"
    unfolding expand_authorization_matrix_def by (auto simp: Let_def sbind_Inr_iff guards_ok_iff)
  have "map pn_principal_id (List.map_filter ?by ids) = ids"
    if "\<not> list_ex (\<lambda>i. ?by i = None) ids" for ids
    using that
  proof (induction ids)
    case (Cons i ids)
    then obtain p where "?by i = Some p" by (auto simp: list_ex_iff)
    moreover from this have "pn_principal_id p = i" by (auto dest: find_Some_in)
    ultimately show ?case using Cons by (simp add: List.map_filter_simps)
  qed (simp add: List.map_filter_simps)
  from this [OF g(1)] have "map pn_principal_id ?sel = ?ids" .
  moreover have "set ?sel \<subseteq> {p \<in> set principals. is_active p}"
    by (auto simp: set_map_filter dest!: find_Some_in)
  ultimately show ?thesis using that [OF _ _ css cs] g(2,3) by simp
qed

lemma matrix_is_bounded:
  assumes "expand_authorization_matrix digest is_active policy principals rules resources = Inr cs"
  shows "int (length cs) \<le> ap_case_budget policy \<and> ap_case_budget policy \<le> 10000"
proof -
  from assms obtain selected css where
    css: "smap (expand_resource digest policy rules selected) (sort_key rs_resource_key resources) = Inr css"
    and cs: "cs = concat css"
    and budget: "int (pair_count (ap_include_self policy) (length selected) * length resources) \<le> ap_case_budget policy"
      "ap_case_budget policy \<le> MAX_CASE_BUDGET"
    by (rule expand_Inr)
  have "length (concat css) \<le> pair_count (ap_include_self policy) (length selected) * length ress"
    if "smap (expand_resource digest policy rules selected) ress = Inr css" for ress css
    using that
  proof (induction ress arbitrary: css)
    case (Cons res ress)
    then show ?case using expand_resource_Inr(3) by (fastforce simp: sbind_Inr_iff)
  qed simp
  from this [OF css] have "int (length cs) \<le>
      int (pair_count (ap_include_self policy) (length selected) * length resources)"
    unfolding of_nat_le_iff cs by (simp only: length_sort)
  with budget show ?thesis by (simp add: MAX_CASE_BUDGET_def)
qed

section \<open>Properties\<close>

text \<open>C14: Which rule decides a cell is determined by the policy alone. If a decision is returned, it
  is one of \<open>allow\<close>, \<open>deny\<close>, \<open>review\<close>; it is that of an active rule which applies and which no other
  applying rule precedes by priority (then by rule id), or the default of the policy when no rule
  applies; and the order in which the database returns the rules is irrelevant.\<close>

theorem expectation_is_first_match:
  assumes "resolve_authorization_expectation policy rules owner subject family action = Inr e"
  shows "ex_expected_decision e \<in> set DECISIONS \<and>
    (if \<exists>r \<in> set rules. decides family action owner subject r
     then \<exists>r \<in> set rules. decides family action owner subject r \<and> e = rule_expectation r \<and>
       (\<forall>r' \<in> set rules. decides family action owner subject r' \<longrightarrow>
          rl_priority r' < rl_priority r \<or> (rl_priority r' = rl_priority r \<and> rl_rule_id r \<le> rl_rule_id r'))
     else default_expectation policy owner subject = Inr e) \<and>
    (distinct rules \<and> inj_on rl_rule_id (set rules) \<longrightarrow> (\<forall>rules'. set rules' = set rules \<and> distinct rules' \<longrightarrow>
       resolve_authorization_expectation policy rules' owner subject family action = Inr e))"
proof (intro conjI allI impI)
  let ?rs = "sort_key rule_order (filter rl_active rules)"
  from assms obtain hit where fa: "first_applying family action owner subject ?rs = Inr hit"
    and e: "case hit of Some r \<Rightarrow> rl_expected_decision r \<in> set DECISIONS \<and> e = rule_expectation r
      | None \<Rightarrow> default_expectation policy owner subject = Inr e"
    by (rule resolve_Inr)
  show "ex_expected_decision e \<in> set DECISIONS"
    using e by (auto simp: rule_expectation_def dest: default_expectation_valid split: option.splits)
  show "if \<exists>r \<in> set rules. decides family action owner subject r
     then \<exists>r \<in> set rules. decides family action owner subject r \<and> e = rule_expectation r \<and>
       (\<forall>r' \<in> set rules. decides family action owner subject r' \<longrightarrow>
          rl_priority r' < rl_priority r \<or> (rl_priority r' = rl_priority r \<and> rl_rule_id r \<le> rl_rule_id r'))
     else default_expectation policy owner subject = Inr e"
  proof (cases hit)
    case None
    then have "\<not> decides family action owner subject r" if "r \<in> set rules" for r
      using first_applying_None [of family action owner subject ?rs r] that fa by (auto simp: decides_def)
    with None e show ?thesis by auto
  next
    case (Some r)
    with fa first_applying_Some [of family action owner subject ?rs r]
    have "r \<in> set rules" "decides family action owner subject r"
      and least: "\<And>r'. r' \<in> set rules \<Longrightarrow> decides family action owner subject r' \<Longrightarrow> rule_order r \<le> rule_order r'"
      by (auto simp: decides_def)
    moreover have "rl_priority r' < rl_priority r \<or> (rl_priority r' = rl_priority r \<and> rl_rule_id r \<le> rl_rule_id r')"
      if "r' \<in> set rules" "decides family action owner subject r'" for r'
      using least [OF that] by (auto simp: rule_order_def)
    ultimately show ?thesis using Some e by auto
  qed
  fix rules'
  assume "distinct rules \<and> inj_on rl_rule_id (set rules)" "set rules' = set rules \<and> distinct rules'"
  then show "resolve_authorization_expectation policy rules' owner subject family action = Inr e"
    using assms sorted_rules_eq [of rules rules'] by (simp add: resolve_authorization_expectation_def)
qed

text \<open>C24: The expanded matrix is complete and bounded. If the expansion succeeds, its cells are, in
  order, exactly every resource with every ordered pair of the principals the policy names (the equal
  pairs only when the policy includes them); there are at most \<open>case_budget\<close> of them, hence at most
  10000; and the decision recorded in each is the one \<open>resolve_authorization_expectation\<close> returns.\<close>

theorem matrix_is_complete:
  assumes "expand_authorization_matrix digest is_active policy principals rules resources = Inr cs"
  shows "map cell_of cs = [(resource_key_of res, i, j). res \<leftarrow> sort_key rs_resource_key resources,
      i \<leftarrow> nonempty_texts (ap_principal_ids policy), j \<leftarrow> nonempty_texts (ap_principal_ids policy),
      ap_include_self policy \<or> i \<noteq> j] \<and>
    int (length cs) \<le> ap_case_budget policy \<and> ap_case_budget policy \<le> 10000 \<and>
    list_all (expected_of_cell policy rules) cs"
proof -
  from assms obtain selected css where ids: "map pn_principal_id selected = nonempty_texts (ap_principal_ids policy)"
    and css: "smap (expand_resource digest policy rules selected) (sort_key rs_resource_key resources) = Inr css"
    and cs: "cs = concat css"
    by (rule expand_Inr)
  have "map (map cell_of) css = map (\<lambda>res. [(resource_key_of res, i, j).
      i \<leftarrow> nonempty_texts (ap_principal_ids policy), j \<leftarrow> nonempty_texts (ap_principal_ids policy),
      ap_include_self policy \<or> i \<noteq> j]) (sort_key rs_resource_key resources)"
    by (rule smap_map [OF css]) (simp only: expand_resource_Inr(1) map_principal_pairs ids)
  moreover have "expected_of_cell policy rules c" if "c \<in> set cs" for c
    using that smap_in [OF css] expand_resource_Inr(2) by (fastforce simp: cs)
  ultimately show ?thesis
    using matrix_is_bounded [OF assms] by (simp add: cs map_concat list_all_iff)
qed

section \<open>Witnesses\<close>

definition example_principal :: "string \<Rightarrow> string \<Rightarrow> int \<Rightarrow> string \<Rightarrow> principal_snapshot" where
  "example_principal i role rank scope = \<lparr>pn_principal_id = i, pn_profile_id = i @ ''-profile'',
     pn_account_key = i @ ''-account'', pn_name = i, pn_role_key = role, pn_privilege_rank = rank,
     pn_scope_key = scope, pn_labels = [], pn_attributes = [], ps_auth_profile_revision_id = ''rev-1''\<rparr>"

definition example_policy :: authorization_policy where
  "example_policy = \<lparr>ap_policy_key = ''policy-1'', ap_policy_version_id = ''policy-version-1'',
     ap_project_id = ''p'', ap_env_id = ''e'', ap_name = ''orders'', ap_version = 1, ap_lifecycle = ACTIVE,
     ap_principal_ids = [''admin'', ''guest''], ap_principal_snapshots = [],
     ap_resource_family = [], ap_action = ''read'', ap_relation_ids = [''r1'', ''r2''],
     ap_relation_snapshots = [], ap_default_decision = ''review'', ap_same_principal_decision = ''allow'',
     ap_include_self = False, ap_case_budget = 4, ap_request_budget_per_case = 3,
     ap_parent_policy_version_id = [], ap_created_by = [], ap_activated_at = None\<rparr>"

definition example_rule :: "string \<Rightarrow> int \<Rightarrow> json dict \<Rightarrow> string \<Rightarrow> string \<Rightarrow> authorization_rule" where
  "example_rule i priority subject scope decision = \<lparr>rl_rule_id = i,
     rl_policy_version_id = ''policy-version-1'', rl_priority = priority, rl_subject_selector = subject,
     rl_owner_selector = [], rl_scope_relation = scope, rl_resource_family = [], rl_action = ''read'',
     rl_expected_decision = decision, rl_reason_codes = [], rl_description = [], rl_active = True\<rparr>"

definition example_rules :: "authorization_rule list" where
  "example_rules = [
     example_rule ''rule-1'' 10 [] ''different'' ''deny'',
     example_rule ''rule-2'' 50 [(''min_privilege_rank'', JInt 90)] ''any'' ''allow'']"

definition example_principals :: "principal_snapshot list" where
  "example_principals = [example_principal ''admin'' ''admin'' 99 ''hq'', example_principal ''guest'' ''guest'' 0 ''shop'']"

definition example_resources :: "matrix_resource list" where
  "example_resources = [
     \<lparr>rs_resource_key = ''2:3'', rs_relation_ids = [''r2''], rs_resource_family = ''orders'', rs_action = ''read''\<rparr>,
     \<lparr>rs_resource_key = ''1:3'', rs_relation_ids = [''r1''], rs_resource_family = ''orders'', rs_action = ''read''\<rparr>]"

lemma example_expectation:
  "resolve_authorization_expectation example_policy example_rules
     (example_principal ''guest'' ''guest'' 0 ''shop'') (example_principal ''admin'' ''admin'' 99 ''hq'')
     ''orders'' ''read'' =
   Inr \<lparr>ex_expected_decision = ''allow'', ex_matched_rule_id = ''rule-2'', ex_reason_codes = []\<rparr>"
  by code_simp

theorem expectation_is_first_match_witness:
  "\<exists>r \<in> set example_rules. decides ''orders'' ''read'' (example_principal ''guest'' ''guest'' 0 ''shop'')
       (example_principal ''admin'' ''admin'' 99 ''hq'') r \<and> rl_rule_id r = ''rule-2'' \<and>
     resolve_authorization_expectation example_policy (rev example_rules)
       (example_principal ''guest'' ''guest'' 0 ''shop'') (example_principal ''admin'' ''admin'' 99 ''hq'')
       ''orders'' ''read'' =
     Inr \<lparr>ex_expected_decision = ''allow'', ex_matched_rule_id = ''rule-2'', ex_reason_codes = []\<rparr>"
proof -
  note t = expectation_is_first_match [OF example_expectation]
  have d: "default_expectation example_policy (example_principal ''guest'' ''guest'' 0 ''shop'')
      (example_principal ''admin'' ''admin'' 99 ''hq'') \<noteq>
    Inr \<lparr>ex_expected_decision = ''allow'', ex_matched_rule_id = ''rule-2'', ex_reason_codes = []\<rparr>"
    by code_simp
  have rules: "distinct example_rules" "inj_on rl_rule_id (set example_rules)" "distinct (rev example_rules)"
    by (simp_all add: example_rules_def example_rule_def inj_on_def)
  show ?thesis
    using t [THEN conjunct2, THEN conjunct1] t [THEN conjunct2, THEN conjunct2, rule_format, of "rev example_rules"] d rules
    by (auto simp: rule_expectation_def split: if_splits)
qed

theorem matrix_is_complete_witness:
  "\<exists>cs. expand_authorization_matrix (\<lambda>_. ''d'') (\<lambda>_. True) example_policy example_principals [hd example_rules]
       [hd example_resources] = Inr cs \<and> length cs = 2 \<and>
     cell_of (hd cs) = (''2:3'', ''admin'', ''guest'') \<and> list_all (expected_of_cell example_policy [hd example_rules]) cs"
proof -
  have "case expand_authorization_matrix (\<lambda>_. ''d'') (\<lambda>_. True) example_policy example_principals [hd example_rules]
       [hd example_resources] of Inr cs \<Rightarrow> length cs = 2 \<and> cell_of (hd cs) = (''2:3'', ''admin'', ''guest'') | Inl _ \<Rightarrow> False"
    by code_simp
  then obtain cs where cs: "expand_authorization_matrix (\<lambda>_. ''d'') (\<lambda>_. True) example_policy example_principals
      [hd example_rules] [hd example_resources] = Inr cs" "length cs = 2" "cell_of (hd cs) = (''2:3'', ''admin'', ''guest'')"
    by (auto split: sum.splits)
  with matrix_is_complete [OF cs(1)] show ?thesis by blast
qed

end
