(* ===== verification/AuthorizationPolicies.thy ===== *)
theory AuthorizationPolicies
  imports AuthorizationExpansion Lifecycle
begin

text \<open>
  \<open>apiAnalysis/tool/authorization_policy.py\<close>, the services: creating principals and policy
  versions, adding rules, activating and cloning, on the collections \<open>policy_db\<close> holds.

  Parameters: \<open>digest\<close> is SHA-256 of the canonical JSON dump, \<open>parse\<close> is \<open>bson.ObjectId\<close>, the
  \<open>new_...\<close> arguments are the ids \<open>uuid4\<close> gives. \<open>activate\<close> makes two database writes, the archiving
  of the other active version and the promotion of the draft; they are two definitions, and
  \<open>policy_step\<close> lets anything happen between them.
\<close>

section \<open>State\<close>

record auth_profile =
  pf_profile_id :: string
  pf_project_id :: string
  pf_env_id :: string
  pf_account_key :: string
  pf_current_revision_id :: string
  pf_active :: bool

record policy_db =
  ad_profiles :: "auth_profile list"
  ad_principals :: "authorization_principal list"
  ad_policies :: "authorization_policy list"
  ad_rules :: "authorization_rule list"
  ad_relations :: "parameter_relation list"

section \<open>Creating principals and policy versions\<close>

record principal_request =
  nq_project_id :: string
  nq_env_id :: string
  nq_profile_id :: string
  nq_name :: string
  nq_role_key :: string
  nq_privilege_rank :: int
  nq_scope_key :: string
  nq_labels :: "string list"
  nq_attributes :: "json dict"

definition active_profile :: "string \<Rightarrow> string \<Rightarrow> string \<Rightarrow> policy_db \<Rightarrow> auth_profile option" where
  "active_profile profile_id project env s = find (\<lambda>p. pf_profile_id p = profile_id \<and>
     pf_project_id p = project \<and> pf_env_id p = env \<and> pf_active p) (ad_profiles s)"

text \<open>The three unique indexes of the collection.\<close>

definition principal_clashes :: "authorization_principal \<Rightarrow> authorization_principal \<Rightarrow> bool" where
  "principal_clashes p q \<longleftrightarrow> pn_principal_id p = pn_principal_id q \<or>
     (pn_project_id p = pn_project_id q \<and> pn_env_id p = pn_env_id q \<and>
      (pn_name p = pn_name q \<or> pn_profile_id p = pn_profile_id q))"

definition create_authorization_principal :: "string \<Rightarrow> principal_request \<Rightarrow> policy_db \<Rightarrow>
    (policy_db \<times> authorization_principal) result_of" where
  "create_authorization_principal new_id req s =
     (let name = py_strip (nq_name req); role_key = py_strip (nq_role_key req);
          scope_key = py_strip (nq_scope_key req);
          labels = sorted_set (nonempty_texts (nq_labels req)) in
      sbind (guards [
        (name = [], ValueError ''authorization principal name is required''),
        (list_ex (\<lambda>v. 120 < length v) ([name, role_key, scope_key] @ labels),
         ValueError ''authorization principal labels are limited to 120 characters''),
        (100 < length labels, ValueError ''authorization principal is limited to 100 labels'')]) (\<lambda>_.
      case active_profile (nq_profile_id req) (nq_project_id req) (nq_env_id req) s of
        None \<Rightarrow> Inl (ValueError ''active project authentication profile not found'')
      | Some profile \<Rightarrow>
          sbind (validate_public_attributes (nq_attributes req)) (\<lambda>attributes.
          let principal = \<lparr>pn_principal_id = ''principal-'' @ new_id, pn_profile_id = pf_profile_id profile,
                pn_account_key = pf_account_key profile, pn_name = name, pn_role_key = role_key,
                pn_privilege_rank = nq_privilege_rank req, pn_scope_key = scope_key, pn_labels = labels,
                pn_attributes = attributes, pn_project_id = nq_project_id req, pn_env_id = nq_env_id req,
                pn_active = True\<rparr>
          in if list_ex (principal_clashes principal) (ad_principals s)
             then Inl (NotUniqueError ''authorizationPrincipal'')
             else Inr (s\<lparr>ad_principals := ad_principals s @ [principal]\<rparr>, principal))))"

record policy_request =
  vq_project_id :: string
  vq_env_id :: string
  vq_name :: string
  vq_principal_ids :: "string list"
  vq_relation_ids :: "string list"
  vq_resource_family :: string
  vq_action :: string
  vq_default_decision :: string
  vq_same_principal_decision :: string
  vq_include_self :: bool
  vq_case_budget :: int
  vq_request_budget_per_case :: int
  vq_created_by :: string
  vq_policy_key :: string
  vq_parent_policy_version_id :: string

definition latest_version :: "string \<Rightarrow> authorization_policy list \<Rightarrow> authorization_policy option" where
  "latest_version key ps = (case sort_key (\<lambda>p. - ap_version p) (filter (\<lambda>p. ap_policy_key p = key) ps) of
     [] \<Rightarrow> None | p # _ \<Rightarrow> Some p)"

definition policy_clashes :: "authorization_policy \<Rightarrow> authorization_policy \<Rightarrow> bool" where
  "policy_clashes p q \<longleftrightarrow> ap_policy_version_id p = ap_policy_version_id q \<or>
     (ap_policy_key p = ap_policy_key q \<and> ap_version p = ap_version q)"

text \<open>
  \<open>seen\<close> is the latest version the look-up returned: another writer may have saved a version since,
  in which case the unique index on key and number refuses the insertion.
\<close>

definition new_policy :: "string \<Rightarrow> string \<Rightarrow> policy_request \<Rightarrow> authorization_policy option \<Rightarrow> authorization_policy" where
  "new_policy new_key new_id req seen = \<lparr>
     ap_policy_key = str_or (vq_policy_key req) (''policy-'' @ new_key),
     ap_policy_version_id = ''policy-version-'' @ new_id, ap_project_id = vq_project_id req,
     ap_env_id = vq_env_id req, ap_name = py_strip (vq_name req),
     ap_version = (case seen of Some p \<Rightarrow> ap_version p + 1 | None \<Rightarrow> 1),
     ap_lifecycle = DRAFT, ap_principal_ids = dedupe (nonempty_texts (vq_principal_ids req)),
     ap_principal_snapshots = [], ap_resource_family = vq_resource_family req,
     ap_action = str_or (vq_action req) ''read'',
     ap_relation_ids = dedupe (nonempty_texts (vq_relation_ids req)), ap_relation_snapshots = [],
     ap_default_decision = vq_default_decision req,
     ap_same_principal_decision = vq_same_principal_decision req, ap_include_self = vq_include_self req,
     ap_case_budget = vq_case_budget req, ap_request_budget_per_case = vq_request_budget_per_case req,
     ap_parent_policy_version_id = vq_parent_policy_version_id req, ap_created_by = vq_created_by req,
     ap_activated_at = None\<rparr>"

definition policy_request_guards :: "policy_request \<Rightarrow> guard list" where
  "policy_request_guards req = [
     (py_strip (vq_name req) = [], ValueError ''authorization policy name is required''),
     (dedupe (nonempty_texts (vq_principal_ids req)) = [] \<or> dedupe (nonempty_texts (vq_relation_ids req)) = [],
      ValueError ''authorization policy requires explicit principals and relations''),
     (vq_default_decision req \<notin> set DECISIONS \<or> vq_same_principal_decision req \<notin> set DECISIONS,
      ValueError ''authorization policy decisions are invalid''),
     (\<not> (1 \<le> vq_case_budget req \<and> vq_case_budget req \<le> MAX_CASE_BUDGET),
      ValueError ''authorization policy case budget is invalid''),
     (\<not> (2 \<le> vq_request_budget_per_case req \<and> vq_request_budget_per_case req \<le> MAX_REQUESTS_PER_CASE),
      ValueError ''authorization request budget per case is invalid'')]"

definition save_policy :: "authorization_policy \<Rightarrow> policy_db \<Rightarrow> (policy_db \<times> authorization_policy) result_of" where
  "save_policy policy s = (if list_ex (policy_clashes policy) (ad_policies s)
     then Inl (NotUniqueError ''authorizationPolicy'')
     else Inr (s\<lparr>ad_policies := ad_policies s @ [policy]\<rparr>, policy))"

definition create_policy_version_seeing :: "authorization_policy option \<Rightarrow> string \<Rightarrow> string \<Rightarrow> policy_request \<Rightarrow>
    policy_db \<Rightarrow> (policy_db \<times> authorization_policy) result_of" where
  "create_policy_version_seeing seen new_key new_id req s =
     sbind (guards (policy_request_guards req)) (\<lambda>_. save_policy (new_policy new_key new_id req seen) s)"

definition create_authorization_policy_version :: "string \<Rightarrow> string \<Rightarrow> policy_request \<Rightarrow> policy_db \<Rightarrow>
    (policy_db \<times> authorization_policy) result_of" where
  "create_authorization_policy_version new_key new_id req s =
     create_policy_version_seeing
       (latest_version (str_or (vq_policy_key req) (''policy-'' @ new_key)) (ad_policies s))
       new_key new_id req s"

section \<open>Rules\<close>

record rule_request =
  uq_priority :: int
  uq_subject_selector :: "json dict"
  uq_owner_selector :: "json dict"
  uq_scope_relation :: string
  uq_resource_family :: string
  uq_action :: string
  uq_expected_decision :: string
  uq_reason_codes :: "string list"
  uq_description :: string

definition policy_version :: "string \<Rightarrow> policy_db \<Rightarrow> authorization_policy option" where
  "policy_version vid s = coll_get ap_policy_version_id vid (ad_policies s)"

definition rule_guards :: "authorization_policy \<Rightarrow> rule_request \<Rightarrow> guard list" where
  "rule_guards policy req = [
     (ap_lifecycle policy \<noteq> DRAFT, ValueError ''active authorization policy versions are immutable''),
     (uq_scope_relation req \<notin> set SCOPE_RELATIONS,
      ValueError ''authorization rule scope relation is invalid''),
     (uq_expected_decision req \<notin> set DECISIONS, ValueError ''authorization rule decision is invalid'')]"

definition add_authorization_policy_rule :: "string \<Rightarrow> string \<Rightarrow> rule_request \<Rightarrow> policy_db \<Rightarrow>
    (policy_db \<times> authorization_rule) result_of" where
  "add_authorization_policy_rule new_id vid req s = (case policy_version vid s of
     None \<Rightarrow> Inl (ValueError ''authorization policy not found'')
   | Some policy \<Rightarrow>
       sbind (guards (rule_guards policy req)) (\<lambda>_.
       sbind (validate_selector (uq_subject_selector req)) (\<lambda>subject_selector.
       sbind (validate_selector (uq_owner_selector req)) (\<lambda>owner_selector.
       let rule = \<lparr>rl_rule_id = ''rule-'' @ new_id, rl_policy_version_id = ap_policy_version_id policy,
             rl_priority = uq_priority req, rl_subject_selector = subject_selector,
             rl_owner_selector = owner_selector, rl_scope_relation = uq_scope_relation req,
             rl_resource_family = uq_resource_family req, rl_action = str_or (uq_action req) ''read'',
             rl_expected_decision = uq_expected_decision req,
             rl_reason_codes = nonempty_texts (uq_reason_codes req),
             rl_description = take 1000 (uq_description req), rl_active = True\<rparr>
       in if rl_rule_id rule \<in> rl_rule_id ` set (ad_rules s) then Inl (NotUniqueError ''authorizationPolicyRule'')
          else Inr (s\<lparr>ad_rules := ad_rules s @ [rule]\<rparr>, rule)))))"

section \<open>Activation\<close>

definition authorization_relation_descriptor :: "(json \<Rightarrow> string) \<Rightarrow> parameter_relation \<Rightarrow> json dict" where
  "authorization_relation_descriptor digest r =
     (let value = [
        (''relation_id'', JStr (pr_id r)),
        (''project_id'', JStr (pr_project_id r)),
        (''env_id'', JStr (pr_env_id r)),
        (''source_pathid'', JInt (pr_res_pathid r)),
        (''consumer_pathid'', JInt (pr_req_pathid r)),
        (''canonical_name'', JStr (pr_parameter r)),
        (''source_parameter'', JStr (pr_source_parameter r)),
        (''target_parameter'', JStr (pr_target_parameter r)),
        (''source_locator'', JObj (pr_source_locator r)),
        (''target_locator'', JObj (pr_target_locator r)),
        (''target_position'', JStr (pr_target_position r)),
        (''schema_fingerprint'', JStr (pr_schema_fingerprint r))]
      in dict_set ''relation_sha256'' (JStr (digest (JObj value))) value)"

definition relation_guards :: "authorization_policy \<Rightarrow> parameter_relation \<Rightarrow> guard list" where
  "relation_guards policy r = [
     (pr_project_id r \<noteq> ap_project_id policy,
      ValueError ''authorization policy relation belongs to another project''),
     (pr_env_id r \<noteq> [] \<and> pr_env_id r \<noteq> ap_env_id policy,
      ValueError ''authorization policy relation belongs to another environment''),
     (pr_source_locator r = [] \<or> pr_target_locator r = [],
      ValueError ''authorization policy requires located parameter relations''),
     (\<not> pr_verified r \<and> pr_manual_decision r \<noteq> ''trusted'',
      ValueError ''authorization policy requires verified or explicitly trusted relations'')]"

definition freeze_principal :: "authorization_policy \<Rightarrow> policy_db \<Rightarrow> authorization_principal \<Rightarrow>
    principal_snapshot result_of" where
  "freeze_principal policy s p =
     (case active_profile (pn_profile_id p) (ap_project_id policy) (ap_env_id policy) s of
        Some profile \<Rightarrow>
          if pf_account_key profile \<noteq> pn_account_key p
          then Inl (ValueError ''authorization principal has no matching active authentication profile'')
          else Inr \<lparr>pn_principal_id = pn_principal_id p, pn_profile_id = pn_profile_id p,
            pn_account_key = pn_account_key p, pn_name = pn_name p, pn_role_key = pn_role_key p,
            pn_privilege_rank = pn_privilege_rank p, pn_scope_key = pn_scope_key p,
            pn_labels = sort (pn_labels p), pn_attributes = pn_attributes p,
            ps_auth_profile_revision_id = pf_current_revision_id profile\<rparr>
      | None \<Rightarrow> Inl (ValueError ''authorization principal has no matching active authentication profile''))"

definition policy_principals :: "authorization_policy \<Rightarrow> policy_db \<Rightarrow> authorization_principal list" where
  "policy_principals policy s = filter (\<lambda>p. pn_principal_id p \<in> set (ap_principal_ids policy) \<and>
     pn_project_id p = ap_project_id policy \<and> pn_env_id p = ap_env_id policy \<and> pn_active p) (ad_principals s)"

definition policy_relations :: "oid list \<Rightarrow> policy_db \<Rightarrow> parameter_relation list" where
  "policy_relations ids s = filter (\<lambda>r. pr_id r \<in> set ids) (ad_relations s)"

text \<open>Everything \<open>activate\<close> computes before it writes: the frozen principals and relations.\<close>

definition prepare_activation :: "(json \<Rightarrow> string) \<Rightarrow> (string \<Rightarrow> oid option) \<Rightarrow> authorization_policy \<Rightarrow>
    policy_db \<Rightarrow> (principal_snapshot list \<times> json dict list) result_of" where
  "prepare_activation digest parse policy s =
     (let principals = policy_principals policy s in
      sbind (guards [
        (ap_lifecycle policy = ARCHIVED, ValueError ''archived authorization policy cannot be activated''),
        (list_ex (\<lambda>i. i \<notin> pn_principal_id ` set principals) (ap_principal_ids policy),
         ValueError ''authorization policy has unavailable principals''),
        (list_ex (\<lambda>i. parse i = None) (ap_relation_ids policy),
         ValueError ''authorization policy contains an invalid relation id'')]) (\<lambda>_.
      let requested = List.map_filter parse (ap_relation_ids policy);
          relations = policy_relations requested s in
      sbind (guards [(list_ex (\<lambda>i. i \<notin> pr_id ` set relations) requested,
        ValueError ''authorization policy has unavailable relations'')]) (\<lambda>_.
      sbind (guards (concat (map (relation_guards policy) relations))) (\<lambda>_.
      sbind (smap (freeze_principal policy s) (sort_key pn_principal_id principals)) (\<lambda>snapshots.
      Inr (snapshots, map (authorization_relation_descriptor digest) (sort_key pr_id relations)))))))"

text \<open>The first write: archive whatever other version of the key is active.\<close>

definition archive_others :: "authorization_policy \<Rightarrow> policy_db \<Rightarrow> policy_db" where
  "archive_others policy s = s\<lparr>ad_policies := update_where
     (\<lambda>p. ap_policy_key p = ap_policy_key policy \<and> ap_lifecycle p = ACTIVE \<and>
        ap_policy_version_id p \<noteq> ap_policy_version_id policy)
     (\<lambda>p. p\<lparr>ap_lifecycle := ARCHIVED\<rparr>) (ad_policies s)\<rparr>"

text \<open>
  The second write: a compare-and-set on the draft, which the partial unique index on the active
  version of a key refuses when there is one already.
\<close>

definition promote :: "time \<Rightarrow> string \<Rightarrow> principal_snapshot list \<times> json dict list \<Rightarrow> policy_db \<Rightarrow>
    policy_db result_of" where
  "promote now vid frozen s = (case policy_version vid s of
     Some d \<Rightarrow>
       if ap_lifecycle d = DRAFT \<and> exists_where (\<lambda>p. ap_policy_key p = ap_policy_key d \<and>
            ap_lifecycle p = ACTIVE) (ad_policies s)
       then Inl (NotUniqueError ''authorizationPolicy'')
       else Inr (s\<lparr>ad_policies := coll_cas ap_policy_version_id vid (\<lambda>p. ap_lifecycle p = DRAFT)
         (\<lambda>p. p\<lparr>ap_lifecycle := ACTIVE, ap_principal_snapshots := fst frozen,
            ap_relation_snapshots := snd frozen, ap_activated_at := Some now\<rparr>) (ad_policies s)\<rparr>)
   | None \<Rightarrow> Inr s)"

definition activate_authorization_policy :: "(json \<Rightarrow> string) \<Rightarrow> (string \<Rightarrow> oid option) \<Rightarrow> time \<Rightarrow> string \<Rightarrow>
    policy_db \<Rightarrow> (policy_db \<times> authorization_policy option) result_of" where
  "activate_authorization_policy digest parse now vid s = (case policy_version vid s of
     None \<Rightarrow> Inl (ValueError ''authorization policy not found'')
   | Some policy \<Rightarrow>
       sbind (prepare_activation digest parse policy s) (\<lambda>frozen.
       sbind (promote now vid frozen (archive_others policy s)) (\<lambda>s'.
       Inr (s', policy_version vid s'))))"

section \<open>Cloning\<close>

definition clone_request :: "authorization_policy \<Rightarrow> string \<Rightarrow> policy_request" where
  "clone_request source created_by = \<lparr>
     vq_project_id = ap_project_id source, vq_env_id = ap_env_id source, vq_name = ap_name source,
     vq_principal_ids = ap_principal_ids source, vq_relation_ids = ap_relation_ids source,
     vq_resource_family = ap_resource_family source, vq_action = str_or (ap_action source) ''read'',
     vq_default_decision = str_or (ap_default_decision source) ''review'',
     vq_same_principal_decision = str_or (ap_same_principal_decision source) ''allow'',
     vq_include_self = ap_include_self source,
     vq_case_budget = (if ap_case_budget source = 0 then 100 else ap_case_budget source),
     vq_request_budget_per_case =
       (if ap_request_budget_per_case source = 0 then 3 else ap_request_budget_per_case source),
     vq_created_by = created_by, vq_policy_key = ap_policy_key source,
     vq_parent_policy_version_id = ap_policy_version_id source\<rparr>"

definition clone_rule_request :: "authorization_rule \<Rightarrow> rule_request" where
  "clone_rule_request rule = \<lparr>
     uq_priority = rl_priority rule, uq_subject_selector = rl_subject_selector rule,
     uq_owner_selector = rl_owner_selector rule, uq_scope_relation = str_or (rl_scope_relation rule) ''any'',
     uq_resource_family = rl_resource_family rule, uq_action = str_or (rl_action rule) ''read'',
     uq_expected_decision = rl_expected_decision rule, uq_reason_codes = rl_reason_codes rule,
     uq_description = rl_description rule\<rparr>"

text \<open>The loop over the rules; an error leaves the rules added so far, and the new version, behind.\<close>

fun clone_rules :: "(nat \<Rightarrow> string) \<Rightarrow> nat \<Rightarrow> string \<Rightarrow> authorization_rule list \<Rightarrow> policy_db \<Rightarrow>
    policy_db \<times> unit result_of" where
  "clone_rules fresh n vid [] s = (s, Inr ())"
| "clone_rules fresh n vid (rule # rules) s =
     (case add_authorization_policy_rule (fresh n) vid (clone_rule_request rule) s of
        Inl e \<Rightarrow> (s, Inl e)
      | Inr (s', _) \<Rightarrow> clone_rules fresh (Suc n) vid rules s')"

definition rules_by_priority :: "string \<Rightarrow> policy_db \<Rightarrow> authorization_rule list" where
  "rules_by_priority vid s =
     sort_key (\<lambda>r. - rl_priority r) (filter (\<lambda>r. rl_policy_version_id r = vid) (ad_rules s))"

definition clone_authorization_policy_version :: "(nat \<Rightarrow> string) \<Rightarrow> string \<Rightarrow> string \<Rightarrow> string \<Rightarrow> policy_db \<Rightarrow>
    policy_db \<times> authorization_policy result_of" where
  "clone_authorization_policy_version fresh new_id vid created_by s = (case policy_version vid s of
     None \<Rightarrow> (s, Inl (ValueError ''authorization policy not found''))
   | Some source \<Rightarrow>
       (case create_authorization_policy_version [] new_id (clone_request source created_by) s of
          Inl e \<Rightarrow> (s, Inl e)
        | Inr (s1, clone) \<Rightarrow>
            (case clone_rules fresh 0 (ap_policy_version_id clone)
                (rules_by_priority (ap_policy_version_id source) s1) s1 of
               (s2, Inl e) \<Rightarrow> (s2, Inl e)
             | (s2, Inr _) \<Rightarrow> (s2, Inr clone))))"

section \<open>The services interleaved\<close>

text \<open>
  \<open>version\<close> may have looked the latest version up before other steps, and \<open>promote\<close> writes what
  \<open>prepare_activation\<close> computed on some earlier state; profiles and relations change at any time.
  Adding a rule is one step.
\<close>

inductive policy_step :: "(json \<Rightarrow> string) \<Rightarrow> (string \<Rightarrow> oid option) \<Rightarrow> policy_db \<Rightarrow> policy_db \<Rightarrow> bool"
  for digest :: "json \<Rightarrow> string" and parse :: "string \<Rightarrow> oid option" where
  create_principal: "create_authorization_principal i nreq s = Inr (s', p) \<Longrightarrow> policy_step digest parse s s'"
| create_version: "create_policy_version_seeing seen k i vreq s = Inr (s', v) \<Longrightarrow> policy_step digest parse s s'"
| add_rule: "add_authorization_policy_rule i vid ureq s = Inr (s', r) \<Longrightarrow> policy_step digest parse s s'"
| archive: "policy_step digest parse s (archive_others v s)"
| promotion: "prepare_activation digest parse v s0 = Inr frozen \<Longrightarrow> promote now (ap_policy_version_id v) frozen s = Inr s' \<Longrightarrow>
    policy_step digest parse s s'"
| environment: "policy_step digest parse s (s\<lparr>ad_profiles := ps, ad_relations := rels\<rparr>)"

definition policy_steps :: "(json \<Rightarrow> string) \<Rightarrow> (string \<Rightarrow> oid option) \<Rightarrow> policy_db \<Rightarrow> policy_db \<Rightarrow> bool" where
  "policy_steps digest parse = (policy_step digest parse)\<^sup>*\<^sup>*"

section \<open>The invariant\<close>

definition rule_ok :: "authorization_rule \<Rightarrow> bool" where
  "rule_ok r \<longleftrightarrow> rl_active r \<and> validate_selector (rl_subject_selector r) = Inr (rl_subject_selector r) \<and>
     validate_selector (rl_owner_selector r) = Inr (rl_owner_selector r) \<and>
     rl_scope_relation r \<in> set SCOPE_RELATIONS \<and> rl_expected_decision r \<in> set DECISIONS \<and>
     rl_action r \<noteq> [] \<and> nonempty_texts (rl_reason_codes r) = rl_reason_codes r \<and>
     length (rl_description r) \<le> 1000"

definition policy_ok :: "authorization_policy \<Rightarrow> bool" where
  "policy_ok p \<longleftrightarrow> ap_policy_key p \<noteq> [] \<and> ap_name p \<noteq> [] \<and> ap_principal_ids p \<noteq> [] \<and> distinct (ap_principal_ids p) \<and>
     [] \<notin> set (ap_principal_ids p) \<and> ap_relation_ids p \<noteq> [] \<and> distinct (ap_relation_ids p) \<and>
     ap_default_decision p \<in> set DECISIONS \<and> ap_same_principal_decision p \<in> set DECISIONS \<and>
     1 \<le> ap_case_budget p \<and> ap_case_budget p \<le> MAX_CASE_BUDGET \<and>
     2 \<le> ap_request_budget_per_case p \<and> ap_request_budget_per_case p \<le> MAX_REQUESTS_PER_CASE \<and>
     ap_action p \<noteq> [] \<and> (ap_lifecycle p = DRAFT \<longleftrightarrow> ap_activated_at p = None)"

definition one_active :: "authorization_policy list \<Rightarrow> bool" where
  "one_active ps \<longleftrightarrow> (\<forall>p \<in> set ps. \<forall>q \<in> set ps. ap_lifecycle p = ACTIVE \<and> ap_lifecycle q = ACTIVE \<and>
     ap_policy_key p = ap_policy_key q \<longrightarrow> ap_policy_version_id p = ap_policy_version_id q)"

definition version_number :: "authorization_policy \<Rightarrow> string \<times> int" where
  "version_number p = (ap_policy_key p, ap_version p)"

definition policy_inv :: "policy_db \<Rightarrow> bool" where
  "policy_inv s \<longleftrightarrow> coll_ok ap_policy_version_id (ad_policies s) \<and> coll_ok version_number (ad_policies s) \<and>
     one_active (ad_policies s) \<and> list_all policy_ok (ad_policies s) \<and>
     coll_ok rl_rule_id (ad_rules s) \<and> list_all rule_ok (ad_rules s) \<and>
     rl_policy_version_id ` set (ad_rules s) \<subseteq> ap_policy_version_id ` set (ad_policies s)"

fun legal_policy :: "policy_lifecycle \<Rightarrow> policy_lifecycle \<Rightarrow> bool" where
  "legal_policy DRAFT ACTIVE = True"
| "legal_policy ACTIVE ARCHIVED = True"
| "legal_policy _ _ = False"

interpretation policy_life: lifecycle legal_policy "\<lambda>l. l = ARCHIVED"
  by unfold_locales (auto elim: legal_policy.elims)

section \<open>Facts: what each service writes\<close>

lemma save_policy_Inr: "save_policy p s = Inr (s', v) \<Longrightarrow> v = p \<and> s' = s\<lparr>ad_policies := ad_policies s @ [p]\<rparr> \<and>
    (\<forall>q \<in> set (ad_policies s). \<not> policy_clashes p q)"
  by (auto simp: save_policy_def list_ex_iff split: if_splits)

lemma create_version_Inr:
  assumes "create_policy_version_seeing seen k i req s = Inr (s', v)"
  shows "v = new_policy k i req seen" "s' = s\<lparr>ad_policies := ad_policies s @ [v]\<rparr>"
    "\<And>q. q \<in> set (ad_policies s) \<Longrightarrow> \<not> policy_clashes v q"
    "list_all (\<lambda>g. \<not> fst g) (policy_request_guards req)"
  using assms by (auto simp: create_policy_version_seeing_def sbind_Inr_iff guards_ok_iff dest: save_policy_Inr)

lemma str_or_ne: "b \<noteq> [] \<Longrightarrow> str_or a b \<noteq> []"
  by (simp add: str_or_def)

lemma new_policy_ok:
  assumes "list_all (\<lambda>g. \<not> fst g) (policy_request_guards req)"
  shows "policy_ok (new_policy k i req seen)"
  using assms
  by (auto simp: policy_ok_def new_policy_def policy_request_guards_def str_or_def nonempty_texts_def
      MAX_CASE_BUDGET_def MAX_REQUESTS_PER_CASE_def)

lemma add_rule_Inr:
  assumes "add_authorization_policy_rule i vid req s = Inr (s', r)"
  obtains policy where "policy_version vid s = Some policy" "ap_lifecycle policy = DRAFT"
    and "s' = s\<lparr>ad_rules := ad_rules s @ [r]\<rparr>" "rl_policy_version_id r = vid"
    and "rl_rule_id r \<notin> rl_rule_id ` set (ad_rules s)" "rule_ok r"
    and "validate_selector (uq_subject_selector req) = Inr (rl_subject_selector r)"
    and "validate_selector (uq_owner_selector req) = Inr (rl_owner_selector r)"
    and "rl_priority r = uq_priority req" "rl_scope_relation r = uq_scope_relation req"
    and "rl_resource_family r = uq_resource_family req" "rl_action r = str_or (uq_action req) ''read''"
    and "rl_expected_decision r = uq_expected_decision req"
    and "rl_reason_codes r = nonempty_texts (uq_reason_codes req)"
proof -
  from assms obtain policy where p: "policy_version vid s = Some policy"
    by (auto simp: add_authorization_policy_rule_def split: option.splits)
  then have vid: "ap_policy_version_id policy = vid"
    by (auto simp: policy_version_def dest: coll_get_Some)
  show ?thesis
    using assms p vid validate_selector_again that [OF p]
    by (auto simp: add_authorization_policy_rule_def sbind_Inr_iff guards_ok_iff rule_guards_def Let_def
        rule_ok_def str_or_def split: if_splits)
qed

lemma create_principal_Inr:
  "create_authorization_principal i req s = Inr (s', p) \<Longrightarrow>
     ad_policies s' = ad_policies s \<and> ad_rules s' = ad_rules s"
  by (auto simp: create_authorization_principal_def sbind_Inr_iff Let_def split: option.splits if_splits)

definition promoted :: "time \<Rightarrow> principal_snapshot list \<times> json dict list \<Rightarrow> authorization_policy \<Rightarrow>
    authorization_policy" where
  "promoted now frozen p = p\<lparr>ap_lifecycle := ACTIVE, ap_principal_snapshots := fst frozen,
     ap_relation_snapshots := snd frozen, ap_activated_at := Some now\<rparr>"

lemma promote_Inr:
  assumes "promote now vid frozen s = Inr s'" "coll_ok ap_policy_version_id (ad_policies s)"
  shows "s' = s\<lparr>ad_policies := update_where (\<lambda>p. ap_policy_version_id p = vid \<and> ap_lifecycle p = DRAFT)
      (promoted now frozen) (ad_policies s)\<rparr>"
    and "\<And>p q. p \<in> set (ad_policies s) \<Longrightarrow> ap_policy_version_id p = vid \<Longrightarrow> ap_lifecycle p = DRAFT \<Longrightarrow>
      q \<in> set (ad_policies s) \<Longrightarrow> ap_policy_key q = ap_policy_key p \<Longrightarrow> ap_lifecycle q \<noteq> ACTIVE"
proof -
  have none: "update_where (\<lambda>p. ap_policy_version_id p = vid \<and> ap_lifecycle p = DRAFT) f (ad_policies s) =
      ad_policies s" if "policy_version vid s = None" for f
    using that by (intro update_where_none) (auto simp: policy_version_def coll_get_None exists_where_iff)
  show "s' = s\<lparr>ad_policies := update_where (\<lambda>p. ap_policy_version_id p = vid \<and> ap_lifecycle p = DRAFT)
      (promoted now frozen) (ad_policies s)\<rparr>"
  proof (cases "policy_version vid s")
    case None
    with assms(1) none [OF None] show ?thesis by (simp add: promote_def)
  next
    case (Some d)
    have "promoted now frozen = (\<lambda>p. p\<lparr>ap_lifecycle := ACTIVE, ap_principal_snapshots := fst frozen,
        ap_relation_snapshots := snd frozen, ap_activated_at := Some now\<rparr>)"
      by (simp add: promoted_def fun_eq_iff)
    with assms(1) Some show ?thesis
      by (simp add: promote_def coll_cas_def split: if_splits)
  qed
  fix p q
  assume p: "p \<in> set (ad_policies s)" "ap_policy_version_id p = vid" "ap_lifecycle p = DRAFT"
    and q: "q \<in> set (ad_policies s)" "ap_policy_key q = ap_policy_key p"
  from p assms(2) have "policy_version vid s = Some p"
    by (auto simp: policy_version_def intro: coll_get_in)
  with assms(1) p q show "ap_lifecycle q \<noteq> ACTIVE"
    by (auto simp: promote_def exists_where_iff split: if_splits)
qed

section \<open>Facts: every step keeps the invariant\<close>

definition archived :: "authorization_policy \<Rightarrow> authorization_policy" where
  "archived p = p\<lparr>ap_lifecycle := ARCHIVED\<rparr>"

lemma same_identity [simp]:
  "ap_policy_version_id (archived p) = ap_policy_version_id p" "version_number (archived p) = version_number p"
  "ap_policy_key (archived p) = ap_policy_key p" "ap_lifecycle (archived p) = ARCHIVED"
  "ap_policy_version_id (promoted n f p) = ap_policy_version_id p" "version_number (promoted n f p) = version_number p"
  "ap_policy_key (promoted n f p) = ap_policy_key p" "ap_lifecycle (promoted n f p) = ACTIVE"
  by (simp_all add: archived_def promoted_def version_number_def)

lemma policy_ok_moves:
  "policy_ok p \<Longrightarrow> ap_lifecycle p = ACTIVE \<Longrightarrow> policy_ok (archived p)"
  "policy_ok p \<Longrightarrow> policy_ok (promoted now frozen p)"
  by (simp_all add: policy_ok_def archived_def promoted_def)

lemma archive_others_eq: "archive_others v s = s\<lparr>ad_policies := update_where
    (\<lambda>p. ap_policy_key p = ap_policy_key v \<and> ap_lifecycle p = ACTIVE \<and>
       ap_policy_version_id p \<noteq> ap_policy_version_id v) archived (ad_policies s)\<rparr>"
  by (simp add: archive_others_def archived_def [abs_def])

lemma one_activeD: "one_active ps \<Longrightarrow> p \<in> set ps \<Longrightarrow> q \<in> set ps \<Longrightarrow> ap_lifecycle p = ACTIVE \<Longrightarrow>
    ap_lifecycle q = ACTIVE \<Longrightarrow> ap_policy_key p = ap_policy_key q \<Longrightarrow>
    ap_policy_version_id p = ap_policy_version_id q"
  unfolding one_active_def by blast

lemma one_active_fewer:
  assumes "one_active ps" "\<And>q. q \<in> set qs \<Longrightarrow> ap_lifecycle q = ACTIVE \<Longrightarrow> q \<in> set ps"
  shows "one_active qs"
  using assms unfolding one_active_def by blast

lemma version_ids_update:
  "(\<And>d. q d \<Longrightarrow> ap_policy_version_id (f d) = ap_policy_version_id d) \<Longrightarrow>
     ap_policy_version_id ` set (update_where q f ps) = ap_policy_version_id ` set ps"
  using map_update_where [of q ap_policy_version_id f ps] by (metis list.set_map)

lemma archive_keeps_inv:
  assumes "policy_inv s"
  shows "policy_inv (archive_others v s)"
proof -
  let ?q = "\<lambda>p. ap_policy_key p = ap_policy_key v \<and> ap_lifecycle p = ACTIVE \<and>
    ap_policy_version_id p \<noteq> ap_policy_version_id v"
  have "one_active (update_where ?q archived (ad_policies s))"
    using assms unfolding policy_inv_def
    by (elim conjE) (erule one_active_fewer, auto simp: set_update_where split: if_splits)
  moreover have "policy_ok p" if "p \<in> set (update_where ?q archived (ad_policies s))" for p
    using that assms by (auto simp: set_update_where policy_inv_def list_all_iff intro: policy_ok_moves)
  ultimately show ?thesis
    using assms by (simp add: policy_inv_def archive_others_eq coll_ok_update_where list_all_iff version_ids_update)
qed

lemma promote_keeps_inv:
  assumes "policy_inv s" "promote now vid frozen s = Inr s'"
  shows "policy_inv s'"
proof -
  let ?q = "\<lambda>p. ap_policy_version_id p = vid \<and> ap_lifecycle p = DRAFT"
  from assms(1) have uniq: "coll_ok ap_policy_version_id (ad_policies s)" and one: "one_active (ad_policies s)"
    by (simp_all add: policy_inv_def)
  note pr = promote_Inr [OF assms(2) uniq]
  have "one_active (update_where ?q (promoted now frozen) (ad_policies s))"
    unfolding one_active_def set_update_where
  proof (intro ballI impI, elim imageE conjE)
    fix p q p0 q0
    assume p: "p = (if ?q p0 then promoted now frozen p0 else p0)" "p0 \<in> set (ad_policies s)" "ap_lifecycle p = ACTIVE"
      and q: "q = (if ?q q0 then promoted now frozen q0 else q0)" "q0 \<in> set (ad_policies s)" "ap_lifecycle q = ACTIVE"
      and key: "ap_policy_key p = ap_policy_key q"
    have lone: "ap_lifecycle b \<noteq> ACTIVE" if "?q a" "a \<in> set (ad_policies s)" "b \<in> set (ad_policies s)"
      "ap_policy_key b = ap_policy_key a" for a b
      using pr(2) that by blast
    show "ap_policy_version_id p = ap_policy_version_id q"
    proof (cases "?q p0")
      case True
      with p have pp: "ap_policy_version_id p = vid" "ap_policy_key p = ap_policy_key p0" by simp_all
      show ?thesis
      proof (cases "?q q0")
        case False
        with q key pp lone [OF True p(2) q(2)] show ?thesis by simp
      qed (use q pp in simp)
    next
      case False
      with p have pp: "p = p0" by simp
      show ?thesis
      proof (cases "?q q0")
        case True
        with q key pp p(3) lone [OF True q(2) p(2)] show ?thesis by simp
      next
        case False
        with q have qq: "q = q0" by simp
        show ?thesis
          by (rule one_activeD [OF one]) (use pp qq p(2,3) q(2,3) key in simp_all)
      qed
    qed
  qed
  moreover have "policy_ok p" if "p \<in> set (update_where ?q (promoted now frozen) (ad_policies s))" for p
    using that assms(1) by (auto simp: set_update_where policy_inv_def list_all_iff intro: policy_ok_moves)
  ultimately show ?thesis
    using assms(1) by (simp add: policy_inv_def pr(1) coll_ok_update_where list_all_iff version_ids_update)
qed

lemma create_version_keeps_inv:
  assumes "policy_inv s" "create_policy_version_seeing seen k i req s = Inr (s', v)"
  shows "policy_inv s'"
proof -
  note c = create_version_Inr [OF assms(2)]
  have draft: "ap_lifecycle v \<noteq> ACTIVE" by (simp add: c(1) new_policy_def)
  have "one_active (ad_policies s @ [v])"
    using assms(1) draft unfolding policy_inv_def
    by (elim conjE) (erule one_active_fewer, auto)
  moreover have "ap_policy_version_id v \<notin> ap_policy_version_id ` set (ad_policies s)"
    "version_number v \<notin> version_number ` set (ad_policies s)"
    using c(3) by (auto simp: policy_clashes_def version_number_def)
  ultimately show ?thesis
    using assms(1) new_policy_ok [OF c(4)] c(1) by (auto simp: policy_inv_def c(2) coll_ok_def)
qed

lemma add_rule_keeps_inv:
  assumes "policy_inv s" "add_authorization_policy_rule i vid req s = Inr (s', r)"
  shows "policy_inv s'"
  using assms(2)
proof (rule add_rule_Inr)
  fix policy
  assume v: "policy_version vid s = Some policy" "rl_policy_version_id r = vid"
    and r: "s' = s\<lparr>ad_rules := ad_rules s @ [r]\<rparr>" "rl_rule_id r \<notin> rl_rule_id ` set (ad_rules s)" "rule_ok r"
  from v have "policy \<in> set (ad_policies s)" "rl_policy_version_id r = ap_policy_version_id policy"
    by (auto simp: policy_version_def dest: coll_get_Some)
  then have "rl_policy_version_id r \<in> ap_policy_version_id ` set (ad_policies s)" by simp
  with r assms(1) show ?thesis by (simp add: policy_inv_def coll_ok_def)
qed

lemma policy_inv_cong:
  "ad_policies s' = ad_policies s \<Longrightarrow> ad_rules s' = ad_rules s \<Longrightarrow> policy_inv s' = policy_inv s"
  by (simp add: policy_inv_def)

lemma policy_step_inv: "policy_step digest parse s s' \<Longrightarrow> policy_inv s \<Longrightarrow> policy_inv s'"
proof (induction rule: policy_step.induct)
  case (create_principal i nreq s s' p)
  with create_principal_Inr [OF create_principal(1)] show ?case
    using policy_inv_cong [of s' s] by simp
next
  case (environment s rels ps)
  then show ?case using policy_inv_cong [of "s\<lparr>ad_profiles := ps, ad_relations := rels\<rparr>" s] by simp
qed (auto dest: create_version_keeps_inv add_rule_keeps_inv archive_keeps_inv promote_keeps_inv)

section \<open>Facts: versions evolve, rules are frozen\<close>

definition rules_of :: "string \<Rightarrow> policy_db \<Rightarrow> authorization_rule list" where
  "rules_of vid s = filter (\<lambda>r. rl_policy_version_id r = vid) (ad_rules s)"

definition frozen_as :: "authorization_policy \<Rightarrow> authorization_policy \<Rightarrow> bool" where
  "frozen_as p p' \<longleftrightarrow> (ap_lifecycle p \<noteq> DRAFT \<longrightarrow> p' = p\<lparr>ap_lifecycle := ap_lifecycle p'\<rparr>) \<and>
     policy_life.moves (ap_lifecycle p) (ap_lifecycle p')"

lemma frozen_as_refl [simp]: "frozen_as p p"
  by (simp add: frozen_as_def)

lemma frozen_as_moves:
  "ap_lifecycle p = ACTIVE \<Longrightarrow> frozen_as p (archived p)"
  "ap_lifecycle p = DRAFT \<Longrightarrow> frozen_as p (promoted now frozen p)"
  by (simp_all add: frozen_as_def policy_life.moves_step) (simp add: archived_def)

lemma moves_not_draft: "policy_life.moves a b \<Longrightarrow> a \<noteq> DRAFT \<Longrightarrow> b \<noteq> DRAFT"
  unfolding policy_life.moves_def
  by (induction rule: rtranclp_induct) (auto elim: legal_policy.elims)

lemma frozen_as_trans: "frozen_as p q \<Longrightarrow> frozen_as q r \<Longrightarrow> frozen_as p r"
  unfolding frozen_as_def
  by (metis authorization_policy.surjective authorization_policy.update_convs(7) moves_not_draft
      policy_life.moves_trans)

lemma policy_version_update:
  assumes "policy_version vid s = Some p" "\<And>d. q d \<Longrightarrow> ap_policy_version_id (f d) = ap_policy_version_id d"
  shows "policy_version vid (s\<lparr>ad_policies := update_where q f (ad_policies s)\<rparr>) = Some (if q p then f p else p)"
  using assms by (simp add: policy_version_def coll_get_update_where)

lemma policy_version_append:
  "policy_version vid s = Some p \<Longrightarrow> policy_version vid (s\<lparr>ad_policies := ad_policies s @ [v]\<rparr>) = Some p"
  by (simp add: policy_version_def coll_get_append)

lemma policy_step_frozen:
  assumes "policy_step digest parse s s'" "policy_inv s" "policy_version vid s = Some p"
  shows "\<exists>p'. policy_version vid s' = Some p' \<and> frozen_as p p' \<and>
    (ap_lifecycle p \<noteq> DRAFT \<longrightarrow> rules_of vid s' = rules_of vid s)"
  using assms
proof (induction rule: policy_step.induct)
  case (create_principal i nreq s s' q)
  then show ?case by (auto simp: policy_version_def rules_of_def dest: create_principal_Inr)
next
  case (create_version seen k i vreq s s' v)
  then show ?case
    by (simp add: create_version_Inr(2) [OF create_version(1)] policy_version_append rules_of_def)
next
  case (add_rule i vid' ureq s s' r)
  from add_rule(1) show ?case
  proof (rule add_rule_Inr)
    fix policy
    assume "policy_version vid' s = Some policy" "ap_lifecycle policy = DRAFT"
      and s': "s' = s\<lparr>ad_rules := ad_rules s @ [r]\<rparr>" and r: "rl_policy_version_id r = vid'"
    with add_rule(3) have "ap_lifecycle p \<noteq> DRAFT \<Longrightarrow> vid' \<noteq> vid" by auto
    with add_rule(3) show ?thesis by (auto simp: s' r policy_version_def rules_of_def)
  qed
next
  case (archive s v)
  then show ?case
    by (auto simp: archive_others_eq policy_version_update rules_of_def intro: frozen_as_moves)
next
  case (promotion v s0 frozen now s s')
  from promotion(3) have "coll_ok ap_policy_version_id (ad_policies s)" by (simp add: policy_inv_def)
  with promotion(4) show ?case
    by (auto simp: promote_Inr(1) [OF promotion(2)] policy_version_update rules_of_def intro: frozen_as_moves)
next
  case (environment s ps rels)
  then show ?case by (auto simp: policy_version_def rules_of_def)
qed

lemma policy_steps_frozen:
  assumes "policy_steps digest parse s s'" "policy_inv s" "policy_version vid s = Some p"
  shows "policy_inv s' \<and> (\<exists>p'. policy_version vid s' = Some p' \<and> frozen_as p p' \<and>
    (ap_lifecycle p \<noteq> DRAFT \<longrightarrow> rules_of vid s' = rules_of vid s))"
  using assms(1) unfolding policy_steps_def
proof (induction rule: rtranclp_induct)
  case base
  with assms show ?case by simp
next
  case (step s1 s2)
  then obtain p1 where inv: "policy_inv s1" and p1: "policy_version vid s1 = Some p1" "frozen_as p p1"
    "ap_lifecycle p \<noteq> DRAFT \<longrightarrow> rules_of vid s1 = rules_of vid s" by blast
  from policy_step_frozen [OF step(2) inv p1(1)] obtain p2 where
    p2: "policy_version vid s2 = Some p2" "frozen_as p1 p2"
    "ap_lifecycle p1 \<noteq> DRAFT \<longrightarrow> rules_of vid s2 = rules_of vid s1" by blast
  have "ap_lifecycle p \<noteq> DRAFT \<Longrightarrow> ap_lifecycle p1 \<noteq> DRAFT"
    using p1(2) moves_not_draft by (auto simp: frozen_as_def)
  with p1 p2 policy_step_inv [OF step(2) inv] frozen_as_trans [OF p1(2) p2(2)] show ?case by auto
qed

section \<open>Facts: activation\<close>

definition vetted_relation :: "authorization_policy \<Rightarrow> parameter_relation \<Rightarrow> bool" where
  "vetted_relation policy r \<longleftrightarrow> pr_project_id r = ap_project_id policy \<and>
     (pr_env_id r = [] \<or> pr_env_id r = ap_env_id policy) \<and> pr_source_locator r \<noteq> [] \<and>
     pr_target_locator r \<noteq> [] \<and> (pr_verified r \<or> pr_manual_decision r = ''trusted'')"

lemma relation_guards_ok: "list_all (\<lambda>g. \<not> fst g) (relation_guards policy r) \<longleftrightarrow> vetted_relation policy r"
  by (auto simp: relation_guards_def vetted_relation_def)

lemma relation_guards_all: "list_all (\<lambda>g. \<not> fst g) (concat (map (relation_guards policy) rs)) \<longleftrightarrow>
    (\<forall>r \<in> set rs. vetted_relation policy r)"
  by (induction rs) (simp_all add: relation_guards_ok)

lemma freeze_principal_id: "freeze_principal policy s p = Inr q \<Longrightarrow> pn_principal_id q = pn_principal_id p"
  by (auto simp: freeze_principal_def split: option.splits if_splits)

lemma prepare_activation_Inr:
  assumes "prepare_activation digest parse policy s = Inr (snaps, descs)"
  shows "ap_lifecycle policy \<noteq> ARCHIVED"
    and "pn_principal_id ` set snaps = set (ap_principal_ids policy)"
    and "\<And>q. q \<in> set snaps \<Longrightarrow> \<exists>p \<in> set (policy_principals policy s). freeze_principal policy s p = Inr q"
    and "\<And>i. i \<in> set (ap_relation_ids policy) \<Longrightarrow> \<exists>r \<in> set (ad_relations s). parse i = Some (pr_id r) \<and>
      vetted_relation policy r \<and> authorization_relation_descriptor digest r \<in> set descs"
    and "\<And>d. d \<in> set descs \<Longrightarrow> \<exists>r \<in> set (ad_relations s). \<exists>i \<in> set (ap_relation_ids policy).
      parse i = Some (pr_id r) \<and> vetted_relation policy r \<and> d = authorization_relation_descriptor digest r"
proof -
  let ?ps = "policy_principals policy s" and ?req = "List.map_filter parse (ap_relation_ids policy)"
  let ?rs = "policy_relations ?req s"
  from assms have g: "ap_lifecycle policy \<noteq> ARCHIVED"
      "\<forall>i \<in> set (ap_principal_ids policy). i \<in> pn_principal_id ` set ?ps"
      "\<forall>i \<in> set (ap_relation_ids policy). parse i \<noteq> None"
    and rel: "\<forall>i \<in> set ?req. i \<in> pr_id ` set ?rs"
    and vet: "\<forall>r \<in> set ?rs. vetted_relation policy r"
    and snaps: "smap (freeze_principal policy s) (sort_key pn_principal_id ?ps) = Inr snaps"
    and descs: "descs = map (authorization_relation_descriptor digest) (sort_key pr_id ?rs)"
    unfolding prepare_activation_def
    by (auto simp: Let_def sbind_Inr_iff guards_ok_iff list_ex_iff relation_guards_all)
  show "ap_lifecycle policy \<noteq> ARCHIVED" by (rule g(1))
  have "map pn_principal_id snaps = map pn_principal_id (sort_key pn_principal_id ?ps)"
    by (rule smap_map [OF snaps]) (rule freeze_principal_id)
  then have "pn_principal_id ` set snaps = pn_principal_id ` set ?ps"
    by (metis list.set_map set_sort)
  moreover have "pn_principal_id ` set ?ps \<subseteq> set (ap_principal_ids policy)"
    by (auto simp: policy_principals_def)
  ultimately show "pn_principal_id ` set snaps = set (ap_principal_ids policy)" using g(2) by auto
  show "\<exists>p \<in> set ?ps. freeze_principal policy s p = Inr q" if "q \<in> set snaps" for q
    using smap_in [OF snaps that] by simp
  have in_rs: "r \<in> set ?rs \<longleftrightarrow> r \<in> set (ad_relations s) \<and> (\<exists>i \<in> set (ap_relation_ids policy). parse i = Some (pr_id r))" for r
    by (auto simp: policy_relations_def set_map_filter)
  show "\<exists>r \<in> set (ad_relations s). parse i = Some (pr_id r) \<and>
      vetted_relation policy r \<and> authorization_relation_descriptor digest r \<in> set descs"
    if i: "i \<in> set (ap_relation_ids policy)" for i
  proof -
    from g(3) i obtain j where j: "parse i = Some j" by blast
    with i have "j \<in> set ?req" by (auto simp: set_map_filter)
    with rel obtain r where r: "r \<in> set ?rs" and j': "pr_id r = j" by auto
    have "authorization_relation_descriptor digest r \<in> set descs" using r by (simp add: descs)
    moreover have "r \<in> set (ad_relations s)" "vetted_relation policy r"
      using r vet by (auto simp: policy_relations_def)
    ultimately show ?thesis using j j' by blast
  qed
  show "\<exists>r \<in> set (ad_relations s). \<exists>i \<in> set (ap_relation_ids policy).
      parse i = Some (pr_id r) \<and> vetted_relation policy r \<and> d = authorization_relation_descriptor digest r"
    if "d \<in> set descs" for d
  proof -
    from that obtain r where "r \<in> set ?rs" "d = authorization_relation_descriptor digest r"
      by (auto simp: descs)
    with vet in_rs [of r] show ?thesis by blast
  qed
qed

section \<open>Facts: cloning\<close>

text \<open>What a cloned rule shares with its source: everything \<open>rule_applies\<close> and the decision look at.\<close>

definition same_rule :: "authorization_rule \<Rightarrow> authorization_rule \<Rightarrow> bool" where
  "same_rule r r' \<longleftrightarrow> rl_active r' \<and> rl_priority r' = rl_priority r \<and>
     rl_subject_selector r' = rl_subject_selector r \<and> rl_owner_selector r' = rl_owner_selector r \<and>
     rl_scope_relation r' = rl_scope_relation r \<and> rl_resource_family r' = rl_resource_family r \<and>
     rl_action r' = rl_action r \<and> rl_expected_decision r' = rl_expected_decision r \<and>
     rl_reason_codes r' = rl_reason_codes r"

lemma cloned_rule_same:
  assumes "add_authorization_policy_rule i vid (clone_rule_request r) s = Inr (s', r')" "rule_ok r"
  shows "same_rule r r' \<and> rl_policy_version_id r' = vid \<and> s' = s\<lparr>ad_rules := ad_rules s @ [r']\<rparr>"
  using assms(1)
proof (rule add_rule_Inr)
  assume a: "validate_selector (uq_subject_selector (clone_rule_request r)) = Inr (rl_subject_selector r')"
    "validate_selector (uq_owner_selector (clone_rule_request r)) = Inr (rl_owner_selector r')"
  assume ok: "rule_ok r'" and s': "s' = s\<lparr>ad_rules := ad_rules s @ [r']\<rparr>" "rl_policy_version_id r' = vid"
    and f: "rl_priority r' = uq_priority (clone_rule_request r)"
    "rl_scope_relation r' = uq_scope_relation (clone_rule_request r)"
    "rl_resource_family r' = uq_resource_family (clone_rule_request r)"
    "rl_action r' = str_or (uq_action (clone_rule_request r)) ''read''"
    "rl_expected_decision r' = uq_expected_decision (clone_rule_request r)"
    "rl_reason_codes r' = nonempty_texts (uq_reason_codes (clone_rule_request r))"
  from ok have "rl_active r'" by (simp add: rule_ok_def)
  with a s' f assms(2) show ?thesis
    by (auto simp: same_rule_def clone_rule_request_def rule_ok_def str_or_def SCOPE_RELATIONS_def split: if_splits)
qed

lemma clone_rules_Inr:
  assumes "clone_rules fresh n vid rules s = (s', Inr ())" "list_all rule_ok rules"
  shows "\<exists>new. list_all2 same_rule rules new \<and> list_all (\<lambda>r. rl_policy_version_id r = vid) new \<and>
    s' = s\<lparr>ad_rules := ad_rules s @ new\<rparr>"
  using assms
proof (induction fresh n vid rules s rule: clone_rules.induct)
  case (2 fresh n vid rule rules s)
  from 2(2) obtain s1 r where add: "add_authorization_policy_rule (fresh n) vid (clone_rule_request rule) s = Inr (s1, r)"
    and rest: "clone_rules fresh (Suc n) vid rules s1 = (s', Inr ())"
    by (auto split: sum.splits)
  from 2(3) have ok: "rule_ok rule" "list_all rule_ok rules" by simp_all
  note c = cloned_rule_same [OF add ok(1)]
  from 2(1) [OF add _ rest ok(2)] obtain new where new: "list_all2 same_rule rules new"
    "list_all (\<lambda>r. rl_policy_version_id r = vid) new" "s' = s1\<lparr>ad_rules := ad_rules s1 @ new\<rparr>" by auto
  with c show ?case by (intro exI [of _ "r # new"]) simp
qed auto

lemma same_rule_applies: "same_rule r r' \<Longrightarrow>
    rule_applies family action owner subject r' = rule_applies family action owner subject r"
  unfolding same_rule_def rule_applies_def scope_relation_matches_def
  by (elim conjE) (simp only: cong: if_cong)

lemma first_applying_same:
  assumes "list_all2 same_rule rs rs'"
  shows "case first_applying family action owner subject rs of
      Inl e \<Rightarrow> first_applying family action owner subject rs' = Inl e
    | Inr None \<Rightarrow> first_applying family action owner subject rs' = Inr None
    | Inr (Some r) \<Rightarrow> \<exists>r'. same_rule r r' \<and> first_applying family action owner subject rs' = Inr (Some r')"
  using assms
proof (induction rule: list_all2_induct)
  case (Cons r rs r' rs')
  show ?case
    using Cons same_rule_applies [OF Cons(1), of family action owner subject]
    by (cases "rule_applies family action owner subject r") (auto split: sum.splits option.splits)
qed simp

text \<open>The decision without the id of the rule that made it, which a clone cannot share.\<close>

definition decision_of :: "expectation result_of \<Rightarrow> (string \<times> string list) result_of" where
  "decision_of m = sbind m (\<lambda>e. Inr (ex_expected_decision e, ex_reason_codes e))"

lemma resolve_same:
  assumes "list_all2 same_rule (sort_key rule_order (filter rl_active rs)) (sort_key rule_order (filter rl_active rs'))"
    and "ap_same_principal_decision p' = ap_same_principal_decision p" "ap_default_decision p' = ap_default_decision p"
  shows "decision_of (resolve_authorization_expectation p' rs' owner subject family action) =
    decision_of (resolve_authorization_expectation p rs owner subject family action)"
proof -
  have "default_expectation p' owner subject = default_expectation p owner subject"
    unfolding default_expectation_def assms(2,3) ..
  with first_applying_same [OF assms(1), of family action owner subject] show ?thesis
    by (cases "first_applying family action owner subject (sort_key rule_order (filter rl_active rs))")
      (auto simp: resolve_authorization_expectation_def decision_of_def same_rule_def split: option.splits)
qed

text \<open>With distinct priorities the order by priority is already the order of the resolution.\<close>

lemma sort_by_rule_order:
  assumes "distinct (map rl_priority rs)" "sorted (map (\<lambda>r. - rl_priority r) rs)"
  shows "sort_key rule_order rs = rs"
proof (rule sort_key_id_if_sorted)
  show "sorted (map rule_order rs)"
    using assms
  proof (induction rs)
    case (Cons a rs)
    have "rule_order a \<le> rule_order x" if x: "x \<in> set rs" for x
    proof -
      from Cons.prems x have "rl_priority a \<noteq> rl_priority x" "rl_priority x \<le> rl_priority a"
        by (auto dest: imageI)
      then show ?thesis by (simp add: rule_order_def)
    qed
    with Cons show ?case by simp
  qed simp
qed

lemma clone_Inr:
  assumes "clone_authorization_policy_version fresh i vid by s = (s', Inr c)" "policy_inv s"
  obtains source new where "policy_version vid s = Some source"
    and "c = new_policy [] i (clone_request source by) (latest_version (ap_policy_key source) (ad_policies s))"
    and "list_all2 same_rule (rules_by_priority vid s) new"
    and "ap_policy_version_id c \<notin> ap_policy_version_id ` set (ad_policies s)"
    and "list_all (\<lambda>r. rl_policy_version_id r = ap_policy_version_id c) new"
    and "s' = s\<lparr>ad_policies := ad_policies s @ [c], ad_rules := ad_rules s @ new\<rparr>"
proof -
  from assms(1) obtain source s1 where source: "policy_version vid s = Some source"
    and cr: "create_authorization_policy_version [] i (clone_request source by) s = Inr (s1, c)"
    and rules: "clone_rules fresh 0 (ap_policy_version_id c) (rules_by_priority (ap_policy_version_id source) s1) s1
      = (s', Inr ())"
    by (auto simp: clone_authorization_policy_version_def split: option.splits sum.splits prod.splits)
  from source have vid: "ap_policy_version_id source = vid"
    by (auto simp: policy_version_def dest: coll_get_Some)
  from source assms(2) have "policy_ok source"
    by (auto simp: policy_inv_def policy_version_def list_all_iff dest: coll_get_Some)
  then have key: "str_or (vq_policy_key (clone_request source by)) (''policy-'' @ []) = ap_policy_key source"
    by (simp add: policy_ok_def clone_request_def str_or_def)
  note cv = create_version_Inr [OF cr [unfolded create_authorization_policy_version_def]]
  have s1: "rules_by_priority (ap_policy_version_id source) s1 = rules_by_priority vid s"
    by (simp add: cv(2) vid rules_by_priority_def)
  have "list_all rule_ok (rules_by_priority vid s)"
    using assms(2) by (auto simp: policy_inv_def rules_by_priority_def list_all_iff)
  from clone_rules_Inr [OF rules [unfolded s1] this] obtain new where new: "list_all2 same_rule (rules_by_priority vid s) new"
    "list_all (\<lambda>r. rl_policy_version_id r = ap_policy_version_id c) new" "s' = s1\<lparr>ad_rules := ad_rules s1 @ new\<rparr>"
    by blast
  show ?thesis
  proof (rule that [OF source _ new(1) _ new(2)])
    show "c = new_policy [] i (clone_request source by) (latest_version (ap_policy_key source) (ad_policies s))"
      using cv(1) unfolding key .
    show "ap_policy_version_id c \<notin> ap_policy_version_id ` set (ad_policies s)"
      using cv(3) by (auto simp: policy_clashes_def)
    show "s' = s\<lparr>ad_policies := ad_policies s @ [c], ad_rules := ad_rules s @ new\<rparr>"
      by (simp add: new(3) cv(2))
  qed
qed

lemma rules_by_priority_sorted:
  assumes "distinct (map rl_priority (rules_of vid s))" "list_all rule_ok (ad_rules s)"
  shows "sort_key rule_order (filter rl_active (rules_of vid s)) = rules_by_priority vid s"
proof -
  let ?rs = "rules_by_priority vid s"
  have perm: "mset ?rs = mset (rules_of vid s)"
    by (simp add: rules_by_priority_def rules_of_def)
  then have dist: "distinct (map rl_priority ?rs)"
    using assms(1) by (metis mset_map mset_eq_imp_distinct_iff)
  have "filter rl_active (rules_of vid s) = rules_of vid s"
    by (rule filter_True) (use assms(2) in \<open>auto simp: rules_of_def rule_ok_def list_all_iff\<close>)
  moreover have "sort_key rule_order (rules_of vid s) = ?rs"
  proof (rule sort_key_inj_key_eq [OF perm [symmetric]])
    show "inj_on rule_order (set (rules_of vid s))"
      using assms(1) by (auto simp: inj_on_def rule_order_def distinct_map)
    have "sort_key rule_order ?rs = ?rs"
      by (rule sort_by_rule_order [OF dist]) (simp add: rules_by_priority_def)
    then show "sorted (map rule_order ?rs)" by (metis sorted_sort_key)
  qed
  ultimately show ?thesis by simp
qed

section \<open>Properties\<close>

text \<open>C25: The database of policies stays well formed. Whatever principals, versions and rules are
  created, archived, activated and cloned, in any order, starting from no policy at all: version ids
  and version numbers of a key are unique, at most one version of a key is active, every stored policy
  and rule satisfies all the constraints its creation checks, selectors are stored normalised, and
  every rule belongs to a stored version.\<close>

theorem policies_stay_well_formed:
  assumes "policy_steps digest parse s0 s" "ad_policies s0 = []" "ad_rules s0 = []"
  shows "policy_inv s"
  using assms(1) unfolding policy_steps_def
proof (induction rule: rtranclp_induct)
  case base
  with assms show ?case by (simp add: policy_inv_def coll_ok_def one_active_def)
qed (rule policy_step_inv)



text \<open>A clone decides like its source. If no two rules of the source have the same priority, the new
  draft names the same principals and relations and, for every owner, subject, resource family and
  action, expects the same decision for the same reasons (or raises the same error).\<close>

theorem clone_decides_alike:
  assumes "clone_authorization_policy_version fresh i vid by s = (s', Inr c)" "policy_inv s"
    and "policy_version vid s = Some p" "distinct (map rl_priority (rules_of vid s))"
  shows "ap_lifecycle c = DRAFT \<and> ap_principal_ids c = ap_principal_ids p \<and>
    ap_include_self c = ap_include_self p \<and> ap_parent_policy_version_id c = vid \<and>
    decision_of (resolve_authorization_expectation c (rules_of (ap_policy_version_id c) s') owner subject family action) =
    decision_of (resolve_authorization_expectation p (rules_of vid s) owner subject family action)"
proof -
  from assms(1,2) obtain source new where src: "policy_version vid s = Some source"
    and c: "c = new_policy [] i (clone_request source by) (latest_version (ap_policy_key source) (ad_policies s))"
    and same: "list_all2 same_rule (rules_by_priority vid s) new"
    and fresh: "ap_policy_version_id c \<notin> ap_policy_version_id ` set (ad_policies s)"
    and cid: "list_all (\<lambda>r. rl_policy_version_id r = ap_policy_version_id c) new"
    and s': "s' = s\<lparr>ad_policies := ad_policies s @ [c], ad_rules := ad_rules s @ new\<rparr>"
    by (rule clone_Inr)
  from src assms(3) have source: "source = p" by simp
  from assms(2,3) have ok: "policy_ok p" "ap_policy_version_id p = vid" and rules: "list_all rule_ok (ad_rules s)"
    and refs: "rl_policy_version_id ` set (ad_rules s) \<subseteq> ap_policy_version_id ` set (ad_policies s)"
    by (auto simp: policy_inv_def policy_version_def list_all_iff dest: coll_get_Some)
  have "filter (\<lambda>r. rl_policy_version_id r = ap_policy_version_id c) (ad_rules s) = []"
    unfolding filter_empty_conv using fresh refs by (metis imageI subsetD)
  moreover have "filter (\<lambda>r. rl_policy_version_id r = ap_policy_version_id c) new = new"
    using cid by (intro filter_True) (simp add: list_all_iff)
  ultimately have new: "rules_of (ap_policy_version_id c) s' = new" by (simp add: rules_of_def s')
  have active: "filter rl_active new = new"
    using same by (induction rule: list_all2_induct) (auto simp: same_rule_def)
  have prio: "map rl_priority new = map rl_priority (rules_by_priority vid s)"
    using same by (induction rule: list_all2_induct) (auto simp: same_rule_def)
  then have neg: "map (\<lambda>r. - rl_priority r) new = map (\<lambda>r. - rl_priority r) (rules_by_priority vid s)"
    by (metis (no_types, lifting) list.map_comp map_eq_conv o_apply)
  have "mset (map rl_priority (rules_by_priority vid s)) = mset (map rl_priority (rules_of vid s))"
    by (simp add: rules_by_priority_def rules_of_def)
  from mset_eq_imp_distinct_iff [OF this] assms(4) have "distinct (map rl_priority new)"
    unfolding prio by simp
  moreover have "sorted (map (\<lambda>r. - rl_priority r) new)"
    unfolding neg rules_by_priority_def by (rule sorted_sort_key)
  ultimately have "sort_key rule_order new = new" by (rule sort_by_rule_order)
  with same active rules_by_priority_sorted [OF assms(4) rules]
  have "list_all2 same_rule (sort_key rule_order (filter rl_active (rules_of vid s)))
      (sort_key rule_order (filter rl_active (rules_of (ap_policy_version_id c) s')))"
    by (simp add: new)
  then have "decision_of (resolve_authorization_expectation c (rules_of (ap_policy_version_id c) s') owner subject family action) =
    decision_of (resolve_authorization_expectation p (rules_of vid s) owner subject family action)"
    by (rule resolve_same) (use ok in \<open>auto simp: c source new_policy_def clone_request_def policy_ok_def
        str_or_def DECISIONS_def\<close>)
  moreover have "nonempty_texts (ap_principal_ids p) = ap_principal_ids p"
    using ok(1) by (auto simp: nonempty_texts_def policy_ok_def intro!: filter_True)
  moreover from this ok(1) have "dedupe (nonempty_texts (ap_principal_ids p)) = ap_principal_ids p"
    by (simp add: dedupe_def dedupe_from_distinct policy_ok_def)
  ultimately show ?thesis
    using ok(2) by (simp add: c source new_policy_def clone_request_def)
qed

section \<open>Witnesses\<close>

definition example_relation :: parameter_relation where
  "example_relation = \<lparr>pr_id = ''r1'', pr_project_id = ''p'', pr_env_id = ''e'', pr_parameter = ''order_id'',
     pr_source_parameter = ''id'', pr_target_parameter = ''order_id'',
     pr_source_locator = [(''pointer'', JStr ''/data/0/id'')], pr_target_locator = [(''name'', JStr ''order_id'')],
     pr_target_position = ''query'', pr_res_pathid = 1, pr_req_pathid = 3, pr_schema_fingerprint = [],
     pr_verified = True, pr_manual_decision = [], pr_preprocess_status = [], pr_preprocess_reason_codes = [],
     pr_last_validation_run_id = None, pr_mtime = 0\<rparr>"

definition example_profile :: auth_profile where
  "example_profile = \<lparr>pf_profile_id = ''admin-profile'', pf_project_id = ''p'', pf_env_id = ''e'',
     pf_account_key = ''admin-account'', pf_current_revision_id = ''rev-1'', pf_active = True\<rparr>"

definition example_admin :: authorization_principal where
  "example_admin = \<lparr>pn_principal_id = ''admin'', pn_profile_id = ''admin-profile'',
     pn_account_key = ''admin-account'', pn_name = ''admin'', pn_role_key = [], pn_privilege_rank = 9,
     pn_scope_key = [], pn_labels = [], pn_attributes = [], pn_project_id = ''p'', pn_env_id = ''e'',
     pn_active = True\<rparr>"

definition example_policy_request :: policy_request where
  "example_policy_request = \<lparr>vq_project_id = ''p'', vq_env_id = ''e'', vq_name = ''orders'',
     vq_principal_ids = [''admin''], vq_relation_ids = [''r1''], vq_resource_family = [], vq_action = ''read'',
     vq_default_decision = ''review'', vq_same_principal_decision = ''allow'', vq_include_self = True,
     vq_case_budget = 4, vq_request_budget_per_case = 3, vq_created_by = [], vq_policy_key = ''policy-1'',
     vq_parent_policy_version_id = []\<rparr>"

definition example_draft :: authorization_policy where
  "example_draft = new_policy [] ''1'' example_policy_request None"

definition example_policy_db :: "authorization_policy list \<Rightarrow> policy_db" where
  "example_policy_db ps = \<lparr>ad_profiles = [example_profile], ad_principals = [example_admin], ad_policies = ps,
     ad_rules = [], ad_relations = [example_relation]\<rparr>"

lemma example_version_created: "create_policy_version_seeing None [] ''1'' example_policy_request (example_policy_db []) =
    Inr (example_policy_db [example_draft], example_draft)"
  by code_simp

lemma example_inv: "policy_inv (example_policy_db [example_draft\<lparr>ap_lifecycle := ACTIVE, ap_activated_at := Some 5\<rparr>])"
  "policy_inv (example_policy_db [example_draft])"
  by code_simp+

theorem policies_stay_well_formed_witness:
  "policy_steps (\<lambda>_. []) Some (example_policy_db []) (example_policy_db [example_draft]) \<and>
   policy_inv (example_policy_db [example_draft])"
proof -
  have "policy_steps (\<lambda>_. []) Some (example_policy_db []) (example_policy_db [example_draft])"
    unfolding policy_steps_def by (rule r_into_rtranclp) (rule policy_step.create_version [OF example_version_created])
  with policies_stay_well_formed [OF this] show ?thesis by (simp add: example_policy_db_def)
qed



theorem clone_decides_alike_witness:
  "\<exists>s' c. clone_authorization_policy_version (\<lambda>_. ''7'') ''2'' ''policy-version-1'' ''bob''
       (example_policy_db [example_draft]) = (s', Inr c) \<and> ap_parent_policy_version_id c = ''policy-version-1'' \<and>
     decision_of (resolve_authorization_expectation c (rules_of (ap_policy_version_id c) s') example_admin example_admin
       ''orders'' ''read'') = Inr (''allow'', [''authorization_same_principal_default''])"
proof -
  let ?clone = "clone_authorization_policy_version (\<lambda>_. ''7'') ''2'' ''policy-version-1'' ''bob''
    (example_policy_db [example_draft])"
  have "case ?clone of (_, Inr _) \<Rightarrow> True | _ \<Rightarrow> False" by code_simp
  then obtain s' c where c: "?clone = (s', Inr c)" by (auto split: prod.splits sum.splits)
  have p: "policy_version ''policy-version-1'' (example_policy_db [example_draft]) = Some example_draft"
    by code_simp
  have "distinct (map rl_priority (rules_of ''policy-version-1'' (example_policy_db [example_draft])))"
    by code_simp
  from clone_decides_alike [OF c example_inv(2) p this, of example_admin example_admin "''orders''" "''read''"] c
  have "ap_parent_policy_version_id c = ''policy-version-1''"
    "decision_of (resolve_authorization_expectation c (rules_of (ap_policy_version_id c) s') example_admin example_admin
       ''orders'' ''read'') =
     decision_of (resolve_authorization_expectation example_draft (rules_of ''policy-version-1''
       (example_policy_db [example_draft])) example_admin example_admin ''orders'' ''read'')" by simp_all
  moreover have "decision_of (resolve_authorization_expectation example_draft (rules_of ''policy-version-1''
       (example_policy_db [example_draft])) example_admin example_admin ''orders'' ''read'') =
     Inr (''allow'', [''authorization_same_principal_default''])"
    by code_simp
  ultimately show ?thesis using c by auto
qed

end
