(* ===== verification/RunQueries.thy ===== *)
theory RunQueries
  imports BatchQueue
begin

text \<open>
  What \<open>apiAnalysis/tool/authorization_matrix.py\<close> and \<open>apiAnalysis/tool/vulnerability_lifecycle.py\<close>
  share when they schedule a batch of their own: the newest finished run of a plan, and the retention
  date they set on a run and its checkpoints.
\<close>

text \<open>\<open>order_by("-finished_at")\<close> and the like: documents without the field come last.\<close>

definition newest_by :: "('d \<Rightarrow> time option) \<Rightarrow> 'd \<Rightarrow> int \<times> int" where
  "newest_by f r = (case f r of Some t \<Rightarrow> (0, - t) | None \<Rightarrow> (1, 0))"

definition set_expiry :: "time \<Rightarrow> oid \<Rightarrow> db \<Rightarrow> db" where
  "set_expiry t rid s = s\<lparr>
     db_runs := update_where (\<lambda>r. run_id r = rid) (\<lambda>r. r\<lparr>run_expires_at := Some t\<rparr>) (db_runs s),
     db_checkpoints := update_where (\<lambda>cp. cp_run_id cp = rid) (\<lambda>cp. cp\<lparr>cp_expires_at := Some t\<rparr>) (db_checkpoints s)\<rparr>"

definition retention_end :: "time \<Rightarrow> int \<Rightarrow> time" where
  "retention_end now days = now + max 1 (min days 90) * 86400"

lemma coll_get_set_expiry:
  "coll_get run_id i (db_runs (set_expiry t i s)) = map_option (\<lambda>r. r\<lparr>run_expires_at := Some t\<rparr>) (coll_get run_id i (db_runs s))"
  unfolding set_expiry_def
  by (cases "coll_get run_id i (db_runs s)") (auto simp: coll_get_update_where dest: coll_get_Some)

end
