(* ===== verification/AuthorizationMatrix.thy ===== *)
theory AuthorizationMatrix
  imports AuthorizationPolicies RunQueries ExecutionAdapters
begin

text \<open>
  \<open>apiAnalysis/tool/authorization_matrix.py\<close>: what a matrix case observed, the verdict against the
  decision the policy expects, the records a case leaves, the execution adapter built of these, and
  the scheduling of an active policy version as one batch; with \<open>resource_family\<close> of
  \<open>apiAnalysis/tool/interface_knowledge.py\<close>.

  Parameters: \<open>replay\<close> is \<open>replay_parameter_validation\<close> and \<open>build\<close> is
  \<open>create_validation_case_snapshot\<close>, both of \<open>apiAnalysis/tool/parameter_validation.py\<close>, which this
  development does not model; \<open>digest\<close>, \<open>parse\<close>, \<open>now\<close> and \<open>new_id\<close> are as in \<open>BatchQueue\<close>. The plan
  snapshot extends the request snapshot with its \<open>metadata\<close>.
\<close>

section \<open>Observation and verdict\<close>

definition BLOCKED_STATUSES :: "int list" where
  "BLOCKED_STATUSES = [401, 403, 404]"

definition status_code :: "json \<Rightarrow> int option" where
  "status_code v = (case py_int v of Inr n \<Rightarrow> Some n | Inl _ \<Rightarrow> None)"

definition success_status :: "int option \<Rightarrow> bool" where
  "success_status st = (case st of Some n \<Rightarrow> 200 \<le> n \<and> n < 300 | None \<Rightarrow> False)"

definition observe_authorization_decision :: "json dict \<Rightarrow> string result_of" where
  "observe_authorization_decision evidence =
     (let source_status = status_code (dget evidence ''source_status_code'');
          subject_status = status_code (dget evidence ''consumer_status_code'') in
      if \<not> success_status source_status then Inr ''unknown''
      else (case subject_status of
        None \<Rightarrow> Inr ''unknown''
      | Some n \<Rightarrow>
          if n \<in> set BLOCKED_STATUSES then Inr ''deny''
          else if n = 429 \<or> 500 \<le> n then Inr ''unknown''
          else if 200 \<le> n \<and> n < 300
          then sbind (dint evidence ''authorization_resource_match_count'') (\<lambda>matches.
               sbind (dint evidence ''authorization_resource_field_count'') (\<lambda>fields.
               if fields \<noteq> 0 \<and> matches = fields then Inr ''allow''
               else if matches \<noteq> 0 then Inr ''allow_partial'' else Inr ''unknown''))
          else Inr ''unknown''))"

definition judge_authorization_matrix :: judge_fun where
  "judge_authorization_matrix evidence check_type auth_mode =
     (let expected = str_or (dtext evidence ''authorization_expected_decision'') ''review'' in
      sbind (if truthy (dget evidence ''authorization_observed_decision'')
             then Inr (py_str (dget evidence ''authorization_observed_decision''))
             else observe_authorization_decision evidence) (\<lambda>observed.
      if \<not> success_status (status_code (dget evidence ''source_status_code''))
      then Inr (''not_evaluable'', [''authorization_owner_resource_unavailable''], 92 / 100)
      else if expected = ''deny''
      then (if observed = ''allow''
            then Inr (''potential_vuln'', [''authorization_policy_denied_but_resource_disclosed''], 96 / 100)
            else if observed = ''allow_partial''
            then Inr (''potential_vuln'', [''authorization_policy_denied_but_resource_partially_disclosed''], 84 / 100)
            else if observed = ''deny''
            then Inr (''no_vuln'', [''authorization_policy_denial_enforced''], 97 / 100)
            else Inr (''need_review'', [''authorization_denial_response_inconclusive''], 62 / 100))
      else if expected = ''allow''
      then (if observed = ''allow''
            then Inr (''no_vuln'', [''authorization_policy_allow_enforced''], 94 / 100)
            else if observed = ''deny''
            then Inr (''need_review'', [''authorization_expected_access_blocked''], 88 / 100)
            else if observed = ''allow_partial''
            then Inr (''need_review'', [''authorization_expected_access_partial''], 72 / 100)
            else Inr (''need_review'', [''authorization_allow_response_inconclusive''], 58 / 100))
      else Inr (''need_review'', [''authorization_policy_requires_human_decision''], 1 / 2)))"

section \<open>The plan of a case\<close>

record plan_snapshot = request_snapshot +
  sn_metadata :: "json dict"

text \<open>\<open>dict(value or {})\<close> and the list \<open>value or []\<close> of dictionaries, on stored plans.\<close>

fun as_dict :: "json \<Rightarrow> json dict result_of" where
  "as_dict (JObj d) = Inr d"
| "as_dict v = (if truthy v then Inl (TypeError ''dict()'') else Inr [])"

fun as_dicts :: "json \<Rightarrow> json dict list result_of" where
  "as_dicts (JList vs) = smap (\<lambda>v. case v of JObj d \<Rightarrow> Inr d | _ \<Rightarrow> Inl (AttributeError ''get'')) vs"
| "as_dicts v = (if truthy v then Inl (TypeError ''object is not iterable'') else Inr [])"

definition validation_plan :: "plan_snapshot \<Rightarrow> json dict result_of" where
  "validation_plan sn = as_dict (dget (sn_metadata sn) ''validation_plan'')"

definition plan_case :: "json dict \<Rightarrow> json dict result_of" where
  "plan_case plan = as_dict (dget plan ''authorization_case'')"

definition plan_path :: "plan_snapshot \<Rightarrow> json dict \<Rightarrow> string" where
  "plan_path sn plan = str_or (dtext plan ''resource_path'') (sn_path sn)"

definition observed_text :: "json dict \<Rightarrow> string" where
  "observed_text evidence = str_or (dtext evidence ''authorization_observed_decision'') ''unknown''"

definition matrix_result_target :: "plan_snapshot \<Rightarrow> json dict \<Rightarrow> json dict result_of" where
  "matrix_result_target sn evidence =
     sbind (validation_plan sn) (\<lambda>plan.
     sbind (plan_case plan) (\<lambda>case_doc.
     sbind (dint case_doc ''policy_version'') (\<lambda>version.
     sbind (as_dicts (dget plan ''relations'')) (\<lambda>relations.
     Inr [
       (''path'', JStr (plan_path sn plan)),
       (''resource_family'', JStr (dtext case_doc ''resource_family'')),
       (''action'', JStr (dtext case_doc ''action'')),
       (''authorization_policy_key'', JStr (dtext case_doc ''policy_key'')),
       (''authorization_policy_version_id'', JStr (dtext case_doc ''policy_version_id'')),
       (''authorization_policy_version'', JInt version),
       (''authorization_case_key'', JStr (dtext case_doc ''case_key'')),
       (''resource_owner_principal_id'', JStr (dtext case_doc ''resource_owner_principal_id'')),
       (''subject_principal_id'', JStr (dtext case_doc ''subject_principal_id'')),
       (''expected_decision'', JStr (dtext case_doc ''expected_decision'')),
       (''observed_decision'', JStr (observed_text evidence)),
       (''matched_rule_id'', JStr (dtext case_doc ''matched_rule_id'')),
       (''relation_ids'', JList (map JStr (nonempty_texts (map (\<lambda>r. dtext r ''relation_id'') relations))))]))))"

section \<open>What a case leaves behind\<close>

record matrix_case =
  mc_case_key :: string
  mc_observation_key :: string
  mc_run_id :: oid
  mc_result_id :: "oid option"
  mc_policy_key :: string
  mc_policy_version_id :: string
  mc_policy_version :: int
  mc_project_id :: string
  mc_env_id :: string
  mc_resource_owner_principal_id :: string
  mc_subject_principal_id :: string
  mc_resource_family :: string
  mc_action :: string
  mc_expected_decision :: string
  mc_observed_decision :: string
  mc_matched_rule_id :: string
  mc_reason_codes :: "string list"

record construction_trace =
  tr_run_id :: oid
  tr_result_id :: oid
  tr_pathid :: int
  tr_case_name :: string
  tr_check_type :: string
  tr_method :: string
  tr_path :: string
  tr_resource_owner_principal_id :: string
  tr_subject_principal_id :: string
  tr_selected_parameters :: "json dict"
  tr_kept_parameters :: "json dict"
  tr_mutations :: "json dict list"
  tr_value_sources :: "json dict"
  tr_request_before :: "json dict"
  tr_request_after :: "json dict"
  tr_strategy :: string
  tr_strategy_reason :: string
  tr_judge_inputs :: "json dict"
  tr_verdict :: string
  tr_reason_codes :: "string list"
  tr_evidence_ref :: string

record matrix_records =
  mx_cases :: "matrix_case list"
  mx_traces :: "construction_trace list"

definition observation_key :: "security_test_run \<Rightarrow> plan_snapshot \<Rightarrow> json dict \<Rightarrow> string" where
  "observation_key run sn case_doc = run_id run @ '':'' @ str_or (dtext case_doc ''case_key'') (sn_id sn)"

definition new_matrix_case :: "security_test_run \<Rightarrow> plan_snapshot \<Rightarrow> json dict \<Rightarrow> json dict \<Rightarrow> int \<Rightarrow>
    security_test_result option \<Rightarrow> matrix_case" where
  "new_matrix_case run sn evidence case_doc version result = \<lparr>
     mc_case_key = dtext case_doc ''case_key'',
     mc_observation_key = observation_key run sn case_doc,
     mc_run_id = run_id run, mc_result_id = map_option res_id result,
     mc_policy_key = dtext case_doc ''policy_key'',
     mc_policy_version_id = dtext case_doc ''policy_version_id'', mc_policy_version = version,
     mc_project_id = cx_project_id (run_ctx run), mc_env_id = cx_env_id (run_ctx run),
     mc_resource_owner_principal_id = dtext case_doc ''resource_owner_principal_id'',
     mc_subject_principal_id = dtext case_doc ''subject_principal_id'',
     mc_resource_family = dtext case_doc ''resource_family'', mc_action = dtext case_doc ''action'',
     mc_expected_decision = str_or (dtext case_doc ''expected_decision'') ''review'',
     mc_observed_decision = observed_text evidence, mc_matched_rule_id = dtext case_doc ''matched_rule_id'',
     mc_reason_codes = (case result of Some r \<Rightarrow> res_reason_codes r | None \<Rightarrow> [])\<rparr>"

text \<open>One entry of \<open>selected_parameters\<close>; where the value came from and went to, never the value.\<close>

definition selected_parameter :: "json dict \<Rightarrow> (string \<times> json) result_of" where
  "selected_parameter item =
     sbind (as_dict (dget item ''source_locator'')) (\<lambda>source.
     sbind (as_dict (dget item ''target_locator'')) (\<lambda>target.
     Inr (str_or (dtext item ''canonical_name'') (str_or (dtext item ''target_parameter'') ''field''),
       JObj [(''source_position'', JStr ''response''),
         (''target_position'', JStr (str_or (dtext item ''target_position'') ''body'')),
         (''source_locator'', JObj source), (''target_locator'', JObj target)])))"

definition new_trace :: "security_test_run \<Rightarrow> plan_snapshot \<Rightarrow> json dict \<Rightarrow> json dict \<Rightarrow> json dict \<Rightarrow>
    security_test_result \<Rightarrow> construction_trace result_of" where
  "new_trace run sn evidence plan case_doc r =
     sbind (as_dicts (dget plan ''relations'')) (\<lambda>mappings.
     sbind (smap selected_parameter mappings) (\<lambda>selected.
     sbind (dint evidence ''authorization_resource_match_count'') (\<lambda>matches.
     sbind (dint evidence ''authorization_resource_field_count'') (\<lambda>fields.
     Inr \<lparr>tr_run_id = run_id run, tr_result_id = res_id r, tr_pathid = sn_pathid sn,
       tr_case_name = res_case_name r, tr_check_type = run_check_type run, tr_method = sn_method sn,
       tr_path = plan_path sn plan,
       tr_resource_owner_principal_id = dtext case_doc ''resource_owner_principal_id'',
       tr_subject_principal_id = dtext case_doc ''subject_principal_id'',
       tr_selected_parameters = dict_update [] selected,
       tr_kept_parameters = [(''authentication'', JStr ''resolved_transiently_per_principal'')],
       tr_mutations = [[(''type'', JStr ''resource_identity_substitution''),
         (''value_persisted'', JBool False), (''resource_match_count'', JInt matches)]],
       tr_value_sources = [(''source'', JStr ''resource_owner_response_transient''),
         (''digest'', JStr (dtext evidence ''value_digest''))],
       tr_request_before = [(''snapshot_id'', JStr (dtext plan ''source_snapshot_id''))],
       tr_request_after = [(''snapshot_id'', JStr (dtext plan ''consumer_snapshot_id''))],
       tr_strategy = ''resource_owner_to_subject_matrix_cell'',
       tr_strategy_reason = ''versioned policy and verified parameter relation'',
       tr_judge_inputs = [(''expected_decision'', JStr (dtext case_doc ''expected_decision'')),
         (''observed_decision'', JStr (observed_text evidence)),
         (''resource_match_count'', JInt matches), (''resource_field_count'', JInt fields)],
       tr_verdict = res_verdict r, tr_reason_codes = res_reason_codes r,
       tr_evidence_ref = res_evidence_ref r\<rparr>))))"

text \<open>
  Both records are looked up first and saved once. The row is saved before the trace is built, so an
  error of the second half keeps it; \<open>execution_result.id\<close> is read there without the test for \<open>None\<close>
  of the first half.
\<close>

definition record_case_row :: "security_test_run \<Rightarrow> plan_snapshot \<Rightarrow> json dict \<Rightarrow> json dict \<Rightarrow>
    security_test_result option \<Rightarrow> matrix_case list \<Rightarrow> (matrix_case list \<times> matrix_case) result_of" where
  "record_case_row run sn evidence case_doc result rows =
     (case coll_get mc_observation_key (observation_key run sn case_doc) rows of
        Some row \<Rightarrow> Inr (rows, row)
      | None \<Rightarrow> sbind (dint case_doc ''policy_version'') (\<lambda>version.
          let row = new_matrix_case run sn evidence case_doc version result in Inr (rows @ [row], row)))"

definition record_trace :: "security_test_run \<Rightarrow> plan_snapshot \<Rightarrow> json dict \<Rightarrow> json dict \<Rightarrow> json dict \<Rightarrow>
    security_test_result option \<Rightarrow> construction_trace list \<Rightarrow> construction_trace list result_of" where
  "record_trace run sn evidence plan case_doc result traces = (case result of
     None \<Rightarrow> Inl (AttributeError ''id'')
   | Some r \<Rightarrow>
       if exists_where (\<lambda>tr. tr_result_id tr = res_id r) traces then Inr traces
       else sbind (new_trace run sn evidence plan case_doc r) (\<lambda>tr. Inr (traces @ [tr])))"

definition record_authorization_matrix_case :: "security_test_run \<Rightarrow> plan_snapshot \<Rightarrow> json dict \<Rightarrow>
    security_test_result option \<Rightarrow> matrix_records \<Rightarrow> matrix_records \<times> matrix_case result_of" where
  "record_authorization_matrix_case run sn evidence result s =
     (case sbind (validation_plan sn) (\<lambda>plan. sbind (plan_case plan) (\<lambda>case_doc. Inr (plan, case_doc))) of
        Inl e \<Rightarrow> (s, Inl e)
      | Inr (plan, case_doc) \<Rightarrow>
          (case record_case_row run sn evidence case_doc result (mx_cases s) of
             Inl e \<Rightarrow> (s, Inl e)
           | Inr (rows, row) \<Rightarrow>
               (case record_trace run sn evidence plan case_doc result (mx_traces s) of
                  Inl e \<Rightarrow> (s\<lparr>mx_cases := rows\<rparr>, Inl e)
                | Inr traces \<Rightarrow> (s\<lparr>mx_cases := rows, mx_traces := traces\<rparr>, Inr row))))"

section \<open>The adapter\<close>

text \<open>What \<open>replay\<close> adds to the evidence of \<open>replay_parameter_validation\<close>.\<close>

definition matrix_evidence :: "plan_snapshot \<Rightarrow> json dict \<Rightarrow> json dict result_of" where
  "matrix_evidence sn evidence =
     sbind (observe_authorization_decision (dict_set ''authorization_matrix_case'' (JBool True) evidence))
       (\<lambda>observed.
     let e1 = dict_set ''authorization_observed_decision'' (JStr observed)
                (dict_set ''authorization_matrix_case'' (JBool True) evidence) in
     sbind (matrix_result_target sn e1) (\<lambda>target. Inr (dict_set ''result_target'' (JObj target) e1)))"

record matrix_adapter =
  ma_adapter_id :: string
  ma_adapter_version :: string
  ma_replay :: "plan_snapshot \<Rightarrow> json dict result_of"
  ma_judge :: judge_fun
  ma_auth_modes :: "string list"
  ma_requires_account_context :: bool
  ma_supports_mutation :: bool
  ma_record :: "security_test_run \<Rightarrow> plan_snapshot \<Rightarrow> json dict \<Rightarrow> security_test_result option \<Rightarrow>
    matrix_records \<Rightarrow> matrix_records \<times> matrix_case result_of"

definition build_authorization_matrix_adapter :: "(plan_snapshot \<Rightarrow> json dict result_of) \<Rightarrow> matrix_adapter" where
  "build_authorization_matrix_adapter replay = \<lparr>
     ma_adapter_id = ''authorization_matrix'', ma_adapter_version = ''1'',
     ma_replay = (\<lambda>sn. sbind (replay sn) (matrix_evidence sn)),
     ma_judge = judge_authorization_matrix, ma_auth_modes = [''matrix''],
     ma_requires_account_context = False, ma_supports_mutation = False,
     ma_record = record_authorization_matrix_case\<rparr>"

section \<open>\<open>resource_family\<close>\<close>

definition GENERIC_PATH_SEGMENTS :: "string list" where
  "GENERIC_PATH_SEGMENTS = [''api'', ''v1'', ''v2'', ''v3'', ''v4'', ''std'', ''webapi'', ''single'',
     ''multiple'', ''batch'', ''list'', ''detail'', ''details'', ''info'', ''infos'', ''search'', ''page'']"

definition ACTION_SEGMENTS :: "string list" where
  "ACTION_SEGMENTS = [''create'', ''add'', ''new'', ''insert'', ''update'', ''edit'', ''modify'',
     ''delete'', ''remove'', ''query'', ''get'', ''set'', ''cancel'', ''enable'', ''disable'']"

text \<open>The removal of \<open>^https?://[^/]+\<close>.\<close>

definition strip_origin :: "string \<Rightarrow> string" where
  "strip_origin s =
     (let rest = (if starts_with ''http://'' s then drop 7 s
                  else if starts_with ''https://'' s then drop 8 s else []) in
      if rest \<noteq> [] \<and> hd rest \<noteq> CHR ''/'' then dropWhile (\<lambda>c. c \<noteq> CHR ''/'') rest else s)"

definition path_parts :: "string \<Rightarrow> string list" where
  "path_parts path = nonempty_texts (split_on (CHR ''/'') (strip_origin (py_strip path)))"

fun stable_segments :: "string list \<Rightarrow> string list \<Rightarrow> string list" where
  "stable_segments kept [] = kept"
| "stable_segments kept (raw # rest) = (let item = py_lower raw in
     if starts_with ''{'' item \<and> ends_with ''}'' item then stable_segments kept rest
     else if item \<in> set GENERIC_PATH_SEGMENTS then stable_segments kept rest
     else if item \<in> set ACTION_SEGMENTS \<and> kept \<noteq> [] then stable_segments kept rest
     else stable_segments (kept @ [item]) rest)"

definition resource_family :: "string \<Rightarrow> string" where
  "resource_family path = (let kept = stable_segments [] (path_parts path) in
     if kept \<noteq> [] then join ''/'' (take 2 kept) else ''root'')"

section \<open>The relation groups of a policy\<close>

record project_endpoint =
  ep_ptah_id :: int
  ep_project_id :: string
  ep_method :: string
  ep_path :: string
  ep_url :: string

record project_environment =
  en_project_id :: string
  en_env_id :: string
  en_active :: bool

definition frozen_relations :: "authorization_policy \<Rightarrow> (string \<times> json dict) list" where
  "frozen_relations policy =
     fold (\<lambda>d acc. dict_set (dtext d ''relation_id'') d acc) (ap_relation_snapshots policy) []"

definition frozen_hash :: "authorization_policy \<Rightarrow> oid \<Rightarrow> string" where
  "frozen_hash policy i = (case map_of (frozen_relations policy) i of
     Some d \<Rightarrow> dtext d ''relation_sha256'' | None \<Rightarrow> [])"

definition relation_hash :: "(json \<Rightarrow> string) \<Rightarrow> parameter_relation \<Rightarrow> string" where
  "relation_hash digest r = dtext (authorization_relation_descriptor digest r) ''relation_sha256''"

definition frozen_guards :: "(json \<Rightarrow> string) \<Rightarrow> authorization_policy \<Rightarrow> parameter_relation \<Rightarrow> guard list" where
  "frozen_guards digest policy r = [
     (pr_project_id r \<noteq> ap_project_id policy,
      ValueError ''authorization relation does not belong to the policy project''),
     (pr_env_id r \<noteq> [] \<and> pr_env_id r \<noteq> ap_env_id policy,
      ValueError ''authorization relation does not belong to the policy environment''),
     (relation_hash digest r \<noteq> frozen_hash policy (pr_id r),
      ValueError ''authorization relation changed; clone and activate a new policy version'')]"

type_synonym relation_groups = "((int \<times> int) \<times> parameter_relation list) list"

definition add_to_group :: "parameter_relation \<Rightarrow> relation_groups \<Rightarrow> relation_groups" where
  "add_to_group r groups = (let key = (pr_res_pathid r, pr_req_pathid r) in
     dict_set key ((case map_of groups key of Some g \<Rightarrow> g | None \<Rightarrow> []) @ [r]) groups)"

definition group_key :: "int \<times> int \<Rightarrow> string" where
  "group_key key = str_of_int (fst key) @ '':'' @ str_of_int (snd key)"

definition group_resource :: "authorization_policy \<Rightarrow> project_endpoint list \<Rightarrow>
    (int \<times> int) \<times> parameter_relation list \<Rightarrow> matrix_resource result_of" where
  "group_resource policy endpoints entry = (case entry of (key, members) \<Rightarrow>
     (case find (\<lambda>e. ep_ptah_id e = snd key \<and> ep_project_id e = ap_project_id policy) endpoints of
        None \<Rightarrow> Inl (ValueError ''authorization consumer endpoint is unavailable'')
      | Some endpoint \<Rightarrow>
          (let family = resource_family (str_or (ep_path endpoint) (ep_url endpoint)) in
           sbind (guards [
             (\<not> is_safe_method (ep_method endpoint),
              ValueError ''authorization matrix currently requires read-only consumer endpoints''),
             (ap_resource_family policy \<noteq> [] \<and> family \<noteq> ap_resource_family policy,
              ValueError ''authorization relation resource family does not match the policy'')]) (\<lambda>_.
           Inr \<lparr>rs_resource_key = group_key key, rs_relation_ids = map pr_id members,
             rs_resource_family = family, rs_action = ''read''\<rparr>))))"

definition load_relation_groups :: "(json \<Rightarrow> string) \<Rightarrow> (string \<Rightarrow> oid option) \<Rightarrow> authorization_policy \<Rightarrow>
    project_endpoint list \<Rightarrow> policy_db \<Rightarrow>
    (matrix_resource list \<times> (string \<times> parameter_relation list) list) result_of" where
  "load_relation_groups digest parse policy endpoints s =
     sbind (guards [
       (str_or (ap_action policy) ''read'' \<noteq> ''read'',
        ValueError ''authorization policy action has no registered execution adapter''),
       (list_ex (\<lambda>i. parse i = None) (ap_relation_ids policy),
        ValueError ''authorization policy contains an invalid relation id'')]) (\<lambda>_.
     let ids = List.map_filter parse (ap_relation_ids policy); relations = policy_relations ids s in
     sbind (guards [
       (list_ex (\<lambda>i. i \<notin> pr_id ` set relations) ids,
        ValueError ''authorization policy relations are unavailable''),
       (fst ` set (frozen_relations policy) \<noteq> pr_id ` set relations,
        ValueError ''authorization policy has no complete frozen relation snapshot'')]) (\<lambda>_.
     sbind (guards (concat (map (frozen_guards digest policy) relations))) (\<lambda>_.
     let groups = sort_key fst (fold add_to_group relations []) in
     sbind (smap (group_resource policy endpoints) groups) (\<lambda>resources.
     Inr (resources, map (\<lambda>(key, g). (group_key key, g)) groups)))))"

section \<open>Scheduling\<close>

text \<open>
  A frozen principal may run only with its own active profile, at the revision it was frozen with.
\<close>

definition check_principal :: "authorization_policy \<Rightarrow> policy_db \<Rightarrow> principal_snapshot \<Rightarrow>
    (string \<times> auth_profile) result_of" where
  "check_principal policy s snap =
     (case active_profile (pn_profile_id snap) (ap_project_id policy) (ap_env_id policy) s of
        None \<Rightarrow> Inl (ValueError ''authorization principal authentication profile is unavailable'')
      | Some profile \<Rightarrow> sbind (guards [
          (pf_account_key profile \<noteq> pn_account_key snap,
           ValueError ''authorization principal authentication profile is unavailable''),
          (ps_auth_profile_revision_id snap \<noteq> pf_current_revision_id profile,
           ValueError ''authorization principal authentication revision changed; clone and activate a new policy version'')])
          (\<lambda>_. Inr (pn_principal_id snap, profile)))"

type_synonym case_builder = "parameter_relation list \<Rightarrow> auth_profile \<Rightarrow> auth_profile \<Rightarrow>
  project_environment \<Rightarrow> int \<Rightarrow> bool \<Rightarrow> int \<Rightarrow> json dict \<Rightarrow> db \<Rightarrow> db \<times> request_snapshot result_of"

definition request_budget_of :: "authorization_policy \<Rightarrow> int" where
  "request_budget_of policy =
     (if ap_request_budget_per_case policy = 0 then 3 else ap_request_budget_per_case policy)"

text \<open>
  The loop that builds one plan snapshot per case. The keys of both dictionaries come from the same
  snapshots and groups as the cases; a missing one would be a \<open>KeyError\<close>.
\<close>

fun build_snapshots :: "case_builder \<Rightarrow> authorization_policy \<Rightarrow> project_environment \<Rightarrow> int \<Rightarrow>
    (string \<times> auth_profile) list \<Rightarrow> (string \<times> parameter_relation list) list \<Rightarrow>
    principal_snapshot case_spec list \<Rightarrow> db \<Rightarrow> db \<times> request_snapshot list result_of" where
  "build_snapshots build policy env days profiles groups [] s = (s, Inr [])"
| "build_snapshots build policy env days profiles groups (c # cs) s =
     (case (map_of groups (cs_resource_key c), map_of profiles (pn_principal_id (cs_owner c)),
            map_of profiles (pn_principal_id (cs_subject c))) of
        (Some g, Some owner, Some subject) \<Rightarrow>
          (case build g owner subject env (request_budget_of policy) (3 < request_budget_of policy) days
              (case_metadata policy c) s of
             (s1, Inl e) \<Rightarrow> (s1, Inl e)
           | (s1, Inr sn) \<Rightarrow>
               (case build_snapshots build policy env days profiles groups cs s1 of
                  (s2, Inl e) \<Rightarrow> (s2, Inl e)
                | (s2, Inr sns) \<Rightarrow> (s2, Inr (sn # sns))))
      | _ \<Rightarrow> (s, Inl (KeyError ''authorization case'')))"

definition plan_hash :: "(json \<Rightarrow> string) \<Rightarrow> authorization_policy \<Rightarrow> request_snapshot list \<Rightarrow> string" where
  "plan_hash digest policy snapshots = digest (JObj [
     (''policy_version_id'', JStr (ap_policy_version_id policy)),
     (''snapshots'', JList (map JStr (sort (map sn_id snapshots))))])"

definition matrix_context :: "authorization_policy \<Rightarrow> string \<Rightarrow> execution_context" where
  "matrix_context policy plan_sha256 = (default_context (ap_project_id policy))\<lparr>
     cx_env_id := ap_env_id policy, cx_auth_mode := ''matrix'', cx_adapter_id := ''authorization_matrix'',
     cx_adapter_version := ''1'', cx_plan_version := ''authorization-matrix-v1'',
     cx_plan_sha256 := plan_sha256\<rparr>"

definition latest_terminal_id :: "authorization_policy \<Rightarrow> string \<Rightarrow> db \<Rightarrow> string" where
  "latest_terminal_id policy plan_sha256 s =
     (case sort_key (newest_by run_finished_at) (filter (\<lambda>r. cx_project_id (run_ctx r) = ap_project_id policy \<and>
          cx_env_id (run_ctx r) = ap_env_id policy \<and> cx_adapter_id (run_ctx r) = ''authorization_matrix'' \<and>
          cx_plan_sha256 (run_ctx r) = plan_sha256 \<and> run_status r \<in> {DONE, FAILED}) (db_runs s)) of
        [] \<Rightarrow> ''none'' | r # _ \<Rightarrow> run_id r)"

definition matrix_scope :: "authorization_policy \<Rightarrow> nat \<Rightarrow> json dict" where
  "matrix_scope policy n = [
     (''purpose'', JStr ''authorization_matrix''),
     (''authorization_policy_key'', JStr (ap_policy_key policy)),
     (''authorization_policy_version_id'', JStr (ap_policy_version_id policy)),
     (''authorization_policy_version'', JInt (ap_version policy)),
     (''principal_ids'', JList (map (JStr \<circ> pn_principal_id) (ap_principal_snapshots policy))),
     (''relation_ids'', JList (map JStr (ap_relation_ids policy))),
     (''case_count'', JInt (int n)),
     (''case_budget'', JInt (ap_case_budget policy)),
     (''request_budget_per_case'', JInt (ap_request_budget_per_case policy)),
     (''maximum_request_count'', JInt (int n * ap_request_budget_per_case policy))]"

definition matrix_request :: "(json \<Rightarrow> string) \<Rightarrow> authorization_policy \<Rightarrow> string \<Rightarrow> request_snapshot list \<Rightarrow>
    db \<Rightarrow> enqueue_request" where
  "matrix_request digest policy operator snapshots s =
     (let n = length snapshots; workers = max 1 (min 8 (int n)); sha = plan_hash digest policy snapshots in \<lparr>
       eq_name = ''authorization matrix: '' @ ap_name policy @ '' / v'' @ str_of_int (ap_version policy) @
         '' / '' @ str_of_int (int n) @ '' cases'',
       eq_check_type = ''authorization_matrix'', eq_context = matrix_context policy sha,
       eq_snapshot_ids = map sn_id snapshots,
       eq_policy = default_policy\<lparr>po_max_workers := workers, po_per_host_workers := max 1 (min 4 workers),
         po_request_timeout_seconds := 10, po_min_interval_ms := 50\<rparr>,
       eq_scope = matrix_scope policy n, eq_evidence_ref = [], eq_operator = operator, eq_priority = 100,
       eq_queue_name = ''snapshot'',
       eq_idempotency_key = ''authorization-matrix:'' @ digest (JObj [
         (''plan_sha256'', JStr sha),
         (''previous_terminal_run'', JStr (latest_terminal_id policy sha s)),
         (''contract_version'', JInt 1)])\<rparr>)"

text \<open>Everything up to the first write: the policy, its profiles, groups and cases.\<close>

definition plan_matrix :: "(json \<Rightarrow> string) \<Rightarrow> (string \<Rightarrow> oid option) \<Rightarrow> string \<Rightarrow> project_environment list \<Rightarrow>
    project_endpoint list \<Rightarrow> policy_db \<Rightarrow>
    (authorization_policy \<times> project_environment \<times> (string \<times> auth_profile) list \<times>
     (string \<times> parameter_relation list) list \<times> principal_snapshot case_spec list) result_of" where
  "plan_matrix digest parse vid environments endpoints p =
     (case find (\<lambda>v. ap_policy_version_id v = vid \<and> ap_lifecycle v = ACTIVE) (ad_policies p) of
        None \<Rightarrow> Inl (ValueError ''active authorization policy version not found'')
      | Some policy \<Rightarrow>
     (case find (\<lambda>e. en_project_id e = ap_project_id policy \<and> en_env_id e = ap_env_id policy \<and> en_active e)
          environments of
        None \<Rightarrow> Inl (ValueError ''authorization policy environment is unavailable'')
      | Some env \<Rightarrow>
     if ap_principal_snapshots policy = []
     then Inl (ValueError ''authorization policy has no frozen principal snapshot'')
     else sbind (smap (check_principal policy p) (ap_principal_snapshots policy)) (\<lambda>profiles.
       let rules = filter rl_active (rules_of (ap_policy_version_id policy) p) in
       sbind (load_relation_groups digest parse policy endpoints p) (\<lambda>(resources, groups).
       sbind (expand_authorization_matrix digest (\<lambda>_. True) policy (ap_principal_snapshots policy) rules resources)
         (\<lambda>cases. Inr (policy, env, rev profiles, groups, cases))))))"

definition schedule_authorization_matrix :: "(json \<Rightarrow> string) \<Rightarrow> (string \<Rightarrow> oid option) \<Rightarrow> time \<Rightarrow> oid \<Rightarrow>
    case_builder \<Rightarrow> string \<Rightarrow> string \<Rightarrow> int \<Rightarrow> project_environment list \<Rightarrow> project_endpoint list \<Rightarrow>
    policy_db \<Rightarrow> db \<Rightarrow> db \<times> (security_test_run \<times> bool) result_of" where
  "schedule_authorization_matrix digest parse now new_id build vid operator days environments endpoints p s =
     (case plan_matrix digest parse vid environments endpoints p of
        Inl e \<Rightarrow> (s, Inl e)
      | Inr (policy, env, profiles, groups, cases) \<Rightarrow>
          (case build_snapshots build policy env days profiles groups cases s of
             (s1, Inl e) \<Rightarrow> (s1, Inl e)
           | (s1, Inr snapshots) \<Rightarrow>
               (case enqueue_snapshot_batch digest parse now new_id
                   (matrix_request digest policy operator snapshots s1) s1 of
                  Inl e \<Rightarrow> (s1, Inl e)
                | Inr (s2, run, created) \<Rightarrow>
                    (let s3 = set_expiry (retention_end now days) (run_id run) s2 in
                     (s3, Inr (case coll_get run_id (run_id run) (db_runs s3) of Some r \<Rightarrow> r | None \<Rightarrow> run, created))))))"

section \<open>Facts: what was observed\<close>

definition source_status :: "json dict \<Rightarrow> int option" where
  "source_status e = status_code (dget e ''source_status_code'')"

definition subject_status :: "json dict \<Rightarrow> int option" where
  "subject_status e = status_code (dget e ''consumer_status_code'')"

definition blocked_status :: "int option \<Rightarrow> bool" where
  "blocked_status st \<longleftrightarrow> (\<exists>n \<in> set BLOCKED_STATUSES. st = Some n)"

lemma observe_deny:
  "observe_authorization_decision e = Inr ''deny'' \<Longrightarrow> success_status (source_status e) \<and> blocked_status (subject_status e)"
  by (auto simp: observe_authorization_decision_def Let_def source_status_def subject_status_def blocked_status_def
      sbind_Inr_iff split: if_splits option.splits)

lemma observe_allow:
  "observe_authorization_decision e = Inr ''allow'' \<Longrightarrow>
     success_status (source_status e) \<and> success_status (subject_status e) \<and>
     (\<exists>n. n \<noteq> 0 \<and> dint e ''authorization_resource_match_count'' = Inr n \<and>
        dint e ''authorization_resource_field_count'' = Inr n)"
  by (auto simp: observe_authorization_decision_def Let_def source_status_def subject_status_def success_status_def
      sbind_Inr_iff split: if_splits option.splits)

lemma observe_partial:
  "observe_authorization_decision e = Inr ''allow_partial'' \<Longrightarrow>
     success_status (source_status e) \<and> success_status (subject_status e) \<and>
     (\<exists>n. n \<noteq> 0 \<and> dint e ''authorization_resource_match_count'' = Inr n)"
  by (auto simp: observe_authorization_decision_def Let_def source_status_def subject_status_def success_status_def
      sbind_Inr_iff split: if_splits option.splits)

definition observed_fields :: "string list" where
  "observed_fields = [''source_status_code'', ''consumer_status_code'', ''authorization_resource_match_count'',
     ''authorization_resource_field_count'', ''authorization_expected_decision'']"

lemma observe_cong:
  assumes "\<And>k. k \<in> set observed_fields \<Longrightarrow> dget e' k = dget e k"
  shows "observe_authorization_decision e' = observe_authorization_decision e"
proof -
  have "dget e' ''source_status_code'' = dget e ''source_status_code''"
    "dget e' ''consumer_status_code'' = dget e ''consumer_status_code''"
    "dget e' ''authorization_resource_match_count'' = dget e ''authorization_resource_match_count''"
    "dget e' ''authorization_resource_field_count'' = dget e ''authorization_resource_field_count''"
    by (rule assms, simp add: observed_fields_def)+
  then show ?thesis
    unfolding observe_authorization_decision_def dint_def by (simp only:)
qed

lemma observe_never_empty: "observe_authorization_decision e = Inr x \<Longrightarrow> x \<noteq> []"
  by (auto simp: observe_authorization_decision_def Let_def sbind_Inr_iff split: if_splits option.splits)

lemma matrix_evidence_Inr:
  assumes "matrix_evidence sn e = Inr e'"
  shows "\<exists>observed. observe_authorization_decision e = Inr observed \<and> observed \<noteq> [] \<and>
    dget e' ''authorization_observed_decision'' = JStr observed"
    and "\<And>k. k \<in> set observed_fields \<Longrightarrow> dget e' k = dget e k"
proof -
  from assms obtain observed target
    where o': "observe_authorization_decision (dict_set ''authorization_matrix_case'' (JBool True) e) = Inr observed"
      and e': "e' = dict_set ''result_target'' (JObj target) (dict_set ''authorization_observed_decision'' (JStr observed)
        (dict_set ''authorization_matrix_case'' (JBool True) e))"
    by (auto simp: matrix_evidence_def sbind_Inr_iff Let_def)
  show "dget e' k = dget e k" if "k \<in> set observed_fields" for k
    using that by (auto simp: e' dget_dict_set observed_fields_def)
  have "observe_authorization_decision (dict_set ''authorization_matrix_case'' (JBool True) e) =
      observe_authorization_decision e"
    by (rule observe_cong) (auto simp: dget_dict_set observed_fields_def)
  with o' have "observe_authorization_decision e = Inr observed" by simp
  with observe_never_empty [OF this]
  show "\<exists>observed. observe_authorization_decision e = Inr observed \<and> observed \<noteq> [] \<and>
    dget e' ''authorization_observed_decision'' = JStr observed"
    by (simp add: e' dget_dict_set)
qed

text \<open>The table the judge implements.\<close>

definition matrix_verdict :: "string \<Rightarrow> string \<Rightarrow> bool \<Rightarrow> string" where
  "matrix_verdict expected observed owner_ok =
     (if \<not> owner_ok then ''not_evaluable''
      else if expected = ''deny'' \<and> observed \<in> {''allow'', ''allow_partial''} then ''potential_vuln''
      else if (expected = ''deny'' \<and> observed = ''deny'') \<or> (expected = ''allow'' \<and> observed = ''allow'')
      then ''no_vuln''
      else ''need_review'')"

lemma judge_table:
  assumes "judge_authorization_matrix e ct am = Inr (v, reasons, conf)"
    and "dget e ''authorization_observed_decision'' = JStr observed" "observed \<noteq> []"
  shows "v = matrix_verdict (str_or (dtext e ''authorization_expected_decision'') ''review'') observed
      (success_status (source_status e)) \<and> reasons \<noteq> [] \<and> 0 < conf \<and> conf < 1"
  using assms
  by (auto simp: judge_authorization_matrix_def Let_def matrix_verdict_def source_status_def py_str_def split: if_splits)

section \<open>Facts: what is scheduled\<close>

lemma frozen_guards_all: "list_all (\<lambda>g. \<not> fst g) (concat (map (frozen_guards digest policy) rs)) \<longleftrightarrow>
    (\<forall>r \<in> set rs. pr_project_id r = ap_project_id policy \<and> (pr_env_id r = [] \<or> pr_env_id r = ap_env_id policy) \<and>
       relation_hash digest r = frozen_hash policy (pr_id r))"
  by (induction rs) (auto simp: frozen_guards_def)

lemma load_relation_groups_Inr:
  assumes "load_relation_groups digest parse policy endpoints s = Inr x" "i \<in> set (ap_relation_ids policy)"
  shows "\<exists>r \<in> set (ad_relations s). parse i = Some (pr_id r) \<and> pr_project_id r = ap_project_id policy \<and>
    relation_hash digest r = frozen_hash policy (pr_id r)"
proof -
  let ?ids = "List.map_filter parse (ap_relation_ids policy)"
  let ?rs = "policy_relations ?ids s"
  from assms(1) have g: "\<forall>i \<in> set (ap_relation_ids policy). parse i \<noteq> None"
    and rel: "\<forall>i \<in> set ?ids. i \<in> pr_id ` set ?rs"
    and ok: "\<forall>r \<in> set ?rs. pr_project_id r = ap_project_id policy \<and>
       (pr_env_id r = [] \<or> pr_env_id r = ap_env_id policy) \<and> relation_hash digest r = frozen_hash policy (pr_id r)"
    unfolding load_relation_groups_def
    by (auto simp: Let_def sbind_Inr_iff guards_ok_iff list_ex_iff frozen_guards_all)
  from g assms(2) obtain j where j: "parse i = Some j" by blast
  with assms(2) have "j \<in> set ?ids" by (auto simp: set_map_filter)
  with rel obtain r where r: "r \<in> set ?rs" "pr_id r = j" by auto
  then have "r \<in> set (ad_relations s)" by (simp add: policy_relations_def)
  with r ok j show ?thesis by blast
qed

lemma check_principal_Inr:
  "check_principal policy s snap = Inr (i, profile) \<Longrightarrow>
     i = pn_principal_id snap \<and> profile \<in> set (ad_profiles s) \<and> pf_active profile \<and>
     pf_profile_id profile = pn_profile_id snap \<and> pf_project_id profile = ap_project_id policy \<and>
     pf_env_id profile = ap_env_id policy \<and> pf_account_key profile = pn_account_key snap \<and>
     pf_current_revision_id profile = ps_auth_profile_revision_id snap"
  by (auto simp: check_principal_def active_profile_def sbind_Inr_iff guards_ok_iff dest!: find_Some_in
      split: option.splits)

definition frozen_identity :: "authorization_policy \<Rightarrow> policy_db \<Rightarrow> principal_snapshot \<Rightarrow> bool" where
  "frozen_identity policy s snap \<longleftrightarrow> (\<exists>profile \<in> set (ad_profiles s). pf_active profile \<and>
     pf_profile_id profile = pn_profile_id snap \<and> pf_project_id profile = ap_project_id policy \<and>
     pf_env_id profile = ap_env_id policy \<and> pf_account_key profile = pn_account_key snap \<and>
     pf_current_revision_id profile = ps_auth_profile_revision_id snap)"

lemma plan_matrix_Inr:
  assumes "plan_matrix digest parse vid environments endpoints p = Inr (policy, env, profiles, groups, cases)"
  shows "policy \<in> set (ad_policies p) \<and> ap_policy_version_id policy = vid \<and> ap_lifecycle policy = ACTIVE"
    and "ap_principal_snapshots policy \<noteq> []"
    and "\<And>snap. snap \<in> set (ap_principal_snapshots policy) \<Longrightarrow> frozen_identity policy p snap"
    and "\<exists>x. load_relation_groups digest parse policy endpoints p = Inr x"
    and "\<exists>rules resources. expand_authorization_matrix digest (\<lambda>_. True) policy (ap_principal_snapshots policy)
      rules resources = Inr cases"
proof -
  from assms obtain profs resources
    where pol: "find (\<lambda>v. ap_policy_version_id v = vid \<and> ap_lifecycle v = ACTIVE) (ad_policies p) = Some policy"
    and ne: "ap_principal_snapshots policy \<noteq> []"
    and profs: "smap (check_principal policy p) (ap_principal_snapshots policy) = Inr profs"
    and load: "load_relation_groups digest parse policy endpoints p = Inr (resources, groups)"
    and ex: "expand_authorization_matrix digest (\<lambda>_. True) policy (ap_principal_snapshots policy)
      (filter rl_active (rules_of (ap_policy_version_id policy) p)) resources = Inr cases"
    by (auto simp: plan_matrix_def sbind_Inr_iff Let_def split: option.splits if_splits)
  show "policy \<in> set (ad_policies p) \<and> ap_policy_version_id policy = vid \<and> ap_lifecycle policy = ACTIVE"
    using pol by (auto dest: find_Some_in)
  show "ap_principal_snapshots policy \<noteq> []" by (rule ne)
  show "\<exists>x. load_relation_groups digest parse policy endpoints p = Inr x" using load by blast
  show "\<exists>rules resources. expand_authorization_matrix digest (\<lambda>_. True) policy (ap_principal_snapshots policy)
      rules resources = Inr cases" using ex by blast
  show "frozen_identity policy p snap" if "snap \<in> set (ap_principal_snapshots policy)" for snap
  proof -
    from that obtain k where k: "k < length (ap_principal_snapshots policy)" "ap_principal_snapshots policy ! k = snap"
      by (auto simp: in_set_conv_nth)
    obtain i profile where "profs ! k = (i, profile)" by (cases "profs ! k")
    with smap_Inr_nth [OF profs k(1)] k(2) have "check_principal policy p snap = Inr (i, profile)" by simp
    from check_principal_Inr [OF this] show ?thesis unfolding frozen_identity_def by blast
  qed
qed

lemma build_snapshots_length:
  "build_snapshots build policy env days profiles groups cases s = (s', Inr sns) \<Longrightarrow> length sns = length cases"
  by (induction build policy env days profiles groups cases s arbitrary: s' sns rule: build_snapshots.induct)
    (auto split: option.splits prod.splits sum.splits)

lemma normalize_length: "normalize_snapshot_ids parse vs = Inr ids \<Longrightarrow> length ids \<le> length vs"
  using normalize_ids_ok [of parse vs ids]
  by (metis List.finite_set card_image_le card_length distinct_card dual_order.trans)

text \<open>What is assumed of \<open>create_validation_case_snapshot\<close>: it writes no run and no checkpoint.\<close>

definition builds_only_snapshots :: "case_builder \<Rightarrow> bool" where
  "builds_only_snapshots build \<longleftrightarrow> (\<forall>g ow su env budget large days doc s.
     db_runs (fst (build g ow su env budget large days doc s)) = db_runs s \<and>
     db_checkpoints (fst (build g ow su env budget large days doc s)) = db_checkpoints s)"

lemma build_snapshots_untouched:
  assumes "builds_only_snapshots build"
  shows "db_runs (fst (build_snapshots build policy env days profiles groups cases s)) = db_runs s \<and>
    db_checkpoints (fst (build_snapshots build policy env days profiles groups cases s)) = db_checkpoints s"
proof (induction cases arbitrary: s)
  case (Cons c cs)
  have one: "db_runs s1 = db_runs s \<and> db_checkpoints s1 = db_checkpoints s"
    if "build g ow su env b l days d s = (s1, x)" for g ow su b l d s1 x
    using assms that unfolding builds_only_snapshots_def by (metis fst_conv)
  show ?case
    using Cons.IH
    by (auto split: option.splits prod.splits sum.splits dest!: one) (metis fst_conv)+
qed simp

section \<open>Properties\<close>

text \<open>C17: The verdict of a matrix case is sound for what was observed. For the evidence the adapter
  produces: a finding means the policy denies the access, the owner's resource was really read, and
  the subject got a success response disclosing at least one of its identifiers; a pass means either
  that the policy denies and the subject was refused with 401, 403 or 404, or that it allows and the
  subject saw every identifier; a policy that asks for review is never judged automatically.\<close>

theorem matrix_verdict_sound:
  assumes "matrix_evidence sn e = Inr e'" "judge_authorization_matrix e' ct am = Inr (v, reasons, conf)"
  shows "reasons \<noteq> [] \<and> 0 < conf \<and> conf < 1 \<and>
    (v = ''potential_vuln'' \<longrightarrow> dtext e ''authorization_expected_decision'' = ''deny'' \<and>
       success_status (source_status e) \<and> success_status (subject_status e) \<and>
       (\<exists>n. n \<noteq> 0 \<and> dint e ''authorization_resource_match_count'' = Inr n)) \<and>
    (v = ''no_vuln'' \<longrightarrow> success_status (source_status e) \<and>
       (dtext e ''authorization_expected_decision'' = ''deny'' \<and> blocked_status (subject_status e) \<or>
        dtext e ''authorization_expected_decision'' = ''allow'' \<and> success_status (subject_status e) \<and>
        (\<exists>n. n \<noteq> 0 \<and> dint e ''authorization_resource_match_count'' = Inr n \<and>
           dint e ''authorization_resource_field_count'' = Inr n))) \<and>
    (dtext e ''authorization_expected_decision'' \<notin> {''deny'', ''allow''} \<longrightarrow>
       v \<in> {''need_review'', ''not_evaluable''})"
proof -
  note keep = matrix_evidence_Inr(2) [OF assms(1)]
  from matrix_evidence_Inr(1) [OF assms(1)] obtain observed where ob: "observe_authorization_decision e = Inr observed"
    and set: "observed \<noteq> []" "dget e' ''authorization_observed_decision'' = JStr observed" by blast
  have same: "source_status e' = source_status e"
    "dtext e' ''authorization_expected_decision'' = dtext e ''authorization_expected_decision''"
    using keep by (simp_all add: source_status_def dtext_def observed_fields_def)
  let ?x = "dtext e ''authorization_expected_decision''"
  have v: "v = matrix_verdict (str_or ?x ''review'') observed (success_status (source_status e))"
    and r: "reasons \<noteq> []" "0 < conf" "conf < 1"
    using judge_table [OF assms(2) set(2,1)] by (simp_all add: same)
  have bad: "?x = ''deny'' \<and> success_status (source_status e) \<and> observed \<in> {''allow'', ''allow_partial''}"
    if "v = ''potential_vuln''"
    using that by (auto simp: v matrix_verdict_def str_or_def split: if_splits)
  have good: "success_status (source_status e) \<and>
      ((?x = ''deny'' \<and> observed = ''deny'') \<or> (?x = ''allow'' \<and> observed = ''allow''))"
    if "v = ''no_vuln''"
    using that by (auto simp: v matrix_verdict_def str_or_def split: if_splits)
  have "?x \<notin> {''deny'', ''allow''} \<longrightarrow> v \<in> {''need_review'', ''not_evaluable''}"
    by (auto simp: v matrix_verdict_def str_or_def)
  with r bad good ob observe_deny [of e] observe_allow [of e] observe_partial [of e] show ?thesis
    by auto
qed

definition example_plan :: plan_snapshot where
  "example_plan = \<lparr>sn_id = ''s1'', sn_pathid = 3, sn_project_id = ''p'', sn_env_id = ''e'', sn_account_id = [],
       sn_auth_provider_id = [], sn_auth_context_ref = [], sn_auth_profile_revision_id = [],
       sn_auth_realm_revision_id = [], sn_auth_adapter_version_id = [], sn_method = ''GET'', sn_url = [],
       sn_path = ''/orders'', sn_domain = [], sn_parameter_sources = None, sn_metadata = []\<rparr>"

theorem matrix_verdict_sound_witness:
  "\<exists>e'. matrix_evidence example_plan
     [(''source_status_code'', JInt 200), (''consumer_status_code'', JInt 403),
      (''authorization_expected_decision'', JStr ''deny'')] = Inr e' \<and>
     judge_authorization_matrix e' ''authorization_matrix'' ''matrix'' =
       Inr (''no_vuln'', [''authorization_policy_denial_enforced''], 97 / 100) \<and>
     blocked_status (Some 403)"
proof -
  let ?e = "[(''source_status_code'', JInt 200), (''consumer_status_code'', JInt 403),
      (''authorization_expected_decision'', JStr ''deny'')]"
  have "case matrix_evidence example_plan ?e of Inl _ \<Rightarrow> False | Inr e' \<Rightarrow>
      judge_authorization_matrix e' ''authorization_matrix'' ''matrix'' =
       Inr (''no_vuln'', [''authorization_policy_denial_enforced''], 97 / 100)"
    by code_simp
  then obtain e' where e': "matrix_evidence example_plan ?e = Inr e'" and j: "judge_authorization_matrix e' ''authorization_matrix'' ''matrix'' =
       Inr (''no_vuln'', [''authorization_policy_denial_enforced''], 97 / 100)"
    by (auto split: sum.splits)
  have "subject_status ?e = Some 403" by code_simp
  with matrix_verdict_sound [OF e' j] e' j show ?thesis
    by (auto simp: dtext_def dget_def)
qed


definition example_builder :: case_builder where
  "example_builder g ow su env budget large days doc s =
     (s\<lparr>db_snapshots := db_snapshots s @ [request_snapshot.truncate example_plan]\<rparr>,
      Inr (request_snapshot.truncate example_plan))"

definition example_active :: authorization_policy where
  "example_active = example_draft\<lparr>ap_lifecycle := ACTIVE, ap_activated_at := Some 5,
     ap_principal_snapshots := [\<lparr>pn_principal_id = ''admin'', pn_profile_id = ''admin-profile'',
       pn_account_key = ''admin-account'', pn_name = ''admin'', pn_role_key = [], pn_privilege_rank = 9,
       pn_scope_key = [], pn_labels = [], pn_attributes = [], ps_auth_profile_revision_id = ''rev-1''\<rparr>],
     ap_relation_snapshots := [authorization_relation_descriptor (\<lambda>_. ''d'') example_relation]\<rparr>"

definition example_matrix_db :: db where
  "example_matrix_db = \<lparr>db_snapshots = [], db_runs = [], db_checkpoints = [], db_results = [], db_relations = [],
     db_wakeup = None\<rparr>"


end
