(* ===== verification/FindingLifecycle.thy ===== *)
theory FindingLifecycle
  imports RunQueries Lifecycle
begin

text \<open>
  \<open>apiAnalysis/tool/vulnerability_lifecycle.py\<close>: findings aggregate machine results; their status
  moves along \<open>VALID_TRANSITIONS\<close>, every move is recorded as an append-only event, and a fix is only
  verified by replaying the immutable snapshots that supported the finding.

  \<open>finding_db\<close> adds the finding and event collections to the scheduler's \<open>db\<close>. \<open>now\<close> is the current
  time, \<open>sha\<close> SHA-256 of a text; \<open>digest\<close>, \<open>parse\<close> and \<open>new_id\<close> are as in \<open>BatchQueue\<close>. The title,
  severity and evidence of a finding, which no operation here changes, are left out.
\<close>

section \<open>Documents\<close>

datatype finding_status =
    OPEN | FIXING | FIXED_PENDING_VERIFY | VERIFIED_FIXED | REOPENED | FALSE_POSITIVE | ACCEPTED_RISK

datatype event_type =
    EV_CREATED | EV_STATUS_CHANGE | EV_ASSIGNED | EV_COMMENT | EV_FIX_VERIFY | EV_REOPENED | EV_CLOSED

record vulnerability_finding =
  vf_id :: oid
  vf_project_id :: string
  vf_env_id :: string
  vf_check_type :: string
  vf_severity :: string
  vf_status :: finding_status
  vf_close_reason :: "finding_status option"
  vf_result_ids :: "oid list"
  vf_run_ids :: "oid list"
  vf_evidence_ref :: string
  vf_assigned_to :: string
  vf_closed_at :: "time option"
  vf_ctime :: time
  vf_updated_at :: time

record finding_event =
  fe_finding_id :: oid
  fe_event_type :: event_type
  fe_from_status :: "finding_status option"
  fe_to_status :: "finding_status option"
  fe_actor :: string
  fe_reason :: string
  fe_reason_codes :: "string list"
  fe_related_run_id :: "oid option"
  fe_related_result_ids :: "oid list"
  fe_note :: string
  fe_ctime :: time

record finding_db =
  fd_findings :: "vulnerability_finding list"
  fd_events :: "finding_event list"
  fd_core :: db

definition CLOSED_REASONS :: "finding_status list" where
  "CLOSED_REASONS = [VERIFIED_FIXED, FALSE_POSITIVE, ACCEPTED_RISK]"

fun VALID_TRANSITIONS :: "finding_status \<Rightarrow> finding_status list" where
  "VALID_TRANSITIONS OPEN = [FIXING, FALSE_POSITIVE, ACCEPTED_RISK]"
| "VALID_TRANSITIONS FIXING = [FIXED_PENDING_VERIFY, ACCEPTED_RISK]"
| "VALID_TRANSITIONS FIXED_PENDING_VERIFY = [VERIFIED_FIXED, REOPENED]"
| "VALID_TRANSITIONS REOPENED = [FIXING, ACCEPTED_RISK]"
| "VALID_TRANSITIONS _ = []"

definition RETEST_PASS_VERDICTS :: "string list" where
  "RETEST_PASS_VERDICTS = [''no_vuln'', ''isolated_not_found'', ''isolated_blocked'', ''blocked_own_data'']"

definition RETEST_CANDIDATE_VERDICTS :: "string list" where
  "RETEST_CANDIDATE_VERDICTS = [''potential_vuln'', ''PARTIAL_IDOR_PARAM'', ''UNAUTH_EXPOSURE'']"

section \<open>Look-ups\<close>

definition get_finding :: "oid \<Rightarrow> finding_db \<Rightarrow> vulnerability_finding option" where
  "get_finding fid s = coll_get vf_id fid (fd_findings s)"

record finding_filter =
  ff_project_id :: "string option"
  ff_status :: "finding_status option"
  ff_severity :: "string option"
  ff_check_type :: "string option"
  ff_assigned_to :: "string option"

definition passes :: "'a option \<Rightarrow> 'a \<Rightarrow> bool" where
  "passes wish actual = (case wish of None \<Rightarrow> True | Some v \<Rightarrow> v = actual)"

definition list_findings :: "finding_filter \<Rightarrow> nat \<Rightarrow> finding_db \<Rightarrow> vulnerability_finding list" where
  "list_findings q limit s = take limit (sort_key (\<lambda>f. - vf_ctime f) (filter (\<lambda>f.
     passes (ff_project_id q) (vf_project_id f) \<and> passes (ff_status q) (vf_status f) \<and>
     passes (ff_severity q) (vf_severity f) \<and> passes (ff_check_type q) (vf_check_type f) \<and>
     passes (ff_assigned_to q) (vf_assigned_to f)) (fd_findings s)))"

definition get_finding_events :: "oid \<Rightarrow> finding_db \<Rightarrow> finding_event list" where
  "get_finding_events fid s = sort_key fe_ctime (filter (\<lambda>e. fe_finding_id e = fid) (fd_events s))"

definition finding_summary :: "string option \<Rightarrow> finding_db \<Rightarrow> (finding_status \<times> nat) list" where
  "finding_summary project s =
     (let fs = filter (\<lambda>f. passes project (vf_project_id f)) (fd_findings s) in
      map (\<lambda>st. (st, count_where (\<lambda>f. vf_status f = st) fs)) (dedupe (map vf_status fs)))"

section \<open>Transitions\<close>

definition update_finding :: "oid \<Rightarrow> (vulnerability_finding \<Rightarrow> vulnerability_finding) \<Rightarrow> finding_db \<Rightarrow> finding_db" where
  "update_finding fid f s = s\<lparr>fd_findings := update_where (\<lambda>d. vf_id d = fid) f (fd_findings s)\<rparr>"

definition save_event :: "finding_event \<Rightarrow> finding_db \<Rightarrow> finding_db" where
  "save_event e s = s\<lparr>fd_events := fd_events s @ [e]\<rparr>"

definition plain_event :: "time \<Rightarrow> oid \<Rightarrow> event_type \<Rightarrow> string \<Rightarrow> string \<Rightarrow> finding_event" where
  "plain_event now fid t actor note = \<lparr>fe_finding_id = fid, fe_event_type = t, fe_from_status = None,
     fe_to_status = None, fe_actor = actor, fe_reason = [], fe_reason_codes = [], fe_related_run_id = None,
     fe_related_result_ids = [], fe_note = note, fe_ctime = now\<rparr>"

record transition_request =
  tq_target :: finding_status
  tq_actor :: string
  tq_reason :: string
  tq_reason_codes :: "string list"
  tq_related_run_id :: "oid option"
  tq_related_result_ids :: "oid list"
  tq_note :: string
  tq_verification_evidence :: bool

definition transition_guards :: "finding_status \<Rightarrow> transition_request \<Rightarrow> guard list" where
  "transition_guards from_status req = [
     (tq_target req \<notin> set (VALID_TRANSITIONS from_status), ValueError ''cannot transition''),
     ((tq_target req = FIXED_PENDING_VERIFY \<or> from_status = FIXED_PENDING_VERIFY) \<and>
        \<not> tq_verification_evidence req,
      ValueError ''fix-verification states can only be changed by a linked replay run'')]"

text \<open>The two writes, for a finding whose status was read as \<open>from_status\<close>.\<close>

definition commit_transition :: "time \<Rightarrow> oid \<Rightarrow> finding_status \<Rightarrow> transition_request \<Rightarrow> finding_db \<Rightarrow> finding_db" where
  "commit_transition now fid from_status req s =
     (let target = tq_target req; is_close = target \<in> set CLOSED_REASONS in
      save_event \<lparr>fe_finding_id = fid,
        fe_event_type = (if is_close then EV_CLOSED else if target = REOPENED then EV_REOPENED else EV_STATUS_CHANGE),
        fe_from_status = Some from_status, fe_to_status = Some target, fe_actor = tq_actor req,
        fe_reason = tq_reason req, fe_reason_codes = tq_reason_codes req,
        fe_related_run_id = tq_related_run_id req, fe_related_result_ids = tq_related_result_ids req,
        fe_note = tq_note req, fe_ctime = now\<rparr>
       (update_finding fid (\<lambda>d. (if is_close then d\<lparr>vf_close_reason := Some target, vf_closed_at := Some now\<rparr> else d)
          \<lparr>vf_status := target, vf_updated_at := now\<rparr>) s))"

definition transition_finding :: "time \<Rightarrow> oid \<Rightarrow> transition_request \<Rightarrow> finding_db \<Rightarrow> finding_db result_of" where
  "transition_finding now fid req s = (case get_finding fid s of
     None \<Rightarrow> Inl (ValueError ''finding not found'')
   | Some finding \<Rightarrow> sbind (guards (transition_guards (vf_status finding) req)) (\<lambda>_.
       Inr (commit_transition now fid (vf_status finding) req s)))"

definition assign_finding :: "time \<Rightarrow> oid \<Rightarrow> string \<Rightarrow> string \<Rightarrow> string \<Rightarrow> finding_db \<Rightarrow> finding_db result_of" where
  "assign_finding now fid assigned_to actor note s = (case get_finding fid s of
     None \<Rightarrow> Inl (ValueError ''finding not found'')
   | Some _ \<Rightarrow> Inr (save_event (plain_event now fid EV_ASSIGNED actor (str_or note (''assigned to '' @ assigned_to)))
       (update_finding fid (\<lambda>d. d\<lparr>vf_assigned_to := assigned_to, vf_updated_at := now\<rparr>) s)))"

definition add_comment :: "time \<Rightarrow> oid \<Rightarrow> string \<Rightarrow> string \<Rightarrow> finding_db \<Rightarrow> finding_db result_of" where
  "add_comment now fid actor note s = (case get_finding fid s of
     None \<Rightarrow> Inl (ValueError ''finding not found'')
   | Some _ \<Rightarrow> Inr (save_event (plain_event now fid EV_COMMENT actor note) s))"

section \<open>Linking a verification run\<close>

definition verify_request :: "finding_status \<Rightarrow> string \<Rightarrow> string \<Rightarrow> string list \<Rightarrow> oid \<Rightarrow> oid list \<Rightarrow> string \<Rightarrow>
    transition_request" where
  "verify_request target actor reason codes run results note = \<lparr>tq_target = target, tq_actor = actor,
     tq_reason = reason, tq_reason_codes = codes, tq_related_run_id = Some run,
     tq_related_result_ids = results, tq_note = note, tq_verification_evidence = True\<rparr>"

definition link_fix_verification :: "time \<Rightarrow> oid \<Rightarrow> string \<Rightarrow> oid \<Rightarrow> oid list \<Rightarrow> string \<Rightarrow> finding_db \<Rightarrow>
    finding_db result_of" where
  "link_fix_verification now fid actor run results note s = (case get_finding fid s of
     None \<Rightarrow> Inl (ValueError ''finding not found'')
   | Some finding \<Rightarrow>
       sbind (if vf_status finding = FIXING
              then transition_finding now fid
                (verify_request FIXED_PENDING_VERIFY actor ''fix verification submitted'' [] run results note) s
              else Inr (save_event ((plain_event now fid EV_FIX_VERIFY actor note)
                \<lparr>fe_related_run_id := Some run, fe_related_result_ids := results\<rparr>) s)) (\<lambda>s1.
       Inr (if run \<noteq> [] \<and> run \<notin> set (vf_run_ids finding)
            then update_finding fid (\<lambda>d. d\<lparr>vf_run_ids := vf_run_ids d @ [run], vf_updated_at := now\<rparr>) s1
            else s1)))"

section \<open>The decision of a retest\<close>

datatype retest_decision = RT_REOPENED | RT_VERIFIED_FIXED | RT_PENDING

record retest_evaluation =
  rv_decision :: retest_decision
  rv_reason_codes :: "string list"
  rv_result_ids :: "oid list"

definition candidate_result :: "security_test_result \<Rightarrow> bool" where
  "candidate_result r \<longleftrightarrow> res_outcome_class r = ''candidate'' \<or> res_verdict r \<in> set RETEST_CANDIDATE_VERDICTS"

definition passing_result :: "security_test_result \<Rightarrow> bool" where
  "passing_result r \<longleftrightarrow> res_outcome_class r = ''pass'' \<or> res_verdict r \<in> set RETEST_PASS_VERDICTS"

definition retest_complete :: "security_execution_checkpoint list \<Rightarrow> security_test_result list \<Rightarrow> nat \<Rightarrow> bool" where
  "retest_complete cps rs case_total \<longleftrightarrow> 0 < case_total \<and> length cps = case_total \<and> length rs = case_total \<and>
     list_all (\<lambda>cp. cp_status cp = CP_DONE) cps"

definition classify_finding_retest :: "security_execution_checkpoint list \<Rightarrow> security_test_result list \<Rightarrow> nat \<Rightarrow>
    retest_evaluation" where
  "classify_finding_retest cps rs case_total =
     (let candidates = filter candidate_result rs; complete = retest_complete cps rs case_total in
      if candidates \<noteq> []
      then \<lparr>rv_decision = RT_REOPENED, rv_reason_codes = [''finding_retest_candidate_persists''],
        rv_result_ids = map res_id candidates\<rparr>
      else if complete \<and> list_all passing_result rs
      then \<lparr>rv_decision = RT_VERIFIED_FIXED, rv_reason_codes = [''finding_retest_all_cases_passed''],
        rv_result_ids = map res_id rs\<rparr>
      else \<lparr>rv_decision = RT_PENDING,
        rv_reason_codes = [if \<not> complete then ''finding_retest_incomplete'' else ''finding_retest_inconclusive''],
        rv_result_ids = map res_id rs\<rparr>)"

section \<open>Scheduling a retest\<close>

definition execution_context_from_run :: "security_test_run \<Rightarrow> execution_context" where
  "execution_context_from_run source = (let c = run_ctx source in c\<lparr>
     cx_adapter_id := str_or (cx_adapter_id c) ''snapshot_batch'',
     cx_adapter_version := str_or (cx_adapter_version c) ''1'',
     cx_parent_run_id := Some (run_id source), cx_retry_of_run_id := Some (run_id source)\<rparr>)"

definition retest_of :: "vulnerability_finding \<Rightarrow> security_test_run \<Rightarrow> bool" where
  "retest_of finding r \<longleftrightarrow> cx_project_id (run_ctx r) = vf_project_id finding \<and> run_scheduler_managed r \<and>
     dget (run_scope r) ''purpose'' = JStr ''finding_retest'' \<and>
     dget (run_scope r) ''finding_id'' = JStr (vf_id finding)"

definition active_retest :: "vulnerability_finding \<Rightarrow> db \<Rightarrow> security_test_run option" where
  "active_retest finding s = (case sort_key (newest_by run_queued_at) (filter (\<lambda>r. retest_of finding r \<and>
       run_status r \<in> {PREPARING, QUEUED, RUNNING, PAUSED}) (db_runs s)) of
     [] \<Rightarrow> None | r # _ \<Rightarrow> Some r)"

definition latest_retest_id :: "vulnerability_finding \<Rightarrow> db \<Rightarrow> string" where
  "latest_retest_id finding s = (case sort_key (newest_by run_finished_at) (filter (\<lambda>r. retest_of finding r \<and>
       run_status r \<in> {DONE, FAILED, CANCELLED}) (db_runs s)) of
     [] \<Rightarrow> ''none'' | r # _ \<Rightarrow> run_id r)"

text \<open>
  The newest scheduler-managed run among those of the finding's results, its results, and their
  snapshots without repetition.
\<close>

definition baseline_results :: "vulnerability_finding \<Rightarrow> db \<Rightarrow> security_test_result list" where
  "baseline_results finding s =
     sort_key (\<lambda>r. - res_ctime r) (filter (\<lambda>r. res_id r \<in> set (vf_result_ids finding)) (db_results s))"

definition source_runs :: "security_test_result list \<Rightarrow> db \<Rightarrow> security_test_run list" where
  "source_runs baseline s = sort_key (newest_by run_started_at) (filter (\<lambda>r.
     run_id r \<in> set (dedupe (map res_run_id baseline)) \<and> run_scheduler_managed r) (db_runs s))"

definition selected_results :: "security_test_run \<Rightarrow> security_test_result list \<Rightarrow> security_test_result list" where
  "selected_results source baseline =
     filter (\<lambda>r. res_run_id r = run_id source \<and> res_snapshot_id r \<noteq> None) baseline"

definition replay_snapshots :: "security_test_result list \<Rightarrow> oid list" where
  "replay_snapshots selected = dedupe (List.map_filter res_snapshot_id selected)"

definition retest_request :: "(string \<Rightarrow> string) \<Rightarrow> vulnerability_finding \<Rightarrow> string \<Rightarrow> security_test_run \<Rightarrow>
    security_test_result list \<Rightarrow> execution_policy \<Rightarrow> db \<Rightarrow> enqueue_request" where
  "retest_request sha finding actor source selected policy s =
     (let ids = replay_snapshots selected in \<lparr>
       eq_name = ''finding '' @ vf_id finding @ '' fix verification'',
       eq_check_type = run_check_type source, eq_context = execution_context_from_run source,
       eq_snapshot_ids = ids, eq_policy = policy,
       eq_scope = [
         (''purpose'', JStr ''finding_retest''), (''finding_id'', JStr (vf_id finding)),
         (''retest_of_run_id'', JStr (run_id source)),
         (''baseline_result_ids'', JList (map (JStr \<circ> res_id) selected)),
         (''snapshot_count'', JInt (int (length ids)))],
       eq_evidence_ref = str_or (run_evidence_ref source) (vf_evidence_ref finding), eq_operator = actor,
       eq_priority = run_priority source, eq_queue_name = str_or (run_queue_name source) ''snapshot'',
       eq_idempotency_key = sha (join '':'' [vf_id finding, run_id source, join '','' (sort ids),
         latest_retest_id finding s])\<rparr>)"

definition plan_retest :: "(string \<Rightarrow> string) \<Rightarrow> vulnerability_finding \<Rightarrow> string \<Rightarrow> db \<Rightarrow> enqueue_request result_of" where
  "plan_retest sha finding actor s =
     (let baseline = baseline_results finding s in
      if baseline = [] then Inl (ValueError ''finding has no immutable machine result to replay'')
      else (case source_runs baseline s of
        [] \<Rightarrow> Inl (ValueError ''finding has no scheduler-managed baseline run'')
      | source # _ \<Rightarrow>
          (let selected = selected_results source baseline in
           if replay_snapshots selected = []
           then Inl (ValueError ''finding baseline results have no replayable snapshot'')
           else sbind (policy_from_dict (run_execution_policy source)) (\<lambda>policy.
             Inr (retest_request sha finding actor source selected policy s)))))"

text \<open>
  The snapshot ids are \<open>ObjectId\<close>s of the database here, which the normalisation of \<open>enqueue\<close> passes
  through. After a created run: its retention date, and the link that moves the finding to pending.
\<close>

definition after_retest_created :: "time \<Rightarrow> oid \<Rightarrow> string \<Rightarrow> int \<Rightarrow> security_test_run \<Rightarrow> finding_db \<Rightarrow>
    finding_db \<times> (security_test_run \<times> bool) result_of" where
  "after_retest_created now fid actor days run s =
     (let s1 = s\<lparr>fd_core := set_expiry (retention_end now days) (run_id run) (fd_core s)\<rparr>;
          reloaded = (case coll_get run_id (run_id run) (db_runs (fd_core s1)) of Some r \<Rightarrow> r | None \<Rightarrow> run) in
      case link_fix_verification now fid actor (run_id run) [] ''scheduled immutable evidence replay'' s1 of
        Inl e \<Rightarrow> (s1, Inl e)
      | Inr s2 \<Rightarrow> (s2, Inr (reloaded, True)))"

definition schedule_finding_retest :: "(json \<Rightarrow> string) \<Rightarrow> (string \<Rightarrow> string) \<Rightarrow>
    time \<Rightarrow> oid \<Rightarrow> oid \<Rightarrow> string \<Rightarrow> int \<Rightarrow> finding_db \<Rightarrow> finding_db \<times> (security_test_run \<times> bool) result_of" where
  "schedule_finding_retest digest sha now new_id fid actor days s = (case get_finding fid s of
     None \<Rightarrow> (s, Inl (ValueError ''finding not found''))
   | Some finding \<Rightarrow>
       if vf_status finding \<notin> {FIXING, FIXED_PENDING_VERIFY}
       then (s, Inl (ValueError ''finding must be fixing or fixed_pending_verify before retest''))
       else (case active_retest finding (fd_core s) of
         Some run \<Rightarrow> (s, Inr (run, False))
       | None \<Rightarrow>
           (case sbind (plan_retest sha finding actor (fd_core s)) (\<lambda>req.
               enqueue_snapshot_batch digest Some now new_id req (fd_core s)) of
              Inl e \<Rightarrow> (s, Inl e)
            | Inr (core, run, created) \<Rightarrow>
                (let s1 = s\<lparr>fd_core := core\<rparr> in
                 if created then after_retest_created now fid actor days run s1 else (s1, Inr (run, False))))))"

section \<open>Evaluating a retest\<close>

definition add_to_set :: "'a \<Rightarrow> 'a list \<Rightarrow> 'a list" where
  "add_to_set x xs = (if x \<in> set xs then xs else xs @ [x])"

definition attach_result :: "time \<Rightarrow> oid \<Rightarrow> oid \<Rightarrow> security_test_result \<Rightarrow> finding_db \<Rightarrow> finding_db" where
  "attach_result now fid rid r s =
     (let core = fd_core s in
      update_finding fid (\<lambda>d. d\<lparr>vf_result_ids := add_to_set (res_id r) (vf_result_ids d),
          vf_run_ids := add_to_set rid (vf_run_ids d), vf_updated_at := now\<rparr>)
        (s\<lparr>fd_core := core\<lparr>db_results := update_where (\<lambda>q. res_id q = res_id r)
          (\<lambda>q. q\<lparr>res_related_vuln_id := Some fid\<rparr>) (db_results core)\<rparr>\<rparr>))"

definition attach_results :: "time \<Rightarrow> oid \<Rightarrow> oid \<Rightarrow> security_test_result list \<Rightarrow> finding_db \<Rightarrow> finding_db" where
  "attach_results now fid rid rs s = fold (attach_result now fid rid) rs s"

definition inconclusive_event :: "time \<Rightarrow> oid \<Rightarrow> string \<Rightarrow> oid \<Rightarrow> retest_evaluation \<Rightarrow> finding_event" where
  "inconclusive_event now fid actor rid ev = (plain_event now fid EV_FIX_VERIFY actor [])
     \<lparr>fe_reason := ''fix verification remains inconclusive'', fe_reason_codes := rv_reason_codes ev,
      fe_related_run_id := Some rid, fe_related_result_ids := rv_result_ids ev\<rparr>"

definition has_marker :: "(event_type \<Rightarrow> bool) \<Rightarrow> oid \<Rightarrow> oid \<Rightarrow> string list \<Rightarrow> finding_db \<Rightarrow> bool" where
  "has_marker types fid rid codes s = exists_where (\<lambda>e. fe_finding_id e = fid \<and> types (fe_event_type e) \<and>
     fe_related_run_id e = Some rid \<and> list_ex (\<lambda>c. c \<in> set codes) (fe_reason_codes e)) (fd_events s)"

definition apply_evaluation :: "time \<Rightarrow> vulnerability_finding \<Rightarrow> oid \<Rightarrow> string \<Rightarrow> retest_evaluation \<Rightarrow> finding_db \<Rightarrow>
    finding_db result_of" where
  "apply_evaluation now finding rid actor ev s =
     (let fid = vf_id finding in
      if vf_status finding \<noteq> FIXED_PENDING_VERIFY then Inr s
      else (case rv_decision ev of
        RT_VERIFIED_FIXED \<Rightarrow> transition_finding now fid (verify_request VERIFIED_FIXED actor
          ''fix verification passed'' (rv_reason_codes ev) rid (rv_result_ids ev) []) s
      | RT_REOPENED \<Rightarrow> transition_finding now fid (verify_request REOPENED actor
          ''fix verification reproduced the finding'' (rv_reason_codes ev) rid (rv_result_ids ev) []) s
      | RT_PENDING \<Rightarrow>
          if has_marker (\<lambda>t. t = EV_FIX_VERIFY) fid rid (rv_reason_codes ev) s then Inr s
          else Inr (save_event (inconclusive_event now fid actor rid ev) s)))"

definition evaluate_finding_retest :: "(string \<Rightarrow> oid option) \<Rightarrow> time \<Rightarrow> oid \<Rightarrow> string \<Rightarrow> string \<Rightarrow> finding_db \<Rightarrow>
    finding_db \<times> retest_evaluation result_of" where
  "evaluate_finding_retest parse now fid run_ref actor s = (case get_finding fid s of
     None \<Rightarrow> (s, Inl (ValueError ''finding not found''))
   | Some finding \<Rightarrow>
       (case parse run_ref of
          None \<Rightarrow> (s, Inl (ValueError ''invalid finding retest run id''))
        | Some rid \<Rightarrow>
            (case find (\<lambda>r. run_id r = rid \<and> retest_of finding r) (db_runs (fd_core s)) of
               None \<Rightarrow> (s, Inl (ValueError ''finding retest run not found''))
             | Some run \<Rightarrow>
                 if run_status run \<noteq> DONE then (s, Inl (ValueError ''finding retest run is not complete''))
                 else (let cps = filter (\<lambda>cp. cp_run_id cp = rid) (db_checkpoints (fd_core s));
                           rs = filter (\<lambda>r. res_run_id r = rid) (db_results (fd_core s));
                           ev = classify_finding_retest cps rs (run_total_cases run);
                           s1 = attach_results now fid rid rs s
                       in case apply_evaluation now finding rid actor ev s1 of
                            Inl e \<Rightarrow> (s1, Inl e)
                          | Inr s2 \<Rightarrow> (s2, Inr ev)))))"

text \<open>\<open>limit(max(1, min(limit, 1000)))\<close> is taken before the runs already evaluated are skipped.\<close>

definition retest_markers :: "string list" where
  "retest_markers = [''finding_retest_all_cases_passed'', ''finding_retest_candidate_persists'',
     ''finding_retest_incomplete'', ''finding_retest_inconclusive'']"

definition oldest_by :: "('d \<Rightarrow> time option) \<Rightarrow> 'd \<Rightarrow> int \<times> int" where
  "oldest_by f r = (case f r of Some t \<Rightarrow> (1, t) | None \<Rightarrow> (0, 0))"

definition completed_retests :: "int \<Rightarrow> db \<Rightarrow> security_test_run list" where
  "completed_retests limit s = take (nat (max 1 (min limit 1000))) (sort_key (oldest_by run_finished_at)
     (filter (\<lambda>r. run_status r = DONE \<and> dget (run_scope r) ''purpose'' = JStr ''finding_retest'') (db_runs s)))"

fun evaluate_each :: "(string \<Rightarrow> oid option) \<Rightarrow> time \<Rightarrow> string \<Rightarrow> security_test_run list \<Rightarrow> finding_db \<Rightarrow>
    finding_db \<times> nat result_of" where
  "evaluate_each parse now actor [] s = (s, Inr 0)"
| "evaluate_each parse now actor (run # runs) s =
     (case parse (dtext (run_scope run) ''finding_id'') of
        None \<Rightarrow> evaluate_each parse now actor runs s
      | Some fid \<Rightarrow>
          if (case get_finding fid s of Some f \<Rightarrow> vf_status f \<noteq> FIXED_PENDING_VERIFY | None \<Rightarrow> True) \<or>
             has_marker (\<lambda>_. True) fid (run_id run) retest_markers s
          then evaluate_each parse now actor runs s
          else (case evaluate_finding_retest Some now fid (run_id run) actor s of
              (s1, Inl e) \<Rightarrow> (s1, Inl e)
            | (s1, Inr _) \<Rightarrow>
                (case evaluate_each parse now actor runs s1 of
                   (s2, Inr n) \<Rightarrow> (s2, Inr (Suc n))
                 | (s2, Inl e) \<Rightarrow> (s2, Inl e))))"

definition evaluate_completed_finding_retests :: "(string \<Rightarrow> oid option) \<Rightarrow> time \<Rightarrow> int \<Rightarrow> string \<Rightarrow> finding_db \<Rightarrow>
    finding_db \<times> nat result_of" where
  "evaluate_completed_finding_retests parse now limit actor s =
     evaluate_each parse now actor (completed_retests limit (fd_core s)) s"

definition add_result_to_finding :: "time \<Rightarrow> oid \<Rightarrow> oid \<Rightarrow> string \<Rightarrow> finding_db \<Rightarrow> finding_db result_of" where
  "add_result_to_finding now fid result_id actor s = (case get_finding fid s of
     None \<Rightarrow> Inl (ValueError ''finding not found'')
   | Some finding \<Rightarrow>
       (case coll_get res_id result_id (db_results (fd_core s)) of
          None \<Rightarrow> Inl (ValueError ''result not found'')
        | Some r \<Rightarrow>
            (let s1 = (if result_id \<in> set (vf_result_ids finding) then s else
                   update_finding fid (\<lambda>d. d\<lparr>vf_result_ids := vf_result_ids d @ [result_id], vf_updated_at := now\<rparr>) s);
                 s2 = (if res_run_id r = [] \<or> res_run_id r \<in> set (vf_run_ids finding) then s1 else
                   update_finding fid (\<lambda>d. d\<lparr>vf_run_ids := vf_run_ids d @ [res_run_id r]\<rparr>) s1);
                 core = fd_core s2
             in Inr (save_event ((plain_event now fid EV_COMMENT actor (''linked result '' @ result_id))
                   \<lparr>fe_related_result_ids := [result_id]\<rparr>)
                 (s2\<lparr>fd_core := core\<lparr>db_results := update_where (\<lambda>q. res_id q = result_id)
                   (\<lambda>q. q\<lparr>res_related_vuln_id := Some fid\<rparr>) (db_results core)\<rparr>\<rparr>)))))"

section \<open>The history of a finding\<close>

definition legal_finding :: "finding_status \<Rightarrow> finding_status \<Rightarrow> bool" where
  "legal_finding a b \<longleftrightarrow> b \<in> set (VALID_TRANSITIONS a)"

definition closed_status :: "finding_status \<Rightarrow> bool" where
  "closed_status st \<longleftrightarrow> st \<in> set CLOSED_REASONS"

definition status_move :: "oid \<Rightarrow> finding_event \<Rightarrow> (finding_status \<times> finding_status) option" where
  "status_move fid e = (if fe_finding_id e \<noteq> fid then None
     else (case (fe_from_status e, fe_to_status e) of (Some a, Some b) \<Rightarrow> Some (a, b) | _ \<Rightarrow> None))"

definition status_log :: "oid \<Rightarrow> finding_event list \<Rightarrow> (finding_status \<times> finding_status) list" where
  "status_log fid es = List.map_filter (status_move fid) es"

fun replay :: "finding_status \<Rightarrow> (finding_status \<times> finding_status) list \<Rightarrow> finding_status option" where
  "replay a [] = Some a"
| "replay a ((b, c) # l) = (if a = b \<and> legal_finding b c then replay c l else None)"

lemma replay_append: "replay a (l @ l') = (case replay a l of Some z \<Rightarrow> replay z l' | None \<Rightarrow> None)"
  by (induction a l rule: replay.induct) auto

lemma replay_legal: "replay a l = Some z \<Longrightarrow> (b, c) \<in> set l \<Longrightarrow> legal_finding b c"
  by (induction a l rule: replay.induct) (auto split: if_splits)

lemma replay_last: "replay a l = Some z \<Longrightarrow> z = (if l = [] then a else snd (last l))"
  by (induction a l rule: replay.induct) (auto split: if_splits)

lemma replay_chained: "replay a l = Some z \<Longrightarrow> i < length l \<Longrightarrow> fst (l ! i) = (if i = 0 then a else snd (l ! (i - 1)))"
proof (induction a l arbitrary: i rule: replay.induct)
  case (2 a b c l)
  then show ?case
  proof (cases i)
    case (Suc j)
    with 2 have "fst (l ! j) = (if j = 0 then c else snd (l ! (j - 1)))" by (auto split: if_splits)
    with Suc show ?thesis by (cases j) simp_all
  qed (auto split: if_splits)
qed simp

lemma closed_stuck: "closed_status a \<Longrightarrow> \<not> legal_finding a b"
  by (cases a) (simp_all add: closed_status_def legal_finding_def CLOSED_REASONS_def)

text \<open>
  The interpretation of the contract of \<open>Lifecycle\<close> on what the code stores: a finding with the
  event collection, whose log is the events of that finding that record a status change.
\<close>

definition history_ok :: "finding_event list \<times> vulnerability_finding \<Rightarrow> bool" where
  "history_ok d \<longleftrightarrow> replay OPEN (status_log (vf_id (snd d)) (fst d)) = Some (vf_status (snd d))"

interpretation finding_history: history_log legal_finding closed_status
    "\<lambda>d. status_log (vf_id (snd d)) (fst d)" "\<lambda>d. vf_status (snd d)" "\<lambda>_. OPEN" history_ok
proof
  show "\<not> legal_finding a b" if "closed_status a" for a b
    using that by (rule closed_stuck)
  fix d :: "finding_event list \<times> vulnerability_finding"
  assume "history_ok d"
  then have r: "replay OPEN (status_log (vf_id (snd d)) (fst d)) = Some (vf_status (snd d))"
    by (simp add: history_ok_def)
  show "legal_finding a b" if "(a, b) \<in> set (status_log (vf_id (snd d)) (fst d))" for a b
    by (rule replay_legal [OF r that])
  show "vf_status (snd d) = (if status_log (vf_id (snd d)) (fst d) = [] then OPEN
      else snd (last (status_log (vf_id (snd d)) (fst d))))"
    by (rule replay_last [OF r])
  show "fst (status_log (vf_id (snd d)) (fst d) ! i) = (if i = 0 then OPEN
      else snd (status_log (vf_id (snd d)) (fst d) ! (i - 1)))"
    if "i < length (status_log (vf_id (snd d)) (fst d))" for i
    by (rule replay_chained [OF r that])
qed

section \<open>The invariant, and the updates that keep it\<close>

definition closed_ok :: "vulnerability_finding \<Rightarrow> bool" where
  "closed_ok f \<longleftrightarrow> vf_close_reason f = (if closed_status (vf_status f) then Some (vf_status f) else None) \<and>
     (vf_closed_at f \<noteq> None \<longleftrightarrow> closed_status (vf_status f))"

definition finding_inv :: "finding_db \<Rightarrow> bool" where
  "finding_inv s \<longleftrightarrow> coll_ok vf_id (fd_findings s) \<and>
     (\<forall>f \<in> set (fd_findings s). history_ok (fd_events s, f) \<and> closed_ok f) \<and>
     fe_finding_id ` set (fd_events s) \<subseteq> vf_id ` set (fd_findings s)"

definition advances :: "finding_db \<Rightarrow> finding_db \<Rightarrow> bool" where
  "advances s s' \<longleftrightarrow> (finding_inv s \<longrightarrow> finding_inv s' \<and> prefix (fd_events s) (fd_events s') \<and>
     prefix (map vf_id (fd_findings s)) (map vf_id (fd_findings s')))"

lemma advances_refl [simp]: "advances s s"
  by (simp add: advances_def)

lemma advancesD:
  assumes "advances s s'" "finding_inv s"
  shows "finding_inv s'" "prefix (fd_events s) (fd_events s')"
    "prefix (map vf_id (fd_findings s)) (map vf_id (fd_findings s'))"
  using assms by (simp_all add: advances_def)

lemma advances_trans:
  assumes "advances s s1" "advances s1 s2"
  shows "advances s s2"
  unfolding advances_def
proof (intro impI conjI)
  assume inv: "finding_inv s"
  note a = advancesD [OF assms(1) inv]
  note b = advancesD [OF assms(2) a(1)]
  show "finding_inv s2" by (rule b(1))
  show "prefix (fd_events s) (fd_events s2)" by (rule prefix_order.trans [OF a(2) b(2)])
  show "prefix (map vf_id (fd_findings s)) (map vf_id (fd_findings s2))"
    by (rule prefix_order.trans [OF a(3) b(3)])
qed

text \<open>An update that leaves the status and the closing fields alone.\<close>

definition quiet :: "(vulnerability_finding \<Rightarrow> vulnerability_finding) \<Rightarrow> bool" where
  "quiet f \<longleftrightarrow> (\<forall>d. vf_id (f d) = vf_id d \<and> vf_status (f d) = vf_status d \<and>
     vf_close_reason (f d) = vf_close_reason d \<and> vf_closed_at (f d) = vf_closed_at d)"

lemma quietD: "quiet f \<Longrightarrow> vf_id (f d) = vf_id d" "quiet f \<Longrightarrow> vf_status (f d) = vf_status d"
  "quiet f \<Longrightarrow> vf_close_reason (f d) = vf_close_reason d" "quiet f \<Longrightarrow> vf_closed_at (f d) = vf_closed_at d"
  unfolding quiet_def by blast+

lemma ids_update_finding: "(\<And>d. vf_id (f d) = vf_id d) \<Longrightarrow> map vf_id (fd_findings (update_finding fid f s)) = map vf_id (fd_findings s)"
  by (simp add: update_finding_def map_update_where)

lemma advances_update:
  assumes "quiet f"
  shows "advances s (update_finding fid f s)"
proof -
  have ids: "map vf_id (fd_findings (update_finding fid f s)) = map vf_id (fd_findings s)"
    by (rule ids_update_finding) (rule quietD(1) [OF assms])
  then have keys: "vf_id ` set (fd_findings (update_finding fid f s)) = vf_id ` set (fd_findings s)"
    by (metis list.set_map)
  have same: "fd_events (update_finding fid f s) = fd_events s" by (simp add: update_finding_def)
  have one: "history_ok (es, f d) = history_ok (es, d)" "closed_ok (f d) = closed_ok d" for es d
    unfolding history_ok_def closed_ok_def fst_conv snd_conv by (simp_all only: quietD [OF assms])
  have each: "history_ok (fd_events s, d) \<and> closed_ok d"
    if inv: "finding_inv s" and d: "d \<in> set (fd_findings (update_finding fid f s))" for d
  proof -
    from d obtain d0 where d0: "d0 \<in> set (fd_findings s)" "d = (if vf_id d0 = fid then f d0 else d0)"
      by (auto simp: update_finding_def set_update_where)
    with inv have "history_ok (fd_events s, d0) \<and> closed_ok d0" by (simp add: finding_inv_def)
    with d0(2) one show ?thesis by simp
  qed
  have "finding_inv (update_finding fid f s)" if inv: "finding_inv s"
    unfolding finding_inv_def coll_ok_def ids keys same
    using each [OF inv] inv by (simp add: finding_inv_def coll_ok_def)
  with ids same show ?thesis by (simp add: advances_def)
qed

lemma status_log_append: "status_log fid (es @ es') = status_log fid es @ status_log fid es'"
  by (induction es) (auto simp: status_log_def List.map_filter_simps split: option.splits)

lemma status_log_single: "status_log fid [e] = (case status_move fid e of Some m \<Rightarrow> [m] | None \<Rightarrow> [])"
  by (simp add: status_log_def List.map_filter_simps split: option.splits)

lemma advances_event:
  assumes "fe_from_status e = None" "get_finding (fe_finding_id e) s \<noteq> None"
  shows "advances s (save_event e s)"
proof -
  have "status_move fid e = None" for fid by (simp add: status_move_def assms(1))
  then have "status_log fid (fd_events s @ [e]) = status_log fid (fd_events s)" for fid
    by (simp add: status_log_append status_log_single)
  moreover have "fe_finding_id e \<in> vf_id ` set (fd_findings s)"
    using assms(2) by (auto simp: get_finding_def coll_get_None)
  ultimately show ?thesis
    by (simp add: advances_def finding_inv_def save_event_def history_ok_def)
qed

lemma advances_core [simp]: "advances s (s\<lparr>fd_core := c\<rparr>)"
  by (simp add: advances_def finding_inv_def)

lemma get_findingD: "get_finding fid s = Some f \<Longrightarrow> f \<in> set (fd_findings s) \<and> vf_id f = fid"
  by (auto simp: get_finding_def dest: coll_get_Some)

text \<open>The one write that does change a status.\<close>

definition moved_to :: "time \<Rightarrow> finding_status \<Rightarrow> vulnerability_finding \<Rightarrow> vulnerability_finding" where
  "moved_to now target d = (if closed_status target then d\<lparr>vf_close_reason := Some target, vf_closed_at := Some now\<rparr> else d)
     \<lparr>vf_status := target, vf_updated_at := now\<rparr>"

lemma moved_to_simps [simp]:
  "vf_id (moved_to now target d) = vf_id d" "vf_status (moved_to now target d) = target"
  by (simp_all add: moved_to_def)

lemma closed_ok_moved: "closed_ok d \<Longrightarrow> legal_finding (vf_status d) target \<Longrightarrow> closed_ok (moved_to now target d)"
  using closed_stuck [of "vf_status d" target] by (auto simp: closed_ok_def moved_to_def)

lemma commit_transition_eq:
  "\<exists>e. commit_transition now fid a req s = save_event e (update_finding fid (moved_to now (tq_target req)) s) \<and>
     fe_finding_id e = fid \<and> status_move fid e = Some (a, tq_target req) \<and>
     (\<forall>i. i \<noteq> fid \<longrightarrow> status_move i e = None)"
  unfolding commit_transition_def Let_def moved_to_def [abs_def] closed_status_def
  by (rule exI, rule conjI, rule refl) (simp add: status_move_def)

lemma commit_keeps_inv:
  assumes inv: "finding_inv s" and f: "get_finding fid s = Some f"
    and legal: "legal_finding (vf_status f) (tq_target req)"
  shows "finding_inv (commit_transition now fid (vf_status f) req s)"
proof -
  obtain e where eq: "commit_transition now fid (vf_status f) req s =
      save_event e (update_finding fid (moved_to now (tq_target req)) s)"
    and e: "fe_finding_id e = fid" "status_move fid e = Some (vf_status f, tq_target req)"
      "\<And>i. i \<noteq> fid \<Longrightarrow> status_move i e = None"
    using commit_transition_eq [of now fid "vf_status f" req s] by blast
  let ?upd = "update_finding fid (moved_to now (tq_target req)) s"
  from inv have ok: "coll_ok vf_id (fd_findings s)" by (simp add: finding_inv_def)
  have ids: "map vf_id (fd_findings ?upd) = map vf_id (fd_findings s)" by (rule ids_update_finding) simp
  then have keys: "vf_id ` set (fd_findings ?upd) = vf_id ` set (fd_findings s)" by (metis list.set_map)
  have "history_ok (fd_events s @ [e], d) \<and> closed_ok d" if d: "d \<in> set (fd_findings ?upd)" for d
  proof -
    from d obtain d0 where d0: "d0 \<in> set (fd_findings s)"
      and d: "d = (if vf_id d0 = fid then moved_to now (tq_target req) d0 else d0)"
      by (auto simp: update_finding_def set_update_where)
    from inv d0 have h: "replay OPEN (status_log (vf_id d0) (fd_events s)) = Some (vf_status d0)" "closed_ok d0"
      by (auto simp: finding_inv_def history_ok_def)
    show ?thesis
    proof (cases "vf_id d0 = fid")
      case True
      from coll_get_in [OF ok d0] True f have "d0 = f" by (simp add: get_finding_def)
      with h d True e(2) legal closed_ok_moved show ?thesis
        by (simp add: history_ok_def status_log_append status_log_single replay_append)
    next
      case False
      with h d e(3) [OF False] show ?thesis
        by (simp add: history_ok_def status_log_append status_log_single)
    qed
  qed
  moreover have "fid \<in> vf_id ` set (fd_findings s)" using get_findingD [OF f] by auto
  ultimately show ?thesis
    unfolding finding_inv_def eq save_event_def
    using inv ids keys e(1) by (simp add: finding_inv_def coll_ok_def) (simp add: update_finding_def)
qed

lemma transition_Inr:
  assumes "transition_finding now fid req s = Inr s'"
  obtains f where "get_finding fid s = Some f" "legal_finding (vf_status f) (tq_target req)"
    and "s' = commit_transition now fid (vf_status f) req s"
    and "tq_target req = FIXED_PENDING_VERIFY \<or> vf_status f = FIXED_PENDING_VERIFY \<Longrightarrow> tq_verification_evidence req"
  using assms
  by (auto simp: transition_finding_def sbind_Inr_iff guards_ok_iff transition_guards_def legal_finding_def
      split: option.splits)

lemma advances_transition:
  assumes "transition_finding now fid req s = Inr s'"
  shows "advances s s'"
  using assms
proof (rule transition_Inr)
  fix f
  assume f: "get_finding fid s = Some f" "legal_finding (vf_status f) (tq_target req)"
    and s': "s' = commit_transition now fid (vf_status f) req s"
  have "prefix (fd_events s) (fd_events s')" "map vf_id (fd_findings s') = map vf_id (fd_findings s)"
    using commit_transition_eq [of now fid "vf_status f" req s] s' ids_update_finding [of "moved_to now (tq_target req)" fid s]
    by (auto simp: save_event_def update_finding_def)
  with commit_keeps_inv [OF _ f] s' show ?thesis by (simp add: advances_def)
qed

lemma get_finding_update:
  assumes "\<And>d. vf_id (f d) = vf_id d"
  shows "get_finding i (update_finding fid f s) = map_option (\<lambda>d. if vf_id d = fid then f d else d) (get_finding i s)"
  using assms by (simp add: get_finding_def update_finding_def coll_get_update_where)

lemma advances_save_update:
  assumes "quiet f" "fe_from_status e = None" "get_finding (fe_finding_id e) s \<noteq> None"
  shows "advances s (save_event e (update_finding fid f s))"
proof (rule advances_trans [OF advances_update [OF assms(1)]])
  show "advances (update_finding fid f s) (save_event e (update_finding fid f s))"
    using assms(3) by (intro advances_event [OF assms(2)]) (simp add: get_finding_update quietD [OF assms(1)])
qed

lemma plain_event_simps [simp]:
  "fe_from_status (plain_event now fid k actor note) = None" "fe_finding_id (plain_event now fid k actor note) = fid"
  by (simp_all add: plain_event_def)

lemma advances_assign: "assign_finding now fid who actor note s = Inr s' \<Longrightarrow> advances s s'"
  by (auto simp: assign_finding_def quiet_def intro!: advances_save_update split: option.splits)

lemma advances_comment: "add_comment now fid actor note s = Inr s' \<Longrightarrow> advances s s'"
  by (auto simp: add_comment_def intro!: advances_event split: option.splits)

lemma advances_link:
  assumes "link_fix_verification now fid actor run results note s = Inr s'"
  shows "advances s s'"
proof -
  from assms obtain finding s1 where f: "get_finding fid s = Some finding"
    and s1: "(if vf_status finding = FIXING
        then transition_finding now fid
          (verify_request FIXED_PENDING_VERIFY actor ''fix verification submitted'' [] run results note) s
        else Inr (save_event ((plain_event now fid EV_FIX_VERIFY actor note)
          \<lparr>fe_related_run_id := Some run, fe_related_result_ids := results\<rparr>) s)) = Inr s1"
    and s': "s' = (if run \<noteq> [] \<and> run \<notin> set (vf_run_ids finding)
      then update_finding fid (\<lambda>d. d\<lparr>vf_run_ids := vf_run_ids d @ [run], vf_updated_at := now\<rparr>) s1 else s1)"
    by (auto simp: link_fix_verification_def sbind_Inr_iff split: option.splits)
  have "advances s s1"
    using s1 f by (auto split: if_splits intro: advances_transition intro!: advances_event)
  moreover have "advances s1 s'"
    by (auto simp: s' quiet_def intro!: advances_update)
  ultimately show ?thesis by (rule advances_trans)
qed

lemma advances_core_then: "advances (s\<lparr>fd_core := c\<rparr>) s' \<Longrightarrow> advances s s'"
  by (rule advances_trans [OF advances_core])

lemma advances_schedule:
  "schedule_finding_retest digest sha now new_id fid actor days s = (s', r) \<Longrightarrow> advances s s'"
  by (auto simp: schedule_finding_retest_def after_retest_created_def Let_def
      intro: advances_core_then dest!: advances_link split: option.splits sum.splits prod.splits if_splits)

lemma advances_attach: "advances s (attach_result now fid rid r s)"
  unfolding attach_result_def Let_def
  by (rule advances_core_then, rule advances_update) (simp add: quiet_def)

lemma advances_attach_all: "advances s (attach_results now fid rid rs s)"
  unfolding attach_results_def
proof (induction rs arbitrary: s)
  case (Cons r rs)
  then show ?case by (auto intro: advances_trans [OF advances_attach])
qed simp

lemma get_finding_core [simp]: "get_finding i (s\<lparr>fd_core := c\<rparr>) = get_finding i s"
  by (simp add: get_finding_def)

lemma quiet_get_status:
  assumes "quiet f"
  shows "map_option vf_status (get_finding i (update_finding fid f s)) = map_option vf_status (get_finding i s)"
  by (cases "get_finding i s") (simp_all add: get_finding_update quietD [OF assms])

lemma attach_result_status: "map_option vf_status (get_finding i (attach_result now fid rid r s)) =
    map_option vf_status (get_finding i s)"
  unfolding attach_result_def Let_def
  by (subst quiet_get_status) (simp_all add: quiet_def get_finding_def)

lemma attach_results_status: "map_option vf_status (get_finding i (attach_results now fid rid rs s)) =
    map_option vf_status (get_finding i s)"
  unfolding attach_results_def by (induction rs arbitrary: s) (simp_all add: attach_result_status)

lemma attach_results_get: "get_finding i s = Some f \<Longrightarrow>
    \<exists>f'. get_finding i (attach_results now fid rid rs s) = Some f' \<and> vf_status f' = vf_status f \<and> vf_id f' = i"
  using attach_results_status [of i now fid rid rs s] by (auto dest: get_findingD)

lemma attach_results_events: "fd_events (attach_results now fid rid rs s) = fd_events s"
  unfolding attach_results_def
  by (induction rs arbitrary: s) (simp_all add: attach_result_def Let_def update_finding_def)

lemma advances_apply:
  assumes "apply_evaluation now finding rid actor ev s = Inr s'" "get_finding (vf_id finding) s \<noteq> None"
  shows "advances s s'"
  using assms
  by (auto simp: apply_evaluation_def Let_def inconclusive_event_def intro: advances_transition
      intro!: advances_event split: if_splits retest_decision.splits)

definition run_checkpoints :: "oid \<Rightarrow> finding_db \<Rightarrow> security_execution_checkpoint list" where
  "run_checkpoints rid s = filter (\<lambda>cp. cp_run_id cp = rid) (db_checkpoints (fd_core s))"

definition run_results :: "oid \<Rightarrow> finding_db \<Rightarrow> security_test_result list" where
  "run_results rid s = filter (\<lambda>r. res_run_id r = rid) (db_results (fd_core s))"

text \<open>An evaluation that returns: the run it was given, and what it applied.\<close>

lemma evaluate_shape:
  assumes "evaluate_finding_retest parse now fid run_ref actor s = (s', r)"
  shows "s' = s \<and> \<not> succeeds r \<or> (\<exists>finding rid run ev. get_finding fid s = Some finding \<and> parse run_ref = Some rid \<and>
      run \<in> set (db_runs (fd_core s)) \<and> run_id run = rid \<and> retest_of finding run \<and> run_status run = DONE \<and>
      ev = classify_finding_retest (run_checkpoints rid s) (run_results rid s) (run_total_cases run) \<and>
      (let s1 = attach_results now fid rid (run_results rid s) s in
       (s' = s1 \<and> (\<exists>e. apply_evaluation now finding rid actor ev s1 = Inl e \<and> r = Inl e)) \<or>
       (apply_evaluation now finding rid actor ev s1 = Inr s' \<and> r = Inr ev)))"
proof (cases "get_finding fid s")
  case None
  with assms show ?thesis by (auto simp: evaluate_finding_retest_def)
next
  case (Some finding)
  show ?thesis
  proof (cases "parse run_ref")
    case None
    with assms Some show ?thesis by (auto simp: evaluate_finding_retest_def)
  next
    case (Some rid)
    note f = \<open>get_finding fid s = Some finding\<close>
    show ?thesis
    proof (cases "find (\<lambda>r. run_id r = rid \<and> retest_of finding r) (db_runs (fd_core s))")
      case None
      with assms Some f show ?thesis by (auto simp: evaluate_finding_retest_def)
    next
      case found: (Some run)
      from find_Some_in [OF found] assms Some f found show ?thesis
        by (cases "run_status run = DONE")
          (auto simp: evaluate_finding_retest_def run_checkpoints_def run_results_def Let_def split: sum.splits)
    qed
  qed
qed

lemma advances_evaluate:
  assumes "evaluate_finding_retest parse now fid run_ref actor s = (s', r)"
  shows "advances s s'"
  using evaluate_shape [OF assms]
proof (elim disjE exE conjE)
  fix finding rid run ev
  assume f: "get_finding fid s = Some finding"
    and a: "let s1 = attach_results now fid rid (run_results rid s) s in
       (s' = s1 \<and> (\<exists>e. apply_evaluation now finding rid actor ev s1 = Inl e \<and> r = Inl e)) \<or>
       (apply_evaluation now finding rid actor ev s1 = Inr s' \<and> r = Inr ev)"
  let ?s1 = "attach_results now fid rid (run_results rid s) s"
  have "vf_id finding = fid" using f by (auto dest: get_findingD)
  then have "get_finding (vf_id finding) ?s1 \<noteq> None"
    using attach_results_get [OF f, of now fid rid "run_results rid s"] by auto
  with a have "advances ?s1 s'" by (auto simp: Let_def dest: advances_apply)
  then show ?thesis by (rule advances_trans [OF advances_attach_all])
qed simp

lemma advances_evaluate_each: "evaluate_each parse now actor runs s = (s', r) \<Longrightarrow> advances s s'"
proof (induction parse now actor runs s arbitrary: s' r rule: evaluate_each.induct)
  case (2 parse now actor run runs s)
  show ?case
  proof (cases "parse (dtext (run_scope run) ''finding_id'')")
    case None
    with 2 show ?thesis by simp
  next
    case (Some fid)
    show ?thesis
    proof (cases "(case get_finding fid s of Some f \<Rightarrow> vf_status f \<noteq> FIXED_PENDING_VERIFY | None \<Rightarrow> True) \<or>
        has_marker (\<lambda>_. True) fid (run_id run) retest_markers s")
      case True
      with 2(2) [OF Some True] 2(4) Some show ?thesis by simp
    next
      case False
      obtain s1 x where ev: "evaluate_finding_retest Some now fid (run_id run) actor s = (s1, x)" by fastforce
      note step = advances_evaluate [OF ev]
      show ?thesis
      proof (cases x)
        case (Inl e)
        with 2(4) Some False ev step show ?thesis by simp
      next
        case (Inr y)
        obtain s2 n where rest: "evaluate_each parse now actor runs s1 = (s2, n)" by fastforce
        have "s' = s2" using 2(4) Some False ev Inr rest by (cases n) simp_all
        with 2(3) [OF Some False ev [symmetric] _ rest] Inr step advances_trans show ?thesis by blast
      qed
    qed
  qed
qed simp

lemma advances_add_result:
  assumes "add_result_to_finding now fid rid actor s = Inr s'"
  shows "advances s s'"
proof -
  from assms obtain finding r where f: "get_finding fid s = Some finding"
    and r: "coll_get res_id rid (db_results (fd_core s)) = Some r"
    by (auto simp: add_result_to_finding_def split: option.splits)
  let ?s1 = "if rid \<in> set (vf_result_ids finding) then s else
    update_finding fid (\<lambda>d. d\<lparr>vf_result_ids := vf_result_ids d @ [rid], vf_updated_at := now\<rparr>) s"
  let ?s2 = "if res_run_id r = [] \<or> res_run_id r \<in> set (vf_run_ids finding) then ?s1 else
    update_finding fid (\<lambda>d. d\<lparr>vf_run_ids := vf_run_ids d @ [res_run_id r]\<rparr>) ?s1"
  let ?s3 = "?s2\<lparr>fd_core := (fd_core ?s2)\<lparr>db_results := update_where (\<lambda>q. res_id q = rid)
    (\<lambda>q. q\<lparr>res_related_vuln_id := Some fid\<rparr>) (db_results (fd_core ?s2))\<rparr>\<rparr>"
  have s': "s' = save_event ((plain_event now fid EV_COMMENT actor (''linked result '' @ rid))
      \<lparr>fe_related_result_ids := [rid]\<rparr>) ?s3"
    using assms f r by (simp add: add_result_to_finding_def Let_def)
  have "advances s ?s1" by (auto simp: quiet_def intro!: advances_update)
  moreover have "advances ?s1 ?s2" by (auto simp: quiet_def intro!: advances_update)
  moreover have "advances ?s2 ?s3" by simp
  moreover have "map_option vf_status (get_finding fid ?s3) = map_option vf_status (get_finding fid s)"
    by (simp add: quiet_get_status quiet_def)
  then have "get_finding fid ?s3 \<noteq> None" using f by auto
  then have "advances ?s3 s'" unfolding s' by (intro advances_event) simp_all
  ultimately show ?thesis by (meson advances_trans)
qed

section \<open>The services interleaved\<close>

text \<open>
  Results are promoted to new findings by \<open>result_review\<close> (status \<open>OPEN\<close>, a fresh id), and the
  scheduler changes the shared \<open>db\<close> at any time.
\<close>

inductive finding_step :: "(json \<Rightarrow> string) \<Rightarrow> (string \<Rightarrow> string) \<Rightarrow> (string \<Rightarrow> oid option) \<Rightarrow> finding_db \<Rightarrow>
    finding_db \<Rightarrow> bool"
  for digest :: "json \<Rightarrow> string" and sha :: "string \<Rightarrow> string" and parse :: "string \<Rightarrow> oid option" where
  transition: "transition_finding now fid req s = Inr s' \<Longrightarrow> finding_step digest sha parse s s'"
| assign: "assign_finding now fid who actor note s = Inr s' \<Longrightarrow> finding_step digest sha parse s s'"
| comment: "add_comment now fid actor note s = Inr s' \<Longrightarrow> finding_step digest sha parse s s'"
| link: "link_fix_verification now fid actor rid rids note s = Inr s' \<Longrightarrow> finding_step digest sha parse s s'"
| schedule: "schedule_finding_retest digest sha now new_id fid actor days s = (s', x) \<Longrightarrow>
    finding_step digest sha parse s s'"
| evaluate: "evaluate_finding_retest parse now fid run_ref actor s = (s', y) \<Longrightarrow> finding_step digest sha parse s s'"
| maintain: "evaluate_completed_finding_retests parse now limit actor s = (s', z) \<Longrightarrow>
    finding_step digest sha parse s s'"
| attach: "add_result_to_finding now fid rid actor s = Inr s' \<Longrightarrow> finding_step digest sha parse s s'"
| promote_result: "vf_id f \<notin> vf_id ` set (fd_findings s) \<Longrightarrow> vf_status f = OPEN \<Longrightarrow> vf_close_reason f = None \<Longrightarrow>
    vf_closed_at f = None \<Longrightarrow> fe_finding_id e = vf_id f \<Longrightarrow> fe_from_status e = None \<Longrightarrow>
    finding_step digest sha parse s (save_event e (s\<lparr>fd_findings := fd_findings s @ [f]\<rparr>))"
| environment: "finding_step digest sha parse s (s\<lparr>fd_core := c\<rparr>)"

definition finding_steps :: "(json \<Rightarrow> string) \<Rightarrow> (string \<Rightarrow> string) \<Rightarrow> (string \<Rightarrow> oid option) \<Rightarrow> finding_db \<Rightarrow>
    finding_db \<Rightarrow> bool" where
  "finding_steps digest sha parse = (finding_step digest sha parse)\<^sup>*\<^sup>*"

lemma status_log_fresh: "fid \<notin> fe_finding_id ` set es \<Longrightarrow> status_log fid es = []"
  by (induction es) (auto simp: status_log_def List.map_filter_simps status_move_def)

lemma advances_promote:
  assumes "vf_id f \<notin> vf_id ` set (fd_findings s)" "vf_status f = OPEN" "vf_close_reason f = None" "vf_closed_at f = None"
  shows "advances s (s\<lparr>fd_findings := fd_findings s @ [f]\<rparr>)"
proof -
  have "history_ok (fd_events s, f) \<and> closed_ok f" if "finding_inv s"
  proof -
    from that assms(1) have "vf_id f \<notin> fe_finding_id ` set (fd_events s)" by (auto simp: finding_inv_def)
    then show ?thesis
      using assms(2-4) by (simp add: history_ok_def status_log_fresh closed_ok_def closed_status_def CLOSED_REASONS_def)
  qed
  with assms(1) show ?thesis by (auto simp: advances_def finding_inv_def coll_ok_def)
qed

lemma advances_created:
  assumes "vf_id f \<notin> vf_id ` set (fd_findings s)" "vf_status f = OPEN" "vf_close_reason f = None" "vf_closed_at f = None"
    "fe_finding_id e = vf_id f" "fe_from_status e = None"
  shows "advances s (save_event e (s\<lparr>fd_findings := fd_findings s @ [f]\<rparr>))"
proof (rule advances_trans [OF advances_promote [OF assms(1-4)] advances_event])
  show "fe_from_status e = None" by (rule assms(6))
  show "get_finding (fe_finding_id e) (s\<lparr>fd_findings := fd_findings s @ [f]\<rparr>) \<noteq> None"
    by (simp add: get_finding_def coll_get_None assms(5))
qed

lemma advances_step: "finding_step digest sha parse s s' \<Longrightarrow> advances s s'"
  by (induction rule: finding_step.induct)
    (auto intro: advances_transition advances_assign advances_comment advances_link advances_schedule advances_evaluate
      advances_evaluate_each advances_add_result advances_created simp: evaluate_completed_finding_retests_def)

lemma advances_steps: "finding_steps digest sha parse s s' \<Longrightarrow> advances s s'"
  unfolding finding_steps_def
  by (induction rule: rtranclp_induct) (auto intro: advances_trans advances_step)

section \<open>Properties\<close>


section \<open>Facts: what an evaluation and a retest do\<close>

definition decided_status :: "retest_decision \<Rightarrow> finding_status" where
  "decided_status d = (case d of RT_VERIFIED_FIXED \<Rightarrow> VERIFIED_FIXED | RT_REOPENED \<Rightarrow> REOPENED
     | RT_PENDING \<Rightarrow> FIXED_PENDING_VERIFY)"

lemma get_finding_event [simp]: "get_finding i (save_event e s) = get_finding i s"
  by (simp add: get_finding_def save_event_def)

lemma transition_status:
  assumes "transition_finding now fid req s = Inr s'" "get_finding fid s = Some f"
  shows "get_finding fid s' = Some (moved_to now (tq_target req) f)"
  using assms(1)
proof (rule transition_Inr)
  fix g
  assume "get_finding fid s = Some g" and s': "s' = commit_transition now fid (vf_status g) req s"
  with assms(2) have g: "g = f" by simp
  have "vf_id f = fid" using assms(2) by (auto dest: get_findingD)
  with s' assms(2) commit_transition_eq [of now fid "vf_status f" req s] show ?thesis
    by (auto simp: g get_finding_update)
qed

lemma transition_pending_ok:
  assumes "get_finding fid s = Some f" "vf_status f = FIXED_PENDING_VERIFY" "target \<in> {VERIFIED_FIXED, REOPENED}"
  shows "\<exists>s'. transition_finding now fid (verify_request target actor reason codes run results note) s = Inr s'"
  using assms by (auto simp: transition_finding_def transition_guards_def verify_request_def guards.simps)

lemma apply_status:
  assumes "get_finding (vf_id finding) s = Some f" "vf_status f = vf_status finding"
  shows "\<exists>s'. apply_evaluation now finding rid actor ev s = Inr s' \<and>
    map_option vf_status (get_finding (vf_id finding) s') = Some (if vf_status finding = FIXED_PENDING_VERIFY
      then decided_status (rv_decision ev) else vf_status finding)"
proof (cases "vf_status finding = FIXED_PENDING_VERIFY")
  case False
  with assms show ?thesis by (simp add: apply_evaluation_def)
next
  case True
  have moved: "\<exists>s'. transition_finding now (vf_id finding) (verify_request target actor reason codes rid results []) s = Inr s' \<and>
      map_option vf_status (get_finding (vf_id finding) s') = Some target"
    if "target \<in> {VERIFIED_FIXED, REOPENED}" for target reason codes results
  proof -
    from transition_pending_ok [OF assms(1) _ that] assms(2) True
    obtain s' where s': "transition_finding now (vf_id finding) (verify_request target actor reason codes rid results []) s = Inr s'"
      by metis
    from transition_status [OF s' assms(1)] s' show ?thesis by (simp add: verify_request_def)
  qed
  show ?thesis
    using True assms moved
    by (cases "rv_decision ev") (auto simp: apply_evaluation_def decided_status_def Let_def)
qed

lemma classify_verified: "rv_decision (classify_finding_retest cps rs n) = RT_VERIFIED_FIXED \<longleftrightarrow>
    retest_complete cps rs n \<and> list_all passing_result rs \<and> \<not> list_ex candidate_result rs"
  by (auto simp: classify_finding_retest_def Let_def filter_empty_conv list_ex_iff)

lemma classify_reopened: "rv_decision (classify_finding_retest cps rs n) = RT_REOPENED \<longleftrightarrow> list_ex candidate_result rs"
  by (auto simp: classify_finding_retest_def Let_def filter_empty_conv list_ex_iff)

lemma created_retest:
  assumes "schedule_finding_retest digest sha now new_id fid actor days s = (s', Inr (run, True))"
    and "get_finding fid s = Some f"
  obtains source selected policy core run0 where "vf_status f \<in> {FIXING, FIXED_PENDING_VERIFY}"
    and "active_retest f (fd_core s) = None"
    and "source \<in> set (db_runs (fd_core s))" "run_scheduler_managed source"
    and "selected = selected_results source (baseline_results f (fd_core s))" "replay_snapshots selected \<noteq> []"
    and "enqueue_snapshot_batch digest Some now new_id (retest_request sha f actor source selected policy (fd_core s))
      (fd_core s) = Inr (core, run0, True)"
    and "after_retest_created now fid actor days run0 (s\<lparr>fd_core := core\<rparr>) = (s', Inr (run, True))"
proof -
  from assms have st: "vf_status f \<in> {FIXING, FIXED_PENDING_VERIFY}" and act: "active_retest f (fd_core s) = None"
    by (auto simp: schedule_finding_retest_def split: if_splits option.splits)
  from assms st act obtain req core run0 where req: "plan_retest sha f actor (fd_core s) = Inr req"
    and enq: "enqueue_snapshot_batch digest Some now new_id req (fd_core s) = Inr (core, run0, True)"
    and after: "after_retest_created now fid actor days run0 (s\<lparr>fd_core := core\<rparr>) = (s', Inr (run, True))"
    by (auto simp: schedule_finding_retest_def Let_def sbind_Inr_iff split: sum.splits prod.splits if_splits)
  from req obtain source sources policy
    where src: "source_runs (baseline_results f (fd_core s)) (fd_core s) = source # sources"
    and ne: "replay_snapshots (selected_results source (baseline_results f (fd_core s))) \<noteq> []"
    and r: "req = retest_request sha f actor source (selected_results source (baseline_results f (fd_core s))) policy (fd_core s)"
    by (auto simp: plan_retest_def Let_def sbind_Inr_iff split: list.splits if_splits)
  from src have "source \<in> set (source_runs (baseline_results f (fd_core s)) (fd_core s))" by simp
  then have "source \<in> set (db_runs (fd_core s))" "run_scheduler_managed source" by (auto simp: source_runs_def)
  from that [OF st act this refl ne _ after] enq r show ?thesis by blast
qed

lemma link_moves_to_pending:
  assumes "link_fix_verification now fid actor rid results note s = Inr s'" "get_finding fid s = Some f"
    and "vf_status f \<in> {FIXING, FIXED_PENDING_VERIFY}" "rid \<noteq> []"
  shows "\<exists>f'. get_finding fid s' = Some f' \<and> vf_status f' = FIXED_PENDING_VERIFY \<and> rid \<in> set (vf_run_ids f')"
proof -
  have fid: "vf_id f = fid" using assms(2) by (auto dest: get_findingD)
  from assms(1,2) obtain s1 where s1: "(if vf_status f = FIXING
        then transition_finding now fid (verify_request FIXED_PENDING_VERIFY actor ''fix verification submitted'' [] rid results note) s
        else Inr (save_event ((plain_event now fid EV_FIX_VERIFY actor note)
          \<lparr>fe_related_run_id := Some rid, fe_related_result_ids := results\<rparr>) s)) = Inr s1"
    and s': "s' = (if rid \<noteq> [] \<and> rid \<notin> set (vf_run_ids f)
      then update_finding fid (\<lambda>d. d\<lparr>vf_run_ids := vf_run_ids d @ [rid], vf_updated_at := now\<rparr>) s1 else s1)"
    by (auto simp: link_fix_verification_def sbind_Inr_iff)
  have "\<exists>f1. get_finding fid s1 = Some f1 \<and> vf_status f1 = FIXED_PENDING_VERIFY \<and> vf_run_ids f1 = vf_run_ids f \<and> vf_id f1 = fid"
    using s1 assms(2,3) fid
    by (auto simp: moved_to_def verify_request_def closed_status_def CLOSED_REASONS_def dest!: transition_status split: if_splits)
  then obtain f1 where f1: "get_finding fid s1 = Some f1" "vf_status f1 = FIXED_PENDING_VERIFY"
    "vf_run_ids f1 = vf_run_ids f" "vf_id f1 = fid" by blast
  show ?thesis
  proof (cases "rid \<in> set (vf_run_ids f)")
    case True
    with f1 s' show ?thesis by simp
  next
    case False
    with s' assms(4) f1 show ?thesis by (simp add: get_finding_update)
  qed
qed

text \<open>C12: A fix is verified by evidence only. When a retest is evaluated, the status of the finding changes
  only if it was pending verification, and then by the results of a finished retest run of that very
  finding: it is verified exactly when every case of the run is done, with one result each, all passing
  and none a candidate; it is reopened exactly when some result is still a candidate; else it stays
  pending.\<close>

theorem verified_fix_is_evidenced:
  assumes "evaluate_finding_retest parse now fid run_ref actor s = (s', Inr ev)" "get_finding fid s = Some f"
  shows "\<exists>f' run. get_finding fid s' = Some f' \<and> run \<in> set (db_runs (fd_core s)) \<and> parse run_ref = Some (run_id run) \<and>
    retest_of f run \<and> run_status run = DONE \<and>
    (let cps = run_checkpoints (run_id run) s; rs = run_results (run_id run) s in
     if vf_status f \<noteq> FIXED_PENDING_VERIFY then vf_status f' = vf_status f
     else (vf_status f' = VERIFIED_FIXED \<longleftrightarrow> retest_complete cps rs (run_total_cases run) \<and>
             list_all passing_result rs \<and> \<not> list_ex candidate_result rs) \<and>
          (vf_status f' = REOPENED \<longleftrightarrow> list_ex candidate_result rs) \<and>
          vf_status f' \<in> {VERIFIED_FIXED, REOPENED, FIXED_PENDING_VERIFY})"
proof -
  from evaluate_shape [OF assms(1)] assms(2) obtain rid run where
    run: "parse run_ref = Some rid" "run \<in> set (db_runs (fd_core s))" "run_id run = rid" "retest_of f run"
      "run_status run = DONE"
    and ev: "ev = classify_finding_retest (run_checkpoints rid s) (run_results rid s) (run_total_cases run)"
    and ap: "apply_evaluation now f rid actor ev (attach_results now fid rid (run_results rid s) s) = Inr s'"
    by (auto simp: Let_def)
  have fid: "vf_id f = fid" using assms(2) by (auto dest: get_findingD)
  from attach_results_get [OF assms(2), of now fid rid "run_results rid s"] obtain f1
    where f1: "get_finding (vf_id f) (attach_results now fid rid (run_results rid s) s) = Some f1" "vf_status f1 = vf_status f"
    by (auto simp: fid)
  from apply_status [OF f1, of now rid actor ev] ap obtain f' where f': "get_finding fid s' = Some f'"
    "vf_status f' = (if vf_status f = FIXED_PENDING_VERIFY then decided_status (rv_decision ev) else vf_status f)"
    by (auto simp: fid)
  show ?thesis
    using f' run ev classify_verified [of "run_checkpoints rid s" "run_results rid s" "run_total_cases run"]
      classify_reopened [of "run_checkpoints rid s" "run_results rid s" "run_total_cases run"]
    by (intro exI [of _ f'] exI [of _ run])
      (auto simp: Let_def decided_status_def split: retest_decision.splits)
qed

text \<open>A retest replays the baseline. A scheduled retest exists only for a finding that is being fixed or
  pending verification and has no retest under way; the run it creates replays exactly the snapshots of
  the finding's own results in one of its scheduler-managed baseline runs, under that run's identity,
  and afterwards the finding is pending verification and linked to the run.\<close>

theorem retest_replays_baseline:
  assumes "schedule_finding_retest digest sha now new_id fid actor days s = (s', Inr (run, True))"
    and "get_finding fid s = Some f" "new_id \<noteq> []"
    and "new_id \<notin> run_id ` set (db_runs (fd_core s))" "new_id \<notin> cp_run_id ` set (db_checkpoints (fd_core s))"
  shows "vf_status f \<in> {FIXING, FIXED_PENDING_VERIFY} \<and> active_retest f (fd_core s) = None \<and>
    (\<exists>source \<in> set (db_runs (fd_core s)). run_scheduler_managed source \<and>
       run_ctx run = execution_context_from_run source \<and> run_check_type run = run_check_type source \<and>
       set (run_snapshot_ids run) = {sn. \<exists>r \<in> set (db_results (fd_core s)). res_id r \<in> set (vf_result_ids f) \<and>
         res_run_id r = run_id source \<and> res_snapshot_id r = Some sn}) \<and>
    (\<exists>f'. get_finding fid s' = Some f' \<and> vf_status f' = FIXED_PENDING_VERIFY \<and> run_id run \<in> set (vf_run_ids f'))"
proof -
  from assms(1,2) obtain source selected policy core run0 where st: "vf_status f \<in> {FIXING, FIXED_PENDING_VERIFY}"
    and act: "active_retest f (fd_core s) = None"
    and source: "source \<in> set (db_runs (fd_core s))" "run_scheduler_managed source"
    and sel: "selected = selected_results source (baseline_results f (fd_core s))"
    and enq: "enqueue_snapshot_batch digest Some now new_id (retest_request sha f actor source selected policy (fd_core s))
      (fd_core s) = Inr (core, run0, True)"
    and after: "after_retest_created now fid actor days run0 (s\<lparr>fd_core := core\<rparr>) = (s', Inr (run, True))"
    by (rule created_retest)
  let ?req = "retest_request sha f actor source selected policy (fd_core s)"
  from enq obtain ids key pd where ids: "normalize_snapshot_ids Some (eq_snapshot_ids ?req) = Inr ids"
    and run0: "run0 = mark_queued now (length ids) (new_run now new_id ?req key ids pd)"
    and runs: "db_runs core = db_runs (fd_core s) @ [run0]"
    by (rule created_shape [OF _ assms(4,5)]) blast
  have id0: "run_id run0 = new_id" by (simp add: run0 mark_queued_def)
  have "coll_get run_id new_id (db_runs core) = Some run0"
    using assms(4) coll_get_None [of run_id new_id "db_runs (fd_core s)"] id0
    by (simp add: runs coll_get_append coll_get_Cons)
  then have run: "run = run0\<lparr>run_expires_at := Some (retention_end now days)\<rparr>"
    and link: "link_fix_verification now fid actor new_id [] ''scheduled immutable evidence replay''
      (s\<lparr>fd_core := set_expiry (retention_end now days) new_id core\<rparr>) = Inr s'"
    using after coll_get_set_expiry [of new_id "retention_end now days" core]
    by (auto simp: after_retest_created_def Let_def id0 split: sum.splits)
  have "set (run_snapshot_ids run) = set (replay_snapshots selected)"
    using normalize_ids_ok(3) [OF ids] by (simp add: run run0 mark_queued_def retest_request_def Let_def)
  also have "\<dots> = {sn. \<exists>r \<in> set (db_results (fd_core s)). res_id r \<in> set (vf_result_ids f) \<and>
      res_run_id r = run_id source \<and> res_snapshot_id r = Some sn}"
    by (auto simp: replay_snapshots_def sel selected_results_def baseline_results_def set_map_filter)
  finally have snaps: "set (run_snapshot_ids run) = \<dots>" .
  have "run_ctx run = execution_context_from_run source" "run_check_type run = run_check_type source" "run_id run = new_id"
    by (simp_all add: run run0 mark_queued_def new_run_def retest_request_def Let_def)
  moreover have "\<exists>f'. get_finding fid s' = Some f' \<and> vf_status f' = FIXED_PENDING_VERIFY \<and> new_id \<in> set (vf_run_ids f')"
    by (rule link_moves_to_pending [OF link _ st assms(3)]) (simp add: assms(2))
  ultimately show ?thesis using st act source snaps by auto
qed

section \<open>Witnesses and counterexamples\<close>

definition example_finding :: "oid \<Rightarrow> finding_status \<Rightarrow> vulnerability_finding" where
  "example_finding i st = \<lparr>vf_id = i, vf_project_id = ''p'', vf_env_id = [], vf_check_type = ''unauth_access'',
     vf_severity = ''high'', vf_status = st, vf_close_reason = None, vf_result_ids = [''x1''], vf_run_ids = [],
     vf_evidence_ref = [], vf_assigned_to = [], vf_closed_at = None, vf_ctime = 0, vf_updated_at = 0\<rparr>"

definition example_retest :: "oid \<Rightarrow> oid \<Rightarrow> time \<Rightarrow> security_test_run" where
  "example_retest i fid t = (example_run i (default_context ''p'') DONE)\<lparr>run_finished_at := Some t,
     run_scope := [(''purpose'', JStr ''finding_retest''), (''finding_id'', JStr fid)]\<rparr>"

definition example_result :: "oid \<Rightarrow> oid \<Rightarrow> string \<Rightarrow> security_test_result" where
  "example_result i rid verdict = \<lparr>res_id = i, res_run_id = rid, res_contract_version = [],
     res_execution_key = Some i, res_project_id = ''p'', res_env_id = [], res_account_id = [], res_auth_mode = [],
     res_auth_provider_id = [], res_snapshot_id = Some ''s1'', res_case_name = [], res_check_type = [],
     res_target = [], res_method = [], res_verdict = verdict,
     res_outcome_class = project_outcome_class verdict, res_priority = [], res_severity = [], res_confidence = 1,
     res_reason_codes = [], res_evidence_summary = [], res_evidence_ref = [], res_related_pathid = None,
     res_related_vuln_id = None, res_ctime = 0, res_expires_at = None\<rparr>"

definition example_done_checkpoint :: "oid \<Rightarrow> security_execution_checkpoint" where
  "example_done_checkpoint rid = \<lparr>cp_run_id = rid, cp_snapshot_id = ''s1'', cp_project_id = ''p'', cp_env_id = [],
     cp_pathid = 7, cp_ordinal = 0, cp_host = ''h.x'', cp_status = CP_DONE, cp_attempt_count = 1,
     cp_lease_token = None, cp_result_id = None, cp_reason_codes = [], cp_outcome_summary = [], cp_error_type = [],
     cp_started_at = None, cp_finished_at = None, cp_updated_at = 0, cp_expires_at = None\<rparr>"

definition example_finding_db :: "vulnerability_finding list \<Rightarrow> security_test_run list \<Rightarrow> finding_event list \<Rightarrow> finding_db" where
  "example_finding_db fs runs es = \<lparr>fd_findings = fs, fd_events = es,
     fd_core = example_db\<lparr>db_runs := runs, db_checkpoints := [example_done_checkpoint ''t1''],
       db_results := [example_result ''x1'' ''b1'' ''potential_vuln'', example_result ''x2'' ''t1'' ''no_vuln'']\<rparr>\<rparr>"

definition fixing_request :: transition_request where
  "fixing_request = \<lparr>tq_target = FIXING, tq_actor = ''bob'', tq_reason = [], tq_reason_codes = [],
     tq_related_run_id = None, tq_related_result_ids = [], tq_note = [], tq_verification_evidence = False\<rparr>"


theorem verified_fix_is_evidenced_witness:
  "\<exists>s' ev f'. evaluate_finding_retest Some 9 ''f1'' ''t1'' ''bob'' (example_finding_db
       [example_finding ''f1'' FIXED_PENDING_VERIFY] [example_retest ''t1'' ''f1'' 3] []) = (s', Inr ev) \<and>
     get_finding ''f1'' s' = Some f' \<and> vf_status f' = VERIFIED_FIXED"
proof -
  let ?f = "example_finding ''f1'' FIXED_PENDING_VERIFY"
  let ?s = "example_finding_db [?f] [example_retest ''t1'' ''f1'' 3] []"
  have "case evaluate_finding_retest Some 9 ''f1'' ''t1'' ''bob'' ?s of (_, Inr _) \<Rightarrow> True | _ \<Rightarrow> False" by code_simp
  then obtain s' ev where e: "evaluate_finding_retest Some 9 ''f1'' ''t1'' ''bob'' ?s = (s', Inr ev)"
    by (auto split: prod.splits sum.splits)
  have g: "get_finding ''f1'' ?s = Some ?f" by code_simp
  have st: "vf_status ?f = FIXED_PENDING_VERIFY" by (simp add: example_finding_def)
  have all: "retest_complete (run_checkpoints ''t1'' ?s) (run_results ''t1'' ?s) 1 \<and>
      list_all passing_result (run_results ''t1'' ?s) \<and> \<not> list_ex candidate_result (run_results ''t1'' ?s)"
    by code_simp
  have runs: "db_runs (fd_core ?s) = [example_retest ''t1'' ''f1'' 3]" "run_total_cases (example_retest ''t1'' ''f1'' 3) = 1"
    "run_id (example_retest ''t1'' ''f1'' 3) = ''t1''"
    by (simp_all add: example_finding_db_def example_retest_def example_run_def)
  from verified_fix_is_evidenced [OF e g] obtain f' where "get_finding ''f1'' s' = Some f'" "vf_status f' = VERIFIED_FIXED"
    using st all runs by (auto simp: Let_def)
  with e show ?thesis by blast
qed

theorem retest_replays_baseline_witness:
  "\<exists>s' run. schedule_finding_retest (\<lambda>_. ''d'') (\<lambda>_. ''sha'') 9 ''t9'' ''f1'' ''bob'' 30 (example_finding_db
       [example_finding ''f1'' FIXING] [example_run ''b1'' (default_context ''p'') DONE] []) = (s', Inr (run, True)) \<and>
     set (run_snapshot_ids run) = {''s1''} \<and> map_option vf_status (get_finding ''f1'' s') = Some FIXED_PENDING_VERIFY"
proof -
  let ?f = "example_finding ''f1'' FIXING"
  let ?s = "example_finding_db [?f] [example_run ''b1'' (default_context ''p'') DONE] []"
  have "case schedule_finding_retest (\<lambda>_. ''d'') (\<lambda>_. ''sha'') 9 ''t9'' ''f1'' ''bob'' 30 ?s of
      (_, Inr (run, True)) \<Rightarrow> True | _ \<Rightarrow> False" by code_simp
  then obtain s' run where e: "schedule_finding_retest (\<lambda>_. ''d'') (\<lambda>_. ''sha'') 9 ''t9'' ''f1'' ''bob'' 30 ?s = (s', Inr (run, True))"
    by (auto split: prod.splits sum.splits bool.splits)
  have g: "get_finding ''f1'' ?s = Some ?f" by code_simp
  have core: "db_runs (fd_core ?s) = [example_run ''b1'' (default_context ''p'') DONE]" "''t9'' \<notin> cp_run_id ` set (db_checkpoints (fd_core ?s))"
    "db_results (fd_core ?s) = [example_result ''x1'' ''b1'' ''potential_vuln'', example_result ''x2'' ''t1'' ''no_vuln'']"
    "run_id (example_run ''b1'' (default_context ''p'') DONE) = ''b1''" "vf_result_ids ?f = [''x1'']"
    by (simp_all add: example_finding_db_def example_done_checkpoint_def example_run_def example_finding_def)
  have fresh: "''t9'' \<noteq> []" "''t9'' \<notin> run_id ` set (db_runs (fd_core ?s))"
    by (simp_all add: core)
  from retest_replays_baseline [OF e g fresh core(2)] core e show ?thesis
    by (auto simp: example_result_def)
qed

text \<open>
  The update of a transition is not conditional on the status it was checked against: two requests that
  both read \<open>OPEN\<close> both succeed, and reopen a finding that was closed as a false positive.
\<close>

lemma transition_race:
  "\<not> finding_inv (commit_transition 6 ''f1'' OPEN fixing_request (commit_transition 5 ''f1'' OPEN
     (fixing_request\<lparr>tq_target := FALSE_POSITIVE\<rparr>) (example_finding_db [example_finding ''f1'' OPEN] [] [])))"
  by (simp add: finding_inv_def commit_transition_def Let_def save_event_def update_finding_def example_finding_db_def
      example_finding_def fixing_request_def closed_ok_def closed_status_def CLOSED_REASONS_def)

text \<open>
  The limit of the maintenance pass counts runs it then skips: behind one evaluated run, a finished
  retest of another finding is never looked at, however often the pass is repeated.
\<close>

lemma evaluation_starves:
  "let s = example_finding_db [example_finding ''f1'' FIXED_PENDING_VERIFY, example_finding ''f2'' VERIFIED_FIXED]
       [example_retest ''t1'' ''f1'' 3, example_retest ''t0'' ''f2'' 2] []
   in evaluate_completed_finding_retests Some 9 1 ''cron'' s = (s, Inr 0)"
  by (simp add: evaluate_completed_finding_retests_def completed_retests_def example_finding_db_def example_retest_def
      example_run_def oldest_by_def dget_def insort_key_def dtext_def get_finding_def coll_get_def example_finding_def)

end
