(* ===== verification/PyText.thy ===== *)
theory PyText
  imports PyValue
begin

text \<open>
  More of Python's string methods, as the parameter code uses them: \<open>split\<close> and \<open>join\<close> as
  inverses, \<open>in\<close> as the sublist relation, \<open>endswith\<close>, \<open>replace\<close>, \<open>isdigit\<close> with \<open>int\<close>, and
  characters of hexadecimal numbers.
\<close>

section \<open>\<open>split\<close> and \<open>join\<close>\<close>

lemma split_on_not_Nil [simp]: "split_on c s \<noteq> []"
  by (induction c s rule: split_on.induct) (auto split: list.splits)

lemma split_on_no_sep: "c \<notin> set s \<Longrightarrow> split_on c s = [s]"
  by (induction c s rule: split_on.induct) auto

lemma split_on_append: "c \<notin> set s \<Longrightarrow> split_on c (s @ c # t) = s # split_on c t"
  by (induction s) auto

lemma split_join: "ps \<noteq> [] \<Longrightarrow> \<forall>p \<in> set ps. c \<notin> set p \<Longrightarrow> split_on c (join [c] ps) = ps"
proof (induction ps)
  case (Cons p ps)
  then show ?case
    by (cases "ps = []") (auto simp: join_Cons split_on_append split_on_no_sep)
qed simp

lemma join_split: "join [c] (split_on c s) = s"
proof (induction c s rule: split_on.induct)
  case (2 c x xs)
  then show ?case
  proof (cases "split_on c xs")
    case (Cons w ws)
    with 2 show ?thesis by (cases "x = c"; cases ws) auto
  qed simp
qed simp

lemma split_on_no_sep_in: "p \<in> set (split_on c s) \<Longrightarrow> c \<notin> set p"
  by (induction c s arbitrary: p rule: split_on.induct) (auto split: list.splits if_splits)

section \<open>\<open>in\<close>, \<open>startswith\<close>, \<open>endswith\<close>\<close>

lemma contains_sublist: "contains p s \<longleftrightarrow> sublist p s"
proof (induction p s rule: contains.induct)
  case (2 p c s)
  then show ?case by (auto simp: starts_with_prefix sublist_Cons_right)
qed (simp add: sublist_code)

lemma ends_with_suffix: "ends_with p s \<longleftrightarrow> suffix p s"
  by (simp add: ends_with_def starts_with_prefix suffix_to_prefix)

lemma sublist_append_sep:
  assumes "c \<notin> set p"
  shows "sublist p (a @ c # b) \<longleftrightarrow> sublist p a \<or> sublist p b"
proof
  assume "sublist p (a @ c # b)"
  then consider "sublist p a" | "sublist p (c # b)"
    | (across) p1 p2 where "p = p1 @ p2" "suffix p1 a" "prefix p2 (c # b)"
    by (auto simp: sublist_append)
  then show "sublist p a \<or> sublist p b"
  proof cases
    case 2
    then have "prefix p (c # b) \<or> sublist p b" by (simp add: sublist_Cons_right)
    with assms show ?thesis by (auto simp: prefix_Cons)
  next
    case across
    with assms have "p2 = []" by (auto simp: prefix_Cons)
    with across show ?thesis by (auto intro: suffix_imp_sublist)
  qed simp
qed (auto simp: sublist_append sublist_Cons_right)

lemma contains_join: "c \<notin> set p \<Longrightarrow> p \<noteq> [] \<Longrightarrow> contains p (join [c] ps) \<longleftrightarrow> (\<exists>q \<in> set ps. contains p q)"
proof (induction ps)
  case Nil
  then show ?case by simp
next
  case (Cons q ps)
  then show ?case
    by (cases "ps = []") (auto simp: join_Cons contains_sublist sublist_append_sep)
qed

section \<open>\<open>replace\<close>\<close>

text \<open>\<open>s.replace(old, new)\<close> for a non-empty \<open>old\<close>: all occurrences from the left, not overlapping.\<close>

function py_replace :: "string \<Rightarrow> string \<Rightarrow> string \<Rightarrow> string" where
  "py_replace old new s =
     (if s = [] then []
      else if old \<noteq> [] \<and> starts_with old s then new @ py_replace old new (drop (length old) s)
      else hd s # py_replace old new (tl s))"
  by auto
termination by (relation "measure (\<lambda>(_, _, s). length s)") auto

declare py_replace.simps [simp del]

lemma py_replace_Nil [simp]: "py_replace old new [] = []"
  by (simp add: py_replace.simps)

lemma py_replace_absent: "\<not> contains old s \<Longrightarrow> py_replace old new s = s"
proof (induction s)
  case (Cons c s)
  then show ?case by (subst py_replace.simps) auto
qed simp

lemma py_replace_char: "py_replace [c] new s = concat (map (\<lambda>x. if x = c then new else [x]) s)"
proof (induction s)
  case (Cons x s)
  then show ?case by (subst py_replace.simps) (auto simp: starts_with_def)
qed simp

section \<open>\<open>isdigit\<close>, decimal numbers, hexadecimal digits\<close>

definition py_isdigit :: "string \<Rightarrow> bool" where
  "py_isdigit s \<longleftrightarrow> s \<noteq> [] \<and> list_all is_digit s"

definition is_hex :: "char \<Rightarrow> bool" where
  "is_hex c \<longleftrightarrow> is_digit c \<or> (let n = (of_char (lower_char c) :: nat) in 97 \<le> n \<and> n \<le> 102)"

lemma digits_value_append: "digits_value acc (s @ t) = digits_value (digits_value acc s) t"
  by (induction acc s rule: digits_value.induct) auto

lemma of_char_digit: "d < 10 \<Longrightarrow> (of_char (digit_char d) :: nat) = 48 + d"
  by (simp add: digit_char_def)

lemma str_of_nat_digits: "py_isdigit (str_of_nat n) \<and> digits_value 0 (str_of_nat n) = n"
proof (induction n rule: str_of_nat.induct)
  case (1 n)
  show ?case
  proof (cases "n < 10")
    case True
    then show ?thesis
      by (subst (1 2) str_of_nat.simps) (simp add: py_isdigit_def is_digit_def of_char_digit)
  next
    case False
    have "n mod 10 < 10" by simp
    with False 1 show ?thesis
      by (subst (1 2) str_of_nat.simps)
        (simp add: py_isdigit_def is_digit_def of_char_digit digits_value_append)
  qed
qed

lemma str_of_nat_inj: "str_of_nat m = str_of_nat n \<longleftrightarrow> m = n"
  by (metis str_of_nat_digits)

lemma not_digit_in_str_of_nat: "\<not> is_digit c \<Longrightarrow> c \<notin> set (str_of_nat n)"
  using str_of_nat_digits [of n] by (auto simp: py_isdigit_def list_all_iff)

end
