(* ===== verification/ParameterResolution.thy ===== *)
theory ParameterResolution
  imports ParameterSources Documents PyText
begin

text \<open>
  Where the value of a request parameter comes from (\<open>parameter_dependency.py\<close>): a trusted relation of
  the endpoint, an archived value of the same name, or one of a whitelisted alias; each bound to the
  project and environment asked for and, for archived values, to the account asked for.

  \<open>parameter_db\<close> holds the three collections in the order the database returns them. Of a \<open>source_meta\<close>
  dictionary a missing entry is an empty field. \<open>value in (None, "", [], \{\})\<close> is \<open>no_value\<close>.
\<close>

record scored_relation = parameter_relation +
  sr_score :: rat
  sr_relation :: string
  sr_evidence :: "json list"

record archive_row =
  ar_id :: oid
  ar_parameter :: string
  ar_project_id :: string
  ar_env_id :: string
  ar_account_id :: string
  ar_req_pathid :: "int list"
  ar_res_pathid :: "int list"
  ar_req_value :: "json list"
  ar_res_value :: "json list"

record role_candidate =
  ic_pathid :: int
  ic_parameter :: string
  ic_role :: string
  ic_manual_role :: string
  ic_role_confidence :: rat

record parameter_db =
  pa_relations :: "scored_relation list"
  pa_archive :: "archive_row list"
  pa_candidates :: "role_candidate list"

record source_meta =
  sm_source :: string
  sm_confidence :: rat
  sm_relation :: string
  sm_res_pathid :: int
  sm_parameter :: string
  sm_canonical :: string
  sm_aliases :: "string list"
  sm_account_id :: string
  sm_account_scope :: string
  sm_value_quality :: string
  sm_match :: string
  sm_role :: string
  sm_role_confidence :: rat

section \<open>Names\<close>

definition EXACT_CONFIDENCE :: rat where "EXACT_CONFIDENCE = 95 / 100"
definition ALIAS_CONFIDENCE :: rat where "ALIAS_CONFIDENCE = 82 / 100"
definition RELATION_CONFIDENCE_FLOOR :: rat where "RELATION_CONFIDENCE_FLOOR = 70 / 100"

definition DO_NOT_ALIAS :: "string list" where
  "DO_NOT_ALIAS = [''id'', ''blacklist_user_id'', ''blacklist_client_id'', ''account'', ''mobile'', ''email'',
     ''password'', ''code'', ''seccode'', ''captcha'', ''sign'', ''signature'']"

definition CANONICAL_ALIASES :: "(string \<times> string list) list" where
  "CANONICAL_ALIASES = [
     (''userid'', [''userid'', ''user_id'', ''uid'']),
     (''entid'', [''entid'', ''ent_id'', ''enterpriseid'', ''enterprise_id'', ''tenantid'', ''tenant_id'']),
     (''ent_user_id'', [''ent_user_id'', ''entuserid'', ''ent_userid'']),
     (''remoteid'', [''remoteid'', ''remote_id'', ''remoteids'']),
     (''clientid'', [''clientid'', ''client_id'', ''clientids'']),
     (''tagid'', [''tagid'', ''tag_id'', ''tagids'']),
     (''policy_id'', [''policy_id'', ''policyid'']),
     (''system_policy_id'', [''system_policy_id'', ''systempolicyid'']),
     (''packageid'', [''packageid'', ''package_id'']),
     (''seatid'', [''seatid'', ''seat_id'']),
     (''macid'', [''macid'', ''mac_id'']),
     (''fastcode'', [''fastcode'', ''fast_code'']),
     (''transferid'', [''transferid'', ''transfer_id'']),
     (''moduleid'', [''moduleid'', ''module_id'']),
     (''securityid'', [''securityid'', ''security_id'']),
     (''departmentid'', [''departmentid'', ''department_id'', ''department_ids'']),
     (''groupid'', [''groupid'', ''group_id'', ''group_ids'']),
     (''roleid'', [''roleid'', ''role_id'']),
     (''grant_id'', [''grant_id'', ''grantid'']),
     (''featureid'', [''featureid'', ''feature_id'']),
     (''script_id'', [''script_id'', ''scriptid'']),
     (''task_id'', [''task_id'', ''taskid'']),
     (''zj_id'', [''zj_id'', ''zjid'']),
     (''configid'', [''configid'', ''config_id''])]"

definition is_name_char :: "char \<Rightarrow> bool" where
  "is_name_char c \<longleftrightarrow> is_digit c \<or> c = CHR ''_'' \<or> (let n = (of_char c :: nat) in 97 \<le> n \<and> n \<le> 122)"

definition leaf :: "string \<Rightarrow> string" where
  "leaf name = filter is_name_char (py_lower (py_strip (last (split_on (CHR ''.'') name))))"

definition canonical_name :: "string \<Rightarrow> string" where
  "canonical_name name = (let low = leaf name in
     case find (\<lambda>(_, aliases). low \<in> set aliases) CANONICAL_ALIASES of
       Some (canonical, _) \<Rightarrow> canonical
     | None \<Rightarrow> low)"

section \<open>Values of relations and of archive rows\<close>

definition no_value :: "json \<Rightarrow> bool" where
  "no_value v \<longleftrightarrow> v \<in> {JNull, JStr [], JList [], JObj []}"

definition select_value :: "json list \<Rightarrow> json option" where
  "select_value values = find (\<lambda>v. \<not> no_value v) values"

fun scalar_value :: "json \<Rightarrow> bool" where
  "scalar_value (JStr s) = (s \<noteq> [])"
| "scalar_value (JInt _) = True"
| "scalar_value (JFloat _ _) = True"
| "scalar_value (JBool _) = True"
| "scalar_value _ = False"

definition trusted_relation :: "'a parameter_relation_scheme \<Rightarrow> bool" where
  "trusted_relation r \<longleftrightarrow> pr_verified r \<or> pr_manual_decision r = ''trusted''"

definition trusted_relation_value :: "scored_relation \<Rightarrow> json option" where
  "trusted_relation_value r = (if trusted_relation r then find scalar_value (sr_evidence r) else None)"

text \<open>\<open>if project_id: base["project_id"] = project_id\<close>, and the same for the environment.\<close>

definition bound_to :: "string \<Rightarrow> string \<Rightarrow> bool" where
  "bound_to wanted actual \<longleftrightarrow> wanted = [] \<or> actual = wanted"

definition row_score :: "int \<Rightarrow> string \<Rightarrow> archive_row \<Rightarrow> nat" where
  "row_score pathid account r =
     (if account \<noteq> [] \<and> ar_account_id r = account then 3 else 0) +
     (if pathid \<in> set (ar_req_pathid r) then 2 else 0) +
     (if pathid \<in> set (ar_res_pathid r) then 1 else 0)"

definition row_value :: "archive_row \<Rightarrow> json option" where
  "row_value r = select_value (ar_req_value r @ ar_res_value r)"

definition row_rank :: "int \<Rightarrow> string \<Rightarrow> archive_row \<Rightarrow> nat \<times> oid" where
  "row_rank pathid account r = (row_score pathid account r, ar_id r)"

definition considered :: "int \<Rightarrow> bool \<Rightarrow> archive_row \<Rightarrow> bool" where
  "considered pathid exact_path r \<longleftrightarrow>
     exact_path \<longrightarrow> pathid \<in> set (ar_req_pathid r) \<or> pathid \<in> set (ar_res_pathid r)"

fun score_from :: "int \<Rightarrow> string \<Rightarrow> bool \<Rightarrow> archive_row list \<Rightarrow> (json \<times> archive_row) option \<Rightarrow> (json \<times> archive_row) option" where
  "score_from pathid account exact_path [] best = best"
| "score_from pathid account exact_path (r # rs) best = score_from pathid account exact_path rs
     (if \<not> considered pathid exact_path r then best
      else case row_value r of
        None \<Rightarrow> best
      | Some v \<Rightarrow> (case best of
          None \<Rightarrow> Some (v, r)
        | Some (_, b) \<Rightarrow> if row_rank pathid account b < row_rank pathid account r then Some (v, r) else best))"

definition score_rows :: "int \<Rightarrow> string \<Rightarrow> bool \<Rightarrow> archive_row list \<Rightarrow> (json \<times> archive_row) option" where
  "score_rows pathid account exact_path rows = score_from pathid account exact_path rows None"

definition base_rows :: "string list \<Rightarrow> string \<Rightarrow> string \<Rightarrow> parameter_db \<Rightarrow> archive_row list" where
  "base_rows names project env s = filter (\<lambda>r. ar_parameter r \<in> set names \<and>
     bound_to project (ar_project_id r) \<and> bound_to env (ar_env_id r)) (pa_archive s)"

definition archive_value :: "string list \<Rightarrow> int \<Rightarrow> string \<Rightarrow> bool \<Rightarrow> string \<Rightarrow> string \<Rightarrow> parameter_db \<Rightarrow>
    (json \<times> archive_row) option" where
  "archive_value names pathid account exact_path project env s =
     (let base = base_rows names project env s in
      if account = [] then score_rows pathid account exact_path base
      else case score_rows pathid account exact_path (filter (\<lambda>r. ar_account_id r = account) base) of
        Some hit \<Rightarrow> Some hit
      | None \<Rightarrow> score_rows pathid account exact_path (filter (\<lambda>r. ar_account_id r = []) base))"

definition archive_provenance :: "archive_row \<Rightarrow> bool \<Rightarrow> string \<times> string" where
  "archive_provenance r alias = (if ar_account_id r \<noteq> []
     then (if alias then SOURCE_PARAMETER_DEPENDENCY_ALIAS else SOURCE_PARAMETER_ARCHIVE, ''account'')
     else (SOURCE_PARAMETER_ARCHIVE_PROJECT_SCOPED, ''project''))"

definition same_text :: "string \<Rightarrow> json \<Rightarrow> bool" where
  "same_text target v \<longleftrightarrow> py_strip (py_str v) = target"

definition value_quality :: "archive_row \<Rightarrow> json \<Rightarrow> string" where
  "value_quality r v = (let target = py_strip (py_str v) in
     if v = JNull \<or> target = [] then VALUE_QUALITY_UNKNOWN
     else if list_ex (same_text target) (ar_res_value r) then VALUE_QUALITY_OBSERVED
     else if list_ex (same_text target) (ar_req_value r) then VALUE_QUALITY_SAMPLED
     else VALUE_QUALITY_UNKNOWN)"

definition candidate_for :: "int \<Rightarrow> string \<Rightarrow> parameter_db \<Rightarrow> role_candidate option" where
  "candidate_for pathid name s = find (\<lambda>c. ic_pathid c = pathid \<and> ic_parameter c = name) (pa_candidates s)"

definition candidate_role :: "int \<Rightarrow> string \<Rightarrow> parameter_db \<Rightarrow> string \<times> rat" where
  "candidate_role pathid parameter s =
     (case (case candidate_for pathid parameter s of None \<Rightarrow> candidate_for pathid (leaf parameter) s | d \<Rightarrow> d) of
        None \<Rightarrow> ([], 0)
      | Some c \<Rightarrow> (str_or (ic_manual_role c) (ic_role c), ic_role_confidence c))"

definition relation_order :: "scored_relation \<Rightarrow> bool \<times> rat" where
  "relation_order r = (\<not> pr_verified r, - sr_score r)"

definition relations_named :: "string \<Rightarrow> int \<Rightarrow> string \<Rightarrow> string \<Rightarrow> parameter_db \<Rightarrow> scored_relation list" where
  "relations_named name pathid project env s = take 20 (sort_key relation_order
     (filter (\<lambda>r. pr_parameter r = name \<and> pr_req_pathid r = pathid \<and>
        bound_to project (pr_project_id r) \<and> bound_to env (pr_env_id r)) (pa_relations s)))"

fun first_trusted :: "scored_relation list \<Rightarrow> (json \<times> scored_relation) option" where
  "first_trusted [] = None"
| "first_trusted (r # rs) = (case trusted_relation_value r of Some v \<Rightarrow> Some (v, r) | None \<Rightarrow> first_trusted rs)"

definition relation_value :: "string \<Rightarrow> int \<Rightarrow> string \<Rightarrow> string \<Rightarrow> parameter_db \<Rightarrow> (json \<times> scored_relation) option" where
  "relation_value parameter pathid project env s = first_trusted (concat (map
     (\<lambda>name. relations_named name pathid project env s) [parameter, leaf parameter, canonical_name parameter]))"

section \<open>Resolution\<close>

definition no_meta :: "string \<times> rat \<Rightarrow> source_meta" where
  "no_meta role = \<lparr>sm_source = SOURCE_UNRESOLVED, sm_confidence = 0, sm_relation = [], sm_res_pathid = 0,
     sm_parameter = [], sm_canonical = [], sm_aliases = [], sm_account_id = [], sm_account_scope = [],
     sm_value_quality = VALUE_QUALITY_UNKNOWN, sm_match = [], sm_role = fst role, sm_role_confidence = snd role\<rparr>"

definition relation_meta :: "string \<times> rat \<Rightarrow> scored_relation \<Rightarrow> source_meta" where
  "relation_meta role r = (no_meta role)\<lparr>sm_source := SOURCE_PARAMETER_RELATION,
     sm_confidence := max RELATION_CONFIDENCE_FLOOR (sr_score r), sm_relation := sr_relation r,
     sm_res_pathid := pr_res_pathid r, sm_value_quality := []\<rparr>"

definition exact_meta :: "string \<times> rat \<Rightarrow> archive_row \<Rightarrow> json \<Rightarrow> source_meta" where
  "exact_meta role r v = (no_meta role)\<lparr>sm_source := fst (archive_provenance r False),
     sm_confidence := EXACT_CONFIDENCE, sm_parameter := ar_parameter r, sm_account_id := ar_account_id r,
     sm_account_scope := snd (archive_provenance r False), sm_value_quality := value_quality r v,
     sm_match := ''exact''\<rparr>"

definition alias_meta :: "string \<times> rat \<Rightarrow> string \<Rightarrow> string list \<Rightarrow> archive_row \<Rightarrow> json \<Rightarrow> source_meta" where
  "alias_meta role canonical aliases r v = (no_meta role)\<lparr>sm_source := fst (archive_provenance r True),
     sm_confidence := ALIAS_CONFIDENCE, sm_parameter := ar_parameter r, sm_canonical := canonical,
     sm_aliases := aliases, sm_account_id := ar_account_id r,
     sm_account_scope := snd (archive_provenance r True), sm_value_quality := value_quality r v\<rparr>"

definition aliases_of :: "string \<Rightarrow> string list" where
  "aliases_of canonical = sort (case map_of CANONICAL_ALIASES canonical of Some as \<Rightarrow> as | None \<Rightarrow> [canonical])"

definition resolve_parameter_value :: "string \<Rightarrow> int \<Rightarrow> string \<Rightarrow> bool \<Rightarrow> string \<Rightarrow> string \<Rightarrow> parameter_db \<Rightarrow>
    json option \<times> source_meta" where
  "resolve_parameter_value name pathid account allow_alias project env s =
     (let low = leaf name; role = candidate_role pathid name s; canonical = canonical_name name in
      case relation_value name pathid project env s of
        Some (v, r) \<Rightarrow> (Some v, relation_meta role r)
      | None \<Rightarrow> (case archive_value [name, low] pathid account (low = ''id'') project env s of
          Some (v, r) \<Rightarrow> (Some v, exact_meta role r v)
        | None \<Rightarrow>
            if allow_alias \<and> low \<notin> set DO_NOT_ALIAS \<and> canonical \<noteq> low
            then (case archive_value (aliases_of canonical) pathid account False project env s of
                Some (v, r) \<Rightarrow> (Some v, alias_meta role canonical (aliases_of canonical) r v)
              | None \<Rightarrow> (None, no_meta role))
            else (None, no_meta role)))"


section \<open>Facts\<close>

subsection \<open>Names\<close>

lemma is_name_lower: "is_name_char c \<Longrightarrow> lower_char c = c"
  by (auto simp: is_name_char_def is_digit_def lower_char_def Let_def)

lemma is_name_not_space: "is_name_char c \<Longrightarrow> \<not> is_space c"
  by (auto simp: is_name_char_def is_digit_def is_space_def Let_def)

lemma dropWhile_none: "\<forall>c \<in> set s. \<not> P c \<Longrightarrow> dropWhile P s = s"
  by (cases s) auto

lemma strip_no_space: "\<forall>c \<in> set s. \<not> is_space c \<Longrightarrow> py_strip s = s"
  unfolding py_strip_def by (simp only: dropWhile_none set_rev rev_rev_ident)

lemma leaf_chars: "c \<in> set (leaf s) \<Longrightarrow> is_name_char c"
  by (simp add: leaf_def)

lemma leaf_fixed:
  assumes "\<forall>c \<in> set s. is_name_char c"
  shows "leaf s = s"
proof -
  have "CHR ''.'' \<notin> set s" using assms by (auto simp: is_name_char_def is_digit_def)
  moreover have "py_strip s = s" using assms is_name_not_space by (intro strip_no_space) blast
  moreover have "py_lower s = s" using assms is_name_lower by (simp add: py_lower_def map_idI)
  ultimately show ?thesis using assms by (simp add: leaf_def split_on_no_sep filter_id_conv)
qed

lemma leaf_idem [simp]: "leaf (leaf s) = leaf s"
  by (rule leaf_fixed) (blast dest: leaf_chars)

text \<open>No alias belongs to two canonical names, and every canonical name is its own alias.\<close>

lemma alias_table:
  "list_all (\<lambda>p. fst p \<in> set (snd p)) CANONICAL_ALIASES"
  "list_all (\<lambda>p. list_all (list_all is_name_char) (snd p)) CANONICAL_ALIASES"
  "list_all (\<lambda>p. list_all (\<lambda>q. fst q = fst p \<or> list_all (\<lambda>a. a \<notin> set (snd q)) (snd p)) CANONICAL_ALIASES) CANONICAL_ALIASES"
  by code_simp+

lemma alias_facts:
  assumes "p \<in> set CANONICAL_ALIASES"
  shows "fst p \<in> set (snd p)" "a \<in> set (snd p) \<Longrightarrow> c \<in> set a \<Longrightarrow> is_name_char c"
    "q \<in> set CANONICAL_ALIASES \<Longrightarrow> a \<in> set (snd p) \<Longrightarrow> a \<in> set (snd q) \<Longrightarrow> fst q = fst p"
proof -
  show "fst p \<in> set (snd p)" using alias_table(1) assms unfolding list_all_iff by (rule bspec)
  have "list_all (list_all is_name_char) (snd p)" using alias_table(2) assms unfolding list_all_iff by (rule bspec)
  then show "a \<in> set (snd p) \<Longrightarrow> c \<in> set a \<Longrightarrow> is_name_char c" by (simp add: list_all_iff)
  have "list_all (\<lambda>q. fst q = fst p \<or> list_all (\<lambda>a. a \<notin> set (snd q)) (snd p)) CANONICAL_ALIASES"
    using alias_table(3) assms unfolding list_all_iff [of _ CANONICAL_ALIASES] by (rule bspec)
  then have "q \<in> set CANONICAL_ALIASES \<Longrightarrow> fst q = fst p \<or> list_all (\<lambda>a. a \<notin> set (snd q)) (snd p)"
    unfolding list_all_iff [of _ CANONICAL_ALIASES] by (rule bspec)
  then show "q \<in> set CANONICAL_ALIASES \<Longrightarrow> a \<in> set (snd p) \<Longrightarrow> a \<in> set (snd q) \<Longrightarrow> fst q = fst p"
    by (auto simp: list_all_iff)
qed

lemma canonical_name_cases:
  obtains (listed) p where "p \<in> set CANONICAL_ALIASES" "leaf s \<in> set (snd p)" "canonical_name s = fst p"
  | (unlisted) "\<forall>p \<in> set CANONICAL_ALIASES. leaf s \<notin> set (snd p)" "canonical_name s = leaf s"
proof (cases "find (\<lambda>(_, as). leaf s \<in> set as) CANONICAL_ALIASES")
  case None
  then have "canonical_name s = leaf s" by (simp add: canonical_name_def)
  with None show ?thesis by (intro unlisted) (auto simp: find_eq_None_iff)
next
  case (Some p)
  then show ?thesis
    using find_Some_in [OF Some] by (intro listed [of p]) (auto simp: canonical_name_def split: prod.splits)
qed

lemma canonical_name_chars:
  assumes "c \<in> set (canonical_name s)"
  shows "is_name_char c"
proof (cases s rule: canonical_name_cases)
  case (listed p)
  from alias_facts(2) [OF listed(1) alias_facts(1) [OF listed(1)], of c] assms listed(3) show ?thesis by simp
next
  case unlisted
  with assms leaf_chars show ?thesis by simp
qed

lemma leaf_canonical [simp]: "leaf (canonical_name s) = canonical_name s"
  by (rule leaf_fixed) (blast dest: canonical_name_chars)

lemma canonical_name_idem: "canonical_name (canonical_name s) = canonical_name s"
proof (cases s rule: canonical_name_cases)
  case (listed p)
  show ?thesis
  proof (cases "canonical_name s" rule: canonical_name_cases)
    case l2: (listed q)
    from l2(2) have "fst p \<in> set (snd q)" unfolding leaf_canonical unfolding listed(3) .
    with alias_facts(3) [OF listed(1) l2(1) alias_facts(1) [OF listed(1)]] l2(3) listed(3) show ?thesis by simp
  qed simp
next
  case unlisted
  show ?thesis
    by (cases "canonical_name s" rule: canonical_name_cases) (use unlisted in auto)
qed

subsection \<open>The chosen archive row\<close>

definition candidate :: "int \<Rightarrow> bool \<Rightarrow> archive_row \<Rightarrow> bool" where
  "candidate pathid exact_path r \<longleftrightarrow> considered pathid exact_path r \<and> row_value r \<noteq> None"

lemma score_from_Some:
  "score_from pathid account exact_path rs best = Some (v, r) \<Longrightarrow>
    (best = Some (v, r) \<or> (r \<in> set rs \<and> considered pathid exact_path r \<and> row_value r = Some v)) \<and>
    (\<forall>r' \<in> set rs. candidate pathid exact_path r' \<longrightarrow> row_rank pathid account r' \<le> row_rank pathid account r) \<and>
    (\<forall>v' b. best = Some (v', b) \<longrightarrow> row_rank pathid account b \<le> row_rank pathid account r)"
proof (induction rs arbitrary: best)
  case (Cons a rs)
  let ?best = "if \<not> considered pathid exact_path a then best
      else case row_value a of None \<Rightarrow> best
      | Some u \<Rightarrow> (case best of None \<Rightarrow> Some (u, a)
        | Some (_, b) \<Rightarrow> if row_rank pathid account b < row_rank pathid account a then Some (u, a) else best)"
  from Cons.prems have "score_from pathid account exact_path rs ?best = Some (v, r)" by simp
  note IH = Cons.IH [OF this]
  have from_best: "best = Some (v, r) \<or> (r = a \<and> considered pathid exact_path a \<and> row_value a = Some v)"
    if "?best = Some (v, r)"
    using that by (auto split: if_splits option.splits)
  have grows: "row_rank pathid account b \<le> row_rank pathid account b'"
    if "best = Some (v', b)" "?best = Some (v'', b')" for v' b v'' b'
    using that by (auto split: if_splits option.splits)
  have new: "row_rank pathid account a \<le> row_rank pathid account b'"
    if "candidate pathid exact_path a" "?best = Some (v'', b')" for v'' b'
    using that by (auto simp: candidate_def split: if_splits option.splits)
  have some: "?best \<noteq> None" if "best \<noteq> None \<or> candidate pathid exact_path a"
    using that by (auto simp: candidate_def split: if_splits option.splits)
  have top: "row_rank pathid account b' \<le> row_rank pathid account r" if "?best = Some (v'', b')" for v'' b'
    using IH that by blast
  have 1: "row_rank pathid account b \<le> row_rank pathid account r" if "best = Some (v', b)" for v' b
  proof -
    from that some obtain v'' b' where b': "?best = Some (v'', b')" by (cases ?best) auto
    from grows [OF that b'] top [OF b'] show ?thesis by order
  qed
  have 2: "row_rank pathid account a \<le> row_rank pathid account r" if "candidate pathid exact_path a"
  proof -
    from that some obtain v'' b' where b': "?best = Some (v'', b')" by (cases ?best) auto
    from new [OF that b'] top [OF b'] show ?thesis by order
  qed
  have "best = Some (v, r) \<or> (r \<in> set (a # rs) \<and> considered pathid exact_path r \<and> row_value r = Some v)"
    using IH from_best by auto
  moreover have "\<forall>r' \<in> set (a # rs). candidate pathid exact_path r' \<longrightarrow> row_rank pathid account r' \<le> row_rank pathid account r"
    using IH 2 by (auto simp del: less_eq_prod_simp)
  ultimately show ?case using 1 by blast
qed auto

lemma score_from_None:
  "score_from pathid account exact_path rs best = None \<longleftrightarrow> best = None \<and> (\<forall>r \<in> set rs. \<not> candidate pathid exact_path r)"
  by (induction rs arbitrary: best) (auto simp: candidate_def split: option.splits prod.splits)

lemma score_rows_Some:
  assumes "score_rows pathid account exact_path rs = Some (v, r)"
  shows "r \<in> set rs" "considered pathid exact_path r" "row_value r = Some v"
    "\<And>r'. r' \<in> set rs \<Longrightarrow> candidate pathid exact_path r' \<Longrightarrow> row_rank pathid account r' \<le> row_rank pathid account r"
  using score_from_Some [OF assms [unfolded score_rows_def]] by auto

lemma score_rows_None: "score_rows pathid account exact_path rs = None \<longleftrightarrow> (\<forall>r \<in> set rs. \<not> candidate pathid exact_path r)"
  by (simp add: score_rows_def score_from_None)

text \<open>The order of the rows does not matter: ids break ties.\<close>

lemma score_rows_order:
  assumes "set rs = set rs'" "inj_on ar_id (set rs)"
  shows "score_rows pathid account exact_path rs = score_rows pathid account exact_path rs'"
proof (cases "score_rows pathid account exact_path rs")
  case None
  then show ?thesis using assms(1) by (metis score_rows_None)
next
  case (Some p)
  obtain v r where vr: "p = (v, r)" by (cases p)
  note a = score_rows_Some [OF Some [unfolded vr]]
  then have "candidate pathid exact_path r" by (simp add: candidate_def)
  then obtain v' r' where vr': "score_rows pathid account exact_path rs' = Some (v', r')"
    using a(1) assms(1) by (cases "score_rows pathid account exact_path rs'") (auto simp: score_rows_None)
  note b = score_rows_Some [OF vr']
  have "row_rank pathid account r = row_rank pathid account r'"
    using a b assms(1) by (intro order.antisym) (auto simp: candidate_def)
  then have "r = r'" using a(1) b(1) assms by (auto simp: row_rank_def inj_on_def)
  with a(3) b(3) Some vr vr' show ?thesis by simp
qed

lemma archive_value_Some:
  assumes "archive_value names pathid account exact_path project env s = Some (v, r)"
  shows "r \<in> set (pa_archive s)" "ar_parameter r \<in> set names" "bound_to project (ar_project_id r)"
    "bound_to env (ar_env_id r)" "considered pathid exact_path r" "row_value r = Some v"
    "account \<noteq> [] \<Longrightarrow> ar_account_id r \<in> {account, []}"
    "account \<noteq> [] \<Longrightarrow> r' \<in> set (base_rows names project env s) \<Longrightarrow> ar_account_id r' = account \<Longrightarrow>
      candidate pathid exact_path r' \<Longrightarrow> ar_account_id r = account \<and> row_rank pathid account r' \<le> row_rank pathid account r"
proof -
  let ?base = "base_rows names project env s"
  let ?own = "filter (\<lambda>r. ar_account_id r = account) ?base"
  let ?open = "filter (\<lambda>r. ar_account_id r = []) ?base"
  from assms consider
      (any) "account = []" "score_rows pathid account exact_path ?base = Some (v, r)"
    | (own) "account \<noteq> []" "score_rows pathid account exact_path ?own = Some (v, r)"
    | (unattributed) "account \<noteq> []" "score_rows pathid account exact_path ?own = None"
        "score_rows pathid account exact_path ?open = Some (v, r)"
    by (auto simp: archive_value_def Let_def split: if_splits option.splits)
  then have "r \<in> set ?base \<and> considered pathid exact_path r \<and> row_value r = Some v \<and>
      (account \<noteq> [] \<longrightarrow> ar_account_id r \<in> {account, []}) \<and>
      (account \<noteq> [] \<and> r' \<in> set ?base \<and> ar_account_id r' = account \<and> candidate pathid exact_path r' \<longrightarrow>
        ar_account_id r = account \<and> row_rank pathid account r' \<le> row_rank pathid account r)"
  proof cases
    case any
    with score_rows_Some [OF any(2)] show ?thesis by simp
  next
    case own
    with score_rows_Some [OF own(2)] show ?thesis by auto
  next
    case unattributed
    with score_rows_Some [OF unattributed(3)] show ?thesis by (auto simp: score_rows_None)
  qed
  then show "r \<in> set (pa_archive s)" "ar_parameter r \<in> set names" "bound_to project (ar_project_id r)"
    "bound_to env (ar_env_id r)" "considered pathid exact_path r" "row_value r = Some v"
    "account \<noteq> [] \<Longrightarrow> ar_account_id r \<in> {account, []}"
    "account \<noteq> [] \<Longrightarrow> r' \<in> set (base_rows names project env s) \<Longrightarrow> ar_account_id r' = account \<Longrightarrow>
      candidate pathid exact_path r' \<Longrightarrow> ar_account_id r = account \<and> row_rank pathid account r' \<le> row_rank pathid account r"
    by (auto simp: base_rows_def)
qed


lemma archive_value_order:
  assumes "set (pa_archive s) = set (pa_archive s')" "inj_on ar_id (set (pa_archive s))"
  shows "archive_value names pathid account exact_path project env s =
    archive_value names pathid account exact_path project env s'"
proof -
  have base: "set (base_rows names project env s) = set (base_rows names project env s')"
    using assms(1) by (simp add: base_rows_def)
  have "score_rows pathid account exact_path (filter P (base_rows names project env s)) =
      score_rows pathid account exact_path (filter P (base_rows names project env s'))" for P
    by (rule score_rows_order) (use base assms(2) in \<open>auto simp: base_rows_def intro: inj_on_subset\<close>)
  from this [of "\<lambda>_. True"] this [of "\<lambda>r. ar_account_id r = account"] this [of "\<lambda>r. ar_account_id r = []"]
  show ?thesis by (cases "account = []") (simp_all add: archive_value_def Let_def cong: option.case_cong)
qed

lemma find_eq_Some: "find P xs = Some v \<Longrightarrow> v \<in> set xs \<and> P v"
  by (rule find_Some_in)

lemma row_value_in:
  "row_value r = Some v \<Longrightarrow> v \<in> set (ar_req_value r @ ar_res_value r) \<and> \<not> no_value v"
  unfolding row_value_def select_value_def by (rule find_eq_Some)

lemma first_trusted_Some:
  "first_trusted rs = Some (v, r) \<Longrightarrow> r \<in> set rs \<and> trusted_relation_value r = Some v"
  by (induction rs) (auto split: option.splits)

lemma relation_value_Some:
  assumes "relation_value name pathid project env s = Some (v, r)"
  shows "r \<in> set (pa_relations s)" "pr_req_pathid r = pathid" "bound_to project (pr_project_id r)"
    "bound_to env (pr_env_id r)" "trusted_relation r" "v \<in> set (sr_evidence r)" "scalar_value v"
    "pr_parameter r \<in> {name, leaf name, canonical_name name}"
proof -
  note f = first_trusted_Some [OF assms [unfolded relation_value_def]]
  then obtain n where n: "n \<in> {name, leaf name, canonical_name name}" "r \<in> set (relations_named n pathid project env s)"
    by auto
  from n(2) have "r \<in> set (filter (\<lambda>r. pr_parameter r = n \<and> pr_req_pathid r = pathid \<and>
      bound_to project (pr_project_id r) \<and> bound_to env (pr_env_id r)) (pa_relations s))"
    unfolding relations_named_def by (auto dest: in_set_takeD)
  with n(1) show "r \<in> set (pa_relations s)" "pr_req_pathid r = pathid" "bound_to project (pr_project_id r)"
    "bound_to env (pr_env_id r)" "pr_parameter r \<in> {name, leaf name, canonical_name name}" by auto
  from f show "trusted_relation r" "v \<in> set (sr_evidence r)" "scalar_value v"
    by (auto simp: trusted_relation_value_def dest: find_eq_Some split: if_splits)
qed

text \<open>How a resolution ends.\<close>

lemma resolve_cases:
  assumes "resolve_parameter_value name pathid account allow_alias project env s = (found, meta)"
  obtains (relation) v r where "relation_value name pathid project env s = Some (v, r)"
      "found = Some v" "meta = relation_meta (candidate_role pathid name s) r"
  | (exact) v r where "relation_value name pathid project env s = None"
      "archive_value [name, leaf name] pathid account (leaf name = ''id'') project env s = Some (v, r)"
      "found = Some v" "meta = exact_meta (candidate_role pathid name s) r v"
  | (aliased) v r where "relation_value name pathid project env s = None" "allow_alias"
      "archive_value [name, leaf name] pathid account (leaf name = ''id'') project env s = None"
      "leaf name \<notin> set DO_NOT_ALIAS" "canonical_name name \<noteq> leaf name"
      "archive_value (aliases_of (canonical_name name)) pathid account False project env s = Some (v, r)"
      "found = Some v" "meta = alias_meta (candidate_role pathid name s) (canonical_name name) (aliases_of (canonical_name name)) r v"
  | (unresolved) "found = None" "meta = no_meta (candidate_role pathid name s)"
  using assms by (auto simp: resolve_parameter_value_def Let_def split: option.splits prod.splits if_splits)

lemma same_canonical:
  assumes "canonical_name name \<noteq> leaf name" "a \<in> set (aliases_of (canonical_name name))"
  shows "canonical_name a = canonical_name name"
proof (cases name rule: canonical_name_cases)
  case (listed p)
  have lookup: "map_of CANONICAL_ALIASES (fst q) = Some (snd q)" if "q \<in> set CANONICAL_ALIASES" for q
  proof -
    have "distinct (map fst CANONICAL_ALIASES)" by code_simp
    with that show ?thesis by (simp add: map_of_eq_Some_iff)
  qed
  from assms(2) listed lookup have a: "a \<in> set (snd p)" by (simp add: aliases_of_def)
  then have la: "leaf a = a" using alias_facts(2) [OF listed(1)] by (intro leaf_fixed) blast
  show ?thesis
  proof (cases a rule: canonical_name_cases)
    case l2: (listed q)
    from l2(2) la have "a \<in> set (snd q)" by simp
    from alias_facts(3) [OF listed(1) l2(1) a this] l2(3) listed(3) show ?thesis by simp
  next
    case unlisted
    with a la listed(1) show ?thesis by auto
  qed
qed (use assms in simp)


lemma meta_fields:
  "sm_source (exact_meta role r v) = fst (archive_provenance r False)"
  "sm_source (alias_meta role c as r v) = fst (archive_provenance r True)"
  "sm_account_id (exact_meta role r v) = ar_account_id r" "sm_account_id (alias_meta role c as r v) = ar_account_id r"
  "sm_value_quality (exact_meta role r v) = value_quality r v"
  "sm_value_quality (alias_meta role c as r v) = value_quality r v"
  "sm_source (relation_meta role q) = SOURCE_PARAMETER_RELATION" "sm_res_pathid (relation_meta role q) = pr_res_pathid q"
  "sm_source (no_meta role) = SOURCE_UNRESOLVED"
  by (simp_all add: exact_meta_def alias_meta_def relation_meta_def no_meta_def)

lemma provenance_scopes:
  "is_account_scoped (fst (archive_provenance r alias)) \<longleftrightarrow> ar_account_id r \<noteq> []"
  "is_project_scoped (fst (archive_provenance r alias)) \<longleftrightarrow> ar_account_id r = []"
  "fst (archive_provenance r alias) \<in> MUTATION_BLOCKING_SOURCES \<longleftrightarrow> ar_account_id r = []"
  "fst (archive_provenance r alias) \<noteq> SOURCE_PARAMETER_RELATION"
  by (auto simp: archive_provenance_def is_account_scoped_def is_project_scoped_def source_set_defs source_defs)

lemma observed_iff: "value_quality r v = VALUE_QUALITY_OBSERVED \<longleftrightarrow>
    v \<noteq> JNull \<and> py_strip (py_str v) \<noteq> [] \<and> list_ex (same_text (py_strip (py_str v))) (ar_res_value r)"
  by (auto simp: value_quality_def Let_def source_defs)

section \<open>Properties\<close>

text \<open>C29: A resolved value is in scope. It comes from a verified or trusted relation of this very endpoint,
  or from an archived row of a name with the same canonical name; the relation or row belongs to the
  project and the environment asked for; a row of another account is never used when an account is
  given; the recorded source tells account-owned rows from unattributed ones; and the value is recorded
  as observed exactly if the row has it among the target's own responses.\<close>

theorem resolved_value_in_scope:
  assumes "resolve_parameter_value name pathid account allow_alias project env s = (Some v, meta)"
  shows "(sm_source meta = SOURCE_PARAMETER_RELATION \<and>
      (\<exists>r \<in> set (pa_relations s). trusted_relation r \<and> pr_req_pathid r = pathid \<and>
         bound_to project (pr_project_id r) \<and> bound_to env (pr_env_id r) \<and>
         v \<in> set (sr_evidence r) \<and> scalar_value v \<and> sm_res_pathid meta = pr_res_pathid r)) \<or>
    (\<exists>r \<in> set (pa_archive s). bound_to project (ar_project_id r) \<and> bound_to env (ar_env_id r) \<and>
       v \<in> set (ar_req_value r @ ar_res_value r) \<and> \<not> no_value v \<and>
       canonical_name (ar_parameter r) = canonical_name name \<and>
       (account \<noteq> [] \<longrightarrow> ar_account_id r \<in> {account, []}) \<and> sm_account_id meta = ar_account_id r \<and>
       (is_account_scoped (sm_source meta) \<longleftrightarrow> ar_account_id r \<noteq> []) \<and>
       (is_project_scoped (sm_source meta) \<longleftrightarrow> ar_account_id r = []) \<and>
       (sm_value_quality meta = VALUE_QUALITY_OBSERVED \<longleftrightarrow> py_strip (py_str v) \<noteq> [] \<and>
          list_ex (same_text (py_strip (py_str v))) (ar_res_value r)))"
proof -
  have leaf_name: "canonical_name (leaf name) = canonical_name name" by (simp add: canonical_name_def)
  from assms show ?thesis
  proof (cases rule: resolve_cases)
    case (relation u r)
    with relation_value_Some [OF relation(1)] show ?thesis by (intro disjI1) (auto simp: meta_fields)
  next
    case (exact u r)
    note a = archive_value_Some [OF exact(2)]
    have "canonical_name (ar_parameter r) = canonical_name name" using a(2) leaf_name by auto
    with a exact row_value_in [OF a(6)] show ?thesis
      by (intro disjI2 bexI [of _ r]) (auto simp: meta_fields provenance_scopes observed_iff no_value_def)
  next
    case (aliased u r)
    note a = archive_value_Some [OF aliased(6)]
    have "canonical_name (ar_parameter r) = canonical_name name" using a(2) same_canonical aliased(5) by blast
    with a aliased row_value_in [OF a(6)] show ?thesis
      by (intro disjI2 bexI [of _ r]) (auto simp: meta_fields provenance_scopes observed_iff no_value_def)
  qed simp
qed

text \<open>What a mutation may use is the account's own. When a value is resolved for an account, and its
  source is neither a relation nor one of \<open>MUTATION_BLOCKING_SOURCES\<close>, it was found and the row it is from
  is attributed to that account, in the project and environment asked for.\<close>

theorem mutation_values_are_owned:
  assumes "resolve_parameter_value name pathid account allow_alias project env s = (found, meta)" "account \<noteq> []"
    and "sm_source meta \<notin> MUTATION_BLOCKING_SOURCES" "sm_source meta \<noteq> SOURCE_PARAMETER_RELATION"
  shows "\<exists>v r. found = Some v \<and> r \<in> set (pa_archive s) \<and> ar_account_id r = account \<and>
    bound_to project (ar_project_id r) \<and> bound_to env (ar_env_id r) \<and> v \<in> set (ar_req_value r @ ar_res_value r)"
  using assms(1)
proof (cases rule: resolve_cases)
  case (exact v r)
  note a = archive_value_Some [OF exact(2)]
  with assms exact have "ar_account_id r = account" by (auto simp: meta_fields provenance_scopes)
  with a exact row_value_in [OF a(6)] show ?thesis by blast
next
  case (aliased v r)
  note a = archive_value_Some [OF aliased(6)]
  with assms aliased have "ar_account_id r = account" by (auto simp: meta_fields provenance_scopes)
  with a aliased row_value_in [OF a(6)] show ?thesis by blast
next
  case unresolved
  with assms show ?thesis by (simp add: meta_fields source_set_defs)
qed (use assms in \<open>simp add: meta_fields\<close>)

text \<open>An account's own values come first. If no relation supplies the value and the account has a
  usable row for the name in the project and environment, the value is that of one of the account's own
  rows, and of the best of them: by being sent to, or answered by, the endpoint, then by id.\<close>

theorem own_values_come_first:
  assumes "relation_value name pathid project env s = None" "account \<noteq> []"
    and "r' \<in> set (base_rows [name, leaf name] project env s)" "ar_account_id r' = account"
    and "candidate pathid (leaf name = ''id'') r'"
  shows "\<exists>v r. resolve_parameter_value name pathid account allow_alias project env s =
      (Some v, exact_meta (candidate_role pathid name s) r v) \<and> row_value r = Some v \<and>
    r \<in> set (base_rows [name, leaf name] project env s) \<and> ar_account_id r = account \<and>
    row_rank pathid account r' \<le> row_rank pathid account r"
proof -
  let ?own = "filter (\<lambda>r. ar_account_id r = account) (base_rows [name, leaf name] project env s)"
  have "score_rows pathid account (leaf name = ''id'') ?own \<noteq> None"
    using assms(3-5) by (auto simp: score_rows_None)
  then obtain v r where hit: "score_rows pathid account (leaf name = ''id'') ?own = Some (v, r)" by auto
  then have "archive_value [name, leaf name] pathid account (leaf name = ''id'') project env s = Some (v, r)"
    using assms(2) by (simp add: archive_value_def)
  moreover have "row_rank pathid account r' \<le> row_rank pathid account r"
    by (rule score_rows_Some(4) [OF hit]) (use assms in auto)
  ultimately show ?thesis
    using score_rows_Some(1,3) [OF hit] assms(1) by (auto simp: resolve_parameter_value_def Let_def)
qed

text \<open>The resolution does not depend on the order in which the database returns archived rows.\<close>

theorem archive_order_irrelevant:
  assumes "set (pa_archive s) = set (pa_archive s')" "inj_on ar_id (set (pa_archive s))"
    and "pa_relations s = pa_relations s'" "pa_candidates s = pa_candidates s'"
  shows "resolve_parameter_value name pathid account allow_alias project env s =
    resolve_parameter_value name pathid account allow_alias project env s'"
proof -
  note a = archive_value_order [OF assms(1,2)]
  have "relation_value name pathid project env s = relation_value name pathid project env s'"
    by (simp add: relation_value_def relations_named_def assms(3))
  moreover have "candidate_role pathid name s = candidate_role pathid name s'"
    by (simp add: candidate_role_def candidate_for_def assms(4) cong: option.case_cong)
  ultimately show ?thesis
    by (simp only: resolve_parameter_value_def a)
qed

section \<open>Witnesses\<close>

definition example_row :: "oid \<Rightarrow> string \<Rightarrow> json \<Rightarrow> archive_row" where
  "example_row i account v = \<lparr>ar_id = i, ar_parameter = ''user_id'', ar_project_id = ''p'', ar_env_id = ''e'',
     ar_account_id = account, ar_req_pathid = [7], ar_res_pathid = [], ar_req_value = [v], ar_res_value = [v]\<rparr>"

definition example_archive :: "archive_row list \<Rightarrow> parameter_db" where
  "example_archive rows = \<lparr>pa_relations = [], pa_archive = rows, pa_candidates = []\<rparr>"

definition example_rows :: "archive_row list" where
  "example_rows = [example_row ''1'' [] (JInt 1), example_row ''2'' ''bob'' (JInt 2), example_row ''3'' ''eve'' (JInt 3)]"

lemma example_resolution: "resolve_parameter_value ''uid'' 7 ''bob'' True ''p'' ''e'' (example_archive example_rows) =
    (Some (JInt 2), alias_meta ([], 0) ''userid'' (aliases_of ''userid'') (example_row ''2'' ''bob'' (JInt 2)) (JInt 2))"
  by code_simp

theorem resolved_value_in_scope_witness:
  "\<exists>r \<in> set example_rows. JInt 2 \<in> set (ar_req_value r) \<and> ar_account_id r \<in> {''bob'', []} \<and> ar_project_id r = ''p''"
  using resolved_value_in_scope [OF example_resolution]
  by (auto simp: meta_fields provenance_scopes example_archive_def example_rows_def example_row_def bound_to_def)

theorem mutation_values_are_owned_witness:
  "\<exists>r \<in> set example_rows. ar_account_id r = ''bob'' \<and> ar_project_id r = ''p''"
proof -
  have "sm_source (alias_meta ([], 0) ''userid'' (aliases_of ''userid'') (example_row ''2'' ''bob'' (JInt 2)) (JInt 2))
      = SOURCE_PARAMETER_DEPENDENCY_ALIAS"
    by (simp add: meta_fields archive_provenance_def example_row_def)
  then show ?thesis
    using mutation_values_are_owned [OF example_resolution]
    by (auto simp: source_set_defs source_defs example_archive_def bound_to_def)
qed

theorem own_values_come_first_witness:
  "\<exists>v meta. resolve_parameter_value ''user_id'' 7 ''bob'' True ''p'' ''e'' (example_archive example_rows) = (Some v, meta) \<and>
     sm_account_id meta = ''bob''"
proof -
  let ?r = "example_row ''2'' ''bob'' (JInt 2)"
  have c: "relation_value ''user_id'' 7 ''p'' ''e'' (example_archive example_rows) = None"
    "list_ex (\<lambda>r. r = ?r) (base_rows [''user_id'', leaf ''user_id''] ''p'' ''e'' (example_archive example_rows))"
    "candidate 7 (leaf ''user_id'' = ''id'') ?r" "ar_account_id ?r = ''bob''"
    by code_simp+
  then have "?r \<in> set (base_rows [''user_id'', leaf ''user_id''] ''p'' ''e'' (example_archive example_rows))"
    by (simp add: list_ex_iff)
  from own_values_come_first [OF c(1) _ this c(4,3), of True] show ?thesis by (auto simp: meta_fields)
qed

theorem archive_order_irrelevant_witness:
  "resolve_parameter_value ''uid'' 7 ''bob'' True ''p'' ''e'' (example_archive (rev example_rows)) =
    (Some (JInt 2), alias_meta ([], 0) ''userid'' (aliases_of ''userid'') (example_row ''2'' ''bob'' (JInt 2)) (JInt 2))"
proof -
  have "distinct (map ar_id example_rows)" by (simp add: example_rows_def example_row_def)
  then have "inj_on ar_id (set (pa_archive (example_archive example_rows)))"
    by (simp add: example_archive_def distinct_map)
  from archive_order_irrelevant [OF _ this, of "example_archive (rev example_rows)"] example_resolution
  show ?thesis by (simp add: example_archive_def)
qed

end
