(* ===== verification/ParameterIdentity.thy ===== *)
theory ParameterIdentity
  imports ParameterResolution
begin

text \<open>
  Reusable parameter identities (\<open>parameter_identity.py\<close>): a flattened occurrence is reduced to a
  readable leaf, the leaf to a canonical alias identity, occurrences are grouped by identity, and a
  group is named after its most frequent alias. Occurrences are the request and response documents,
  of which only the parameter and its canonical hint matter; a group is an entry of a dictionary in
  insertion order.
\<close>

section \<open>Leaves and identities\<close>

text \<open>The five substitutions of \<open>normalized_leaf\<close>.\<close>

function strip_brackets :: "string \<Rightarrow> string" where
  "strip_brackets s = (case s of [] \<Rightarrow> []
     | c # cs \<Rightarrow> if c = CHR ''['' \<and> CHR '']'' \<in> set cs
         then strip_brackets (tl (dropWhile (\<lambda>x. x \<noteq> CHR '']'') cs))
         else c # strip_brackets cs)"
  by auto
termination
  by (relation "measure length") (auto simp: less_Suc_eq_le intro: le_trans [OF diff_le_self] length_dropWhile_le)

declare strip_brackets.simps [simp del]

definition is_lower_or_digit :: "char \<Rightarrow> bool" where
  "is_lower_or_digit c \<longleftrightarrow> is_digit c \<or> (let n = (of_char c :: nat) in 97 \<le> n \<and> n \<le> 122)"

definition is_upper :: "char \<Rightarrow> bool" where
  "is_upper c \<longleftrightarrow> (let n = (of_char c :: nat) in 65 \<le> n \<and> n \<le> 90)"

fun split_camel :: "string \<Rightarrow> string" where
  "split_camel (a # b # s) =
     (if is_lower_or_digit a \<and> is_upper b then a # CHR ''_'' # split_camel (b # s) else a # split_camel (b # s))"
| "split_camel s = s"

definition strip_char :: "char \<Rightarrow> string \<Rightarrow> string" where
  "strip_char c s = rev (dropWhile (\<lambda>x. x = c) (rev (dropWhile (\<lambda>x. x = c) s)))"

fun collapse_underscores :: "string \<Rightarrow> string" where
  "collapse_underscores (a # b # s) =
     (if a = CHR ''_'' \<and> b = CHR ''_'' then collapse_underscores (b # s) else a # collapse_underscores (b # s))"
| "collapse_underscores s = s"

definition normalized_leaf :: "string \<Rightarrow> string" where
  "normalized_leaf v =
     (let text = last (split_on (CHR ''.'') (py_strip v));
          text = split_camel (strip_brackets text);
          text = py_lower (strip_char (CHR ''_'') (py_replace ''-'' ''_'' text))
      in collapse_underscores (filter is_name_char text))"

definition parameter_identity :: "string \<Rightarrow> string \<Rightarrow> string" where
  "parameter_identity parameter canonical_hint =
     (let raw_leaf = normalized_leaf parameter; hinted_leaf = normalized_leaf canonical_hint;
          candidate = str_or raw_leaf hinted_leaf; identity = canonical_name candidate;
          identity = (if identity = [] \<and> hinted_leaf \<noteq> [] then canonical_name hinted_leaf else identity)
      in str_or identity (str_or candidate hinted_leaf))"

definition occurrence_alias :: "string \<Rightarrow> string \<Rightarrow> string" where
  "occurrence_alias parameter canonical_hint = str_or (normalized_leaf parameter) (normalized_leaf canonical_hint)"

section \<open>The name of a group\<close>

definition name_rank :: "string \<Rightarrow> (string \<times> int) list \<Rightarrow> string \<Rightarrow> int \<times> nat \<times> nat \<times> int \<times> string" where
  "name_rank identity counts name =
     (case map_of counts name of Some n \<Rightarrow> n | None \<Rightarrow> 0, if CHR ''_'' \<in> set name then 1 else 0,
      if name = identity then 1 else 0, - int (length name), name)"

text \<open>\<open>max(names, key=...)\<close>: the first of the greatest.\<close>

fun max_by :: "('a \<Rightarrow> 'k::linorder) \<Rightarrow> 'a \<Rightarrow> 'a list \<Rightarrow> 'a" where
  "max_by key best [] = best"
| "max_by key best (x # xs) = max_by key (if key best < key x then x else best) xs"

definition preferred_parameter_name :: "string \<Rightarrow> (string \<times> int) list \<Rightarrow> string" where
  "preferred_parameter_name identity alias_counts =
     (let counts = filter (\<lambda>(k, _). k \<noteq> []) alias_counts; names = map fst counts;
          compatible = filter (\<lambda>name. parameter_identity name [] = identity) names;
          choice = (if compatible = [] then names else compatible)
      in case choice of [] \<Rightarrow> identity
         | n # ns \<Rightarrow> max_by (name_rank identity counts) n ns)"

section \<open>Grouping\<close>

record occurrence =
  oc_parameter :: string
  oc_canonical_name :: string

record 'r identity_group =
  ig_identity :: string
  ig_rows :: "'r list"
  ig_alias_counts :: "(string \<times> int) list"
  ig_raw_paths :: "string list"
  ig_parameter :: string

definition occurrence_identity :: "'a occurrence_scheme \<Rightarrow> string" where
  "occurrence_identity row = parameter_identity (oc_parameter row) (oc_canonical_name row)"

definition alias_of :: "'a occurrence_scheme \<Rightarrow> string" where
  "alias_of row = occurrence_alias (oc_parameter row) (oc_canonical_name row)"

definition count_alias :: "string \<Rightarrow> (string \<times> int) list \<Rightarrow> (string \<times> int) list" where
  "count_alias a counts = dict_set a ((case map_of counts a of Some n \<Rightarrow> n | None \<Rightarrow> 0) + 1) counts"

definition new_group :: "string \<Rightarrow> 'r identity_group" where
  "new_group i = \<lparr>ig_identity = i, ig_rows = [], ig_alias_counts = [], ig_raw_paths = [], ig_parameter = []\<rparr>"

definition add_occurrence :: "'a occurrence_scheme \<Rightarrow> 'a occurrence_scheme identity_group \<Rightarrow> 'a occurrence_scheme identity_group" where
  "add_occurrence row g = g\<lparr>ig_rows := ig_rows g @ [row],
     ig_alias_counts := (if alias_of row = [] then ig_alias_counts g else count_alias (alias_of row) (ig_alias_counts g)),
     ig_raw_paths := (if oc_parameter row = [] \<or> oc_parameter row \<in> set (ig_raw_paths g) then ig_raw_paths g
       else ig_raw_paths g @ [oc_parameter row])\<rparr>"

definition group_occurrence :: "(string \<times> 'a occurrence_scheme identity_group) list \<Rightarrow> 'a occurrence_scheme \<Rightarrow>
    (string \<times> 'a occurrence_scheme identity_group) list" where
  "group_occurrence groups row = (let i = occurrence_identity row in
     if i = [] then groups
     else dict_set i (add_occurrence row (case map_of groups i of Some g \<Rightarrow> g | None \<Rightarrow> new_group i)) groups)"

definition name_group :: "'r identity_group \<Rightarrow> 'r identity_group" where
  "name_group g = g\<lparr>ig_parameter := preferred_parameter_name (ig_identity g) (ig_alias_counts g)\<rparr>"

definition aggregate_occurrences :: "'a occurrence_scheme list \<Rightarrow> (string \<times> 'a occurrence_scheme identity_group) list" where
  "aggregate_occurrences rows =
     map (\<lambda>(i, g). (i, name_group g)) (foldl group_occurrence [] rows)"

section \<open>Facts\<close>

lemma max_by_max: "max_by key best xs \<in> insert best (set xs) \<and> (\<forall>x \<in> insert best (set xs). key x \<le> key (max_by key best xs))"
proof (induction xs arbitrary: best)
  case (Cons x xs)
  let ?b = "if key best < key x then x else best"
  have b: "key best \<le> key ?b" "key x \<le> key ?b" "?b \<in> {best, x}" by auto
  from Cons.IH [of ?b] b show ?case by (auto intro: order_trans)
qed simp

lemma name_rank_inj: "name_rank i c n = name_rank i c m \<longleftrightarrow> n = m"
  by (auto simp: name_rank_def)

lemma dict_set_map:
  "distinct is \<Longrightarrow> dict_set i v (map (\<lambda>j. (j, f j)) is) =
    (if i \<in> set is then map (\<lambda>j. (j, if j = i then v else f j)) is else map (\<lambda>j. (j, f j)) is @ [(i, v)])"
  by (induction "is") auto

lemma map_of_keys: "map_of (map (\<lambda>j. (j, f j)) is) i = (if i \<in> set is then Some (f i) else None)"
  by (induction "is") auto

lemma dedupe_from_snoc: "dedupe_from seen (xs @ [x]) =
    dedupe_from seen xs @ (if x \<in> set seen \<union> set xs then [] else [x])"
  by (induction xs arbitrary: seen) auto

lemma dedupe_snoc: "dedupe (xs @ [x]) = dedupe xs @ (if x \<in> set xs then [] else [x])"
  by (simp add: dedupe_def dedupe_from_snoc)

text \<open>The group of an identity, built from its rows alone.\<close>

definition group_of_rows :: "string \<Rightarrow> 'a occurrence_scheme list \<Rightarrow> 'a occurrence_scheme identity_group" where
  "group_of_rows i rows = foldl (\<lambda>g row. add_occurrence row g) (new_group i) (filter (\<lambda>r. occurrence_identity r = i) rows)"

definition identities :: "'a occurrence_scheme list \<Rightarrow> string list" where
  "identities rows = dedupe (filter (\<lambda>i. i \<noteq> []) (map occurrence_identity rows))"

lemma group_occurrences:
  "foldl group_occurrence [] rows = map (\<lambda>i. (i, group_of_rows i rows)) (identities rows)"
proof (induction rows rule: rev_induct)
  case Nil
  then show ?case by (simp add: identities_def dedupe_def)
next
  case (snoc row rows)
  let ?i = "occurrence_identity row"
  have same: "group_of_rows j (rows @ [row]) = group_of_rows j rows" if "j \<noteq> ?i" for j
    using that by (simp add: group_of_rows_def)
  have own: "group_of_rows ?i (rows @ [row]) = add_occurrence row (group_of_rows ?i rows)"
    by (simp add: group_of_rows_def)
  show ?case
  proof (cases "?i = []")
    case True
    have ids: "identities (rows @ [row]) = identities rows" by (simp add: identities_def True)
    have "j \<noteq> ?i" if "j \<in> set (identities rows)" for j using that True by (auto simp: identities_def)
    with same have "map (\<lambda>i. (i, group_of_rows i (rows @ [row]))) (identities rows) =
        map (\<lambda>i. (i, group_of_rows i rows)) (identities rows)" by simp
    with snoc ids True show ?thesis by (simp add: group_occurrence_def)
  next
    case False
    have ids: "identities (rows @ [row]) = identities rows @ (if ?i \<in> set (identities rows) then [] else [?i])"
      using False by (simp add: identities_def dedupe_snoc)
    have dist: "distinct (identities rows)" by (simp add: identities_def)
    have others: "group_of_rows j (rows @ [row]) = group_of_rows j rows"
      if "j \<in> set (identities rows)" "?i \<notin> set (identities rows)" for j
      using that by (intro same) blast
    have new: "group_of_rows ?i rows = new_group ?i" if "?i \<notin> set (identities rows)"
    proof -
      have "filter (\<lambda>r. occurrence_identity r = ?i) rows = []"
        using that False by (auto simp: identities_def filter_empty_conv intro: rev_image_eqI)
      then show ?thesis by (simp add: group_of_rows_def)
    qed
    have old: "(case map_of (map (\<lambda>i. (i, group_of_rows i rows)) (identities rows)) ?i of
        Some g \<Rightarrow> g | None \<Rightarrow> new_group ?i) = group_of_rows ?i rows"
      using new by (simp add: map_of_keys)
    have "foldl group_occurrence [] (rows @ [row]) =
        dict_set ?i (group_of_rows ?i (rows @ [row])) (map (\<lambda>i. (i, group_of_rows i rows)) (identities rows))"
      using False by (simp add: snoc group_occurrence_def Let_def old own)
    also have "\<dots> = map (\<lambda>i. (i, group_of_rows i (rows @ [row]))) (identities (rows @ [row]))"
      unfolding dict_set_map [OF dist] ids by (auto intro!: map_cong simp: same others)
    finally show ?thesis .
  qed
qed

abbreviation add_all :: "'a occurrence_scheme identity_group \<Rightarrow> 'a occurrence_scheme list \<Rightarrow> 'a occurrence_scheme identity_group" where
  "add_all g rs \<equiv> foldl (\<lambda>g row. add_occurrence row g) g rs"

lemma add_all_rows: "ig_rows (add_all g rs) = ig_rows g @ rs \<and> ig_identity (add_all g rs) = ig_identity g"
  by (induction rs arbitrary: g) (auto simp: add_occurrence_def)

lemma group_rows: "ig_rows (group_of_rows i rows) = filter (\<lambda>r. occurrence_identity r = i) rows"
  "ig_identity (group_of_rows i rows) = i"
  by (simp_all add: group_of_rows_def new_group_def add_all_rows)

lemma count_alias_of: "map_of (count_alias a counts) b =
    (if b = a then Some ((case map_of counts a of Some n \<Rightarrow> n | None \<Rightarrow> 0) + 1) else map_of counts b)"
  by (simp add: count_alias_def)

definition alias_total :: "string \<Rightarrow> 'a occurrence_scheme list \<Rightarrow> nat" where
  "alias_total a rows = length (filter (\<lambda>r. alias_of r = a) rows)"

definition count_of :: "(string \<times> int) list \<Rightarrow> string \<Rightarrow> int" where
  "count_of counts a = (case map_of counts a of Some n \<Rightarrow> n | None \<Rightarrow> 0)"

lemma add_all_counts:
  "a \<noteq> [] \<Longrightarrow> count_of (ig_alias_counts (add_all g rs)) a = count_of (ig_alias_counts g) a + int (alias_total a rs)"
proof (induction rs arbitrary: g)
  case (Cons r rs)
  have "count_of (ig_alias_counts (add_occurrence r g)) a =
      count_of (ig_alias_counts g) a + (if alias_of r = a then 1 else 0)"
    using Cons.prems by (simp add: add_occurrence_def count_alias_of count_of_def)
  with Cons show ?case by (simp add: alias_total_def)
qed (simp add: alias_total_def)

lemma group_counts:
  "a \<noteq> [] \<Longrightarrow> count_of (ig_alias_counts (group_of_rows i rows)) a =
    int (alias_total a (filter (\<lambda>r. occurrence_identity r = i) rows))"
  by (simp add: group_of_rows_def new_group_def add_all_counts) (simp add: count_of_def)

lemma add_all_keys: "fst ` set (ig_alias_counts (add_all g rs)) =
    fst ` set (ig_alias_counts g) \<union> {alias_of r | r. r \<in> set rs \<and> alias_of r \<noteq> []}"
  by (induction rs arbitrary: g) (auto simp: add_occurrence_def count_alias_def keys_dict_set)

lemma group_count_keys: "fst ` set (ig_alias_counts (group_of_rows i rows)) =
    {alias_of r | r. r \<in> set rows \<and> occurrence_identity r = i \<and> alias_of r \<noteq> []}"
  by (auto simp: group_of_rows_def new_group_def add_all_keys)


text \<open>The names the choice is made from, as a set.\<close>

definition compatible_aliases :: "string \<Rightarrow> (string \<times> int) list \<Rightarrow> string set" where
  "compatible_aliases i counts = {n \<in> fst ` set counts. n \<noteq> [] \<and> parameter_identity n [] = i}"

definition alias_pool :: "string \<Rightarrow> (string \<times> int) list \<Rightarrow> string set" where
  "alias_pool i counts = (if compatible_aliases i counts = {} then fst ` set counts - {[]} else compatible_aliases i counts)"

lemma alias_pool_ne: "x \<in> alias_pool i counts \<Longrightarrow> x \<noteq> []"
  by (auto simp: alias_pool_def compatible_aliases_def split: if_splits)

lemma alias_pool_sub: "alias_pool i counts \<subseteq> fst ` set counts"
  by (auto simp: alias_pool_def compatible_aliases_def)

lemma alias_pool_list:
  fixes counts :: "(string \<times> int) list"
  defines "names \<equiv> map fst (filter (\<lambda>(k, _). k \<noteq> []) counts)"
  shows "set (if filter (\<lambda>name. parameter_identity name [] = i) names = [] then names
      else filter (\<lambda>name. parameter_identity name [] = i) names) = alias_pool i counts"
proof -
  have names: "set names = fst ` set counts - {[]}" unfolding names_def by force
  then have "set (filter (\<lambda>name. parameter_identity name [] = i) names) = compatible_aliases i counts"
    by (auto simp: compatible_aliases_def)
  then show ?thesis using names by (auto simp: alias_pool_def filter_empty_conv)
qed

lemma name_rank_ne: "n \<noteq> [] \<Longrightarrow> name_rank i (filter (\<lambda>(k, _). k \<noteq> []) c) n = name_rank i c n"
proof -
  have "map_of (filter (\<lambda>(k, _). k \<noteq> []) c) k = (if k = [] then None else map_of c k)" for k
    by (induction c) auto
  then show "n \<noteq> [] \<Longrightarrow> ?thesis" by (simp add: name_rank_def)
qed

lemma preferred_from_pool:
  "alias_pool i counts = {} \<and> preferred_parameter_name i counts = i \<or>
   preferred_parameter_name i counts \<in> alias_pool i counts \<and>
   (\<forall>n \<in> alias_pool i counts. name_rank i counts n \<le> name_rank i counts (preferred_parameter_name i counts))"
proof -
  let ?names = "map fst (filter (\<lambda>(k, _). k \<noteq> []) counts)"
  let ?choice = "if filter (\<lambda>name. parameter_identity name [] = i) ?names = [] then ?names
      else filter (\<lambda>name. parameter_identity name [] = i) ?names"
  let ?key = "name_rank i (filter (\<lambda>(k, _). k \<noteq> []) counts)"
  have eq: "preferred_parameter_name i counts = (case ?choice of [] \<Rightarrow> i | n # ns \<Rightarrow> max_by ?key n ns)"
    unfolding preferred_parameter_name_def Let_def ..
  obtain choice where choice: "choice = ?choice" by blast
  have pool: "set choice = alias_pool i counts" unfolding choice by (rule alias_pool_list)
  show ?thesis
  proof (cases choice)
    case Nil
    then show ?thesis using pool eq [folded choice] by simp
  next
    case (Cons n ns)
    let ?p = "max_by ?key n ns"
    have p: "preferred_parameter_name i counts = ?p" using eq [folded choice] Cons by simp
    have pool': "insert n (set ns) = alias_pool i counts" using pool Cons by simp
    have top: "?p \<in> alias_pool i counts" "\<forall>x \<in> alias_pool i counts. ?key x \<le> ?key ?p"
      using max_by_max [of ?key n ns] unfolding pool' by blast+
    have "name_rank i counts x \<le> name_rank i counts ?p" if "x \<in> alias_pool i counts" for x
    proof -
      from top(2) that have "?key x \<le> ?key ?p" ..
      then show ?thesis unfolding name_rank_ne [OF alias_pool_ne [OF that]] name_rank_ne [OF alias_pool_ne [OF top(1)]] .
    qed
    then show ?thesis unfolding p using top(1) by blast
  qed
qed

section \<open>Properties\<close>

text \<open>Grouping partitions the occurrences. The groups are those of the distinct non-empty identities, in
  the order these first occur; a group has exactly the occurrences of its identity, in their order; and
  its alias counts are exact and total no more than the group: every counted alias is that of one of its
  occurrences, and is counted as often as it occurs.\<close>

theorem grouping_is_partition:
  "map fst (aggregate_occurrences rows) = dedupe (filter (\<lambda>i. i \<noteq> []) (map occurrence_identity rows)) \<and>
   (\<forall>(i, g) \<in> set (aggregate_occurrences rows). ig_identity g = i \<and>
      ig_rows g = filter (\<lambda>r. occurrence_identity r = i) rows \<and>
      fst ` set (ig_alias_counts g) = alias_of ` set (ig_rows g) - {[]} \<and>
      (\<forall>a. a \<noteq> [] \<longrightarrow> count_of (ig_alias_counts g) a = int (alias_total a (ig_rows g))))"
proof -
  have agg: "aggregate_occurrences rows = map (\<lambda>i. (i, name_group (group_of_rows i rows))) (identities rows)"
    by (simp add: aggregate_occurrences_def group_occurrences)
  have keep: "ig_identity (name_group g) = ig_identity g" "ig_rows (name_group g) = ig_rows g"
    "ig_alias_counts (name_group g) = ig_alias_counts g" for g :: "'a occurrence_scheme identity_group"
    by (simp_all add: name_group_def)
  have "map fst (aggregate_occurrences rows) = identities rows" by (simp add: agg o_def)
  moreover have "fst ` set (ig_alias_counts (group_of_rows i rows)) = alias_of ` set (ig_rows (group_of_rows i rows)) - {[]}" for i
    by (auto simp: group_count_keys group_rows)
  ultimately show ?thesis
    by (simp add: agg identities_def keep group_rows group_counts)
qed

text \<open>The name of a group is well determined. It is one of the counted aliases (the identity itself if
  there is none), of those with the identity of the group if any has it, and it does not depend on the
  order in which the aliases were counted: no alias that could have been chosen ranks higher by count,
  by an underscore, by being the identity, by shortness and last by the name itself.\<close>

theorem preferred_name_determined:
  assumes "distinct (map fst counts)"
  shows "(preferred_parameter_name i counts = i \<or> preferred_parameter_name i counts \<in> fst ` set counts) \<and>
    ((\<exists>n \<in> fst ` set counts. n \<noteq> [] \<and> parameter_identity n [] = i) \<longrightarrow>
       parameter_identity (preferred_parameter_name i counts) [] = i \<and>
       (\<forall>n \<in> fst ` set counts. n \<noteq> [] \<and> parameter_identity n [] = i \<longrightarrow>
          name_rank i counts n \<le> name_rank i counts (preferred_parameter_name i counts))) \<and>
    (\<forall>counts'. set counts' = set counts \<and> distinct (map fst counts') \<longrightarrow>
       preferred_parameter_name i counts' = preferred_parameter_name i counts)"
proof -
  have order: "preferred_parameter_name i c' = preferred_parameter_name i counts"
    if "set c' = set counts" "distinct (map fst c')" for c'
  proof -
    have "map_of c' k = Some v \<longleftrightarrow> map_of counts k = Some v" for k v
      using that assms by (simp add: map_of_eq_Some_iff)
    then have "map_of c' = map_of counts" by (intro ext) (metis not_None_eq)
    then have rank: "name_rank i c' = name_rank i counts" by (simp add: name_rank_def fun_eq_iff)
    have pool: "alias_pool i c' = alias_pool i counts" using that(1) by (simp only: alias_pool_def compatible_aliases_def)
    note a = preferred_from_pool [of i c', unfolded rank pool] and b = preferred_from_pool [of i counts]
    show ?thesis
    proof (cases "alias_pool i counts = {}")
      case False
      with a b have "name_rank i counts (preferred_parameter_name i c') = name_rank i counts (preferred_parameter_name i counts)"
        by (intro order.antisym) blast+
      then show ?thesis by (simp only: name_rank_inj)
    qed (use a b in auto)
  qed
  have "\<exists>n \<in> fst ` set counts. n \<noteq> [] \<and> parameter_identity n [] = i \<Longrightarrow>
      alias_pool i counts = compatible_aliases i counts \<and> compatible_aliases i counts \<noteq> {}"
    by (auto simp: alias_pool_def compatible_aliases_def)
  then have compatible: "\<exists>n \<in> fst ` set counts. n \<noteq> [] \<and> parameter_identity n [] = i \<Longrightarrow>
      preferred_parameter_name i counts \<in> compatible_aliases i counts \<and>
      (\<forall>n \<in> compatible_aliases i counts. name_rank i counts n \<le> name_rank i counts (preferred_parameter_name i counts))"
    using preferred_from_pool [of i counts] by auto
  have "preferred_parameter_name i counts = i \<or> preferred_parameter_name i counts \<in> fst ` set counts"
    using preferred_from_pool [of i counts] alias_pool_sub by blast
  with compatible order show ?thesis unfolding compatible_aliases_def by blast
qed


theorem preferred_name_determined_witness:
  "parameter_identity (preferred_parameter_name ''userid'' [(''userid'', 66), (''user_id'', 137)]) [] = ''userid'' \<and>
   preferred_parameter_name ''userid'' [(''user_id'', 137), (''userid'', 66)] =
   preferred_parameter_name ''userid'' [(''userid'', 66), (''user_id'', 137)]"
proof -
  let ?c = "[(''userid'', 66), (''user_id'', 137)] :: (string \<times> int) list"
  let ?d = "[(''user_id'', 137), (''userid'', 66)] :: (string \<times> int) list"
  have "distinct (map fst ?c)" by simp
  note p = preferred_name_determined [OF this, of "''userid''"]
  have "parameter_identity ''userid'' [] = ''userid''" by code_simp
  moreover have "''userid'' \<in> fst ` set ?c" by simp
  moreover have "(''userid'' :: string) \<noteq> []" by simp
  ultimately have "\<exists>n \<in> fst ` set ?c. n \<noteq> [] \<and> parameter_identity n [] = ''userid''" by blast
  with p have "parameter_identity (preferred_parameter_name ''userid'' ?c) [] = ''userid''" by blast
  moreover have "set ?d = set ?c \<and> distinct (map fst ?d)" by auto
  with p have "preferred_parameter_name ''userid'' ?d = preferred_parameter_name ''userid'' ?c" by blast
  ultimately show ?thesis by blast
qed

definition example_occurrences :: "occurrence list" where
  "example_occurrences = [\<lparr>oc_parameter = ''data.userId'', oc_canonical_name = []\<rparr>,
     \<lparr>oc_parameter = ''name'', oc_canonical_name = []\<rparr>, \<lparr>oc_parameter = ''uid'', oc_canonical_name = []\<rparr>]"

theorem grouping_is_partition_witness:
  "map fst (aggregate_occurrences example_occurrences) = [''userid'', ''name''] \<and>
   (\<exists>g. (''userid'', g) \<in> set (aggregate_occurrences example_occurrences) \<and>
     map oc_parameter (ig_rows g) = [''data.userId'', ''uid''])"
proof -
  have ids: "dedupe (filter (\<lambda>i. i \<noteq> []) (map occurrence_identity example_occurrences)) = [''userid'', ''name'']"
    "map oc_parameter (filter (\<lambda>r. occurrence_identity r = ''userid'') example_occurrences) = [''data.userId'', ''uid'']"
    by code_simp+
  note p = grouping_is_partition [of example_occurrences, unfolded ids(1)]
  then have "''userid'' \<in> set (map fst (aggregate_occurrences example_occurrences))" by simp
  then obtain g where g: "(''userid'', g) \<in> set (aggregate_occurrences example_occurrences)" by auto
  with p have "ig_rows g = filter (\<lambda>r. occurrence_identity r = ''userid'') example_occurrences" by blast
  with ids(2) g p show ?thesis by auto
qed

text \<open>Normalising twice is not always normalising once: an underscore behind a removed character stays.\<close>

lemma normalized_leaf_not_idempotent:
  "normalized_leaf ''%_a'' = ''_a'' \<and> normalized_leaf ''_a'' = ''a''"
  by code_simp

end
