(* ===== verification/Lens.thy ===== *)
theory Lens
  imports Prelude
begin

text \<open>
  The contract of a place in a document that can be read and written: what was written is read
  back, writing what is there changes nothing, and the last write wins. Reading may find nothing;
  whether writing fails depends on the document and not on the value.
\<close>

fun put_all :: "('v \<Rightarrow> 's \<Rightarrow> 's result_of) \<Rightarrow> 'v list \<Rightarrow> 's \<Rightarrow> 's result_of" where
  "put_all put [] s = Inr s"
| "put_all put (v # vs) s = sbind (put v s) (put_all put vs)"

locale lens =
  fixes get :: "'s \<Rightarrow> 'v option"
    and put :: "'v \<Rightarrow> 's \<Rightarrow> 's result_of"
  assumes get_after_put: "put v s = Inr s' \<Longrightarrow> get s' = Some v"
    and put_what_is_there: "get s = Some v \<Longrightarrow> put v s = Inr s"
    and put_again: "put v s = Inr s' \<Longrightarrow> put v' s' = put v' s"
    and put_error: "put v s = Inl e \<Longrightarrow> put v' s = Inl e"
begin

lemma put_idempotent: "put v s = Inr s' \<Longrightarrow> put v s' = Inr s'"
  by (intro put_what_is_there get_after_put)

lemma put_undo: "get s = Some v \<Longrightarrow> put v' s = Inr s' \<Longrightarrow> put v s' = Inr s"
  using put_again put_what_is_there by metis

lemma put_injective: "put v s = Inr s' \<Longrightarrow> put v' s = Inr s' \<Longrightarrow> v = v'"
  using get_after_put [of v s s'] get_after_put [of v' s s'] by simp

text \<open>A sequence of writes is its last write.\<close>

lemma put_all_last: "vs \<noteq> [] \<Longrightarrow> put_all put vs s = put (last vs) s"
proof (induction vs arbitrary: s)
  case (Cons u vs)
  show ?case
  proof (cases "put u s")
    case (Inl e)
    with put_error [OF Inl, of "last vs"] show ?thesis by simp
  next
    case (Inr s1)
    with Cons.IH [of s1] put_again [OF Inr] show ?thesis by auto
  qed
qed simp

end

end
