(* ===== verification/ParameterLocator.thy ===== *)
theory ParameterLocator
  imports PyText Lens
begin

text \<open>
  Typed parameter locations (\<open>parameter_locator.py\<close>): a location in a JSON document is a list of
  tokens, which legacy dotted paths are parsed into and printed from; values are read and written
  through it, and a document is enumerated leaf by leaf and rebuilt from its leaves.

  A token dictionary is a constructor of \<open>locator_token\<close>; a token of any other \<open>kind\<close> is
  \<open>Unsupported\<close>. \<open>set_value_at_locator\<close> works in place: the model returns the root the code
  returns, and an error in its place. What an aborted call has built so far in the caller's object
  is not represented: every caller of it in the repository drops the object then.
\<close>

datatype locator_token =
    Property string bool
  | ArrayAt int bool
  | Unsupported

record locator =
  lo_version :: int
  lo_direction :: string
  lo_position :: string
  lo_kind :: string
  lo_raw_path :: string
  lo_schema_path :: string
  lo_display_path :: string
  lo_json_pointer :: string
  lo_leaf_name :: string
  lo_canonical_name :: string
  lo_tokens :: "locator_token list"

definition LOCATOR_VERSION :: int where
  "LOCATOR_VERSION = 2"

section \<open>Paths and tokens\<close>

definition pointer_escape :: "string \<Rightarrow> string" where
  "pointer_escape value = py_replace ''/'' ''~1'' (py_replace ''~'' ''~0'' value)"

definition canonical_leaf :: "string \<Rightarrow> string" where
  "canonical_leaf value = py_lower (py_replace ''-'' ''_'' (py_strip value))"

text \<open>\<open>_DYNAMIC_KEY.fullmatch\<close>: a long number, a long hexadecimal number, a UUID.\<close>

definition is_dynamic_property :: "string \<Rightarrow> bool" where
  "is_dynamic_property value \<longleftrightarrow>
     (4 \<le> length value \<and> list_all is_digit value) \<or>
     (8 \<le> length value \<and> list_all is_hex value) \<or>
     (36 \<le> length value \<and> list_all is_hex (take 8 value) \<and> value ! 8 = CHR ''-'' \<and>
      list_all (\<lambda>c. is_hex c \<or> c = CHR ''-'') (drop 9 value))"

text \<open>\<open>while segment.endswith("[]")\<close>.\<close>

function strip_arrays :: "string \<Rightarrow> string \<times> nat" where
  "strip_arrays segment =
     (if ends_with ''[]'' segment
      then (case strip_arrays (take (length segment - 2) segment) of (s, n) \<Rightarrow> (s, n + 1))
      else (segment, 0))"
  by auto
termination
  by (relation "measure length") (auto simp: ends_with_suffix suffix_def)

declare strip_arrays.simps [simp del]

definition segment_tokens :: "bool \<Rightarrow> nat \<Rightarrow> string \<Rightarrow> locator_token list" where
  "segment_tokens schema i raw_segment =
     (if raw_segment = [] then []
      else case strip_arrays raw_segment of (segment, array_count) \<Rightarrow>
        (if segment = [] then []
         else if \<not> schema \<and> py_isdigit segment \<and> 0 < i \<and> digits_value 0 segment \<le> 10000
         then [ArrayAt (int (digits_value 0 segment)) False]
         else [Property segment (is_dynamic_property segment)]) @
        replicate array_count (ArrayAt 0 True))"

definition path_is_schema :: "bool option \<Rightarrow> string \<Rightarrow> bool" where
  "path_is_schema schema path = (case schema of None \<Rightarrow> contains ''[]'' path | Some b \<Rightarrow> b)"

definition tokens_from_path :: "bool option \<Rightarrow> string \<Rightarrow> locator_token list" where
  "tokens_from_path schema path =
     concat (map (\<lambda>(i, seg). segment_tokens (path_is_schema schema path) i seg)
       (List.enumerate 0 (split_on (CHR ''.'') path)))"

record document_parts =
  pp_raw :: "string list"
  pp_schema :: "string list"
  pp_display :: "string list"
  pp_pointer :: "string list"
  pp_leaf :: string

text \<open>\<open>parts[-1] += "[]"\<close>, or a first part \<open>"[]"\<close>.\<close>

definition mark_array :: "string list \<Rightarrow> string list" where
  "mark_array parts = (if parts = [] then [''[]''] else butlast parts @ [last parts @ ''[]''])"

fun add_token :: "document_parts \<Rightarrow> locator_token \<Rightarrow> document_parts" where
  "add_token p (Property value dynamic) = p\<lparr>pp_raw := pp_raw p @ [value], pp_schema := pp_schema p @ [value],
     pp_display := pp_display p @ [if dynamic then ''{key}'' else value],
     pp_pointer := pp_pointer p @ [pointer_escape value], pp_leaf := value\<rparr>"
| "add_token p (ArrayAt index wildcard) = p\<lparr>
     pp_raw := (if wildcard then mark_array (pp_raw p) else pp_raw p @ [str_of_int index]),
     pp_schema := mark_array (pp_schema p), pp_display := mark_array (pp_display p),
     pp_pointer := pp_pointer p @ [if wildcard then ''*'' else str_of_int index]\<rparr>"
| "add_token p Unsupported = p"

definition parts_of :: "locator_token list \<Rightarrow> document_parts" where
  "parts_of tokens = foldl add_token \<lparr>pp_raw = [], pp_schema = [], pp_display = [], pp_pointer = [], pp_leaf = []\<rparr> tokens"

definition raw_path :: "locator_token list \<Rightarrow> string" where
  "raw_path tokens = join ''.'' (pp_raw (parts_of tokens))"

definition schema_path :: "locator_token list \<Rightarrow> string" where
  "schema_path tokens = join ''.'' (pp_schema (parts_of tokens))"

definition locator_from_tokens :: "locator_token list \<Rightarrow> string \<Rightarrow> string \<Rightarrow> string \<Rightarrow> string \<Rightarrow> locator" where
  "locator_from_tokens tokens raw direction position kind = (let p = parts_of tokens in
     \<lparr>lo_version = LOCATOR_VERSION, lo_direction = str_or direction ''request'',
      lo_position = str_or position ''body'', lo_kind = str_or kind ''instance'',
      lo_raw_path = str_or raw (raw_path tokens), lo_schema_path = schema_path tokens,
      lo_display_path = join ''.'' (pp_display p), lo_json_pointer = ''/'' @ join ''/'' (pp_pointer p),
      lo_leaf_name = pp_leaf p, lo_canonical_name = canonical_leaf (pp_leaf p), lo_tokens = tokens\<rparr>)"

definition locator_from_path :: "string \<Rightarrow> string \<Rightarrow> string \<Rightarrow> bool option \<Rightarrow> locator" where
  "locator_from_path path direction position schema =
     (let is_schema = path_is_schema schema path in
      locator_from_tokens (tokens_from_path (Some is_schema) path) path direction position
        (if is_schema then ''schema'' else ''instance''))"

text \<open>\<open>existing\<close> is the locator an import has stored, if any.\<close>

definition parameter_locator :: "string \<Rightarrow> string \<Rightarrow> string \<Rightarrow> locator option \<Rightarrow> locator" where
  "parameter_locator path direction position existing =
     (case existing of
        Some e \<Rightarrow>
          if lo_version e = LOCATOR_VERSION \<and> lo_tokens e \<noteq> []
          then e\<lparr>lo_direction := direction, lo_position := position\<rparr>
          else if position \<noteq> ''body''
          then locator_from_tokens [Property path False] path direction position ''parameter''
          else locator_from_path path direction position None
      | None \<Rightarrow>
          if position \<noteq> ''body''
          then locator_from_tokens [Property path False] path direction position ''parameter''
          else locator_from_path path direction position None)"

record document_fields =
  df_direction :: string
  df_raw_path :: string
  df_schema_path :: string
  df_display_path :: string
  df_canonical_name :: string
  df_locator :: locator

definition locator_document_fields :: "string \<Rightarrow> string \<Rightarrow> string \<Rightarrow> locator option \<Rightarrow> bool option \<Rightarrow> document_fields" where
  "locator_document_fields path direction position existing schema =
     (let lo = (if position = ''body'' \<and> schema \<noteq> None
                then locator_from_path path direction position schema
                else parameter_locator path direction position existing)
      in \<lparr>df_direction = direction, df_raw_path = str_or (lo_raw_path lo) path,
         df_schema_path = str_or (lo_schema_path lo) path, df_display_path = str_or (lo_display_path lo) path,
         df_canonical_name = str_or (lo_canonical_name lo) (canonical_leaf path), df_locator = lo\<rparr>)"

section \<open>Leaves, reading, writing\<close>

lemma enumerate_size:
  assumes "(i, c) \<in> set (List.enumerate n xs)"
  shows "size c < Suc (size_list size xs)"
proof -
  from assms have "c \<in> set xs" by (auto simp: in_set_enumerate_eq)
  from size_list_estimation' [OF this order_refl] show ?thesis by (simp add: less_Suc_eq_le)
qed

text \<open>The generator \<open>iter_json_leaf_occurrences\<close>, without the locator around the tokens.\<close>

function walk_leaves :: "locator_token list \<Rightarrow> json \<Rightarrow> (locator_token list \<times> json) list" where
  "walk_leaves tokens (JObj d) = (if d = [] then [(tokens, JObj [])]
     else concat (map (\<lambda>(key, child). walk_leaves (tokens @ [Property key (is_dynamic_property key)]) child) d))"
| "walk_leaves tokens (JList xs) = (if xs = [] then [(tokens, JList [])]
     else concat (map (\<lambda>(i, child). walk_leaves (tokens @ [ArrayAt (int i) False]) child) (List.enumerate 0 xs)))"
| "walk_leaves tokens JNull = [(tokens, JNull)]"
| "walk_leaves tokens (JBool b) = [(tokens, JBool b)]"
| "walk_leaves tokens (JInt n) = [(tokens, JInt n)]"
| "walk_leaves tokens (JFloat q t) = [(tokens, JFloat q t)]"
| "walk_leaves tokens (JStr s) = [(tokens, JStr s)]"
  by pat_completeness auto
termination
  by (relation "measure (\<lambda>(_, v). size v)")
    (auto dest!: enumerate_size simp: less_Suc_eq_le intro: size_list_estimation' order.trans
      [OF _ size_list_estimation'])

definition iter_json_leaf_occurrences :: "json \<Rightarrow> string \<Rightarrow> string \<Rightarrow> (locator \<times> json) list" where
  "iter_json_leaf_occurrences value direction position =
     map (\<lambda>(tokens, v). (locator_from_tokens tokens [] direction position ''instance'', v)) (walk_leaves [] value)"

fun is_array_token :: "locator_token \<Rightarrow> bool" where
  "is_array_token (ArrayAt _ _) = True"
| "is_array_token _ = False"

text \<open>\<open>_container_for\<close>, and \<open>isinstance(child, expected)\<close> for the container the next token needs.\<close>

definition container_for :: "locator_token \<Rightarrow> json" where
  "container_for t = (if is_array_token t then JList [] else JObj [])"

fun has_shape :: "locator_token \<Rightarrow> json \<Rightarrow> bool" where
  "has_shape t (JList _) = is_array_token t"
| "has_shape t (JObj _) = (\<not> is_array_token t)"
| "has_shape t _ = False"

definition descend :: "locator_token list \<Rightarrow> json \<Rightarrow> json" where
  "descend tokens child = (case tokens of [] \<Rightarrow> child
     | t # _ \<Rightarrow> if has_shape t child then child else container_for t)"

definition index_of_token :: "int \<Rightarrow> int \<Rightarrow> bool \<Rightarrow> int" where
  "index_of_token wildcard_index index wildcard = (if wildcard then wildcard_index else index)"

definition padded :: "int \<Rightarrow> json list \<Rightarrow> json list" where
  "padded i xs = xs @ replicate (nat (i + 1) - length xs) JNull"

text \<open>The loop of \<open>set_value_at_locator\<close>; a negative index counts from the end, as in Python.\<close>

fun set_tokens :: "int \<Rightarrow> locator_token list \<Rightarrow> json \<Rightarrow> json \<Rightarrow> json result_of" where
  "set_tokens w [] value current = Inr value"
| "set_tokens w (Property key _ # ts) value current = (case current of
     JObj d \<Rightarrow> sbind (set_tokens w ts value (descend ts (dget d key))) (\<lambda>c. Inr (JObj (dict_set key c d)))
   | _ \<Rightarrow> Inl (ValueError ''property locator requires an object container''))"
| "set_tokens w (ArrayAt index wildcard # ts) value current = (case current of
     JList xs \<Rightarrow>
       (let i = index_of_token w index wildcard; ys = padded i xs;
            p = nat (if i < 0 then int (length ys) + i else i)
        in if int (length ys) + i < 0 then Inl (IndexError ''list index out of range'')
           else sbind (set_tokens w ts value (descend ts (ys ! p))) (\<lambda>c. Inr (JList (ys[p := c]))))
   | _ \<Rightarrow> Inl (ValueError ''array locator requires a list container''))"
| "set_tokens w (Unsupported # ts) value current = Inl (ValueError ''unsupported locator token'')"

fun is_container :: "json \<Rightarrow> bool" where
  "is_container (JList _) = True"
| "is_container (JObj _) = True"
| "is_container _ = False"

definition set_value_at_locator :: "int \<Rightarrow> locator_token list \<Rightarrow> json \<Rightarrow> json \<Rightarrow> json result_of" where
  "set_value_at_locator w tokens value doc = (case tokens of
     [] \<Rightarrow> Inr value
   | t # _ \<Rightarrow> set_tokens w tokens value (if is_container doc then doc else container_for t))"

definition set_value_at_path :: "string \<Rightarrow> json \<Rightarrow> bool option \<Rightarrow> json \<Rightarrow> json result_of" where
  "set_value_at_path path value schema doc =
     set_value_at_locator 0 (lo_tokens (locator_from_path path ''request'' ''body'' schema)) value doc"

text \<open>The fan-out loops of \<open>extract_values_at_locator\<close>, which stop at the limit.\<close>

fun fan_out :: "int \<Rightarrow> (json \<Rightarrow> json list \<Rightarrow> json list) \<Rightarrow> json list \<Rightarrow> json list \<Rightarrow> json list" where
  "fan_out limit visit [] results = results"
| "fan_out limit visit (c # cs) results = (let results' = visit c results in
     if limit \<le> int (length results') then results' else fan_out limit visit cs results')"

fun walk_values :: "int \<Rightarrow> locator_token list \<Rightarrow> json \<Rightarrow> json list \<Rightarrow> json list" where
  "walk_values limit [] node results =
     (if max 1 limit \<le> int (length results) then results else results @ [node])"
| "walk_values limit (Property key dynamic # ts) node results =
     (if max 1 limit \<le> int (length results) then results
      else case node of
        JObj d \<Rightarrow>
          if dynamic then fan_out limit (walk_values limit ts) (map snd d) results
          else (case map_of d key of Some c \<Rightarrow> walk_values limit ts c results | None \<Rightarrow> results)
      | _ \<Rightarrow> results)"
| "walk_values limit (ArrayAt index wildcard # ts) node results =
     (if max 1 limit \<le> int (length results) then results
      else case node of
        JList xs \<Rightarrow>
          if wildcard then fan_out limit (walk_values limit ts) xs results
          else if 0 \<le> index \<and> index < int (length xs) then walk_values limit ts (xs ! nat index) results
          else results
      | _ \<Rightarrow> results)"
| "walk_values limit (Unsupported # ts) node results = results"

text \<open>\<open>results[:limit]\<close>.\<close>

definition py_take :: "int \<Rightarrow> 'a list \<Rightarrow> 'a list" where
  "py_take n xs = (if 0 \<le> n then take (nat n) xs else take (length xs - nat (- n)) xs)"

definition extract_values_at_locator :: "locator_token list \<Rightarrow> int \<Rightarrow> json \<Rightarrow> json list" where
  "extract_values_at_locator tokens limit value = py_take limit (walk_values limit tokens value [])"

fun materialize :: "('v \<Rightarrow> json) \<Rightarrow> (string \<times> 'v) list \<Rightarrow> json \<Rightarrow> json result_of" where
  "materialize selector [] doc = Inr doc"
| "materialize selector ((path, raw_value) # items) doc =
     sbind (set_value_at_path path (selector raw_value) None doc) (materialize selector items)"

definition materialize_flat_json :: "('v \<Rightarrow> json) \<Rightarrow> (string \<times> 'v) list \<Rightarrow> json result_of" where
  "materialize_flat_json selector flat_values =
     sbind (materialize selector flat_values JNull) (\<lambda>doc. Inr (if doc = JNull then JObj [] else doc))"


section \<open>Facts\<close>

text \<open>The values at a location, without a limit.\<close>

fun located :: "locator_token list \<Rightarrow> json \<Rightarrow> json list" where
  "located [] node = [node]"
| "located (Property key dynamic # ts) (JObj d) =
     (if dynamic then concat (map (located ts) (map snd d))
      else (case map_of d key of Some c \<Rightarrow> located ts c | None \<Rightarrow> []))"
| "located (ArrayAt index wildcard # ts) (JList xs) =
     (if wildcard then concat (map (located ts) xs)
      else if 0 \<le> index \<and> index < int (length xs) then located ts (xs ! nat index) else [])"
| "located _ _ = []"

lemma fan_out_take:
  assumes "\<And>c acc. length acc \<le> n \<Longrightarrow> visit c acc = take n (acc @ f c)" "length acc \<le> n"
  shows "fan_out (int n) visit cs acc = take n (acc @ concat (map f cs))"
  using assms(2)
proof (induction cs arbitrary: acc)
  case (Cons c cs)
  have v: "visit c acc = take n (acc @ f c)" by (rule assms(1) [OF Cons.prems])
  show ?case
  proof (cases "n \<le> length (acc @ f c)")
    case True
    then show ?thesis by (simp add: v min_def take_all_iff)
  next
    case False
    with Cons.IH [of "acc @ f c"] show ?thesis by (simp add: v)
  qed
qed simp

lemma walk_values_take:
  "1 \<le> n \<Longrightarrow> length acc \<le> n \<Longrightarrow> walk_values (int n) ts node acc = take n (acc @ located ts node)"
proof (induction ts arbitrary: node acc)
  case Nil
  then show ?case by (auto simp: max_def)
next
  case (Cons t ts)
  have IH: "\<And>c acc. length acc \<le> n \<Longrightarrow> walk_values (int n) ts c acc = take n (acc @ located ts c)"
    using Cons by simp
  show ?case
  proof (cases "n \<le> length acc")
    case True
    with Cons.prems show ?thesis by (cases t) (auto simp: max_def)
  next
    case False
    then have lt: "\<not> max 1 (int n) \<le> int (length acc)" using Cons.prems by (simp add: max_def)
    show ?thesis
    proof (cases t)
      case (Property key dynamic)
      show ?thesis
      proof (cases node)
        case (JObj d)
        have "fan_out (int n) (walk_values (int n) ts) (map snd d) acc =
            take n (acc @ concat (map (located ts) (map snd d)))"
          by (rule fan_out_take) (use IH Cons.prems in auto)
        then show ?thesis
          using lt IH [OF Cons.prems(2)] Cons.prems by (auto simp: Property JObj split: option.splits)
      qed (use lt Property Cons.prems in auto)
    next
      case (ArrayAt index wildcard)
      show ?thesis
      proof (cases node)
        case (JList xs)
        have "fan_out (int n) (walk_values (int n) ts) xs acc = take n (acc @ concat (map (located ts) xs))"
          by (rule fan_out_take) (use IH Cons.prems in auto)
        then show ?thesis
          using lt IH [OF Cons.prems(2)] Cons.prems by (auto simp: ArrayAt JList)
      qed (use lt ArrayAt Cons.prems in auto)
    next
      case Unsupported
      then show ?thesis using Cons.prems by simp
    qed
  qed
qed

lemma walk_values_at_most_one:
  "limit \<le> 0 \<Longrightarrow> length acc \<le> 1 \<Longrightarrow> length (walk_values limit ts node acc) \<le> 1"
proof (induction ts arbitrary: node acc)
  case (Cons t ts)
  have fan: "length (fan_out limit (walk_values limit ts) cs acc) \<le> 1" for cs
    by (cases cs) (use Cons in auto)
  show ?case
    by (cases t; cases node) (use Cons fan in \<open>auto split: option.splits\<close>)
qed (auto simp: max_def not_le le_Suc_eq)


lemma extract_take: "extract_values_at_locator tokens limit v = take (nat limit) (located tokens v)"
proof (cases "1 \<le> limit")
  case True
  then have n: "limit = int (nat limit)" "1 \<le> nat limit" by auto
  then show ?thesis
    using walk_values_take [of "nat limit" "[]" tokens v]
    by (simp add: extract_values_at_locator_def py_take_def)
next
  case False
  then have "length (walk_values limit tokens v []) \<le> 1" by (intro walk_values_at_most_one) auto
  with False show ?thesis by (auto simp: extract_values_at_locator_def py_take_def)
qed

subsection \<open>Reading what was written\<close>

text \<open>The locator addresses one place: no wildcard, no dynamic key, no index from the end.\<close>

fun plain_token :: "locator_token \<Rightarrow> bool" where
  "plain_token (Property _ dynamic) = (\<not> dynamic)"
| "plain_token (ArrayAt index wildcard) = (0 \<le> index \<and> \<not> wildcard)"
| "plain_token Unsupported = False"

fun settable_token :: "locator_token \<Rightarrow> bool" where
  "settable_token (ArrayAt index wildcard) = (wildcard \<or> 0 \<le> index)"
| "settable_token (Property _ _) = True"
| "settable_token Unsupported = False"

lemma plain_settable: "plain_token t \<Longrightarrow> settable_token t"
  by (cases t) auto

lemma descend_shape [simp]: "has_shape t (descend (t # ts) v)"
  by (cases t) (simp_all add: descend_def container_for_def)

lemma descend_same: "has_shape t v \<Longrightarrow> descend (t # ts) v = v"
  by (simp add: descend_def)

lemma padded_length [simp]: "length (padded i xs) = max (length xs) (nat (i + 1))"
  by (simp add: padded_def)

text \<open>One step of a successful write, on either kind of container.\<close>

lemma set_property:
  "set_tokens w (Property key dyn # ts) v cur = Inr c \<longleftrightarrow>
     (\<exists>d c'. cur = JObj d \<and> set_tokens w ts v (descend ts (dget d key)) = Inr c' \<and> c = JObj (dict_set key c' d))"
  by (auto simp: sbind_Inr_iff split: json.splits)

lemma set_array:
  assumes "0 \<le> index_of_token w index wild"
  shows "set_tokens w (ArrayAt index wild # ts) v cur = Inr c \<longleftrightarrow>
     (\<exists>xs c'. cur = JList xs \<and>
        set_tokens w ts v (descend ts (padded (index_of_token w index wild) xs ! nat (index_of_token w index wild))) = Inr c' \<and>
        c = JList ((padded (index_of_token w index wild) xs)[nat (index_of_token w index wild) := c']))"
  using assms by (auto simp: sbind_Inr_iff Let_def split: json.splits)

lemma set_tokens_total:
  "\<forall>t \<in> set ts. settable_token t \<Longrightarrow> 0 \<le> w \<Longrightarrow> (case ts of [] \<Rightarrow> True | t # _ \<Rightarrow> has_shape t cur) \<Longrightarrow>
    \<exists>c. set_tokens w ts v cur = Inr c"
proof (induction ts arbitrary: cur)
  case (Cons t ts)
  have IH: "\<exists>c. set_tokens w ts v (descend ts x) = Inr c" for x
    using Cons by (cases ts) auto
  show ?case
  proof (cases t)
    case (Property key dyn)
    with Cons.prems obtain d where "cur = JObj d" by (cases cur) auto
    with IH [of "dget d key"] show ?thesis by (auto simp: Property)
  next
    case (ArrayAt index wild)
    with Cons.prems obtain xs where "cur = JList xs" by (cases cur) auto
    moreover from Cons.prems have "0 \<le> index_of_token w index wild" by (auto simp: ArrayAt index_of_token_def)
    ultimately show ?thesis using IH [of "padded (index_of_token w index wild) xs ! nat (index_of_token w index wild)"]
      by (auto simp: ArrayAt Let_def)
  qed (use Cons in auto)
qed simp

lemma set_tokens_read:
  "set_tokens w ts v cur = Inr c \<Longrightarrow> \<forall>t \<in> set ts. settable_token t \<Longrightarrow> 0 \<le> w \<Longrightarrow> v \<in> set (located ts c)"
proof (induction ts arbitrary: cur c)
  case (Cons t ts)
  show ?case
  proof (cases t)
    case (Property key dyn)
    with Cons.prems obtain d c' where *: "set_tokens w ts v (descend ts (dget d key)) = Inr c'" "c = JObj (dict_set key c' d)"
      unfolding Property set_property by blast
    have "v \<in> set (located ts c')" by (rule Cons.IH [OF *(1)]) (use Cons.prems in auto)
    moreover have "c' \<in> snd ` set (dict_set key c' d)" by (induction key c' d rule: dict_set.induct) auto
    ultimately show ?thesis by (auto simp: Property *(2))
  next
    case (ArrayAt index wild)
    let ?i = "index_of_token w index wild"
    from Cons.prems have i: "0 \<le> ?i" by (auto simp: ArrayAt index_of_token_def)
    with Cons.prems obtain xs c' where *: "set_tokens w ts v (descend ts (padded ?i xs ! nat ?i)) = Inr c'"
      "c = JList ((padded ?i xs)[nat ?i := c'])"
      unfolding ArrayAt by (subst (asm) set_array) auto
    have "v \<in> set (located ts c')" by (rule Cons.IH [OF *(1)]) (use Cons.prems in auto)
    moreover have "nat ?i < length (padded ?i xs)" using i by simp
    ultimately show ?thesis using i
      by (auto simp: ArrayAt *(2) index_of_token_def set_update_memI split: if_splits)
  qed (use Cons in auto)
qed simp

lemma set_tokens_read_plain:
  "set_tokens w ts v cur = Inr c \<Longrightarrow> \<forall>t \<in> set ts. plain_token t \<Longrightarrow> located ts c = [v]"
proof (induction ts arbitrary: cur c)
  case (Cons t ts)
  show ?case
  proof (cases t)
    case (Property key dyn)
    with Cons.prems obtain d c' where *: "set_tokens w ts v (descend ts (dget d key)) = Inr c'" "c = JObj (dict_set key c' d)"
      unfolding Property set_property by blast
    have "located ts c' = [v]" by (rule Cons.IH [OF *(1)]) (use Cons.prems in auto)
    then show ?thesis using Cons.prems by (simp add: Property *(2))
  next
    case (ArrayAt index wild)
    let ?i = "index_of_token w index wild"
    from Cons.prems have i: "0 \<le> ?i" "?i = index" "\<not> wild" by (auto simp: ArrayAt index_of_token_def)
    with Cons.prems obtain xs c' where *: "set_tokens w ts v (descend ts (padded ?i xs ! nat ?i)) = Inr c'"
      "c = JList ((padded ?i xs)[nat ?i := c'])"
      unfolding ArrayAt by (subst (asm) set_array) auto
    have "located ts c' = [v]" by (rule Cons.IH [OF *(1)]) (use Cons.prems in auto)
    then show ?thesis using i by (simp add: ArrayAt *(2))
  qed (use Cons in auto)
qed simp


lemma set_tokens_same:
  "located ts cur = [v] \<Longrightarrow> \<forall>t \<in> set ts. plain_token t \<Longrightarrow> set_tokens w ts v cur = Inr cur"
proof (induction ts arbitrary: cur)
  case (Cons t ts)
  have shape: "descend ts c = c" if "located ts c = [v]" for c
    using that Cons.prems(2) by (cases ts; cases "hd ts"; cases c) (auto simp: descend_def)
  show ?case
  proof (cases t)
    case (Property key dyn)
    with Cons.prems obtain d c where d: "cur = JObj d" "map_of d key = Some c" "located ts c = [v]"
      by (cases cur) (auto split: option.splits)
    have "set_tokens w ts v c = Inr c" by (rule Cons.IH) (use d Cons.prems in auto)
    moreover have "dict_set key c d = d"
      using d(2) by (induction key c d rule: dict_set.induct) (auto split: if_splits)
    ultimately show ?thesis using d shape [of c] by (simp add: Property dget_def)
  next
    case (ArrayAt index wild)
    with Cons.prems obtain xs where d: "cur = JList xs" "0 \<le> index" "index < int (length xs)"
        "located ts (xs ! nat index) = [v]" "\<not> wild"
      by (cases cur) (auto split: if_splits)
    have "set_tokens w ts v (xs ! nat index) = Inr (xs ! nat index)"
      by (rule Cons.IH) (use d Cons.prems in auto)
    moreover have "padded index xs = xs" using d by (simp add: padded_def)
    ultimately show ?thesis using d shape [of "xs ! nat index"]
      by (simp add: ArrayAt index_of_token_def Let_def)
  qed (use Cons in auto)
qed simp

lemma dict_set_again: "dict_set k v' (dict_set k v d) = dict_set k v' d"
  by (induction k v d rule: dict_set.induct) auto

lemma padded_update: "0 \<le> i \<Longrightarrow> padded i ((padded i xs)[nat i := c]) = (padded i xs)[nat i := c]"
  by (simp add: padded_def)

lemma set_tokens_shape: "set_tokens w (t # ts) v cur = Inr c \<Longrightarrow> has_shape t c"
  by (cases t; cases cur) (auto simp: sbind_Inr_iff Let_def split: if_splits)

lemma set_tokens_again:
  "set_tokens w ts v cur = Inr c \<Longrightarrow> \<forall>t \<in> set ts. settable_token t \<Longrightarrow> 0 \<le> w \<Longrightarrow>
    set_tokens w ts v' c = set_tokens w ts v' cur"
proof (induction ts arbitrary: cur c)
  case (Cons t ts)
  have shape: "descend ts c' = c'" if "set_tokens w ts v x = Inr c'" "ts \<noteq> []" for c' x
    using that set_tokens_shape by (cases ts) (auto simp: descend_def)
  show ?case
  proof (cases t)
    case (Property key dyn)
    with Cons.prems obtain d c' where *: "cur = JObj d" "set_tokens w ts v (descend ts (dget d key)) = Inr c'" "c = JObj (dict_set key c' d)"
      unfolding Property set_property by blast
    have "set_tokens w ts v' (descend ts c') = set_tokens w ts v' (descend ts (dget d key))"
    proof (cases "ts = []")
      case False
      then show ?thesis using Cons.IH [OF *(2)] Cons.prems shape [OF *(2)] by auto
    qed simp
    then show ?thesis by (simp add: Property * dget_dict_set dict_set_again)
  next
    case (ArrayAt index wild)
    let ?i = "index_of_token w index wild"
    from Cons.prems have i: "0 \<le> ?i" by (auto simp: ArrayAt index_of_token_def)
    with Cons.prems obtain xs c' where *: "cur = JList xs" "set_tokens w ts v (descend ts (padded ?i xs ! nat ?i)) = Inr c'"
      "c = JList ((padded ?i xs)[nat ?i := c'])"
      unfolding ArrayAt by (subst (asm) set_array) auto
    have "set_tokens w ts v' (descend ts c') = set_tokens w ts v' (descend ts (padded ?i xs ! nat ?i))"
    proof (cases "ts = []")
      case False
      then show ?thesis using Cons.IH [OF *(2)] Cons.prems shape [OF *(2)] by auto
    qed simp
    then show ?thesis using i by (simp add: ArrayAt * Let_def padded_update)
  qed (use Cons in auto)
qed simp

lemma set_tokens_error:
  "set_tokens w ts v cur = Inl e \<Longrightarrow> set_tokens w ts v' cur = Inl e"
proof (induction ts arbitrary: cur)
  case (Cons t ts)
  then show ?case
    by (cases t; cases cur) (auto simp: sbind_Inl_iff Let_def split: if_splits)
qed simp

text \<open>A plain locator is a lens of the document.\<close>

definition plain_locator :: "locator_token list \<Rightarrow> bool" where
  "plain_locator ts \<longleftrightarrow> (\<forall>t \<in> set ts. plain_token t)"

lemma plain_locator_Nil [simp]: "plain_locator []"
  by (simp add: plain_locator_def)

definition read_at :: "locator_token list \<Rightarrow> json \<Rightarrow> json option" where
  "read_at ts doc = (if plain_locator ts
     then (case located ts doc of [v] \<Rightarrow> Some v | _ \<Rightarrow> None) else None)"

definition write_at :: "locator_token list \<Rightarrow> json \<Rightarrow> json \<Rightarrow> json result_of" where
  "write_at ts v doc = (if plain_locator ts then set_value_at_locator 0 ts v doc
     else Inl (ValueError ''not a plain locator''))"

lemma located_singleton: "(case xs of [v] \<Rightarrow> Some v | _ \<Rightarrow> None) = Some v \<longleftrightarrow> xs = [v]"
  by (cases xs rule: remdups_adj.cases) auto

lemma located_container: "located (t # ts) doc = [v] \<Longrightarrow> is_container doc"
  by (cases t; cases doc) auto

lemma write_at_run:
  assumes "write_at ts v s = Inr s'"
  obtains cur where "set_tokens 0 ts v cur = Inr s'"
proof (cases ts)
  case Nil
  with assms that show ?thesis by (simp add: write_at_def set_value_at_locator_def)
next
  case (Cons t us)
  with assms that show ?thesis
    by (cases "plain_locator ts") (simp_all add: write_at_def set_value_at_locator_def)
qed

interpretation place: lens "read_at ts" "write_at ts" for ts
proof
  fix v v' s s' e
  show "read_at ts s' = Some v" if w: "write_at ts v s = Inr s'"
  proof -
    from w have p: "plain_locator ts" by (simp add: write_at_def split: if_splits)
    from w obtain cur where "set_tokens 0 ts v cur = Inr s'" by (rule write_at_run)
    from set_tokens_read_plain [OF this] p show ?thesis by (simp add: read_at_def plain_locator_def)
  qed
  show "write_at ts v s = Inr s" if "read_at ts s = Some v"
  proof (cases ts)
    case (Cons t us)
    with that have "located ts s = [v]" "plain_locator ts"
      by (auto simp: read_at_def located_singleton split: if_splits)
    with Cons located_container [of t us s v] set_tokens_same [of ts s v 0] show ?thesis
      by (simp add: write_at_def set_value_at_locator_def plain_locator_def)
  qed (use that in \<open>simp add: read_at_def write_at_def set_value_at_locator_def\<close>)
  show "write_at ts v' s' = write_at ts v' s" if w: "write_at ts v s = Inr s'"
  proof (cases ts)
    case (Cons t us)
    let ?s = "if is_container s then s else container_for t"
    from w Cons have p: "plain_locator ts" and *: "set_tokens 0 ts v ?s = Inr s'"
      by (auto simp: write_at_def set_value_at_locator_def split: if_splits)
    from * Cons have "has_shape t s'" using set_tokens_shape by blast
    then have "is_container s'" by (cases s') auto
    moreover have "set_tokens 0 ts v' s' = set_tokens 0 ts v' ?s"
      by (rule set_tokens_again [OF *]) (use p plain_settable in \<open>auto simp: plain_locator_def\<close>)
    ultimately show ?thesis using p Cons by (simp add: write_at_def set_value_at_locator_def)
  qed (use w in \<open>simp add: write_at_def set_value_at_locator_def\<close>)
  show "write_at ts v' s = Inl e" if "write_at ts v s = Inl e"
  proof (cases ts)
    case (Cons t us)
    with that set_tokens_error [of 0 ts v "if is_container s then s else container_for t" e v'] show ?thesis
      by (cases "plain_locator ts") (simp_all add: write_at_def set_value_at_locator_def)
  qed (use that in \<open>simp add: write_at_def set_value_at_locator_def\<close>)
qed


subsection \<open>Other places are left alone\<close>

text \<open>Two plain locators that part at one container: different keys, or different indices.\<close>

fun apart :: "locator_token list \<Rightarrow> locator_token list \<Rightarrow> bool" where
  "apart (Property k _ # ts) (Property k' _ # us) = (k \<noteq> k' \<or> apart ts us)"
| "apart (ArrayAt i _ # ts) (ArrayAt j _ # us) = (i \<noteq> j \<or> apart ts us)"
| "apart _ _ = False"

lemma located_descend: "located us (descend ts c) = located us c" if "apart ts us" "located us c \<noteq> []"
  using that by (cases "(ts, us)" rule: apart.cases; cases c) (auto simp: descend_def)

lemma set_tokens_frame:
  "apart ts us \<Longrightarrow> set_tokens w ts v cur = Inr c \<Longrightarrow> \<forall>t \<in> set ts. plain_token t \<Longrightarrow> \<forall>t \<in> set us. plain_token t \<Longrightarrow>
    located us cur \<noteq> [] \<Longrightarrow> located us c = located us cur"
proof (induction ts us arbitrary: cur c rule: apart.induct)
  case (1 k dyn ts k' dyn' us)
  from 1(3) obtain d c' where *: "cur = JObj d" "set_tokens w ts v (descend ts (dget d k)) = Inr c'" "c = JObj (dict_set k c' d)"
    unfolding set_property by blast
  from 1(4,5) have p: "\<not> dyn" "\<not> dyn'" "\<forall>t \<in> set ts. plain_token t" "\<forall>t \<in> set us. plain_token t" by auto
  show ?case
  proof (cases "k = k'")
    case True
    with 1(2) have ap: "apart ts us" by simp
    from 1(6) p True obtain a where a: "map_of d k = Some a" "located us a \<noteq> []"
      unfolding * by (cases "map_of d k") auto
    from *(2) a have s: "set_tokens w ts v (descend ts a) = Inr c'" by (simp add: dget_def)
    have "located us c' = located us a"
      using 1(1) [OF ap s p(3,4)] located_descend [OF ap a(2)] a by simp
    with True p a show ?thesis by (simp add: *)
  next
    case False
    with p show ?thesis by (simp add: *)
  qed
next
  case (2 i wi ts j wj us)
  from 2(4,5) have p: "0 \<le> i" "\<not> wi" "\<not> wj" "\<forall>t \<in> set ts. plain_token t" "\<forall>t \<in> set us. plain_token t"
    by auto
  then have i: "index_of_token w i wi = i" by (simp add: index_of_token_def)
  from 2(3) p(1) obtain xs c' where *: "cur = JList xs" "set_tokens w ts v (descend ts (padded i xs ! nat i)) = Inr c'"
    "c = JList ((padded i xs)[nat i := c'])"
    by (subst (asm) set_array) (auto simp: i)
  from 2(6) p have j: "0 \<le> j" "j < int (length xs)" "located us (xs ! nat j) \<noteq> []"
    unfolding * by (cases "0 \<le> j \<and> j < int (length xs)"; simp)+
  have lt: "nat j < length xs" using j by (simp add: nat_less_iff)
  then have nth: "padded i xs ! nat j = xs ! nat j" by (simp add: padded_def nth_append)
  show ?case
  proof (cases "i = j")
    case True
    with 2(2) have ap: "apart ts us" by simp
    from *(2) nth True have s: "set_tokens w ts v (descend ts (xs ! nat j)) = Inr c'" by simp
    have "located us c' = located us (xs ! nat j)"
      using 2(1) [OF ap s p(4,5)] located_descend [OF ap j(3)] j by simp
    with True j p nth show ?thesis by (simp add: * max_def)
  next
    case False
    with p j have "nat i \<noteq> nat j" by simp
    with j p nth show ?thesis by (simp add: * of_nat_max less_max_iff_disj)
  qed
qed simp_all

subsection \<open>A document is the sum of its leaves\<close>

definition leaves :: "json \<Rightarrow> (locator_token list \<times> json) list" where
  "leaves v = walk_leaves [] v"

lemma walk_leaves_prefix: "walk_leaves (pre @ ts) v = map (\<lambda>(us, l). (pre @ us, l)) (walk_leaves ts v)"
proof (induction ts v rule: walk_leaves.induct)
  case (1 ts d)
  then show ?case by (auto simp: map_concat o_def intro!: arg_cong [where f = concat] map_cong)
next
  case (2 ts xs)
  then show ?case by (auto simp: map_concat o_def intro!: arg_cong [where f = concat] map_cong)
qed simp_all

lemma walk_leaves_leaves: "walk_leaves ts v = map (\<lambda>(us, l). (ts @ us, l)) (leaves v)"
  using walk_leaves_prefix [of ts "[]" v] by (simp add: leaves_def)

lemma leaves_JObj: "leaves (JObj d) = (if d = [] then [([], JObj [])] else
    concat (map (\<lambda>(key, c). map (\<lambda>(us, l). (Property key (is_dynamic_property key) # us, l)) (leaves c)) d))"
  unfolding leaves_def [of "JObj d"] walk_leaves.simps
  by (auto simp: walk_leaves_leaves [of "[t]" for t] intro!: arg_cong [where f = concat] map_cong)

lemma leaves_JList: "leaves (JList xs) = (if xs = [] then [([], JList [])] else
    concat (map (\<lambda>(i, c). map (\<lambda>(us, l). (ArrayAt (int i) False # us, l)) (leaves c)) (List.enumerate 0 xs)))"
  unfolding leaves_def [of "JList xs"] walk_leaves.simps
  by (auto simp: walk_leaves_leaves [of "[t]" for t] intro!: arg_cong [where f = concat] map_cong)

text \<open>Documents as Python has them: no key twice in a dictionary.\<close>

fun wf_json :: "json \<Rightarrow> bool" where
  "wf_json (JObj d) = (distinct (map fst d) \<and> list_all (\<lambda>(_, c). wf_json c) d)"
| "wf_json (JList xs) = list_all wf_json xs"
| "wf_json _ = True"

fun write_leaves :: "(locator_token list \<times> json) list \<Rightarrow> json \<Rightarrow> json result_of" where
  "write_leaves [] doc = Inr doc"
| "write_leaves ((ts, v) # ls) doc = sbind (set_value_at_locator 0 ts v doc) (write_leaves ls)"

lemma write_leaves_append: "write_leaves (as @ bs) doc = sbind (write_leaves as doc) (write_leaves bs)"
  by (induction as doc rule: write_leaves.induct) (auto simp: sbind_def split: sum.splits)


text \<open>The same writes below a container that is being filled.\<close>

fun build :: "(locator_token list \<times> json) list \<Rightarrow> json \<Rightarrow> json result_of" where
  "build [] c = Inr c"
| "build ((ts, v) # ls) c = sbind (set_tokens 0 ts v (descend ts c)) (build ls)"

lemma build_is_write:
  "\<forall>(ts, v) \<in> set ls. ts \<noteq> [] \<and> is_array_token (hd ts) = b \<Longrightarrow>
    (case c of JList _ \<Rightarrow> b | JObj _ \<Rightarrow> \<not> b | _ \<Rightarrow> True) \<Longrightarrow> write_leaves ls c = build ls c"
proof (induction ls arbitrary: c)
  case (Cons l ls)
  obtain ts v where l: "l = (ts, v)" by (cases l)
  with Cons.prems obtain t us where ts: "ts = t # us" "is_array_token t = b" by (cases ts) auto
  have "descend ts c = (if is_container c then c else container_for t)"
    using Cons.prems(2) ts by (cases c) (auto simp: descend_def)
  moreover have "write_leaves ls c' = build ls c'" if "set_tokens 0 ts v x = Inr c'" for x c'
  proof (rule Cons.IH)
    have "has_shape t c'" using that set_tokens_shape unfolding ts by blast
    with ts show "case c' of JList _ \<Rightarrow> b | JObj _ \<Rightarrow> \<not> b | _ \<Rightarrow> True" by (cases c') auto
  qed (use Cons.prems in auto)
  ultimately show ?case
    by (cases "set_tokens 0 ts v (descend ts c)") (simp_all add: l ts(1) set_value_at_locator_def)
qed simp

lemma write_below_key:
  "ls \<noteq> [] \<Longrightarrow> build ls (dget d k) = Inr c \<Longrightarrow>
    write_leaves (map (\<lambda>(us, l). (Property k b # us, l)) ls) (JObj d) = Inr (JObj (dict_set k c d))"
proof (induction ls arbitrary: d)
  case (Cons l ls)
  obtain ts v where l: "l = (ts, v)" by (cases l)
  from Cons.prems(2) obtain c1 where c1: "set_tokens 0 ts v (descend ts (dget d k)) = Inr c1" "build ls c1 = Inr c"
    by (auto simp: l sbind_Inr_iff)
  have step: "set_value_at_locator 0 (Property k b # ts) v (JObj d) = Inr (JObj (dict_set k c1 d))"
    by (simp add: set_value_at_locator_def c1(1))
  show ?case
  proof (cases "ls = []")
    case True
    with c1 step show ?thesis by (simp add: l)
  next
    case False
    with Cons.IH [OF False, of "dict_set k c1 d"] c1(2) step show ?thesis
      by (simp add: l dget_dict_set dict_set_again)
  qed
qed simp

lemma write_below_index:
  "ls \<noteq> [] \<Longrightarrow> i \<le> length xs \<Longrightarrow> build ls (padded (int i) xs ! i) = Inr c \<Longrightarrow>
    write_leaves (map (\<lambda>(us, l). (ArrayAt (int i) False # us, l)) ls) (JList xs) = Inr (JList ((padded (int i) xs)[i := c]))"
proof (induction ls arbitrary: xs)
  case (Cons l ls)
  obtain ts v where l: "l = (ts, v)" by (cases l)
  from Cons.prems(3) obtain c1 where c1: "set_tokens 0 ts v (descend ts (padded (int i) xs ! i)) = Inr c1" "build ls c1 = Inr c"
    by (auto simp: l sbind_Inr_iff)
  let ?ys = "(padded (int i) xs)[i := c1]"
  have step: "set_value_at_locator 0 (ArrayAt (int i) False # ts) v (JList xs) = Inr (JList ?ys)"
    using c1(1) by (simp add: set_value_at_locator_def index_of_token_def Let_def)
  have pad: "padded (int i) ?ys = ?ys" using padded_update [of "int i" xs c1] by simp
  show ?case
  proof (cases "ls = []")
    case True
    with c1 step show ?thesis by (simp add: l)
  next
    case False
    have "build ls (padded (int i) ?ys ! i) = Inr c" using c1(2) by (simp only: pad) simp
    with Cons.IH [OF False, of ?ys] step show ?thesis by (simp add: l pad)
  qed
qed simp

lemma walk_leaves_not_Nil: "walk_leaves ts v \<noteq> []"
proof (induction ts v rule: walk_leaves.induct)
  case (1 ts d)
  then show ?case by (cases d) auto
next
  case (2 ts xs)
  then show ?case
  proof (cases xs)
    case (Cons x ys)
    with 2 [of "(0, x)" 0 x] have "walk_leaves (ts @ [ArrayAt (int 0) False]) x \<noteq> []" by simp
    then show ?thesis by (simp add: Cons)
  qed simp
qed simp_all

lemma leaves_not_Nil [simp]: "leaves v \<noteq> []"
  by (simp add: leaves_def walk_leaves_not_Nil)

lemma build_start:
  "\<forall>(ts, v) \<in> set ls. ts \<noteq> [] \<and> is_array_token (hd ts) = b \<Longrightarrow> ls \<noteq> [] \<Longrightarrow>
    build ls JNull = build ls (if b then JList [] else JObj [])"
  by (cases ls) (auto simp: descend_def container_for_def neq_Nil_conv)

lemma write_entries:
  "\<forall>(k, c) \<in> set d. build (leaves c) JNull = Inr c \<Longrightarrow> distinct (map fst (acc @ d)) \<Longrightarrow>
    write_leaves (concat (map (\<lambda>(key, c). map (\<lambda>(us, l). (Property key (is_dynamic_property key) # us, l)) (leaves c)) d))
      (JObj acc) = Inr (JObj (acc @ d))"
proof (induction d arbitrary: acc)
  case (Cons p d)
  obtain k c where p: "p = (k, c)" by (cases p)
  from Cons.prems(2) p have new: "map_of acc k = None" by (auto simp: map_of_eq_None_iff)
  have snoc: "dict_set k c acc = acc @ [(k, c)]"
    using new by (induction k c acc rule: dict_set.induct) (auto split: if_splits)
  have "write_leaves (map (\<lambda>(us, l). (Property k (is_dynamic_property k) # us, l)) (leaves c)) (JObj acc) =
      Inr (JObj (acc @ [(k, c)]))"
    using write_below_key [of "leaves c" acc k c "is_dynamic_property k"] Cons.prems(1) new p
    by (simp add: dget_def snoc)
  with Cons.IH [of "acc @ [(k, c)]"] Cons.prems show ?case by (simp add: p write_leaves_append)
qed simp

lemma write_items:
  "\<forall>c \<in> set ys. build (leaves c) JNull = Inr c \<Longrightarrow>
    write_leaves (concat (map (\<lambda>(i, c). map (\<lambda>(us, l). (ArrayAt (int i) False # us, l)) (leaves c)) (List.enumerate (length xs) ys)))
      (JList xs) = Inr (JList (xs @ ys))"
proof (induction ys arbitrary: xs)
  case (Cons c ys)
  have pad: "padded (int (length xs)) xs = xs @ [JNull]" by (simp add: padded_def nat_add_distrib)
  have "write_leaves (map (\<lambda>(us, l). (ArrayAt (int (length xs)) False # us, l)) (leaves c)) (JList xs) = Inr (JList (xs @ [c]))"
    using write_below_index [of "leaves c" "length xs" xs c] Cons.prems by (simp add: pad)
  with Cons.IH [of "xs @ [c]"] Cons.prems show ?case by (simp add: write_leaves_append)
qed simp

lemma leaves_rebuild: "wf_json v \<Longrightarrow> write_leaves (leaves v) JNull = Inr v \<and> build (leaves v) JNull = Inr v"
proof (induction v)
  case (JList xs)
  show ?case
  proof (cases "xs = []")
    case False
    let ?ls = "leaves (JList xs)"
    have hd: "\<forall>(ts, v) \<in> set ?ls. ts \<noteq> [] \<and> is_array_token (hd ts) = True"
      using False by (auto simp: leaves_JList)
    note b = build_is_write [OF hd]
    have "build ?ls JNull = build ?ls (JList [])"
      using build_start [OF hd] by simp
    with b [of JNull] b [of "JList []"] write_items [of xs "[]"] False JList show ?thesis
      by (simp add: leaves_JList list_all_iff)
  qed (simp add: leaves_JList set_value_at_locator_def)
next
  case (JObj d)
  show ?case
  proof (cases "d = []")
    case False
    let ?ls = "leaves (JObj d)"
    have hd: "\<forall>(ts, v) \<in> set ?ls. ts \<noteq> [] \<and> is_array_token (hd ts) = False"
      using False by (auto simp: leaves_JObj)
    note b = build_is_write [OF hd]
    have "build ?ls JNull = build ?ls (JObj [])"
      using build_start [OF hd] by simp
    moreover have "\<forall>(k, c) \<in> set d. build (leaves c) JNull = Inr c"
      using JObj by (fastforce simp: list_all_iff)
    ultimately show ?thesis
      using b [of JNull] b [of "JObj []"] write_entries [of d "[]"] False JObj.prems
      by (simp add: leaves_JObj)
  qed (simp add: leaves_JObj set_value_at_locator_def)
qed (simp_all add: leaves_def set_value_at_locator_def)


subsection \<open>Paths determine their tokens\<close>

lemma strip_arrays_none: "\<not> ends_with ''[]'' s \<Longrightarrow> strip_arrays s = (s, 0)"
  by (subst strip_arrays.simps) simp

lemma strip_arrays_mark: "strip_arrays (s @ ''[]'') = (fst (strip_arrays s), snd (strip_arrays s) + 1)"
  by (subst strip_arrays.simps) (simp add: ends_with_suffix suffix_def split: prod.splits)

lemma ends_contains: "ends_with p s \<Longrightarrow> contains p s"
  by (simp add: ends_with_suffix contains_sublist suffix_imp_sublist)

text \<open>The text of a token in a raw path, and the tokens a dotted path can express.\<close>

fun segment_of :: "locator_token \<Rightarrow> string" where
  "segment_of (Property key _) = key"
| "segment_of (ArrayAt index _) = str_of_int index"
| "segment_of Unsupported = []"

fun instance_token :: "bool \<Rightarrow> locator_token \<Rightarrow> bool" where
  "instance_token first (Property key dynamic) \<longleftrightarrow>
     key \<noteq> [] \<and> CHR ''.'' \<notin> set key \<and> \<not> contains ''[]'' key \<and> dynamic = is_dynamic_property key \<and>
     (first \<or> \<not> (py_isdigit key \<and> digits_value 0 key \<le> 10000))"
| "instance_token first (ArrayAt index wildcard) \<longleftrightarrow> \<not> first \<and> \<not> wildcard \<and> 0 \<le> index \<and> index \<le> 10000"
| "instance_token first Unsupported = False"

definition instance_path :: "locator_token list \<Rightarrow> bool" where
  "instance_path ts = (case ts of [] \<Rightarrow> True
     | t # us \<Rightarrow> instance_token True t \<and> list_all (instance_token False) us)"

lemma add_instance_tokens:
  "list_all (\<lambda>t. \<exists>first. instance_token first t) ts \<Longrightarrow> pp_raw (foldl add_token p ts) = pp_raw p @ map segment_of ts"
proof (induction ts arbitrary: p)
  case (Cons t ts)
  have "pp_raw (add_token p t) = pp_raw p @ [segment_of t]"
    using Cons.prems by (cases t) auto
  with Cons show ?case by simp
qed simp

lemma instance_segment:
  assumes "instance_token first t"
  shows "segment_of t \<noteq> []" "CHR ''.'' \<notin> set (segment_of t)" "\<not> contains ''[]'' (segment_of t)"
proof -
  have digits: "c \<notin> set (str_of_int i)" if "0 \<le> i" "\<not> is_digit c" for i c
    using that not_digit_in_str_of_nat by (simp add: str_of_int_def)
  have "\<not> contains ''[]'' (str_of_int i)" if "0 \<le> i" for i
    using digits [OF that, of "CHR ''[''"] by (auto simp: contains_sublist is_digit_def sublist_def)
  moreover have "str_of_int i \<noteq> []" if "0 \<le> i" for i
    using that str_of_nat_digits [of "nat i"] by (auto simp: str_of_int_def py_isdigit_def)
  ultimately show "segment_of t \<noteq> []" "CHR ''.'' \<notin> set (segment_of t)" "\<not> contains ''[]'' (segment_of t)"
    using assms digits by (cases t; auto simp: is_digit_def)+
qed

lemma instance_segment_tokens:
  assumes "instance_token (i = 0) t"
  shows "segment_tokens False i (segment_of t) = [t]"
proof -
  have "strip_arrays (segment_of t) = (segment_of t, 0)"
    using instance_segment(3) [OF assms] ends_contains strip_arrays_none by blast
  with instance_segment(1) [OF assms] assms str_of_nat_digits show ?thesis
    by (cases t) (auto simp: segment_tokens_def str_of_int_def)
qed

lemma instance_tokens_from:
  "list_all (instance_token False) ts \<Longrightarrow> 0 < n \<Longrightarrow>
    concat (map (\<lambda>(i, seg). segment_tokens False i seg) (List.enumerate n (map segment_of ts))) = ts"
  by (induction ts arbitrary: n) (auto simp: instance_segment_tokens)

lemma instance_path_tokens:
  assumes "instance_path ts"
  shows "tokens_from_path None (raw_path ts) = ts"
proof (cases ts)
  case Nil
  then show ?thesis
    by (simp add: raw_path_def parts_of_def tokens_from_path_def segment_tokens_def)
next
  case (Cons t us)
  with assms have t: "instance_token True t" and us: "list_all (instance_token False) us"
    by (simp_all add: instance_path_def)
  then have all: "list_all (\<lambda>t. \<exists>first. instance_token first t) ts"
    by (auto simp: Cons list_all_iff)
  have raw: "raw_path ts = join ''.'' (map segment_of ts)"
    using add_instance_tokens [OF all] by (simp add: raw_path_def parts_of_def)
  have seg: "\<forall>s \<in> set (map segment_of ts). CHR ''.'' \<notin> set s \<and> \<not> contains ''[]'' s"
    using all instance_segment by (fastforce simp: list_all_iff)
  have "split_on (CHR ''.'') (join ''.'' (map segment_of ts)) = map segment_of ts"
    by (rule split_join) (use seg Cons in auto)
  moreover have "\<not> contains ''[]'' (join ''.'' (map segment_of ts))"
    using contains_join [of "CHR ''.''" "''[]''" "map segment_of ts"] seg by auto
  ultimately show ?thesis
    using instance_segment_tokens [of 0 t] instance_tokens_from [OF us, of 1] t
    by (simp add: raw [unfolded Cons] tokens_from_path_def path_is_schema_def Cons)
qed

text \<open>Schema paths: every array is a wildcard.\<close>

fun schema_token :: "locator_token \<Rightarrow> bool" where
  "schema_token (Property key dynamic) \<longleftrightarrow>
     key \<noteq> [] \<and> CHR ''.'' \<notin> set key \<and> \<not> ends_with ''[]'' key \<and> dynamic = is_dynamic_property key"
| "schema_token (ArrayAt index wildcard) \<longleftrightarrow> wildcard \<and> index = 0"
| "schema_token Unsupported = False"

lemma schema_segment: "segment_tokens True i s = (if s = [] then [] else
    (if fst (strip_arrays s) = [] then []
     else [Property (fst (strip_arrays s)) (is_dynamic_property (fst (strip_arrays s)))]) @
    replicate (snd (strip_arrays s)) (ArrayAt 0 True))"
  by (cases "strip_arrays s") (auto simp: segment_tokens_def)

lemma schema_segment_mark: "s \<noteq> [] \<Longrightarrow> segment_tokens True i (s @ ''[]'') = segment_tokens True i s @ [ArrayAt 0 True]"
  by (simp add: schema_segment strip_arrays_mark replicate_append_same)

lemma schema_parts:
  "list_all schema_token ts \<Longrightarrow>
    concat (map (segment_tokens True 0) (pp_raw (parts_of ts))) = ts \<and>
    (\<forall>s \<in> set (pp_raw (parts_of ts)). s \<noteq> [] \<and> CHR ''.'' \<notin> set s) \<and>
    pp_schema (parts_of ts) = pp_raw (parts_of ts) \<and>
    ((\<exists>i. ArrayAt i True \<in> set ts) \<longrightarrow> (\<exists>s \<in> set (pp_raw (parts_of ts)). contains ''[]'' s))"
proof (induction ts rule: rev_induct)
  case Nil
  then show ?case by (simp add: parts_of_def)
next
  case (snoc t ts)
  have p: "parts_of (ts @ [u]) = add_token (parts_of ts) u" for u by (simp add: parts_of_def)
  show ?case
  proof (cases t)
    case (Property key dyn)
    with snoc.prems have "segment_tokens True 0 key = [t]" by (simp add: schema_segment strip_arrays_none)
    with snoc Property show ?thesis by (auto simp: p)
  next
    case (ArrayAt i wild)
    have marked: "contains ''[]'' (s @ ''[]'')" for s by (simp add: ends_contains ends_with_suffix suffix_def)
    have first: "segment_tokens True 0 ''[]'' = [ArrayAt 0 True]"
      using strip_arrays_mark [of "[]"] by (simp add: schema_segment strip_arrays_none ends_with_def starts_with_def)
    show ?thesis
    proof (cases "pp_raw (parts_of ts)" rule: rev_cases)
      case Nil
      have "contains ''[]'' ''[]''" using marked [of "[]"] by (simp only: append_Nil)
      with Nil snoc ArrayAt first show ?thesis unfolding p by (auto simp add: mark_array_def simp del: contains.simps)
    next
      case (snoc ss s)
      with snoc.IH snoc.prems ArrayAt marked [of s] show ?thesis
        unfolding p by (auto simp: mark_array_def schema_segment_mark)
    qed
  qed (use snoc in auto)
qed

lemma schema_path_tokens:
  assumes "list_all schema_token ts"
  shows "tokens_from_path (Some True) (raw_path ts) = ts"
    and "ArrayAt i True \<in> set ts \<Longrightarrow> tokens_from_path None (raw_path ts) = ts"
    and "schema_path ts = raw_path ts"
proof -
  note sp = schema_parts [OF assms]
  have index: "segment_tokens True i s = segment_tokens True 0 s" for i s
    by (simp add: schema_segment)
  have "concat (map (\<lambda>(i, seg). segment_tokens True i seg) (List.enumerate n ss)) =
      concat (map (segment_tokens True 0) ss)" for n ss
    by (induction ss arbitrary: n) (simp_all add: schema_segment)
  then have all: "concat (map (\<lambda>(i, seg). segment_tokens True i seg)
      (List.enumerate 0 (split_on (CHR ''.'') (raw_path ts)))) = ts"
    using sp by (cases "pp_raw (parts_of ts) = []")
      (auto simp: raw_path_def split_join schema_segment)
  then show "tokens_from_path (Some True) (raw_path ts) = ts"
    by (simp add: tokens_from_path_def path_is_schema_def)
  show "tokens_from_path None (raw_path ts) = ts" if "ArrayAt i True \<in> set ts"
  proof -
    have "contains ''[]'' (raw_path ts)"
      using sp that contains_join [of "CHR ''.''" "''[]''" "pp_raw (parts_of ts)"]
      by (auto simp: raw_path_def)
    with all show ?thesis by (simp add: tokens_from_path_def path_is_schema_def)
  qed
  show "schema_path ts = raw_path ts" using sp by (simp add: schema_path_def raw_path_def)
qed


lemma materialize_writes:
  "\<forall>(ts, v) \<in> set ls. tokens_from_path None (raw_path ts) = ts \<Longrightarrow>
    materialize id (map (\<lambda>(ts, v). (raw_path ts, v)) ls) doc = write_leaves ls doc"
proof (induction ls arbitrary: doc)
  case (Cons l ls)
  obtain ts v where l: "l = (ts, v)" by (cases l)
  have "lo_tokens (locator_from_path path direction position None) = tokens_from_path None path"
    for path direction position
    by (simp add: locator_from_path_def locator_from_tokens_def tokens_from_path_def path_is_schema_def Let_def)
  with Cons.prems have "set_value_at_path (raw_path ts) v None = set_value_at_locator 0 ts v"
    by (simp add: l set_value_at_path_def fun_eq_iff)
  with Cons show ?case by (simp add: l sbind_def split: sum.splits)
qed simp

section \<open>Properties\<close>

text \<open>Extraction is the bounded selection. The traversal with its accumulator, its early returns and
  its breaks yields exactly the first \<open>limit\<close> of the values at the location, in document order, and
  none for a limit below one.\<close>

theorem extraction_is_bounded_selection:
  "extract_values_at_locator ts limit doc = take (nat limit) (located ts doc)"
  by (rule extract_take)


text \<open>When writing fails. Through a locator of supported tokens (any mixture of keys, indices and
  wildcards) a write fails exactly when the document is a list where the first token is a key, or an
  object where it is an index; deeper containers of the wrong kind are replaced.\<close>

theorem write_fails_on_shape:
  assumes "\<forall>t \<in> set ts. settable_token t" "0 \<le> w"
  shows "succeeds (set_value_at_locator w ts v doc) \<longleftrightarrow>
    ts = [] \<or> \<not> is_container doc \<or> has_shape (hd ts) doc"
proof (cases ts)
  case (Cons t us)
  let ?doc = "if is_container doc then doc else container_for t"
  have "set_tokens w ts v ?doc = Inr c \<Longrightarrow> has_shape t ?doc" for c
    using assms unfolding Cons by (cases t; cases ?doc) auto
  moreover have "has_shape t ?doc \<Longrightarrow> \<exists>c. set_tokens w ts v ?doc = Inr c"
    using set_tokens_total [of ts w ?doc v] assms by (simp add: Cons)
  moreover have "has_shape t (container_for t)" by (simp add: container_for_def)
  ultimately show ?thesis
    by (auto simp: Cons set_value_at_locator_def succeeds_iff split: if_splits)
qed (simp add: set_value_at_locator_def)

text \<open>C37: A document is determined by its leaves. Writing the leaves that \<open>iter_json_leaf_occurrences\<close>
  yields, one after the other, through their typed locators, into nothing, rebuilds the document
  exactly; and if every leaf is at a place a dotted path can express, \<open>materialize_flat_json\<close> rebuilds
  it from the raw paths of the locators alone.\<close>

theorem document_from_leaves:
  assumes "wf_json doc"
  shows "write_leaves (map (\<lambda>(lo, v). (lo_tokens lo, v)) (iter_json_leaf_occurrences doc direction position)) JNull = Inr doc \<and>
    ((\<forall>(lo, v) \<in> set (iter_json_leaf_occurrences doc direction position). instance_path (lo_tokens lo)) \<longrightarrow>
     materialize_flat_json id (map (\<lambda>(lo, v). (lo_raw_path lo, v)) (iter_json_leaf_occurrences doc direction position)) =
       Inr (if doc = JNull then JObj [] else doc))"
proof -
  have occ: "iter_json_leaf_occurrences doc direction position =
      map (\<lambda>(ts, v). (locator_from_tokens ts [] direction position ''instance'', v)) (leaves doc)"
    by (simp add: iter_json_leaf_occurrences_def leaves_def)
  have "map (\<lambda>(lo, v). (lo_tokens lo, v)) (iter_json_leaf_occurrences doc direction position) = leaves doc"
    by (simp add: occ o_def case_prod_unfold locator_from_tokens_def Let_def)
  moreover have "map (\<lambda>(lo, v). (lo_raw_path lo, v)) (iter_json_leaf_occurrences doc direction position) =
      map (\<lambda>(ts, v). (raw_path ts, v)) (leaves doc)"
    by (simp add: occ o_def case_prod_unfold locator_from_tokens_def Let_def)
  moreover have "\<forall>(ts, v) \<in> set (leaves doc). tokens_from_path None (raw_path ts) = ts"
    if "\<forall>(lo, v) \<in> set (iter_json_leaf_occurrences doc direction position). instance_path (lo_tokens lo)"
    using that instance_path_tokens by (fastforce simp: occ locator_from_tokens_def Let_def)
  ultimately show ?thesis
    using leaves_rebuild [OF assms] materialize_writes [of "leaves doc" JNull]
    by (simp add: materialize_flat_json_def)
qed

text \<open>A path determines its tokens. Printing a location as a raw path and parsing it gives the tokens
  back: for concrete locations whose keys contain no dot and no \<open>[]\<close> and are not small numbers below
  the first level, and for schema locations with wildcards only.\<close>

theorem path_determines_tokens:
  assumes "instance_path ts \<or> list_all schema_token ts \<and> ArrayAt 0 True \<in> set ts"
  shows "lo_tokens (locator_from_path (raw_path ts) direction position None) = ts"
proof -
  have "lo_tokens (locator_from_path path direction position None) = tokens_from_path None path" for path
    by (simp add: locator_from_path_def locator_from_tokens_def tokens_from_path_def path_is_schema_def Let_def)
  with assms instance_path_tokens schema_path_tokens(2) show ?thesis by metis
qed

text \<open>What dotted paths cannot express: a list at the top is rebuilt as an object, and a numeric key
  below the top as a list.\<close>

lemma root_list_becomes_object:
  "materialize_flat_json id [(raw_path [ArrayAt 0 False, Property ''id'' False], JInt 7)] =
    Inr (JObj [(''0'', JObj [(''id'', JInt 7)])])"
  by code_simp

lemma numeric_key_becomes_index:
  "materialize_flat_json id [(raw_path [Property ''by'' False, Property ''1'' False], JInt 7)] =
    Inr (JObj [(''by'', JList [JNull, JInt 7])])"
  by code_simp


theorem write_fails_on_shape_witness:
  "\<not> succeeds (set_value_at_locator 0 [ArrayAt 0 True, Property ''id'' False] (JInt 1) (JObj []))"
  using write_fails_on_shape [of "[ArrayAt 0 True, Property ''id'' False]" 0 "JInt 1" "JObj []"] by simp

theorem document_from_leaves_witness:
  "materialize_flat_json id (map (\<lambda>(lo, v). (lo_raw_path lo, v))
     (iter_json_leaf_occurrences (JObj [(''a'', JList [JInt 1, JObj []])]) [] [])) =
     Inr (JObj [(''a'', JList [JInt 1, JObj []])])"
proof -
  let ?doc = "JObj [(''a'', JList [JInt 1, JObj []])]"
  have "list_all (\<lambda>(lo, v). instance_path (lo_tokens lo)) (iter_json_leaf_occurrences ?doc [] [])"
    by code_simp
  then show ?thesis using document_from_leaves [of ?doc "[]" "[]"] by (simp add: list_all_iff)
qed

theorem path_determines_tokens_witness:
  "lo_tokens (locator_from_path (raw_path [Property ''a'' False, ArrayAt 0 True]) [] [] None) =
    [Property ''a'' False, ArrayAt 0 True]"
  by (rule path_determines_tokens) code_simp

end
