(* ===== verification/UrlQuery.thy ===== *)
theory UrlQuery
  imports UrlText PyText
begin

text \<open>
  What the request composition uses of \<open>urllib.parse\<close> for query strings: \<open>parse_qsl\<close> with blank values
  kept, \<open>urlencode\<close> with \<open>doseq\<close>, \<open>quote_plus\<close>, and \<open>urlunsplit\<close>. A string stands for its UTF-8 bytes,
  which is what these functions encode.
\<close>

definition unreserved :: "char \<Rightarrow> bool" where
  "unreserved c = (let n = (of_char c :: nat) in
     (97 \<le> n \<and> n \<le> 122) \<or> (65 \<le> n \<and> n \<le> 90) \<or> (48 \<le> n \<and> n \<le> 57) \<or> n = 95 \<or> n = 46 \<or> n = 45 \<or> n = 126)"

definition upper_hex :: "nat \<Rightarrow> char" where
  "upper_hex n = (if n < 10 then char_of (48 + n) else char_of (55 + n))"

definition quote_char :: "char \<Rightarrow> string" where
  "quote_char c = (if unreserved c then [c] else if c = CHR '' '' then ''+''
     else (let n = (of_char c :: nat) in [CHR ''%'', upper_hex (n div 16), upper_hex (n mod 16)]))"

definition quote_plus :: "string \<Rightarrow> string" where
  "quote_plus s = concat (map quote_char s)"

definition hex_value :: "char \<Rightarrow> nat" where
  "hex_value c = (let n = (of_char (lower_char c) :: nat) in if n < 58 then n - 48 else n - 87)"

text \<open>\<open>unquote(s.replace("+", " "))\<close>; a \<open>%\<close> without two hexadecimal digits stays.\<close>

fun unquote_plus :: "string \<Rightarrow> string" where
  "unquote_plus (c # a # b # s) =
     (if c = CHR ''%'' \<and> is_hex a \<and> is_hex b then char_of (16 * hex_value a + hex_value b) # unquote_plus s
      else (if c = CHR ''+'' then CHR '' '' else c) # unquote_plus (a # b # s))"
| "unquote_plus (c # s) = (if c = CHR ''+'' then CHR '' '' else c) # unquote_plus s"
| "unquote_plus [] = []"

type_synonym query_pair = "string \<times> string"

definition parse_pair :: "string \<Rightarrow> query_pair" where
  "parse_pair s = (unquote_plus (before (CHR ''='') s), unquote_plus (after_first (CHR ''='') s))"

definition parse_qsl :: "string \<Rightarrow> query_pair list" where
  "parse_qsl qs = map parse_pair (filter (\<lambda>s. s \<noteq> []) (split_on (CHR ''&'') qs))"

text \<open>The values of one key under \<open>doseq\<close>: strings and scalars alone, lists item by item, dictionaries
  key by key.\<close>

fun query_values :: "json \<Rightarrow> string list" where
  "query_values (JList xs) = map py_str xs"
| "query_values (JObj d) = map fst d"
| "query_values v = [py_str v]"

definition encode_pair :: "query_pair \<Rightarrow> string" where
  "encode_pair p = quote_plus (fst p) @ ''='' @ quote_plus (snd p)"

definition query_pairs :: "(string \<times> json) list \<Rightarrow> query_pair list" where
  "query_pairs items = concat (map (\<lambda>(k, v). map (\<lambda>t. (k, t)) (query_values v)) items)"

definition urlencode :: "(string \<times> json) list \<Rightarrow> string" where
  "urlencode items = join ''&'' (map encode_pair (query_pairs items))"

definition USES_NETLOC :: "string list" where
  "USES_NETLOC = ['''', ''ftp'', ''http'', ''gopher'', ''nntp'', ''telnet'', ''imap'', ''wais'', ''file'', ''mms'',
     ''https'', ''shttp'', ''snews'', ''prospero'', ''rtsp'', ''rtsps'', ''rtspu'', ''rsync'', ''svn'', ''svn+ssh'',
     ''sftp'', ''nfs'', ''git'', ''git+ssh'', ''ws'', ''wss'', ''itms-services'']"

definition urlunsplit :: "split_url \<Rightarrow> string" where
  "urlunsplit u =
     (let path = (if url_netloc u \<noteq> [] \<or>
             (url_scheme u \<noteq> [] \<and> url_scheme u \<in> set USES_NETLOC \<and> take 2 (url_path u) \<noteq> ''//'')
          then ''//'' @ url_netloc u @ (if url_path u \<noteq> [] \<and> hd (url_path u) \<noteq> CHR ''/'' then ''/'' else []) @ url_path u
          else url_path u)
      in (if url_scheme u \<noteq> [] then url_scheme u @ '':'' else []) @ path @
         (if url_query u \<noteq> [] then ''?'' @ url_query u else []) @
         (if url_fragment u \<noteq> [] then ''#'' @ url_fragment u else []))"

section \<open>Facts\<close>

lemma upper_hex_hex:
  assumes "n < 16"
  shows "is_hex (upper_hex n) \<and> hex_value (upper_hex n) = n \<and> unreserved (upper_hex n)"
proof (cases "n < 10")
  case True
  then have "(of_char (upper_hex n) :: nat) = 48 + n" by (simp add: upper_hex_def)
  with True show ?thesis
    by (simp add: is_hex_def is_digit_def hex_value_def lower_char_def unreserved_def)
next
  case False
  with assms have c: "(of_char (upper_hex n) :: nat) = 55 + n" by (simp add: upper_hex_def)
  with False assms have "(of_char (lower_char (upper_hex n)) :: nat) = 87 + n" by (simp add: lower_char_def)
  with c False assms show ?thesis
    by (simp add: is_hex_def is_digit_def hex_value_def unreserved_def)
qed

lemma char_digits: "(of_char c :: nat) div 16 < 16" "(of_char c :: nat) mod 16 < 16"
  by (rule less_mult_imp_div_less) simp_all

lemma unquote_plain: "c \<noteq> CHR ''%'' \<Longrightarrow> unquote_plus (c # s) = (if c = CHR ''+'' then CHR '' '' else c) # unquote_plus s"
  by (cases s; cases "tl s") auto

lemma unquote_quote_char: "unquote_plus (quote_char c @ s) = c # unquote_plus s"
proof -
  consider "unreserved c" | "\<not> unreserved c" "c = CHR '' ''" | "\<not> unreserved c" "c \<noteq> CHR '' ''" by blast
  then show ?thesis
  proof cases
    case 1
    then have "c \<noteq> CHR ''%''" "c \<noteq> CHR ''+''" by (auto simp: unreserved_def)
    with 1 show ?thesis by (simp add: quote_char_def unquote_plain)
  next
    case 2
    then show ?thesis by (simp add: quote_char_def unquote_plain)
  next
    case 3
    with upper_hex_hex [OF char_digits(1)] upper_hex_hex [OF char_digits(2)] show ?thesis
      by (simp add: quote_char_def Let_def)
  qed
qed

lemma unquote_quote_plus: "unquote_plus (quote_plus s) = s"
  by (induction s) (simp_all add: quote_plus_def unquote_quote_char)

lemma quote_plus_chars: "c \<in> set (quote_plus s) \<Longrightarrow> unreserved c \<or> c = CHR ''+'' \<or> c = CHR ''%''"
  using upper_hex_hex [OF char_digits(1)] upper_hex_hex [OF char_digits(2)]
  by (auto simp: quote_plus_def quote_char_def Let_def split: if_splits)

lemma separators: "\<not> (unreserved c \<or> c = CHR ''+'' \<or> c = CHR ''%'')" if "c \<in> {CHR ''&'', CHR ''='', CHR ''#''}"
proof -
  have "list_all (\<lambda>c. \<not> (unreserved c \<or> c = CHR ''+'' \<or> c = CHR ''%'')) [CHR ''&'', CHR ''='', CHR ''#'']"
    by code_simp
  with that show ?thesis by auto
qed

lemma quote_plus_sep: "CHR ''&'' \<notin> set (quote_plus s)" "CHR ''='' \<notin> set (quote_plus s)" "CHR ''#'' \<notin> set (quote_plus s)"
  using quote_plus_chars separators by blast+

lemma before_sep: "c \<notin> set a \<Longrightarrow> before c (a @ c # b) = a \<and> after_first c (a @ c # b) = b"
  by (induction a) (auto simp: before_def after_first_def)

lemma parse_encode_pair: "parse_pair (encode_pair p) = p"
  using before_sep [OF quote_plus_sep(2), of "fst p" "quote_plus (snd p)"]
  by (simp add: parse_pair_def encode_pair_def unquote_quote_plus)

text \<open>Parsing what was encoded.\<close>

lemma parse_urlencode: "parse_qsl (urlencode items) = query_pairs items"
proof (cases "query_pairs items = []")
  case True
  then show ?thesis by (simp add: parse_qsl_def urlencode_def)
next
  case False
  let ?ps = "map encode_pair (query_pairs items)"
  have amp: "\<forall>s \<in> set ?ps. CHR ''&'' \<notin> set s \<and> s \<noteq> []"
    using quote_plus_sep by (auto simp: encode_pair_def)
  then have "split_on (CHR ''&'') (join ''&'' ?ps) = ?ps" using False by (intro split_join) auto
  moreover have "filter (\<lambda>s. s \<noteq> []) ?ps = ?ps" using amp by (simp add: filter_id_conv)
  ultimately show ?thesis by (simp add: parse_qsl_def urlencode_def parse_encode_pair o_def map_idI)
qed

end
