(* ===== verification/ComposeRequest.thy ===== *)
theory ComposeRequest
  imports ParameterLocator ParameterResolution UrlQuery Store
begin

text \<open>
  Composing an executable request from the parsed parameters of an endpoint (\<open>compose_request.py\<close>):
  every parameter gets a value from its sample, a dependency, a relation, the archive or a default; the
  value goes to its place in the request; and where it came from is recorded, for the gate of theory
  \<open>ParameterSources\<close> to see when the request is judged.

  \<open>None\<close> is \<open>JNull\<close>. A stored locator is a \<open>locator\<close> record. The asset, its parsed parameters, its samples
  and the parameter collections are in \<open>asset_db\<close>.
\<close>

record raw_asset =
  ra_id :: oid
  ra_ptah_id :: int
  ra_project_id :: string
  ra_env_id :: string
  ra_import_run_id :: string
  ra_source_meta :: "json dict"
  ra_method :: string
  ra_url :: string
  ra_path :: string
  ra_domain :: string
  ra_query :: "json dict"
  ra_headers :: "json dict"
  ra_raw_req :: "json list"
  ra_raw_res :: "json list"
  ra_response_status_code :: "int list"
  ra_action :: string
  ra_rule :: string
  ra_tags :: string
  ra_des :: string

record request_entry =
  rq_raw_id :: oid
  rq_parameter :: string
  rq_values :: "json list"
  rq_position :: string
  rq_direction :: string
  rq_type :: string
  rq_required :: bool
  rq_content_type :: string
  rq_canonical_name :: string
  rq_schema_path :: string
  rq_locator :: "locator option"
  rq_import_locator :: "locator option"

record request_sample =
  sp_id :: oid
  sp_raw_id :: oid
  sp_project_id :: string
  sp_env_id :: string
  sp_account_id :: string
  sp_last_seen :: time
  sp_url :: string
  sp_query :: "json dict"
  sp_headers :: "json dict"
  sp_body :: json
  sp_response_sample :: json
  sp_response_status_code :: "int option"

record asset_db = parameter_db +
  as_assets :: "raw_asset list"
  as_entries :: "request_entry list"
  as_samples :: "request_sample list"

section \<open>The value of one parameter\<close>

definition first_value :: "json list \<Rightarrow> json" where
  "first_value vs = (case vs of [] \<Rightarrow> JNull | v # _ \<Rightarrow> v)"

definition archived_for :: "string \<Rightarrow> int \<Rightarrow> string \<Rightarrow> string \<Rightarrow> 'a parameter_db_scheme \<Rightarrow> archive_row list" where
  "archived_for name pathid project env s = filter (\<lambda>r. ar_parameter r = name \<and> pathid \<in> set (ar_req_pathid r) \<and>
     bound_to project (ar_project_id r) \<and> bound_to env (ar_env_id r)) (pa_archive s)"

text \<open>\<open>.first()\<close>, if it has request values.\<close>

definition first_sampled :: "archive_row list \<Rightarrow> archive_row option" where
  "first_sampled rows = (case rows of [] \<Rightarrow> None | r # _ \<Rightarrow> if ar_req_value r = [] then None else Some r)"

definition lookup_archive_value :: "string \<Rightarrow> int \<Rightarrow> string \<Rightarrow> string \<Rightarrow> string \<Rightarrow> 'a parameter_db_scheme \<Rightarrow>
    json \<times> string \<times> string" where
  "lookup_archive_value name pathid account project env s =
     (let base = archived_for name pathid project env s in
      if account = []
      then (case first_sampled base of
          Some r \<Rightarrow> (first_value (ar_req_value r), SOURCE_PARAMETER_ARCHIVE, VALUE_QUALITY_SAMPLED)
        | None \<Rightarrow> (JNull, [], VALUE_QUALITY_UNKNOWN))
      else case first_sampled (filter (\<lambda>r. ar_account_id r = account) base) of
          Some r \<Rightarrow> (first_value (ar_req_value r), SOURCE_PARAMETER_ARCHIVE, VALUE_QUALITY_SAMPLED)
        | None \<Rightarrow> (case find (\<lambda>r. ar_account_id r = [] \<and> ar_req_value r \<noteq> []) base of
            Some r \<Rightarrow> (first_value (ar_req_value r), SOURCE_PARAMETER_ARCHIVE_PROJECT_SCOPED, VALUE_QUALITY_SAMPLED)
          | None \<Rightarrow> (JNull, [], VALUE_QUALITY_UNKNOWN)))"

definition default_for_missing_parameter :: "string \<Rightarrow> string \<Rightarrow> string \<Rightarrow> bool \<Rightarrow> json" where
  "default_for_missing_parameter name position param_type required =
     (let low = py_lower (last (split_on (CHR ''.'') name)); typ = py_lower param_type in
      if \<not> required \<and> position \<in> {''query'', ''header'', ''cookie'', ''body''} then JNull
      else if position = ''query'' \<and> low = ''offset'' then JInt 0
      else if position = ''query'' \<and> low = ''limit'' then JInt 10
      else if position = ''query'' \<and> (typ = ''array'' \<or> ends_with ''ids'' low) then JList []
      else if position = ''query'' \<and> typ \<in> {''integer'', ''int'', ''int32'', ''int64'', ''number''} then JInt 0
      else if position = ''query'' \<and> typ \<in> {''boolean'', ''bool''} then JBool False
      else if position = ''body'' \<and> (typ = ''array'' \<or> ends_with ''[]'' low) then JList []
      else JStr [])"

definition endpoint_relation_value :: "string \<Rightarrow> int \<Rightarrow> string \<Rightarrow> string \<Rightarrow> parameter_db \<Rightarrow> (json \<times> scored_relation) option" where
  "endpoint_relation_value name pathid project env s = first_trusted (relations_named name pathid project env s)"

record filled_value =
  fv_value :: json
  fv_source :: string
  fv_quality :: string
  fv_dependency :: "source_meta option"

text \<open>The chain of fallbacks in the loop of \<open>build_request_payload\<close>; \<open>parameter_db.truncate\<close> forgets the
  assets.\<close>

definition dependency_value :: "request_entry \<Rightarrow> int \<Rightarrow> string \<Rightarrow> string \<Rightarrow> string \<Rightarrow> parameter_db \<Rightarrow> filled_value" where
  "dependency_value e pathid account project env s =
     (case resolve_parameter_value (rq_parameter e) pathid account True project env s of (found, meta) \<Rightarrow>
       (let v = (case found of Some v \<Rightarrow> if no_value v then JNull else v | None \<Rightarrow> JNull) in
        if v \<noteq> JNull
        then \<lparr>fv_value = v, fv_source = str_or (sm_source meta) SOURCE_PARAMETER_DEPENDENCY,
          fv_quality = str_or (sm_value_quality meta) VALUE_QUALITY_UNKNOWN, fv_dependency = Some meta\<rparr>
        else case endpoint_relation_value (rq_parameter e) pathid project env s of
            Some (v, _) \<Rightarrow> \<lparr>fv_value = v, fv_source = SOURCE_PARAMETER_RELATION,
              fv_quality = VALUE_QUALITY_UNKNOWN, fv_dependency = Some meta\<rparr>
          | None \<Rightarrow> (case lookup_archive_value (rq_parameter e) pathid account project env s of
              (v, source, quality) \<Rightarrow>
                \<lparr>fv_value = v, fv_source = source, fv_quality = quality, fv_dependency = Some meta\<rparr>)))"

definition entry_position :: "request_entry \<Rightarrow> string" where
  "entry_position e = str_or (rq_position e) ''body''"

definition fill_value :: "request_entry \<Rightarrow> int \<Rightarrow> string \<Rightarrow> string \<Rightarrow> string \<Rightarrow> parameter_db \<Rightarrow> filled_value" where
  "fill_value e pathid account project env s =
     (let own = first_value (rq_values e);
          f = (if own \<noteq> JNull
               then \<lparr>fv_value = own, fv_source = SOURCE_REQ_DATA, fv_quality = VALUE_QUALITY_UNKNOWN, fv_dependency = None\<rparr>
               else dependency_value e pathid account project env s)
      in if fv_value f = JNull
         then f\<lparr>fv_value := default_for_missing_parameter (rq_parameter e) (entry_position e) (rq_type e) (rq_required e),
           fv_source := SOURCE_EMPTY_DEFAULT, fv_quality := VALUE_QUALITY_UNKNOWN\<rparr>
         else f)"

text \<open>The honest label of a value that is sent.\<close>

definition labelled_quality :: "filled_value \<Rightarrow> string" where
  "labelled_quality f = (if fv_source f = SOURCE_EMPTY_DEFAULT then VALUE_QUALITY_PLACEHOLDER
     else if fv_quality f \<noteq> VALUE_QUALITY_OBSERVED \<and> is_placeholder_value (fv_value f) then VALUE_QUALITY_PLACEHOLDER
     else fv_quality f)"

section \<open>The request\<close>

record source_entry = param_meta +
  se_position :: string
  se_type :: string
  se_dependency :: "source_meta option"
  se_canonical_name :: string
  se_schema_path :: string
  se_locator :: "(int \<times> string \<times> string) option"

record composition =
  co_query :: "json dict"
  co_headers :: "json dict"
  co_path :: "json dict"
  co_cookies :: "json dict"
  co_body :: json
  co_content_type :: json
  co_sources :: "source_entry dict"

definition entry_locator :: "request_entry \<Rightarrow> locator" where
  "entry_locator e = (case rq_locator e of
     Some lo \<Rightarrow> lo
   | None \<Rightarrow> parameter_locator (rq_parameter e) (str_or (rq_direction e) ''request'') (entry_position e) (rq_import_locator e))"

definition omitted_source :: "request_entry \<Rightarrow> filled_value \<Rightarrow> source_entry" where
  "omitted_source e f = \<lparr>pm_required = rq_required e, pm_source = SOURCE_OMITTED_EMPTY_OPTIONAL,
     pm_value_quality = VALUE_QUALITY_UNKNOWN, se_position = entry_position e, se_type = rq_type e,
     se_dependency = fv_dependency f, se_canonical_name = [], se_schema_path = [], se_locator = None\<rparr>"

definition filled_source :: "request_entry \<Rightarrow> filled_value \<Rightarrow> source_entry" where
  "filled_source e f = (let lo = entry_locator e in
     \<lparr>pm_required = rq_required e, pm_source = fv_source f, pm_value_quality = labelled_quality f,
      se_position = entry_position e, se_type = rq_type e, se_dependency = fv_dependency f,
      se_canonical_name = str_or (rq_canonical_name e) (lo_canonical_name lo),
      se_schema_path = str_or (rq_schema_path e) (str_or (lo_schema_path lo) (rq_parameter e)),
      se_locator = Some (lo_version lo, lo_kind lo, lo_json_pointer lo)\<rparr>)"

definition place_value :: "request_entry \<Rightarrow> json \<Rightarrow> composition \<Rightarrow> composition result_of" where
  "place_value e v c = (let name = rq_parameter e; position = entry_position e in
     if position = ''query'' then Inr (c\<lparr>co_query := dict_set name v (co_query c)\<rparr>)
     else if position = ''header'' then Inr (c\<lparr>co_headers := dict_set name v (co_headers c)\<rparr>)
     else if position = ''path'' then Inr (c\<lparr>co_path := dict_set name v (co_path c)\<rparr>)
     else if position = ''cookie'' then Inr (c\<lparr>co_cookies := dict_set name v (co_cookies c)\<rparr>)
     else sbind (set_value_at_locator 0 (lo_tokens (entry_locator e)) v (co_body c)) (\<lambda>body.
       Inr (c\<lparr>co_body := body\<rparr>)))"

definition compose_entry :: "(request_entry \<Rightarrow> filled_value) \<Rightarrow> request_entry \<Rightarrow> composition \<Rightarrow> composition result_of" where
  "compose_entry fill e c =
     (if rq_parameter e = [] then Inr c
      else let f = fill e in
        if fv_value f = JNull
        then Inr (c\<lparr>co_sources := dict_set (rq_parameter e) (omitted_source e f) (co_sources c)\<rparr>)
        else place_value e (fv_value f) (c\<lparr>
          co_content_type := (if rq_content_type e = [] then co_content_type c else JStr (rq_content_type e)),
          co_sources := dict_set (rq_parameter e) (filled_source e f) (co_sources c)\<rparr>))"

fun compose_entries :: "(request_entry \<Rightarrow> filled_value) \<Rightarrow> request_entry list \<Rightarrow> composition \<Rightarrow> composition result_of" where
  "compose_entries fill [] c = Inr c"
| "compose_entries fill (e # es) c = sbind (compose_entry fill e c) (compose_entries fill es)"

definition normalize_headers :: "json dict \<Rightarrow> json dict" where
  "normalize_headers headers = filter (\<lambda>(k, _). k \<noteq> ''Content-Length'' \<and> k \<noteq> ''content-length'')
     (map (\<lambda>(k, v). (k, case v of JList xs \<Rightarrow> (case xs of [] \<Rightarrow> JStr [] | x # _ \<Rightarrow> x) | _ \<Rightarrow> v)) headers)"

definition header_value :: "json dict \<Rightarrow> string \<Rightarrow> json" where
  "header_value headers name = (case find (\<lambda>(k, _). py_lower k = py_lower name) headers of
     Some (_, v) \<Rightarrow> v | None \<Rightarrow> JNull)"

definition merged_pairs :: "(string \<times> string) list \<Rightarrow> json dict \<Rightarrow> (string \<times> json) list" where
  "merged_pairs pairs query =
     map (\<lambda>(k, v). (k, JStr v)) (filter (\<lambda>(k, _). k \<notin> fst ` set query) pairs) @
     concat (map (\<lambda>(k, v). case v of JList xs \<Rightarrow> map (\<lambda>x. (k, x)) xs | _ \<Rightarrow> [(k, v)]) query)"

definition merge_url_query :: "string \<Rightarrow> json dict \<Rightarrow> string result_of" where
  "merge_url_query url query = (if query = [] then Inr url
     else sbind (urlsplit url) (\<lambda>u.
       Inr (urlunsplit (u\<lparr>url_query := urlencode (merged_pairs (parse_qsl (url_query u)) query)\<rparr>))))"

definition fill_path :: "string \<Rightarrow> json \<Rightarrow> string \<Rightarrow> string" where
  "fill_path key v url = py_replace ('':'' @ key) (py_str v) (py_replace (''{'' @ key @ ''}'') (py_str v) url)"

definition render_request_url :: "string \<Rightarrow> json dict \<Rightarrow> json dict \<Rightarrow> string result_of" where
  "render_request_url url path_params query =
     merge_url_query (foldl (\<lambda>u (k, v). fill_path k v u) url path_params) query"

record request_payload =
  pl_pathid :: int
  pl_raw_id :: oid
  pl_source :: string
  pl_project_id :: string
  pl_import_run_id :: string
  pl_env_id :: string
  pl_account_id :: string
  pl_auth_mode :: string
  pl_method :: string
  pl_url :: string
  pl_rendered_url :: string
  pl_path :: string
  pl_domain :: string
  pl_content_type :: json
  pl_query :: "json dict"
  pl_headers :: "json dict"
  pl_cookies :: "json dict"
  pl_path_params :: "json dict"
  pl_body :: json
  pl_raw_body_sample :: json
  pl_response_sample :: json
  pl_expected_status_codes :: "int list"
  pl_parameter_sources :: "source_entry dict"
  pl_metadata :: "json dict"

text \<open>\<open>asset_context\<close> of \<open>project_context.py\<close>, and \<open>best_request_sample\<close> of \<open>request_sample_store.py\<close>.\<close>

definition asset_context :: "raw_asset \<Rightarrow> string \<times> string \<times> string" where
  "asset_context a = (str_or (ra_project_id a) (dtext (ra_source_meta a) ''internal_project_id''),
     str_or (ra_env_id a) (dtext (ra_source_meta a) ''env_id''),
     str_or (ra_import_run_id a) (dtext (ra_source_meta a) ''import_run_id''))"

definition best_request_sample :: "oid \<Rightarrow> string \<Rightarrow> string \<Rightarrow> string \<Rightarrow> asset_db \<Rightarrow> request_sample option" where
  "best_request_sample raw project env account s =
     (case sort_key (\<lambda>x. - sp_last_seen x) (filter (\<lambda>x. sp_raw_id x = raw \<and> bound_to project (sp_project_id x) \<and>
        bound_to env (sp_env_id x) \<and> bound_to account (sp_account_id x)) (as_samples s)) of
      [] \<Rightarrow> None | x # _ \<Rightarrow> Some x)"

definition sample_field :: "(request_sample \<Rightarrow> 'v) \<Rightarrow> 'v \<Rightarrow> request_sample option \<Rightarrow> 'v" where
  "sample_field get fallback sample = (case sample of Some x \<Rightarrow> get x | None \<Rightarrow> fallback)"

definition base_metadata :: "raw_asset \<Rightarrow> request_sample option \<Rightarrow> json dict" where
  "base_metadata a sample = [(''action'', JStr (ra_action a)), (''rule'', JStr (ra_rule a)), (''tags'', JStr (ra_tags a)),
     (''description'', JStr (ra_des a)), (''sample_id'', JStr (sample_field sp_id [] sample))]"

definition start_composition :: "raw_asset \<Rightarrow> request_sample option \<Rightarrow> composition" where
  "start_composition a sample = (let headers = normalize_headers (sample_field sp_headers (ra_headers a) sample) in
     \<lparr>co_query = [], co_headers = headers, co_path = [], co_cookies = [], co_body = JNull,
      co_content_type = header_value headers ''content-type'', co_sources = []\<rparr>)"

definition status_codes :: "raw_asset \<Rightarrow> request_sample option \<Rightarrow> int list" where
  "status_codes a sample = (case sample of
     Some x \<Rightarrow> (case sp_response_status_code x of Some n \<Rightarrow> [n] | None \<Rightarrow> ra_response_status_code a)
   | None \<Rightarrow> ra_response_status_code a)"

record payload_request =
  pq_pathid :: int
  pq_account_id :: string
  pq_env_id :: string
  pq_source :: string
  pq_project_id :: string
  pq_auth_mode :: string
  pq_metadata :: "json dict"

definition find_asset :: "int \<Rightarrow> asset_db \<Rightarrow> raw_asset option" where
  "find_asset pathid s = find (\<lambda>a. ra_ptah_id a = pathid) (as_assets s)"

definition payload_project :: "payload_request \<Rightarrow> raw_asset \<Rightarrow> string" where
  "payload_project q a = str_or (pq_project_id q) (fst (asset_context a))"

definition payload_env :: "payload_request \<Rightarrow> raw_asset \<Rightarrow> string" where
  "payload_env q a = str_or (pq_env_id q) (fst (snd (asset_context a)))"

definition entries_of :: "raw_asset \<Rightarrow> asset_db \<Rightarrow> request_entry list" where
  "entries_of a s = filter (\<lambda>e. rq_raw_id e = ra_id a) (as_entries s)"

definition fill_for :: "payload_request \<Rightarrow> raw_asset \<Rightarrow> asset_db \<Rightarrow> request_entry \<Rightarrow> filled_value" where
  "fill_for q a s e = fill_value e (pq_pathid q) (pq_account_id q) (payload_project q a) (payload_env q a) (parameter_db.truncate s)"

definition new_payload :: "payload_request \<Rightarrow> raw_asset \<Rightarrow> request_sample option \<Rightarrow> composition \<Rightarrow> request_payload" where
  "new_payload q a sample c = \<lparr>pl_pathid = ra_ptah_id a, pl_raw_id = ra_id a, pl_source = pq_source q,
     pl_project_id = payload_project q a, pl_import_run_id = snd (snd (asset_context a)),
     pl_env_id = payload_env q a, pl_account_id = pq_account_id q, pl_auth_mode = str_or (pq_auth_mode q) ''inherit'',
     pl_method = py_upper (str_or (ra_method a) ''GET''), pl_url = sample_field sp_url (ra_url a) sample,
     pl_rendered_url = [], pl_path = ra_path a, pl_domain = ra_domain a,
     pl_content_type = (if truthy (co_content_type c) then co_content_type c else JStr ''application/json''),
     pl_query = (if co_query c \<noteq> [] then co_query c else sample_field sp_query (ra_query a) sample),
     pl_headers = co_headers c, pl_cookies = co_cookies c, pl_path_params = co_path c,
     pl_body = (if co_body c = JNull then JObj [] else co_body c),
     pl_raw_body_sample = sample_field sp_body (first_value (ra_raw_req a)) sample,
     pl_response_sample = sample_field sp_response_sample (first_value (ra_raw_res a)) sample,
     pl_expected_status_codes = status_codes a sample, pl_parameter_sources = co_sources c,
     pl_metadata = dict_update (base_metadata a sample) (pq_metadata q)\<rparr>"

text \<open>\<open>Inr None\<close> is the empty payload of an unknown endpoint.\<close>

definition build_request_payload :: "payload_request \<Rightarrow> asset_db \<Rightarrow> request_payload option result_of" where
  "build_request_payload q s = (case find_asset (pq_pathid q) s of
     None \<Rightarrow> Inr None
   | Some a \<Rightarrow>
      (let sample = best_request_sample (ra_id a) (payload_project q a) (payload_env q a) (pq_account_id q) s in
       sbind (compose_entries (fill_for q a s) (entries_of a s) (start_composition a sample)) (\<lambda>c.
       let p = new_payload q a sample c in
       sbind (render_request_url (pl_url p) (pl_path_params p) (pl_query p)) (\<lambda>url.
       Inr (Some (p\<lparr>pl_rendered_url := url\<rparr>))))))"

section \<open>Snapshots\<close>

record composed_snapshot = request_snapshot +
  ss_source :: string
  ss_import_run_id :: string
  ss_auth_mode :: string
  ss_plan_version :: string
  ss_plan_sha256 :: string
  ss_adapter_id :: string
  ss_adapter_version :: string
  ss_query :: "json dict"
  ss_headers :: "json dict"
  ss_cookies :: "json dict"
  ss_path_params :: "json dict"
  ss_body :: json
  ss_content_type :: json
  ss_expected_status_codes :: "int list"
  ss_metadata :: "json dict"

definition recorded_sources :: "source_entry dict \<Rightarrow> parameter_sources" where
  "recorded_sources sources = Some (map (\<lambda>(n, e). (n, Some (param_meta.truncate e))) sources)"

definition payload_to_snapshot_data :: "oid \<Rightarrow> request_payload \<Rightarrow> composed_snapshot" where
  "payload_to_snapshot_data new_id p = (let meta = pl_metadata p in
     \<lparr>sn_id = new_id, sn_pathid = pl_pathid p, sn_project_id = pl_project_id p, sn_env_id = pl_env_id p,
      sn_account_id = pl_account_id p, sn_auth_provider_id = dtext meta ''auth_provider_id'',
      sn_auth_context_ref = dtext meta ''auth_context_ref'',
      sn_auth_profile_revision_id = dtext meta ''auth_profile_revision_id'',
      sn_auth_realm_revision_id = dtext meta ''auth_realm_revision_id'',
      sn_auth_adapter_version_id = dtext meta ''auth_adapter_version_id'',
      sn_method = str_or (pl_method p) ''GET'', sn_url = str_or (pl_rendered_url p) (pl_url p),
      sn_path = pl_path p, sn_domain = pl_domain p,
      sn_parameter_sources = recorded_sources (pl_parameter_sources p),
      ss_source = str_or (pl_source p) ''asset'', ss_import_run_id = pl_import_run_id p,
      ss_auth_mode = str_or (pl_auth_mode p) ''inherit'', ss_plan_version = dtext meta ''plan_version'',
      ss_plan_sha256 = dtext meta ''plan_sha256'', ss_adapter_id = dtext meta ''adapter_id'',
      ss_adapter_version = dtext meta ''adapter_version'', ss_query = pl_query p, ss_headers = pl_headers p,
      ss_cookies = pl_cookies p, ss_path_params = pl_path_params p,
      ss_body = (if pl_body p \<in> {JNull, JObj []} then pl_raw_body_sample p else pl_body p),
      ss_content_type = (if truthy (pl_content_type p) then pl_content_type p else JStr ''application/json''),
      ss_expected_status_codes = pl_expected_status_codes p, ss_metadata = meta\<rparr>)"

definition create_request_snapshot :: "oid \<Rightarrow> payload_request \<Rightarrow> asset_db \<Rightarrow> db \<Rightarrow> (db \<times> composed_snapshot option) result_of" where
  "create_request_snapshot new_id q assets s =
     sbind (build_request_payload q assets) (\<lambda>p. Inr (case p of
       None \<Rightarrow> (s, None)
     | Some p \<Rightarrow> (let sn = payload_to_snapshot_data new_id p in
         (s\<lparr>db_snapshots := db_snapshots s @ [request_snapshot.truncate sn]\<rparr>, Some sn))))"


section \<open>Facts\<close>

definition source_of :: "(request_entry \<Rightarrow> filled_value) \<Rightarrow> request_entry \<Rightarrow> source_entry" where
  "source_of fill e = (if fv_value (fill e) = JNull then omitted_source e (fill e) else filled_source e (fill e))"

definition named_entries :: "request_entry list \<Rightarrow> request_entry list" where
  "named_entries es = filter (\<lambda>e. rq_parameter e \<noteq> []) es"

lemma place_value_keeps:
  "place_value e v c = Inr c' \<Longrightarrow> co_sources c' = co_sources c"
  by (auto simp: place_value_def Let_def sbind_Inr_iff split: if_splits)

lemma compose_entry_sources:
  "compose_entry fill e c = Inr c' \<Longrightarrow> co_sources c' = (if rq_parameter e = [] then co_sources c
     else dict_set (rq_parameter e) (source_of fill e) (co_sources c))"
  by (auto simp: compose_entry_def Let_def source_of_def dest!: place_value_keeps split: if_splits)

text \<open>The last entry of a name decides what is recorded for it.\<close>

lemma composed_sources:
  "compose_entries fill es c = Inr c' \<Longrightarrow> map_of (co_sources c') n =
    (case find (\<lambda>e. rq_parameter e = n) (rev (named_entries es)) of
       Some e \<Rightarrow> Some (source_of fill e) | None \<Rightarrow> map_of (co_sources c) n)"
proof (induction es arbitrary: c)
  case (Cons e es)
  then obtain c1 where c1: "compose_entry fill e c = Inr c1" "compose_entries fill es c1 = Inr c'"
    by (auto simp: sbind_Inr_iff)
  have find_snoc: "find P (xs @ [y]) = (case find P xs of Some z \<Rightarrow> Some z | None \<Rightarrow> if P y then Some y else None)" for P xs and y :: request_entry
    by (induction xs) auto
  show ?case
    using Cons.IH [OF c1(2)] compose_entry_sources [OF c1(1)]
    by (auto simp: named_entries_def find_snoc split: option.splits)
qed (simp add: named_entries_def)

lemma composed_keys:
  "compose_entries fill es c = Inr c' \<Longrightarrow> distinct (map fst (co_sources c)) \<Longrightarrow> distinct (map fst (co_sources c'))"
proof (induction es arbitrary: c)
  case (Cons e es)
  then obtain c1 where c1: "compose_entry fill e c = Inr c1" "compose_entries fill es c1 = Inr c'"
    by (auto simp: sbind_Inr_iff)
  from Cons.prems(2) have "distinct (map fst (co_sources c1))"
    by (simp add: compose_entry_sources [OF c1(1)] distinct_dict_set)
  from Cons.IH [OF c1(2) this] show ?case .
qed simp

lemma find_distinct:
  "distinct (map f xs) \<Longrightarrow> x \<in> set xs \<Longrightarrow> find (\<lambda>y. f y = f x) xs = Some x"
  by (induction xs) auto

lemma required_is_filled: "rq_required e \<Longrightarrow> fv_value (fill_value e pathid account project env s) \<noteq> JNull"
  by (auto simp: fill_value_def Let_def default_for_missing_parameter_def)

text \<open>The steps of a successful build.\<close>

lemma build_cases:
  assumes "build_request_payload q s = Inr (Some p)"
  obtains a c url where "find_asset (pq_pathid q) s = Some a"
    "compose_entries (fill_for q a s) (entries_of a s) (start_composition a
       (best_request_sample (ra_id a) (payload_project q a) (payload_env q a) (pq_account_id q) s)) = Inr c"
    "p = (new_payload q a (best_request_sample (ra_id a) (payload_project q a) (payload_env q a) (pq_account_id q) s) c)\<lparr>pl_rendered_url := url\<rparr>"
  using assms by (auto simp: build_request_payload_def Let_def sbind_Inr_iff split: option.splits)

lemma recorded_source_of:
  assumes "build_request_payload q s = Inr (Some p)" "find_asset (pq_pathid q) s = Some a"
    and "distinct (map rq_parameter (named_entries (entries_of a s)))"
  shows "set (pl_parameter_sources p) = (\<lambda>e. (rq_parameter e, source_of (fill_for q a s) e)) ` set (named_entries (entries_of a s))"
proof -
  from assms(1,2) obtain c url sample where c: "compose_entries (fill_for q a s) (entries_of a s) (start_composition a sample) = Inr c"
    and p: "p = (new_payload q a sample c)\<lparr>pl_rendered_url := url\<rparr>"
    by (elim build_cases) auto
  let ?es = "named_entries (entries_of a s)"
  have start: "co_sources (start_composition a sample) = []" by (simp add: start_composition_def Let_def)
  have dist: "distinct (map fst (co_sources c))" using composed_keys [OF c] by (simp add: start)
  have "(n, se) \<in> set (co_sources c) \<longleftrightarrow> (\<exists>e \<in> set ?es. n = rq_parameter e \<and> se = source_of (fill_for q a s) e)" for n se
  proof -
    have "(n, se) \<in> set (co_sources c) \<longleftrightarrow> map_of (co_sources c) n = Some se"
      using dist by (simp add: map_of_eq_Some_iff)
    also have "\<dots> \<longleftrightarrow> (\<exists>e. find (\<lambda>e. rq_parameter e = n) (rev ?es) = Some e \<and> se = source_of (fill_for q a s) e)"
      using composed_sources [OF c, of n] by (auto simp: start split: option.splits)
    also have "\<dots> \<longleftrightarrow> (\<exists>e \<in> set ?es. n = rq_parameter e \<and> se = source_of (fill_for q a s) e)"
      using find_distinct [of rq_parameter "rev ?es"] assms(3) by (auto simp: rev_map [symmetric] dest!: find_Some_in)
    finally show ?thesis .
  qed
  then show ?thesis by (auto simp: p new_payload_def)
qed


lemma recorded_blocks: "blocks_pass (required_parameter_quality_summary (recorded_sources ss)) \<longleftrightarrow>
    (\<exists>(n, se) \<in> set ss. unestablished (param_meta.truncate se))"
  unfolding recorded_sources_def blocks_pass_iff by (induction ss) auto

subsection \<open>Every value is where it belongs\<close>

lemma compose_append: "compose_entries fill (as @ bs) c = sbind (compose_entries fill as c) (compose_entries fill bs)"
  by (induction as arbitrary: c) (auto simp: sbind_def split: sum.splits)

definition in_body :: "request_entry \<Rightarrow> bool" where
  "in_body e \<longleftrightarrow> entry_position e \<notin> {''query'', ''header'', ''path'', ''cookie''}"

text \<open>The part of the request a parameter outside the body goes to.\<close>

definition param_table :: "string \<Rightarrow> composition \<Rightarrow> json dict" where
  "param_table position c = (if position = ''query'' then co_query c else if position = ''header'' then co_headers c
     else if position = ''path'' then co_path c else co_cookies c)"

lemma place_value_cases:
  assumes "place_value e v c = Inr c'"
  obtains (query) "entry_position e = ''query''" "c' = c\<lparr>co_query := dict_set (rq_parameter e) v (co_query c)\<rparr>"
  | (header) "entry_position e = ''header''" "c' = c\<lparr>co_headers := dict_set (rq_parameter e) v (co_headers c)\<rparr>"
  | (path) "entry_position e = ''path''" "c' = c\<lparr>co_path := dict_set (rq_parameter e) v (co_path c)\<rparr>"
  | (cookie) "entry_position e = ''cookie''" "c' = c\<lparr>co_cookies := dict_set (rq_parameter e) v (co_cookies c)\<rparr>"
  | (body) body where "in_body e" "set_value_at_locator 0 (lo_tokens (entry_locator e)) v (co_body c) = Inr body"
      "c' = c\<lparr>co_body := body\<rparr>"
proof -
  consider "entry_position e = ''query''" | "entry_position e = ''header''" | "entry_position e = ''path''"
    | "entry_position e = ''cookie''" | "in_body e" by (auto simp: in_body_def)
  then show ?thesis
  proof cases
    case 5
    then have "sbind (set_value_at_locator 0 (lo_tokens (entry_locator e)) v (co_body c)) (\<lambda>body. Inr (c\<lparr>co_body := body\<rparr>)) = Inr c'"
      using assms by (simp add: place_value_def in_body_def)
    then show ?thesis using body [OF 5] by (auto simp: sbind_Inr_iff)
  qed (use assms that in \<open>simp_all add: place_value_def\<close>)
qed

lemma param_table_simps [simp]:
  "param_table ''query'' c = co_query c" "param_table ''header'' c = co_headers c"
  "param_table ''path'' c = co_path c" "param_table ''cookie'' c = co_cookies c"
  by (simp_all add: param_table_def)

lemma compose_entry_cases:
  assumes "compose_entry fill e c = Inr c'"
  obtains (skipped) "rq_parameter e = [] \<or> fv_value (fill e) = JNull" "\<And>position. param_table position c' = param_table position c"
      "co_body c' = co_body c"
  | (placed) c1 where "rq_parameter e \<noteq> []" "fv_value (fill e) \<noteq> JNull" "place_value e (fv_value (fill e)) c1 = Inr c'"
      "\<And>position. param_table position c1 = param_table position c" "co_body c1 = co_body c"
  using assms that(1) by (auto simp: compose_entry_def Let_def param_table_def split: if_splits intro: that(2))

lemma compose_entry_table:
  assumes "compose_entry fill e c = Inr c'" "position \<in> {''query'', ''header'', ''path'', ''cookie''}"
  shows "param_table position c' = (if rq_parameter e \<noteq> [] \<and> fv_value (fill e) \<noteq> JNull \<and> entry_position e = position
     then dict_set (rq_parameter e) (fv_value (fill e)) (param_table position c) else param_table position c)"
  using assms(1)
proof (cases rule: compose_entry_cases)
  case (placed c1)
  have "param_table position c' = (if entry_position e = position
     then dict_set (rq_parameter e) (fv_value (fill e)) (param_table position c1) else param_table position c1)"
    using placed(3)
  proof (cases rule: place_value_cases)
    case (body body)
    then have "entry_position e \<noteq> position" using assms(2) by (auto simp: in_body_def)
    with body show ?thesis by (simp add: param_table_def)
  qed (use assms(2) in auto)
  with placed show ?thesis by simp
qed auto

lemma compose_entries_table:
  "compose_entries fill es c = Inr c' \<Longrightarrow> position \<in> {''query'', ''header'', ''path'', ''cookie''} \<Longrightarrow>
    n \<notin> rq_parameter ` set es \<Longrightarrow> map_of (param_table position c') n = map_of (param_table position c) n"
proof (induction es arbitrary: c)
  case (Cons e es)
  then obtain c1 where c1: "compose_entry fill e c = Inr c1" "compose_entries fill es c1 = Inr c'"
    by (auto simp: sbind_Inr_iff)
  from Cons.IH [OF c1(2) Cons.prems(2)] Cons.prems(3) compose_entry_table [OF c1(1) Cons.prems(2)]
  show ?case by simp
qed simp

lemma compose_entry_body:
  assumes "compose_entry fill e c = Inr c'"
  shows "(if rq_parameter e \<noteq> [] \<and> fv_value (fill e) \<noteq> JNull \<and> in_body e
     then set_value_at_locator 0 (lo_tokens (entry_locator e)) (fv_value (fill e)) (co_body c) = Inr (co_body c')
     else co_body c' = co_body c)"
  using assms
proof (cases rule: compose_entry_cases)
  case (placed c1)
  from placed(3) show ?thesis
    by (cases rule: place_value_cases) (use placed in \<open>auto simp: in_body_def\<close>)
qed auto

lemma apart_container: "apart ts us \<Longrightarrow> located us doc \<noteq> [] \<Longrightarrow> is_container doc"
  by (cases us; cases "hd us"; cases doc) auto

lemma set_value_frame:
  assumes "set_value_at_locator 0 ts v doc = Inr doc'" "plain_locator ts" "plain_locator us" "apart ts us"
    and "located us doc \<noteq> []"
  shows "located us doc' = located us doc"
proof -
  from assms(4) obtain t ts' where ts: "ts = t # ts'" by (cases ts) auto
  with assms(1) apart_container [OF assms(4,5)] have "set_tokens 0 ts v doc = Inr doc'"
    by (simp add: set_value_at_locator_def)
  from set_tokens_frame [OF assms(4) this _ _ assms(5)] assms(2,3) show ?thesis by (simp add: plain_locator_def)
qed

lemma compose_entries_body:
  "compose_entries fill es c = Inr c' \<Longrightarrow> plain_locator us \<Longrightarrow>
    \<forall>e \<in> set (named_entries es). in_body e \<longrightarrow> plain_locator (lo_tokens (entry_locator e)) \<and> apart (lo_tokens (entry_locator e)) us \<Longrightarrow>
    located us (co_body c) \<noteq> [] \<Longrightarrow> located us (co_body c') = located us (co_body c)"
proof (induction es arbitrary: c)
  case (Cons e es)
  then obtain c1 where c1: "compose_entry fill e c = Inr c1" "compose_entries fill es c1 = Inr c'"
    by (auto simp: sbind_Inr_iff)
  have "located us (co_body c1) = located us (co_body c)"
  proof (cases "rq_parameter e \<noteq> [] \<and> fv_value (fill e) \<noteq> JNull \<and> in_body e")
    case True
    with compose_entry_body [OF c1(1)]
    have "set_value_at_locator 0 (lo_tokens (entry_locator e)) (fv_value (fill e)) (co_body c) = Inr (co_body c1)" by simp
    from set_value_frame [OF this _ Cons.prems(2) _ Cons.prems(4)] Cons.prems(3) True show ?thesis
      by (simp add: named_entries_def)
  next
    case False
    with compose_entry_body [OF c1(1)] show ?thesis by simp
  qed
  moreover have "\<forall>e \<in> set (named_entries es). in_body e \<longrightarrow>
      plain_locator (lo_tokens (entry_locator e)) \<and> apart (lo_tokens (entry_locator e)) us"
    using Cons.prems(3) by (simp add: named_entries_def)
  ultimately show ?case using Cons.IH [OF c1(2)] Cons.prems by simp
qed simp

lemma set_value_located:
  assumes "set_value_at_locator 0 ts v doc = Inr doc'" "plain_locator ts"
  shows "located ts doc' = [v]"
  using place.get_after_put [of ts v doc doc'] assms by (simp add: write_at_def read_at_def located_singleton)

lemma find_Some_own: "find P xs = Some x \<Longrightarrow> P x \<and> x \<in> set xs"
  using find_Some_in by fast

lemma lookup_scoped:
  assumes "lookup_archive_value name pathid account project env s = (v, source, quality)" "account \<noteq> []" "v \<noteq> JNull"
  shows "\<exists>r \<in> set (pa_archive s). bound_to project (ar_project_id r) \<and> bound_to env (ar_env_id r) \<and>
    v \<in> set (ar_req_value r) \<and>
    (source = SOURCE_PARAMETER_ARCHIVE \<and> ar_account_id r = account \<or>
     source = SOURCE_PARAMETER_ARCHIVE_PROJECT_SCOPED \<and> ar_account_id r = [])"
proof -
  let ?base = "archived_for name pathid project env s"
  have first: "r \<in> set rows \<and> ar_req_value r \<noteq> []" if "first_sampled rows = Some r" for rows r
    using that by (auto simp: first_sampled_def split: list.splits if_splits)
  have head: "first_value vs \<in> set vs" if "vs \<noteq> []" for vs using that by (cases vs) (auto simp: first_value_def)
  show ?thesis
  proof (cases "first_sampled (filter (\<lambda>r. ar_account_id r = account) ?base)")
    case (Some r)
    with assms have "v = first_value (ar_req_value r)" "source = SOURCE_PARAMETER_ARCHIVE"
      by (auto simp: lookup_archive_value_def Let_def)
    with first [OF Some] head [of "ar_req_value r"] show ?thesis by (auto simp: archived_for_def)
  next
    case None
    with assms obtain r where r: "find (\<lambda>r. ar_account_id r = [] \<and> ar_req_value r \<noteq> []) ?base = Some r"
      by (auto simp: lookup_archive_value_def Let_def split: option.splits)
    with None assms have "v = first_value (ar_req_value r)" "source = SOURCE_PARAMETER_ARCHIVE_PROJECT_SCOPED"
      by (auto simp: lookup_archive_value_def Let_def)
    with find_Some_own [OF r] head [of "ar_req_value r"] show ?thesis by (auto simp: archived_for_def)
  qed
qed

definition archive_backed :: "string \<Rightarrow> string \<Rightarrow> string \<Rightarrow> parameter_db \<Rightarrow> json \<Rightarrow> string \<Rightarrow> bool" where
  "archive_backed account project env s v source \<longleftrightarrow> (\<exists>r \<in> set (pa_archive s).
     bound_to project (ar_project_id r) \<and> bound_to env (ar_env_id r) \<and> v \<in> set (ar_req_value r @ ar_res_value r) \<and>
     ar_account_id r \<in> {account, []} \<and>
     (source = SOURCE_PARAMETER_ARCHIVE_PROJECT_SCOPED \<longleftrightarrow> ar_account_id r = []))"

lemma archive_value_backed:
  assumes "archive_value names pathid account exact_path project env s = Some (v, r)" "account \<noteq> []"
  shows "archive_backed account project env s v (fst (archive_provenance r alias))"
  using archive_value_Some [OF assms(1)] assms(2) row_value_in [of r v]
  unfolding archive_backed_def
  by (intro bexI [of _ r]) (auto simp: archive_provenance_def source_defs)

lemma dependency_backed:
  assumes "account \<noteq> []" "f = dependency_value e pathid account project env s" "fv_value f \<noteq> JNull"
  shows "fv_source f = SOURCE_PARAMETER_RELATION \<or> archive_backed account project env s (fv_value f) (fv_source f)"
proof -
  obtain found meta where r: "resolve_parameter_value (rq_parameter e) pathid account True project env s = (found, meta)"
    by fastforce
  let ?v = "case found of Some v \<Rightarrow> if no_value v then JNull else v | None \<Rightarrow> JNull"
  show ?thesis
  proof (cases "?v = JNull")
    case False
    then have f: "fv_value f = ?v" "fv_source f = str_or (sm_source meta) SOURCE_PARAMETER_DEPENDENCY"
      using assms(2) by (simp_all add: dependency_value_def r Let_def)
    from r show ?thesis
    proof (cases rule: resolve_cases)
      case (relation v x)
      then show ?thesis using f by (simp add: meta_fields str_or_def source_defs)
    next
      case (exact v x)
      then have "fv_value f = v" "fv_source f = fst (archive_provenance x False)"
        using f False by (auto simp: meta_fields str_or_def archive_provenance_def source_defs split: if_splits)
      then show ?thesis using archive_value_backed [OF exact(2) assms(1)] by simp
    next
      case (aliased v x)
      then have "fv_value f = v" "fv_source f = fst (archive_provenance x True)"
        using f False by (auto simp: meta_fields str_or_def archive_provenance_def source_defs split: if_splits)
      then show ?thesis using archive_value_backed [OF aliased(6) assms(1)] by simp
    next
      case unresolved
      with False show ?thesis by simp
    qed
  next
    case True
    show ?thesis
    proof (cases "endpoint_relation_value (rq_parameter e) pathid project env s")
      case (Some p)
      then show ?thesis using True assms(2) by (cases p) (simp add: dependency_value_def r Let_def)
    next
      case None
      obtain v source quality where l: "lookup_archive_value (rq_parameter e) pathid account project env s = (v, source, quality)"
        by (cases "lookup_archive_value (rq_parameter e) pathid account project env s")
      then have f: "fv_value f = v" "fv_source f = source"
        using None True assms(2) by (simp_all add: dependency_value_def r Let_def)
      from lookup_scoped [OF l assms(1)] assms(3) f obtain r where r: "r \<in> set (pa_archive s)"
        "bound_to project (ar_project_id r)" "bound_to env (ar_env_id r)" "v \<in> set (ar_req_value r)"
        "source = SOURCE_PARAMETER_ARCHIVE \<and> ar_account_id r = account \<or>
         source = SOURCE_PARAMETER_ARCHIVE_PROJECT_SCOPED \<and> ar_account_id r = []" by blast
      then have "ar_account_id r \<in> {account, []} \<and> (source = SOURCE_PARAMETER_ARCHIVE_PROJECT_SCOPED \<longleftrightarrow> ar_account_id r = [])"
        using assms(1) by (auto simp: source_defs)
      with r f show ?thesis unfolding archive_backed_def by (intro disjI2 bexI [of _ r]) auto
    qed
  qed
qed

section \<open>Properties\<close>




text \<open>Composed values stay in scope. When a request is composed for an account, a value that is neither
  the sample of the parameter itself, nor from a relation, nor a default, is one an archived row of the
  project and environment holds; the row is the account's own or unattributed, and the recorded source
  is the project-scoped one exactly if it is unattributed.\<close>

theorem composed_values_in_scope:
  assumes "account \<noteq> []"
    and "fv_source (fill_value e pathid account project env s) \<notin> {SOURCE_REQ_DATA, SOURCE_PARAMETER_RELATION, SOURCE_EMPTY_DEFAULT}"
  shows "\<exists>r \<in> set (pa_archive s). bound_to project (ar_project_id r) \<and> bound_to env (ar_env_id r) \<and>
    fv_value (fill_value e pathid account project env s) \<in> set (ar_req_value r @ ar_res_value r) \<and>
    ar_account_id r \<in> {account, []} \<and>
    (fv_source (fill_value e pathid account project env s) = SOURCE_PARAMETER_ARCHIVE_PROJECT_SCOPED \<longleftrightarrow> ar_account_id r = [])"
proof -
  let ?f = "dependency_value e pathid account project env s"
  have "first_value (rq_values e) = JNull" "fv_value ?f \<noteq> JNull" "fill_value e pathid account project env s = ?f"
    using assms(2) by (auto simp: fill_value_def Let_def split: if_splits)
  with dependency_backed [OF assms(1) refl, of e pathid project env s] assms(2) show ?thesis
    by (auto simp: archive_backed_def)
qed

text \<open>The query of the URL is what was asked for. Merging parameters into the query of a URL keeps the
  other parts of the URL, drops the pairs of the replaced keys, keeps the others in order, and appends
  the new pairs, list values as repeated keys; reading the query back gives exactly these pairs.\<close>

theorem merged_query_reads_back:
  assumes "merge_url_query url query = Inr url'" "query \<noteq> []"
  shows "\<exists>u text. urlsplit url = Inr u \<and> url' = urlunsplit (u\<lparr>url_query := text\<rparr>) \<and>
    parse_qsl text = filter (\<lambda>(k, _). k \<notin> fst ` set query) (parse_qsl (url_query u)) @
      concat (map (\<lambda>(k, v). case v of JList xs \<Rightarrow> concat (map (\<lambda>x. map (Pair k) (query_values x)) xs)
        | _ \<Rightarrow> map (Pair k) (query_values v)) query)"
proof -
  from assms obtain u where u: "urlsplit url = Inr u"
    "url' = urlunsplit (u\<lparr>url_query := urlencode (merged_pairs (parse_qsl (url_query u)) query)\<rparr>)"
    by (auto simp: merge_url_query_def sbind_Inr_iff)
  have old: "query_pairs (map (\<lambda>(k, v). (k, JStr v)) ps) = ps" for ps
    by (induction ps) (auto simp: query_pairs_def py_str_def)
  have app: "query_pairs (as @ bs) = query_pairs as @ query_pairs bs" for as bs
    by (simp add: query_pairs_def)
  have one: "query_pairs (case v of JList xs \<Rightarrow> map (\<lambda>x. (k, x)) xs | _ \<Rightarrow> [(k, v)]) =
      (case v of JList xs \<Rightarrow> concat (map (\<lambda>x. map (Pair k) (query_values x)) xs) | _ \<Rightarrow> map (Pair k) (query_values v))" for k v
    by (cases v) (simp_all add: query_pairs_def o_def)
  have new: "query_pairs (concat (map (\<lambda>(k, v). case v of JList xs \<Rightarrow> map (\<lambda>x. (k, x)) xs | _ \<Rightarrow> [(k, v)]) q)) =
      concat (map (\<lambda>(k, v). case v of JList xs \<Rightarrow> concat (map (\<lambda>x. map (Pair k) (query_values x)) xs)
        | _ \<Rightarrow> map (Pair k) (query_values v)) q)" for q
  proof (induction q)
    case (Cons p q)
    then show ?case by (cases p) (simp add: app one)
  qed (simp add: query_pairs_def)
  show ?thesis
    by (intro exI [of _ u] exI conjI, rule u(1), rule u(2))
      (simp add: parse_urlencode merged_pairs_def app old new)
qed

section \<open>Limits and witnesses\<close>

text \<open>A path parameter whose name begins another one's is substituted inside it.\<close>

lemma path_prefix_clobbered:
  "render_request_url ''/u/:user/:user_id'' [(''user'', JStr ''7''), (''user_id'', JStr ''9'')] [] = Inr ''/u/7/7_id''"
  by code_simp

definition example_entry :: "string \<Rightarrow> string \<Rightarrow> bool \<Rightarrow> json list \<Rightarrow> request_entry" where
  "example_entry name position required values = \<lparr>rq_raw_id = [], rq_parameter = name, rq_values = values,
     rq_position = position, rq_direction = [], rq_type = [], rq_required = required, rq_content_type = [],
     rq_canonical_name = [], rq_schema_path = [], rq_locator = None, rq_import_locator = None\<rparr>"

definition example_asset :: raw_asset where
  "example_asset = \<lparr>ra_id = [], ra_ptah_id = 7, ra_project_id = ''p'', ra_env_id = ''e'', ra_import_run_id = [],
     ra_source_meta = [], ra_method = [], ra_url = ''/x'', ra_path = [], ra_domain = [], ra_query = [], ra_headers = [],
     ra_raw_req = [], ra_raw_res = [], ra_response_status_code = [], ra_action = [], ra_rule = [], ra_tags = [], ra_des = []\<rparr>"

definition example_assets :: "request_entry list \<Rightarrow> asset_db" where
  "example_assets es = \<lparr>pa_relations = [], pa_archive = [example_row ''1'' ''bob'' (JInt 5)], pa_candidates = [],
     as_assets = [example_asset], as_entries = es, as_samples = []\<rparr>"

definition example_payload_request :: payload_request where
  "example_payload_request = \<lparr>pq_pathid = 7, pq_account_id = ''bob'', pq_env_id = [], pq_source = [],
     pq_project_id = [], pq_auth_mode = [], pq_metadata = []\<rparr>"

text \<open>Two entries of one name at different positions: the record of the defaulted one is overwritten, and the
  gate lets a pass through.\<close>

lemma duplicate_name_hides_default:
  "(case build_request_payload example_payload_request
       (example_assets [example_entry ''q'' ''path'' True [], example_entry ''q'' ''query'' True [JInt 5]]) of
      Inr (Some p) \<Rightarrow> map_of (pl_path_params p) ''q'' = Some (JStr []) \<and>
        fst (apply_required_parameter_gate (''no_vuln'', [], 1)
          (Some (required_parameter_quality_summary (recorded_sources (pl_parameter_sources p))))) = ''no_vuln''
    | _ \<Rightarrow> False)"
  by code_simp


definition example_good :: asset_db where
  "example_good = example_assets [example_entry ''user_id'' ''query'' True [], example_entry ''b'' [] True [JInt 1]]"



theorem composed_values_in_scope_witness:
  "\<exists>r \<in> set (pa_archive (parameter_db.truncate example_good)). ar_account_id r \<in> {''bob'', []} \<and> ar_project_id r = ''p''"
proof -
  let ?u = "example_entry ''user_id'' ''query'' True []" let ?s = "parameter_db.truncate example_good"
  have "fv_source (fill_value ?u 7 ''bob'' ''p'' ''e'' ?s) = SOURCE_PARAMETER_ARCHIVE" by code_simp
  then have "fv_source (fill_value ?u 7 ''bob'' ''p'' ''e'' ?s) \<notin> {SOURCE_REQ_DATA, SOURCE_PARAMETER_RELATION, SOURCE_EMPTY_DEFAULT}"
    by (simp add: source_defs)
  with composed_values_in_scope [of "''bob''" ?u 7 "''p''" "''e''" ?s] show ?thesis by (auto simp: bound_to_def)
qed

theorem merged_query_reads_back_witness:
  "\<exists>q. parse_qsl q = [(''b'', ''2''), (''a'', ''x y''), (''a'', ''3'')]"
proof -
  let ?q = "[(''a'', JList [JStr ''x y'', JInt 3])]"
  have "succeeds (merge_url_query ''/p?a=1&b=2'' ?q)" by code_simp
  then obtain url' where m: "merge_url_query ''/p?a=1&b=2'' ?q = Inr url'" by (auto simp: succeeds_iff)
  obtain u qq where u: "urlsplit ''/p?a=1&b=2'' = Inr u" and
    t: "parse_qsl qq = filter (\<lambda>(k, _). k \<notin> fst ` set ?q) (parse_qsl (url_query u)) @
      concat (map (\<lambda>(k, v). case v of JList xs \<Rightarrow> concat (map (\<lambda>x. map (Pair k) (query_values x)) xs)
        | _ \<Rightarrow> map (Pair k) (query_values v)) ?q)"
    using merged_query_reads_back [OF m] by auto
  have "(case urlsplit ''/p?a=1&b=2'' of Inr u \<Rightarrow> parse_qsl (url_query u) = [(''a'', ''1''), (''b'', ''2'')] | _ \<Rightarrow> False)"
    "query_values (JInt 3) = [''3'']" "query_values (JStr ''x y'') = [''x y'']"
    by code_simp+
  with u t show ?thesis by auto
qed

end
