(* ===== verification/ResultReview.thy ===== *)
theory ResultReview
  imports FindingLifecycle UrlText PyText
begin

text \<open>
  \<open>apiAnalysis/tool/result_review.py\<close>: the queue of conclusions that need a human decision, the
  append-only dispositions, and the promotion of a confirmed result to a finding.

  \<open>review_db\<close> adds the collection of review events to the findings and results of \<open>FindingLifecycle\<close>.
  \<open>now\<close> is the current time, \<open>fid\<close> the object id a new finding gets. The title, confidence, affected
  endpoints and evidence summary that a promoted finding copies from its result are left out.
\<close>

section \<open>Documents\<close>

record result_review_event =
  rv_result_id :: oid
  rv_run_id :: oid
  rv_project_id :: string
  rv_action :: string
  rv_reviewer :: string
  rv_reviewer_role :: string
  rv_reason :: string
  rv_reason_codes :: "string list"
  rv_finding_id :: "oid option"
  rv_duplicate_of :: "oid option"
  rv_note :: string
  rv_ctime :: time

record review_db =
  rd_findings :: finding_db
  rd_reviews :: "result_review_event list"

definition REVIEWABLE_VERDICTS :: "string list" where
  "REVIEWABLE_VERDICTS = [''potential_vuln'', ''need_review'', ''review'', ''PARTIAL_IDOR_PARAM'', ''UNAUTH_EXPOSURE'']"

definition TERMINAL_REVIEW_ACTIONS :: "string list" where
  "TERMINAL_REVIEW_ACTIONS = [''confirm'', ''reject'', ''duplicate'']"

definition review_results :: "review_db \<Rightarrow> security_test_result list" where
  "review_results s = db_results (fd_core (rd_findings s))"

definition set_results :: "security_test_result list \<Rightarrow> review_db \<Rightarrow> review_db" where
  "set_results rs s = s\<lparr>rd_findings := (rd_findings s)\<lparr>fd_core := (fd_core (rd_findings s))\<lparr>db_results := rs\<rparr>\<rparr>\<rparr>"

section \<open>Outcome classes of old results\<close>

text \<open>\<open>qs.limit(n)\<close>: a limit of 0 is no limit.\<close>

definition mongo_limit :: "nat \<Rightarrow> 'a list \<Rightarrow> 'a list" where
  "mongo_limit n xs = (if n = 0 then xs else take n xs)"

definition unclassified :: "oid \<Rightarrow> security_test_result \<Rightarrow> bool" where
  "unclassified run r \<longleftrightarrow> res_outcome_class r = [] \<and> (run = [] \<or> res_run_id r = run)"

definition backfill_outcome_class :: "oid \<Rightarrow> nat \<Rightarrow> review_db \<Rightarrow> review_db \<times> nat" where
  "backfill_outcome_class run batch_size s =
     (let batch = mongo_limit batch_size (filter (unclassified run) (review_results s)) in
      (set_results (update_where (\<lambda>r. res_id r \<in> res_id ` set batch)
         (\<lambda>r. r\<lparr>res_outcome_class := project_outcome_class (res_verdict r)\<rparr>) (review_results s)) s, length batch))"

section \<open>The case a result is about\<close>

definition TARGET_KEYS :: "string list" where
  "TARGET_KEYS = [''path'', ''cleanup_path'', ''endpoint_name'', ''url'']"

definition target_text :: "json dict \<Rightarrow> string" where
  "target_text target = (case find (\<lambda>k. truthy (dget target k)) TARGET_KEYS of
     Some k \<Rightarrow> py_strip (py_str (dget target k)) | None \<Rightarrow> [])"

definition path_of_text :: "string \<Rightarrow> string result_of" where
  "path_of_text v = (if contains ''://'' v then sbind (urlsplit v) (\<lambda>u. Inr (url_path u)) else Inr v)"

definition variable_segment :: "string \<Rightarrow> bool" where
  "variable_segment p \<longleftrightarrow> py_isdigit p \<or> (starts_with ''{'' p \<and> ends_with ''}'' p)"

definition path_segments :: "string \<Rightarrow> string list" where
  "path_segments v = filter (\<lambda>p. p \<noteq> []) (split_on (CHR ''/'') v)"

definition drop_variables :: "string list \<Rightarrow> string list" where
  "drop_variables parts = rev (dropWhile variable_segment (rev parts))"

definition normalized_target_path :: "security_test_result \<Rightarrow> string result_of" where
  "normalized_target_path r = (let v = target_text (res_target r) in
     if v = [] then Inr []
     else sbind (path_of_text v) (\<lambda>value. let parts = drop_variables (path_segments value) in
       Inr (if parts = [] then value else CHR ''/'' # join ''/'' parts)))"

definition review_endpoint :: "security_test_result \<Rightarrow> string result_of" where
  "review_endpoint r = sbind (case res_related_pathid r of
       Some n \<Rightarrow> Inr (''pathid:'' @ str_of_int n)
     | None \<Rightarrow> normalized_target_path r)
     (\<lambda>e. Inr (if e \<noteq> [] then e
        else (case res_snapshot_id r of
            Some snap \<Rightarrow> ''snapshot:'' @ snap
          | None \<Rightarrow> ''case:'' @ res_case_name r)))"

definition ACCOUNT_SCOPE_KEYS :: "string list" where
  "ACCOUNT_SCOPE_KEYS = [''baseline_account_id'', ''source_account_id'', ''target_account_id'', ''actor_role'', ''resource_family'']"

type_synonym review_identity = "string list \<times> string list"

definition review_result_identity :: "security_test_result \<Rightarrow> review_identity result_of" where
  "review_result_identity r = sbind (review_endpoint r) (\<lambda>endpoint. Inr
     ([res_project_id r, res_env_id r, res_check_type r, endpoint, res_auth_mode r, res_account_id r],
      map (dtext (res_target r)) ACCOUNT_SCOPE_KEYS))"

text \<open>The label \<open>no recorded target\<close> is Chinese text in the source; here it is its UTF-8 bytes.\<close>

definition NO_TARGET_LABEL :: string where
  "NO_TARGET_LABEL = map char_of [0xE6, 0x9C, 0xAA, 0xE8, 0xAE, 0xB0, 0xE5, 0xBD, 0x95, 0xE7, 0x9B, 0xAE, 0xE6, 0xA0, 0x87 :: nat]"

definition review_target_label :: "security_test_result \<Rightarrow> string result_of" where
  "review_target_label r = sbind (path_of_text (target_text (res_target r))) (\<lambda>path.
     let path = (if path \<noteq> [] \<and> \<not> starts_with ''/'' path then CHR ''/'' # path else path);
         path = (case res_related_pathid r of Some n \<Rightarrow> if path = [] then ''PathId '' @ str_of_int n else path | None \<Rightarrow> path);
         verb = py_upper (str_or (res_method r) (dtext (res_target r) ''method''))
     in Inr (str_or (py_strip (verb @ '' '' @ path)) NO_TARGET_LABEL))"

section \<open>The queue\<close>

definition reviewable :: "security_test_result \<Rightarrow> bool" where
  "reviewable r \<longleftrightarrow> res_verdict r \<in> set REVIEWABLE_VERDICTS"

fun latest_from :: "review_identity list \<Rightarrow> security_test_result list \<Rightarrow> security_test_result list result_of" where
  "latest_from seen [] = Inr []"
| "latest_from seen (r # rs) = sbind (review_result_identity r) (\<lambda>i.
     if i \<in> set seen then latest_from seen rs
     else sbind (latest_from (i # seen) rs) (\<lambda>cs. Inr (if reviewable r then r # cs else cs)))"

definition latest_review_candidates :: "security_test_result list \<Rightarrow> security_test_result list result_of" where
  "latest_review_candidates results = latest_from [] results"

definition unresolved_review_candidates :: "security_test_result list \<Rightarrow> oid list \<Rightarrow> security_test_result list" where
  "unresolved_review_candidates candidates terminal_ids =
     filter (\<lambda>r. res_id r \<notin> set terminal_ids \<and> res_related_vuln_id r = None) candidates"

definition terminal_event :: "oid \<Rightarrow> result_review_event \<Rightarrow> bool" where
  "terminal_event rid e \<longleftrightarrow> rv_result_id e = rid \<and> rv_action e \<in> set TERMINAL_REVIEW_ACTIONS"

definition newest_first :: "string \<Rightarrow> oid \<Rightarrow> security_test_result list \<Rightarrow> security_test_result list" where
  "newest_first project run rs = sort_key (\<lambda>r. - res_ctime r)
     (filter (\<lambda>r. (project = [] \<or> res_project_id r = project) \<and> (run = [] \<or> res_run_id r = run)) rs)"

definition get_review_queue :: "string \<Rightarrow> oid \<Rightarrow> int option \<Rightarrow> review_db \<Rightarrow> security_test_result list result_of" where
  "get_review_queue project run limit s =
     sbind (latest_review_candidates (newest_first project run (review_results s))) (\<lambda>candidates.
       let terminal_ids = map rv_result_id (filter (\<lambda>e. list_ex (\<lambda>c. terminal_event (res_id c) e) candidates) (rd_reviews s));
           open = unresolved_review_candidates candidates terminal_ids
       in Inr (case limit of None \<Rightarrow> open | Some n \<Rightarrow> take (nat (max 0 n)) open))"

section \<open>Dispositions\<close>

definition get_review_events :: "oid \<Rightarrow> review_db \<Rightarrow> result_review_event list" where
  "get_review_events rid s = sort_key (\<lambda>e. - rv_ctime e) (filter (\<lambda>e. rv_result_id e = rid) (rd_reviews s))"

record review_input =
  ri_action :: string
  ri_reviewer :: string
  ri_run_id :: oid
  ri_project_id :: string
  ri_reviewer_role :: string
  ri_reason :: string
  ri_reason_codes :: "string list"
  ri_finding_id :: "oid option"
  ri_duplicate_of :: "oid option"
  ri_note :: string

definition plain_input :: "string \<Rightarrow> string \<Rightarrow> string \<Rightarrow> string \<Rightarrow> review_input" where
  "plain_input action reviewer role reason = \<lparr>ri_action = action, ri_reviewer = reviewer, ri_run_id = [],
     ri_project_id = [], ri_reviewer_role = role, ri_reason = reason, ri_reason_codes = [], ri_finding_id = None,
     ri_duplicate_of = None, ri_note = []\<rparr>"

definition find_result :: "oid \<Rightarrow> review_db \<Rightarrow> security_test_result option" where
  "find_result rid s = coll_get res_id rid (review_results s)"

definition new_review_event :: "time \<Rightarrow> security_test_result \<Rightarrow> oid \<Rightarrow> review_input \<Rightarrow> result_review_event" where
  "new_review_event now r rid i = \<lparr>rv_result_id = rid, rv_run_id = str_or (ri_run_id i) (res_run_id r),
     rv_project_id = str_or (ri_project_id i) (res_project_id r), rv_action = ri_action i,
     rv_reviewer = ri_reviewer i, rv_reviewer_role = ri_reviewer_role i, rv_reason = ri_reason i,
     rv_reason_codes = ri_reason_codes i, rv_finding_id = ri_finding_id i, rv_duplicate_of = ri_duplicate_of i,
     rv_note = ri_note i, rv_ctime = now\<rparr>"

definition add_review_event :: "time \<Rightarrow> oid \<Rightarrow> review_input \<Rightarrow> review_db \<Rightarrow> (review_db \<times> result_review_event) result_of" where
  "add_review_event now rid i s = (case find_result rid s of
     None \<Rightarrow> Inl (ValueError ''result not found'')
   | Some r \<Rightarrow> (let e = new_review_event now r rid i in Inr (s\<lparr>rd_reviews := rd_reviews s @ [e]\<rparr>, e)))"

definition reject_result :: "time \<Rightarrow> oid \<Rightarrow> string \<Rightarrow> string \<Rightarrow> string \<Rightarrow> review_db \<Rightarrow> (review_db \<times> result_review_event) result_of" where
  "reject_result now rid reviewer reason role s =
     add_review_event now rid (plain_input ''reject'' reviewer role (str_or reason ''false positive'')) s"

definition mark_duplicate :: "time \<Rightarrow> oid \<Rightarrow> oid \<Rightarrow> string \<Rightarrow> string \<Rightarrow> review_db \<Rightarrow> (review_db \<times> result_review_event) result_of" where
  "mark_duplicate now rid of_rid reviewer reason s =
     add_review_event now rid ((plain_input ''duplicate'' reviewer [] reason)\<lparr>ri_duplicate_of := Some of_rid\<rparr>) s"

section \<open>Confirmation\<close>

definition open_finding_of :: "security_test_result \<Rightarrow> finding_db \<Rightarrow> vulnerability_finding option" where
  "open_finding_of r s = (case res_related_vuln_id r of
     None \<Rightarrow> None
   | Some fid \<Rightarrow> (case get_finding fid s of
       Some f \<Rightarrow> if vf_status f \<in> {FALSE_POSITIVE, VERIFIED_FIXED} then None else Some f
     | None \<Rightarrow> None))"

definition promoted_finding :: "time \<Rightarrow> oid \<Rightarrow> string \<Rightarrow> security_test_result \<Rightarrow> vulnerability_finding" where
  "promoted_finding now fid severity r = \<lparr>vf_id = fid, vf_project_id = res_project_id r, vf_env_id = res_env_id r,
     vf_check_type = res_check_type r, vf_severity = str_or severity (str_or (res_severity r) ''medium''),
     vf_status = OPEN, vf_close_reason = None, vf_result_ids = [res_id r],
     vf_run_ids = (if res_run_id r = [] then [] else [res_run_id r]), vf_evidence_ref = res_evidence_ref r,
     vf_assigned_to = [], vf_closed_at = None, vf_ctime = now, vf_updated_at = now\<rparr>"

definition created_event :: "time \<Rightarrow> oid \<Rightarrow> string \<Rightarrow> string \<Rightarrow> security_test_result \<Rightarrow> finding_event" where
  "created_event now fid reviewer reason r = (plain_event now fid EV_CREATED reviewer [])\<lparr>
     fe_to_status := Some OPEN, fe_reason := str_or reason ''confirmed from review queue'',
     fe_related_run_id := (if res_run_id r = [] then None else Some (res_run_id r)),
     fe_related_result_ids := [res_id r]\<rparr>"

definition promote_to_finding :: "time \<Rightarrow> oid \<Rightarrow> string \<Rightarrow> string \<Rightarrow> string \<Rightarrow> security_test_result \<Rightarrow> review_db \<Rightarrow> review_db" where
  "promote_to_finding now fid reviewer severity reason r s =
     (let s1 = s\<lparr>rd_findings := save_event (created_event now fid reviewer reason r)
        ((rd_findings s)\<lparr>fd_findings := fd_findings (rd_findings s) @ [promoted_finding now fid severity r]\<rparr>)\<rparr>
      in set_results (update_where (\<lambda>q. res_id q = res_id r) (\<lambda>q. q\<lparr>res_related_vuln_id := Some fid\<rparr>)
        (review_results s1)) s1)"

definition confirm_result :: "time \<Rightarrow> oid \<Rightarrow> oid \<Rightarrow> string \<Rightarrow> string \<Rightarrow> string \<Rightarrow> string \<Rightarrow> review_db \<Rightarrow>
    (review_db \<times> vulnerability_finding \<times> result_review_event) result_of" where
  "confirm_result now fid rid reviewer severity reason role s = (case find_result rid s of
     None \<Rightarrow> Inl (ValueError ''result not found'')
   | Some r \<Rightarrow>
       if \<not> reviewable r then Inl (ValueError ''only reviewable verdicts can be confirmed'')
       else (case open_finding_of r (rd_findings s) of
           Some existing \<Rightarrow> sbind (add_review_event now rid ((plain_input ''confirm'' reviewer role
               (str_or reason (''already linked to finding '' @ vf_id existing)))\<lparr>ri_finding_id := Some (vf_id existing)\<rparr>) s)
             (\<lambda>(s', e). Inr (s', existing, e))
         | None \<Rightarrow> sbind (add_review_event now rid ((plain_input ''confirm'' reviewer role reason)\<lparr>ri_finding_id := Some fid\<rparr>)
               (promote_to_finding now fid reviewer severity reason r s))
             (\<lambda>(s', e). Inr (s', promoted_finding now fid severity r, e))))"

section \<open>Facts\<close>

lemma review_results_simps [simp]:
  "review_results (s\<lparr>rd_reviews := es\<rparr>) = review_results s"
  "review_results (set_results rs s) = rs"
  "rd_reviews (set_results rs s) = rd_reviews s"
  by (simp_all add: review_results_def set_results_def)

text \<open>The case of a result whose target can be read; the first result of every case.\<close>

definition case_of :: "security_test_result \<Rightarrow> review_identity" where
  "case_of r = (case review_result_identity r of Inr i \<Rightarrow> i | Inl _ \<Rightarrow> ([], []))"

fun firsts :: "('a \<Rightarrow> 'b) \<Rightarrow> 'b list \<Rightarrow> 'a list \<Rightarrow> 'a list" where
  "firsts f seen [] = []"
| "firsts f seen (x # xs) = (if f x \<in> set seen then firsts f seen xs else x # firsts f (f x # seen) xs)"

lemma firsts_find: "x \<in> set (firsts f seen xs) \<longleftrightarrow> f x \<notin> set seen \<and> find (\<lambda>y. f y = f x) xs = Some x"
  by (induction f seen xs rule: firsts.induct) auto

lemma firsts_distinct: "distinct (map f (firsts f seen xs)) \<and> f ` set (firsts f seen xs) \<inter> set seen = {}"
  by (induction f seen xs rule: firsts.induct) auto

lemma firsts_subset: "set (firsts f seen xs) \<subseteq> set xs"
  by (induction f seen xs rule: firsts.induct) auto

lemma firsts_sorted: "sorted (map k xs) \<Longrightarrow> sorted (map k (firsts f seen xs))"
  by (induction f seen xs rule: firsts.induct) (use firsts_subset in fastforce)+

lemma firsts_map: "(\<And>x. f (g x) = f x) \<Longrightarrow> firsts f seen (map g xs) = map g (firsts f seen xs)"
  by (induction f seen xs rule: firsts.induct) auto

lemma find_first_sorted:
  assumes "sorted (map k xs)" "find P xs = Some x" "y \<in> set xs" "P y"
  shows "k x \<le> k y"
  using assms by (induction xs) (auto split: if_splits)

lemma find_unique_least:
  assumes "sorted (map k xs)" "x \<in> set xs" "P x" "\<And>y. y \<in> set xs \<Longrightarrow> P y \<Longrightarrow> y \<noteq> x \<Longrightarrow> k x < (k y :: 'k::linorder)"
  shows "find P xs = Some x"
proof (cases "find P xs")
  case None
  with assms(2,3) show ?thesis by (auto simp: find_None_iff)
next
  case (Some z)
  then have "z \<in> set xs" "P z" by (auto dest: find_Some_in)
  with find_first_sorted [OF assms(1) Some assms(2,3)] assms(4) Some show ?thesis by fastforce
qed

lemma insort_key_map: "(\<And>x. k (g x) = k x) \<Longrightarrow> insort_key k (g x) (map g xs) = map g (insort_key k x xs)"
  by (induction xs) auto

lemma sort_key_map: "(\<And>x. k (g x) = k x) \<Longrightarrow> sort_key k (map g xs) = map g (sort_key k xs)"
  by (induction xs) (simp_all add: insort_key_map)

lemma latest_from_Inr:
  "latest_from seen rs = Inr cs \<longleftrightarrow> (\<forall>r \<in> set rs. succeeds (review_result_identity r)) \<and>
     cs = filter reviewable (firsts case_of seen rs)"
proof (induction rs arbitrary: seen cs)
  case (Cons r rs)
  show ?case
  proof (cases "review_result_identity r")
    case (Inr i)
    then have "case_of r = i" by (simp add: case_of_def)
    with Inr Cons show ?thesis by (auto simp: sbind_Inr_iff)
  qed simp
qed auto

definition awaiting :: "review_db \<Rightarrow> security_test_result \<Rightarrow> bool" where
  "awaiting s r \<longleftrightarrow> reviewable r \<and> res_related_vuln_id r = None \<and> \<not> list_ex (terminal_event (res_id r)) (rd_reviews s)"

definition newest_of_cases :: "string \<Rightarrow> oid \<Rightarrow> review_db \<Rightarrow> security_test_result list" where
  "newest_of_cases project run s = firsts case_of [] (newest_first project run (review_results s))"

definition readable_targets :: "string \<Rightarrow> oid \<Rightarrow> review_db \<Rightarrow> bool" where
  "readable_targets project run s \<longleftrightarrow>
     (\<forall>r \<in> set (newest_first project run (review_results s)). succeeds (review_result_identity r))"

lemma queue_eq:
  "get_review_queue project run limit s = Inr q \<longleftrightarrow> readable_targets project run s \<and>
     q = (let open = filter (awaiting s) (newest_of_cases project run s)
          in case limit of None \<Rightarrow> open | Some n \<Rightarrow> take (nat (max 0 n)) open)"
proof -
  let ?cs = "filter reviewable (newest_of_cases project run s)"
  let ?ids = "map rv_result_id (filter (\<lambda>e. list_ex (\<lambda>c. terminal_event (res_id c) e) ?cs) (rd_reviews s))"
  have "res_id r \<in> set ?ids \<longleftrightarrow> list_ex (terminal_event (res_id r)) (rd_reviews s)" if "r \<in> set ?cs" for r
    using that by (force simp: list_ex_iff terminal_event_def)
  then have u: "unresolved_review_candidates ?cs ?ids = filter (awaiting s) (newest_of_cases project run s)"
    unfolding unresolved_review_candidates_def filter_filter by (intro filter_cong [OF refl]) (auto simp: awaiting_def)
  have c: "latest_review_candidates (newest_first project run (review_results s)) = Inr cs \<longleftrightarrow>
      readable_targets project run s \<and> cs = ?cs" for cs
    by (simp add: latest_review_candidates_def latest_from_Inr readable_targets_def newest_of_cases_def)
  show ?thesis
  proof (cases "latest_review_candidates (newest_first project run (review_results s))")
    case (Inl e)
    with c have "\<not> readable_targets project run s" by auto
    with Inl show ?thesis by (simp add: get_review_queue_def)
  next
    case (Inr cs)
    with c have cs: "readable_targets project run s" "cs = ?cs" by auto
    then show ?thesis unfolding get_review_queue_def Let_def Inr cs(2) sbind_Inr u by auto
  qed
qed

lemma newest_first_set: "set (newest_first project run rs) =
    {r \<in> set rs. (project = [] \<or> res_project_id r = project) \<and> (run = [] \<or> res_run_id r = run)}"
  by (auto simp: newest_first_def)

lemma newest_first_sorted: "sorted (map (\<lambda>r. - res_ctime r) (newest_first project run rs))"
  by (simp add: newest_first_def)

lemma find_result_in: "find_result rid s = Some r \<Longrightarrow> r \<in> set (review_results s) \<and> res_id r = rid"
  by (auto simp: find_result_def dest: coll_get_Some)

lemma add_review_Inr:
  "add_review_event now rid i s = Inr (s', e) \<longleftrightarrow>
     (\<exists>r. find_result rid s = Some r \<and> e = new_review_event now r rid i \<and> s' = s\<lparr>rd_reviews := rd_reviews s @ [e]\<rparr>)"
  by (auto simp: add_review_event_def Let_def split: option.splits)

lemma awaiting_event:
  "awaiting (s\<lparr>rd_reviews := rd_reviews s @ [e]\<rparr>) r \<longleftrightarrow> awaiting s r \<and> \<not> terminal_event (res_id r) e"
  by (auto simp: awaiting_def)

lemma queue_after_event:
  assumes "get_review_queue project run None s = Inr q" "terminal_event rid e"
  shows "get_review_queue project run None (s\<lparr>rd_reviews := rd_reviews s @ [e]\<rparr>) = Inr (filter (\<lambda>r. res_id r \<noteq> rid) q)"
proof -
  have t: "terminal_event (res_id r) e \<longleftrightarrow> res_id r = rid" for r
    using assms(2) by (auto simp: terminal_event_def)
  show ?thesis
    using assms(1) unfolding queue_eq
    by (auto simp: readable_targets_def newest_of_cases_def awaiting_event t intro!: filter_cong)
qed

lemma identity_of_linked [simp]:
  "review_result_identity (r\<lparr>res_related_vuln_id := x\<rparr>) = review_result_identity r"
  by (simp add: review_result_identity_def review_endpoint_def normalized_target_path_def cong: option.case_cong if_cong)

lemma queue_after_link:
  assumes "get_review_queue project run None s = Inr q"
    and "review_results s' = update_where (\<lambda>r. res_id r = rid) (\<lambda>r. r\<lparr>res_related_vuln_id := Some fid\<rparr>) (review_results s)"
    and "rd_reviews s' = rd_reviews s"
  shows "get_review_queue project run None s' = Inr (filter (\<lambda>r. res_id r \<noteq> rid) q)"
proof -
  let ?g = "\<lambda>r. if res_id r = rid then r\<lparr>res_related_vuln_id := Some fid\<rparr> else r"
  have id: "review_result_identity (?g r) = review_result_identity r" for r
    by simp
  then have same: "case_of (?g r) = case_of r" for r by (simp add: case_of_def)
  have nf: "newest_first project run (review_results s') = map ?g (newest_first project run (review_results s))"
    unfolding assms(2) update_where_def newest_first_def
    by (subst sort_key_map [symmetric]) (auto simp: filter_map o_def intro!: arg_cong [where f = "sort_key _"] arg_cong [where f = "map _"] filter_cong)
  then have cases: "newest_of_cases project run s' = map ?g (newest_of_cases project run s)"
    unfolding newest_of_cases_def by (simp only: firsts_map [of case_of ?g, OF same])
  have "filter (awaiting s') (map ?g xs) = filter (\<lambda>r. res_id r \<noteq> rid) (filter (awaiting s) xs)" for xs
    by (induction xs) (auto simp: awaiting_def assms(3))
  moreover have "readable_targets project run s' = readable_targets project run s"
    unfolding readable_targets_def nf list.set_map ball_simps by (simp only: id)
  ultimately show ?thesis using assms(1) unfolding queue_eq cases by simp
qed

subsection \<open>Confirmation\<close>

lemma promote_simps [simp]:
  "rd_reviews (promote_to_finding now fid reviewer severity reason r s) = rd_reviews s"
  "review_results (promote_to_finding now fid reviewer severity reason r s) =
     update_where (\<lambda>q. res_id q = res_id r) (\<lambda>q. q\<lparr>res_related_vuln_id := Some fid\<rparr>) (review_results s)"
  "fd_findings (rd_findings (promote_to_finding now fid reviewer severity reason r s)) =
     fd_findings (rd_findings s) @ [promoted_finding now fid severity r]"
  by (simp_all add: promote_to_finding_def Let_def set_results_def save_event_def review_results_def)

lemma promote_is_step:
  assumes "fid \<notin> vf_id ` set (fd_findings (rd_findings s))"
  shows "finding_steps digest sha parse (rd_findings s) (rd_findings (promote_to_finding now fid reviewer severity reason r s))"
proof -
  let ?s1 = "save_event (created_event now fid reviewer reason r)
    ((rd_findings s)\<lparr>fd_findings := fd_findings (rd_findings s) @ [promoted_finding now fid severity r]\<rparr>)"
  have "finding_step digest sha parse (rd_findings s) ?s1"
    using assms by (intro promote_result) (simp_all add: promoted_finding_def created_event_def plain_event_def)
  moreover have "finding_step digest sha parse ?s1 (rd_findings (promote_to_finding now fid reviewer severity reason r s))"
    by (simp add: promote_to_finding_def Let_def set_results_def environment)
  ultimately show ?thesis unfolding finding_steps_def by (rule converse_rtranclp_into_rtranclp [OF _ r_into_rtranclp])
qed

lemma confirm_cases:
  assumes "confirm_result now fid rid reviewer severity reason role s = Inr (s', f, e)"
  obtains (linked) r i where "find_result rid s = Some r" "reviewable r" "open_finding_of r (rd_findings s) = Some f"
      "ri_action i = ''confirm''" "ri_finding_id i = Some (vf_id f)" "add_review_event now rid i s = Inr (s', e)"
  | (promoted) r i where "find_result rid s = Some r" "reviewable r" "open_finding_of r (rd_findings s) = None"
      "f = promoted_finding now fid severity r" "ri_action i = ''confirm''" "ri_finding_id i = Some (vf_id f)"
      "add_review_event now rid i (promote_to_finding now fid reviewer severity reason r s) = Inr (s', e)"
proof -
  from assms obtain r where r: "find_result rid s = Some r" "reviewable r"
    by (auto simp: confirm_result_def split: option.splits if_splits)
  show ?thesis
  proof (cases "open_finding_of r (rd_findings s)")
    case None
    with assms r show ?thesis
      by (intro promoted [OF r None, of "(plain_input ''confirm'' reviewer role reason)\<lparr>ri_finding_id := Some fid\<rparr>"])
        (auto simp: confirm_result_def sbind_Inr_iff plain_input_def promoted_finding_def)
  next
    case (Some x)
    with assms r have "f = x" by (auto simp: confirm_result_def sbind_Inr_iff)
    with assms r Some show ?thesis
      by (intro linked [OF r, of "(plain_input ''confirm'' reviewer role (str_or reason (''already linked to finding '' @ vf_id x)))
          \<lparr>ri_finding_id := Some (vf_id x)\<rparr>"])
        (auto simp: confirm_result_def sbind_Inr_iff plain_input_def)
  qed
qed

lemma open_finding_of_Some: "open_finding_of r s = Some f \<longleftrightarrow>
    res_related_vuln_id r = Some (vf_id f) \<and> get_finding (vf_id f) s = Some f \<and> vf_status f \<notin> {FALSE_POSITIVE, VERIFIED_FIXED}"
  by (auto simp: open_finding_of_def dest: get_findingD split: option.splits)

lemma find_result_promoted:
  assumes "find_result rid s = Some r"
  shows "find_result rid (promote_to_finding now fid reviewer severity reason r s) = Some (r\<lparr>res_related_vuln_id := Some fid\<rparr>)"
  using assms find_result_in [OF assms] by (simp add: find_result_def coll_get_update_where)

lemma find_result_event [simp]: "find_result rid (s\<lparr>rd_reviews := es\<rparr>) = find_result rid s"
  by (simp add: find_result_def)

text \<open>What a confirmation leaves behind, in both cases.\<close>

lemma confirm_leaves:
  assumes "confirm_result now fid rid reviewer severity reason role s = Inr (s', f, e)"
    and "fid \<notin> vf_id ` set (fd_findings (rd_findings s))"
  shows "\<exists>r'. find_result rid s' = Some r' \<and> reviewable r' \<and> open_finding_of r' (rd_findings s') = Some f"
  using assms(1)
proof (cases rule: confirm_cases)
  case (linked r i)
  then show ?thesis by (auto simp: add_review_Inr)
next
  case (promoted r i)
  let ?s1 = "promote_to_finding now fid reviewer severity reason r s"
  have "get_finding fid (rd_findings ?s1) = Some f"
  proof -
    have "coll_get vf_id fid (fd_findings (rd_findings s)) = None" using assms(2) by (simp add: coll_get_None)
    then show ?thesis by (simp add: get_finding_def coll_get_append promoted(4) promoted_finding_def coll_get_Cons)
  qed
  then have "open_finding_of (r\<lparr>res_related_vuln_id := Some fid\<rparr>) (rd_findings ?s1) = Some f"
    by (simp add: open_finding_of_Some promoted(4) promoted_finding_def)
  moreover from promoted(7) have "s' = ?s1\<lparr>rd_reviews := rd_reviews s @ [e]\<rparr>" by (auto simp: add_review_Inr)
  ultimately show ?thesis
    using find_result_promoted [OF promoted(1)] promoted(2) by (simp add: reviewable_def)
qed

lemma confirm_again:
  assumes "find_result rid s = Some r" "reviewable r" "open_finding_of r (rd_findings s) = Some f"
  shows "\<exists>s2 e2. confirm_result now fid rid reviewer severity reason role s = Inr (s2, f, e2) \<and> rd_findings s2 = rd_findings s"
  using assms by (auto simp: confirm_result_def sbind_Inr_iff add_review_event_def Let_def)

section \<open>Properties\<close>

definition in_scope :: "string \<Rightarrow> oid \<Rightarrow> security_test_result \<Rightarrow> bool" where
  "in_scope project run r \<longleftrightarrow> (project = [] \<or> res_project_id r = project) \<and> (run = [] \<or> res_run_id r = run)"

text \<open>C30: The review queue holds exactly the newest conclusions that still wait for a decision. Every
  entry is a result of the scope with a reviewable verdict, without a finding and without a terminal
  review event, and no result of the same case in the scope is newer, so a later pass removes an older
  candidate; every such newest result is in the queue; no case is in it twice; it is ordered by time; and a
  limit cuts it from the end.\<close>

theorem review_queue_exact:
  assumes "get_review_queue project run None s = Inr q"
  shows "(\<forall>r \<in> set q. r \<in> set (review_results s) \<and> in_scope project run r \<and> awaiting s r \<and>
       (\<forall>r' \<in> set (review_results s). in_scope project run r' \<and> case_of r' = case_of r \<longrightarrow> res_ctime r' \<le> res_ctime r)) \<and>
    (\<forall>r \<in> set (review_results s). in_scope project run r \<and> awaiting s r \<and>
       (\<forall>r' \<in> set (review_results s). in_scope project run r' \<and> case_of r' = case_of r \<and> r' \<noteq> r \<longrightarrow> res_ctime r' < res_ctime r) \<longrightarrow>
       r \<in> set q) \<and>
    distinct (map case_of q) \<and> sorted (map (\<lambda>r. - res_ctime r) q) \<and>
    (\<forall>n. get_review_queue project run (Some n) s = Inr (take (nat (max 0 n)) q))"
proof -
  let ?xs = "newest_first project run (review_results s)"
  from assms have q: "readable_targets project run s" "q = filter (awaiting s) (newest_of_cases project run s)"
    by (simp_all add: queue_eq)
  have xs: "r \<in> set ?xs \<longleftrightarrow> r \<in> set (review_results s) \<and> in_scope project run r" for r
    by (auto simp: newest_first_set in_scope_def)
  have in_q: "r \<in> set q \<longleftrightarrow> awaiting s r \<and> find (\<lambda>y. case_of y = case_of r) ?xs = Some r" for r
    by (auto simp: q(2) newest_of_cases_def firsts_find)
  have sorted: "sorted (map (\<lambda>r. - res_ctime r) q)"
    unfolding q(2) newest_of_cases_def by (intro sorted_filter firsts_sorted newest_first_sorted)
  have once: "distinct (map case_of q)"
    using firsts_distinct [of case_of "[]" ?xs] by (simp add: q(2) newest_of_cases_def distinct_map_filter)
  have limited: "\<forall>n. get_review_queue project run (Some n) s = Inr (take (nat (max 0 n)) q)"
    using q by (simp add: queue_eq)
  have sound: "\<forall>r \<in> set q. r \<in> set (review_results s) \<and> in_scope project run r \<and> awaiting s r \<and>
      (\<forall>r' \<in> set (review_results s). in_scope project run r' \<and> case_of r' = case_of r \<longrightarrow> res_ctime r' \<le> res_ctime r)"
  proof
    fix r assume "r \<in> set q"
    then have r: "awaiting s r" "find (\<lambda>y. case_of y = case_of r) ?xs = Some r" by (simp_all add: in_q)
    then have "r \<in> set ?xs" by (auto dest: find_Some_in)
    moreover have "res_ctime r' \<le> res_ctime r" if "r' \<in> set ?xs" "case_of r' = case_of r" for r'
      using find_first_sorted [OF newest_first_sorted r(2) that] by simp
    ultimately show "r \<in> set (review_results s) \<and> in_scope project run r \<and> awaiting s r \<and>
      (\<forall>r' \<in> set (review_results s). in_scope project run r' \<and> case_of r' = case_of r \<longrightarrow> res_ctime r' \<le> res_ctime r)"
      using r(1) xs by blast
  qed
  have complete: "\<forall>r \<in> set (review_results s). in_scope project run r \<and> awaiting s r \<and>
      (\<forall>r' \<in> set (review_results s). in_scope project run r' \<and> case_of r' = case_of r \<and> r' \<noteq> r \<longrightarrow> res_ctime r' < res_ctime r) \<longrightarrow>
      r \<in> set q"
  proof (intro ballI impI)
    fix r assume r: "r \<in> set (review_results s)" "in_scope project run r \<and> awaiting s r \<and>
      (\<forall>r' \<in> set (review_results s). in_scope project run r' \<and> case_of r' = case_of r \<and> r' \<noteq> r \<longrightarrow> res_ctime r' < res_ctime r)"
    then have "r \<in> set ?xs" by (simp add: xs)
    moreover have "- res_ctime r < - res_ctime y" if "y \<in> set ?xs" "case_of y = case_of r" "y \<noteq> r" for y
      using r(2) that xs by auto
    ultimately have "find (\<lambda>y. case_of y = case_of r) ?xs = Some r"
      by (intro find_unique_least [OF newest_first_sorted]) auto
    with r(2) show "r \<in> set q" by (simp add: in_q)
  qed
  show ?thesis by (intro conjI) (rule sound complete once sorted limited)+
qed

text \<open>A decision takes exactly its own result out of the queue, for every scope: after a result was rejected,
  marked as a duplicate or confirmed, the queue is the old one without it, and exactly one review event
  was appended.\<close>

theorem disposition_leaves_queue:
  assumes "get_review_queue project run None s = Inr q"
    and "reject_result now rid reviewer reason role s = Inr (s', e) \<or>
      mark_duplicate now rid other reviewer reason s = Inr (s', e) \<or>
      (\<exists>f. confirm_result now fid rid reviewer severity reason role s = Inr (s', f, e))"
  shows "get_review_queue project run None s' = Inr (filter (\<lambda>r. res_id r \<noteq> rid) q) \<and> rd_reviews s' = rd_reviews s @ [e]"
proof -
  have event: "get_review_queue project run None s1' = Inr (filter (\<lambda>r. res_id r \<noteq> rid) q1) \<and> rd_reviews s1' = rd_reviews s1 @ [e]"
    if "add_review_event now rid i s1 = Inr (s1', e)" "ri_action i \<in> set TERMINAL_REVIEW_ACTIONS"
      "get_review_queue project run None s1 = Inr q1" for i s1 s1' q1
  proof -
    from that(1) obtain r where s': "e = new_review_event now r rid i" "s1' = s1\<lparr>rd_reviews := rd_reviews s1 @ [e]\<rparr>"
      by (auto simp: add_review_Inr)
    with that(2) have "terminal_event rid e" by (simp add: terminal_event_def new_review_event_def)
    with queue_after_event [OF that(3)] s'(2) show ?thesis by simp
  qed
  have t: "{''confirm'', ''reject'', ''duplicate''} \<subseteq> set TERMINAL_REVIEW_ACTIONS" by (simp add: TERMINAL_REVIEW_ACTIONS_def)
  consider "reject_result now rid reviewer reason role s = Inr (s', e)" | "mark_duplicate now rid other reviewer reason s = Inr (s', e)"
    | (confirmed) f where "confirm_result now fid rid reviewer severity reason role s = Inr (s', f, e)"
    using assms(2) by blast
  then show ?thesis
  proof cases
    case 1
    then show ?thesis unfolding reject_result_def using event [OF _ _ assms(1)] t by (simp add: plain_input_def)
  next
    case 2
    then show ?thesis unfolding mark_duplicate_def using event [OF _ _ assms(1)] t by (simp add: plain_input_def)
  next
    case confirmed
    then show ?thesis
    proof (cases rule: confirm_cases)
      case (linked r i)
      then show ?thesis using event [OF linked(6) _ assms(1)] t by simp
    next
      case (promoted r i)
      have "get_review_queue project run None (promote_to_finding now fid reviewer severity reason r s) =
          Inr (filter (\<lambda>r. res_id r \<noteq> rid) q)"
        using find_result_in [OF promoted(1)] by (intro queue_after_link [OF assms(1)]) simp_all
      then show ?thesis using event [OF promoted(7)] promoted(5) t by simp
    qed
  qed
qed


definition example_review_db :: review_db where
  "example_review_db = set_results [example_result ''x1'' ''b1'' ''potential_vuln'',
     (example_result ''x3'' ''b1'' ''need_review'')\<lparr>res_snapshot_id := Some ''s3'', res_ctime := 2\<rparr>,
     (example_result ''x2'' ''t1'' ''no_vuln'')\<lparr>res_ctime := 5\<rparr>]
     \<lparr>rd_findings = example_finding_db [] [] [], rd_reviews = []\<rparr>"

lemma example_queue: "\<exists>q. get_review_queue [] [] None example_review_db = Inr q \<and> map res_id q = [''x3'']"
proof -
  have "case get_review_queue [] [] None example_review_db of Inr q \<Rightarrow> map res_id q = [''x3''] | Inl _ \<Rightarrow> False" by code_simp
  then show ?thesis by (auto split: sum.splits)
qed

theorem review_queue_exact_witness:
  "\<exists>q. get_review_queue [] [] None example_review_db = Inr q \<and> map res_id q = [''x3''] \<and>
     get_review_queue [] [] (Some 0) example_review_db = Inr [] \<and>
     (\<forall>r \<in> set q. awaiting example_review_db r)"
proof -
  obtain q where q: "get_review_queue [] [] None example_review_db = Inr q" "map res_id q = [''x3'']"
    using example_queue by (elim exE conjE)
  note e = review_queue_exact [OF q(1)]
  from e have "get_review_queue [] [] (Some 0) example_review_db = Inr (take (nat (max 0 0)) q)" by blast
  moreover from e have "\<forall>r \<in> set q. awaiting example_review_db r" by blast
  ultimately show ?thesis using q by simp
qed

theorem disposition_leaves_queue_witness:
  "\<exists>s' e. reject_result 9 ''x3'' ''bob'' [] [] example_review_db = Inr (s', e) \<and>
     get_review_queue [] [] None s' = Inr [] \<and> rd_reviews s' = [e]"
proof -
  obtain q where q: "get_review_queue [] [] None example_review_db = Inr q" "map res_id q = [''x3'']"
    using example_queue by (elim exE conjE)
  have "succeeds (reject_result 9 ''x3'' ''bob'' [] [] example_review_db)" by code_simp
  then obtain s' e where r: "reject_result 9 ''x3'' ''bob'' [] [] example_review_db = Inr (s', e)"
    by (auto simp: succeeds_iff)
  have "rd_reviews example_review_db = []" by (simp add: example_review_db_def set_results_def)
  with disposition_leaves_queue [OF q(1), of 9 "''x3''" "''bob''" "[]" "[]" s' e] r q(2)
  have "get_review_queue [] [] None s' = Inr (filter (\<lambda>r. res_id r \<noteq> ''x3'') q)" "rd_reviews s' = [e]" by auto
  moreover have "filter (\<lambda>r. res_id r \<noteq> ''x3'') q = []" using q(2) by (auto simp: filter_empty_conv)
  ultimately show ?thesis using r by auto
qed


end
