(* ===== verification/UnlockPlan.thy ===== *)
theory UnlockPlan
  imports Documents "HOL-Library.Multiset"
begin

text \<open>
  \<open>apiAnalysis/tool/unlock_plan.py\<close>: the steps of a blocked plan, whose readiness is derived from
  recorded facts. Titles and details, which are display text, are left out, and so are the value
  summary and the time stamps of a fact other than \<open>satisfied_at\<close>. \<open>now\<close> is the current time.
  A status or state is a string, as in the source, which stores any.
\<close>

section \<open>Documents\<close>

record unlock_step =
  us_step_key :: string
  us_serves :: string
  us_project_id :: string
  us_env_id :: string
  us_requires :: "string list"
  us_produces :: "string list"
  us_status :: string
  us_priority :: "int option"

record precondition_fact =
  uf_fact_key :: string
  uf_state :: string
  uf_project_id :: string
  uf_env_id :: string
  uf_evidence_ref :: string
  uf_evidence_trace_ids :: "oid list"
  uf_satisfied_at :: "time option"
  uf_satisfied_by_run_id :: "oid option"
  uf_note :: string

record unlock_db =
  ud_steps :: "unlock_step list"
  ud_facts :: "precondition_fact list"

definition SATISFIED :: string where "SATISFIED = ''satisfied''"
definition UNSATISFIED :: string where "UNSATISFIED = ''unsatisfied''"
definition UNKNOWN :: string where "UNKNOWN = ''unknown''"

definition STEP_PENDING :: string where "STEP_PENDING = ''pending''"
definition STEP_IN_PROGRESS :: string where "STEP_IN_PROGRESS = ''in_progress''"
definition STEP_DONE :: string where "STEP_DONE = ''done''"
definition STEP_ABANDONED :: string where "STEP_ABANDONED = ''abandoned''"
definition STEP_READY :: string where "STEP_READY = ''ready''"
definition STEP_BLOCKED :: string where "STEP_BLOCKED = ''blocked''"

definition TERMINAL_STEPS :: "string list" where
  "TERMINAL_STEPS = [STEP_DONE, STEP_ABANDONED]"

lemmas step_states = SATISFIED_def UNSATISFIED_def UNKNOWN_def STEP_PENDING_def STEP_IN_PROGRESS_def STEP_DONE_def
  STEP_ABANDONED_def STEP_READY_def STEP_BLOCKED_def TERMINAL_STEPS_def

text \<open>The unique indexes.\<close>

definition step_id :: "unlock_step \<Rightarrow> string \<times> string \<times> string" where
  "step_id s = (us_project_id s, us_env_id s, us_step_key s)"

definition fact_id :: "precondition_fact \<Rightarrow> string \<times> string \<times> string" where
  "fact_id f = (uf_project_id f, uf_env_id f, uf_fact_key f)"

section \<open>The seed plan\<close>

definition FACT_SQL_USERID_CONCATENATED :: string where
  "FACT_SQL_USERID_CONCATENATED = ''sqli.userid_concatenated_into_sql''"
definition FACT_ENTERPRISE_OWNER_ACCOUNT :: string where
  "FACT_ENTERPRISE_OWNER_ACCOUNT = ''account.enterprise_owner_available''"
definition FACT_ENTERPRISE_CONTEXT_TOKEN :: string where
  "FACT_ENTERPRISE_CONTEXT_TOKEN = ''enterprise.context_token_minted''"
definition FACT_HIGH_PRIVILEGE_ACCOUNT :: string where
  "FACT_HIGH_PRIVILEGE_ACCOUNT = ''account.high_privilege_available''"
definition FACT_GRPC_BODY_SAMPLE :: string where
  "FACT_GRPC_BODY_SAMPLE = ''sample.grpc_write_body_captured''"

definition SERVES_ENTERPRISE_TREE :: string where "SERVES_ENTERPRISE_TREE = ''enterprise_tree''"
definition SERVES_VERTICAL_PRIVILEGE :: string where "SERVES_VERTICAL_PRIVILEGE = ''vertical_privilege''"
definition SERVES_GRPC_WRITE :: string where "SERVES_GRPC_WRITE = ''grpc_write''"
definition SERVES_SQLI_INJECTION :: string where "SERVES_SQLI_INJECTION = ''sqli_injection''"

text \<open>The keys of \<open>FACT_TITLES\<close>.\<close>

definition FACT_KEYS :: "string list" where
  "FACT_KEYS = [FACT_SQL_USERID_CONCATENATED, FACT_ENTERPRISE_OWNER_ACCOUNT, FACT_ENTERPRISE_CONTEXT_TOKEN,
     FACT_HIGH_PRIVILEGE_ACCOUNT, FACT_GRPC_BODY_SAMPLE]"

definition planned :: "string \<Rightarrow> string \<Rightarrow> string list \<Rightarrow> string list \<Rightarrow> int \<Rightarrow> unlock_step" where
  "planned key serves requires produces priority = \<lparr>us_step_key = key, us_serves = serves, us_project_id = [],
     us_env_id = [], us_requires = requires, us_produces = produces, us_status = STEP_PENDING, us_priority = Some priority\<rparr>"

definition default_plan :: "unlock_step list" where
  "default_plan = [
     planned ''sqli.prove_userid_concatenation'' SERVES_SQLI_INJECTION [] [FACT_SQL_USERID_CONCATENATED] 10,
     planned ''sqli.sibling_family_probe'' SERVES_SQLI_INJECTION [FACT_SQL_USERID_CONCATENATED] [] 20,
     planned ''account.obtain_enterprise_owner'' SERVES_ENTERPRISE_TREE [] [FACT_ENTERPRISE_OWNER_ACCOUNT] 30,
     planned ''enterprise.mint_context_token'' SERVES_ENTERPRISE_TREE [FACT_ENTERPRISE_OWNER_ACCOUNT]
       [FACT_ENTERPRISE_CONTEXT_TOKEN] 40,
     planned ''enterprise.read_org_tree'' SERVES_ENTERPRISE_TREE [FACT_ENTERPRISE_CONTEXT_TOKEN] [] 50,
     planned ''enterprise.write_org_tree'' SERVES_ENTERPRISE_TREE [FACT_ENTERPRISE_CONTEXT_TOKEN] [] 60,
     planned ''account.obtain_high_privilege'' SERVES_VERTICAL_PRIVILEGE [] [FACT_HIGH_PRIVILEGE_ACCOUNT] 70,
     planned ''authz.vertical_privilege_sweep'' SERVES_VERTICAL_PRIVILEGE [FACT_HIGH_PRIVILEGE_ACCOUNT] [] 80,
     planned ''sample.capture_grpc_write_body'' SERVES_GRPC_WRITE [] [FACT_GRPC_BODY_SAMPLE] 90,
     planned ''write.grpc_schema_write_sweep'' SERVES_GRPC_WRITE [FACT_GRPC_BODY_SAMPLE] [] 100]"

section \<open>Readiness\<close>

definition satisfied_keys :: "precondition_fact list \<Rightarrow> string set" where
  "satisfied_keys facts = uf_fact_key ` set (filter (\<lambda>f. uf_state f = SATISFIED) facts)"

definition step_status :: "unlock_step \<Rightarrow> string" where
  "step_status s = str_or (us_status s) STEP_PENDING"

definition missing_facts :: "string set \<Rightarrow> unlock_step \<Rightarrow> string list" where
  "missing_facts satisfied s = sort (filter (\<lambda>k. k \<notin> satisfied) (us_requires s))"

definition readiness :: "string set \<Rightarrow> unlock_step \<Rightarrow> string" where
  "readiness satisfied s =
     (if step_status s \<in> set TERMINAL_STEPS then step_status s
      else if step_status s = STEP_IN_PROGRESS then STEP_IN_PROGRESS
      else if missing_facts satisfied s \<noteq> [] then STEP_BLOCKED
      else STEP_READY)"

text \<open>\<open>produced_by\<close> keeps the first producer of a fact, \<open>by_key\<close> the last step of a key.\<close>

definition produced_by :: "unlock_step list \<Rightarrow> string \<Rightarrow> string option" where
  "produced_by steps k = map_option us_step_key (find (\<lambda>s. k \<in> set (us_produces s)) steps)"

definition step_of_key :: "unlock_step list \<Rightarrow> string \<Rightarrow> unlock_step option" where
  "step_of_key steps k = find (\<lambda>s. us_step_key s = k) (rev steps)"

definition downstream_of :: "unlock_step list \<Rightarrow> unlock_step \<Rightarrow> string list" where
  "downstream_of steps s = sort (map us_step_key (filter (\<lambda>other. us_step_key other \<noteq> us_step_key s \<and>
     us_status other \<notin> set TERMINAL_STEPS \<and> list_ex (\<lambda>k. k \<in> set (us_produces s)) (us_requires other)) steps))"

definition abandoned_producer :: "unlock_step list \<Rightarrow> string \<Rightarrow> string option" where
  "abandoned_producer steps k = (case produced_by steps k of
     None \<Rightarrow> None
   | Some p \<Rightarrow> (case step_of_key steps p of
       Some s \<Rightarrow> if us_status s = STEP_ABANDONED then Some p else None
     | None \<Rightarrow> None))"

record step_view =
  sv_step_key :: string
  sv_serves :: string
  sv_priority :: "int option"
  sv_status :: string
  sv_readiness :: string
  sv_requires :: "string list"
  sv_blocked_by :: "string list"
  sv_produces :: "string list"
  sv_downstream :: "string list"
  sv_precondition_lost :: "string list"
  sv_deadlocked :: "string list"

definition evaluate_step :: "unlock_step list \<Rightarrow> string set \<Rightarrow> unlock_step \<Rightarrow> step_view" where
  "evaluate_step steps satisfied s = (let missing = missing_facts satisfied s in
     \<lparr>sv_step_key = us_step_key s, sv_serves = us_serves s, sv_priority = us_priority s, sv_status = step_status s,
      sv_readiness = readiness satisfied s, sv_requires = us_requires s, sv_blocked_by = missing,
      sv_produces = us_produces s, sv_downstream = downstream_of steps s,
      sv_precondition_lost = (if step_status s \<in> set TERMINAL_STEPS \<or> step_status s = STEP_IN_PROGRESS then missing else []),
      sv_deadlocked = sort (List.map_filter (abandoned_producer steps) (us_requires s))\<rparr>)"

definition view_order :: "step_view \<Rightarrow> int \<times> string" where
  "view_order v = (case sv_priority v of Some p \<Rightarrow> p | None \<Rightarrow> 100, sv_step_key v)"

definition evaluate_steps :: "unlock_step list \<Rightarrow> precondition_fact list \<Rightarrow> step_view list" where
  "evaluate_steps steps facts = sort_key view_order (map (evaluate_step steps (satisfied_keys facts)) steps)"

definition ready_steps :: "unlock_step list \<Rightarrow> precondition_fact list \<Rightarrow> step_view list" where
  "ready_steps steps facts = filter (\<lambda>v. sv_readiness v = STEP_READY) (evaluate_steps steps facts)"

record blocking =
  bs_total_steps :: nat
  bs_ready :: "string list"
  bs_blocked :: "string list"
  bs_done :: "string list"
  bs_blocked_by_fact :: "(string \<times> string list) list"
  bs_precondition_lost :: "string list"
  bs_deadlocked :: "string list"

definition keys_where :: "(step_view \<Rightarrow> bool) \<Rightarrow> step_view list \<Rightarrow> string list" where
  "keys_where p vs = map sv_step_key (filter p vs)"

definition add_blocked :: "step_view \<Rightarrow> (string \<times> string list) list \<Rightarrow> (string \<times> string list) list" where
  "add_blocked v = fold (\<lambda>k d. dict_set k ((case map_of d k of Some xs \<Rightarrow> xs | None \<Rightarrow> []) @ [sv_step_key v]) d) (sv_blocked_by v)"

definition blocked_by_fact :: "step_view list \<Rightarrow> (string \<times> string list) list" where
  "blocked_by_fact vs = map (\<lambda>(k, xs). (k, sort xs)) (sort_key (\<lambda>(k, xs). (- int (length xs), k))
     (fold add_blocked (filter (\<lambda>v. sv_readiness v = STEP_BLOCKED) vs) []))"

definition blocking_summary :: "unlock_step list \<Rightarrow> precondition_fact list \<Rightarrow> blocking" where
  "blocking_summary steps facts = (let vs = evaluate_steps steps facts in
     \<lparr>bs_total_steps = length vs,
      bs_ready = keys_where (\<lambda>v. sv_readiness v = STEP_READY) vs,
      bs_blocked = keys_where (\<lambda>v. sv_readiness v = STEP_BLOCKED) vs,
      bs_done = keys_where (\<lambda>v. sv_readiness v = STEP_DONE) vs,
      bs_blocked_by_fact = blocked_by_fact vs,
      bs_precondition_lost = keys_where (\<lambda>v. sv_precondition_lost v \<noteq> []) vs,
      bs_deadlocked = keys_where (\<lambda>v. sv_deadlocked v \<noteq> []) vs\<rparr>)"

section \<open>Facts and seeding\<close>

record fact_input =
  fi_fact_key :: string
  fi_state :: string
  fi_project_id :: string
  fi_env_id :: string
  fi_evidence_ref :: string
  fi_evidence_trace_ids :: "oid list"
  fi_run_id :: "oid option"
  fi_note :: string
  fi_manual_confirmation :: bool

definition MANUAL_MARK :: string where
  "MANUAL_MARK = ''manual_confirmation=no_referenced_evidence''"

definition has_evidence :: "fact_input \<Rightarrow> bool" where
  "has_evidence i \<longleftrightarrow> \<not> blank (fi_evidence_ref i) \<or> fi_evidence_trace_ids i \<noteq> [] \<or> fi_run_id i \<noteq> None"

definition fact_note :: "fact_input \<Rightarrow> string" where
  "fact_note i = (if fi_state i = SATISFIED \<and> \<not> has_evidence i
     then py_strip (join '' '' (filter (\<lambda>p. p \<noteq> []) [fi_note i, MANUAL_MARK]))
     else fi_note i)"

definition set_fact :: "time \<Rightarrow> fact_input \<Rightarrow> precondition_fact \<Rightarrow> precondition_fact" where
  "set_fact now i f = f\<lparr>uf_state := fi_state i, uf_evidence_ref := fi_evidence_ref i,
     uf_evidence_trace_ids := fi_evidence_trace_ids i, uf_note := fact_note i,
     uf_satisfied_at := (if fi_state i = SATISFIED then Some now else None),
     uf_satisfied_by_run_id := (if fi_run_id i = None then uf_satisfied_by_run_id f else fi_run_id i)\<rparr>"

definition new_fact :: "string \<Rightarrow> string \<Rightarrow> string \<Rightarrow> precondition_fact" where
  "new_fact project env key = \<lparr>uf_fact_key = key, uf_state = UNKNOWN, uf_project_id = project, uf_env_id = env,
     uf_evidence_ref = [], uf_evidence_trace_ids = [], uf_satisfied_at = None, uf_satisfied_by_run_id = None, uf_note = []\<rparr>"

text \<open>\<open>objects(q).update_one(upsert=True, ...)\<close>.\<close>

definition upsert_fact :: "(precondition_fact \<Rightarrow> precondition_fact) \<Rightarrow> precondition_fact \<Rightarrow> precondition_fact list \<Rightarrow>
    precondition_fact list" where
  "upsert_fact f fresh facts = (if exists_where (\<lambda>d. fact_id d = fact_id fresh) facts
     then coll_cas fact_id (fact_id fresh) (\<lambda>_. True) f facts
     else facts @ [f fresh])"

definition record_fact :: "time \<Rightarrow> fact_input \<Rightarrow> unlock_db \<Rightarrow> (unlock_db \<times> precondition_fact option) result_of" where
  "record_fact now i s =
     sbind (guards [
       (fi_state i \<notin> {SATISFIED, UNSATISFIED, UNKNOWN}, ValueError ''state must be one of satisfied/unsatisfied/unknown''),
       (fi_state i = SATISFIED \<and> \<not> has_evidence i \<and> \<not> fi_manual_confirmation i,
        ValueError ''refusing to mark satisfied without evidence'')])
     (\<lambda>_. let fresh = new_fact (fi_project_id i) (fi_env_id i) (fi_fact_key i);
              facts = upsert_fact (set_fact now i) fresh (ud_facts s)
          in Inr (s\<lparr>ud_facts := facts\<rparr>, coll_get fact_id (fact_id fresh) facts))"

definition list_facts :: "string \<Rightarrow> string \<Rightarrow> unlock_db \<Rightarrow> precondition_fact list" where
  "list_facts project env s = sort_key uf_fact_key
     (filter (\<lambda>f. uf_project_id f = project \<and> uf_env_id f = env) (ud_facts s))"

definition list_steps :: "string \<Rightarrow> string \<Rightarrow> unlock_db \<Rightarrow> unlock_step list" where
  "list_steps project env s = sort_key (\<lambda>x. (case us_priority x of None \<Rightarrow> (0, 0) | Some p \<Rightarrow> (1 :: nat, p), us_step_key x))
     (filter (\<lambda>x. us_project_id x = project \<and> us_env_id x = env) (ud_steps s))"

text \<open>One look-up and one save per document that is not there yet.\<close>

fun seed_missing :: "('d \<Rightarrow> 'k) \<Rightarrow> 'd list \<Rightarrow> 'd list \<Rightarrow> 'd list \<times> nat" where
  "seed_missing key [] ds = (ds, 0)"
| "seed_missing key (d # new) ds =
     (if exists_where (\<lambda>e. key e = key d) ds then seed_missing key new ds
      else (case seed_missing key new (ds @ [d]) of (ds', n) \<Rightarrow> (ds', Suc n)))"

definition scoped_plan :: "string \<Rightarrow> string \<Rightarrow> unlock_step list" where
  "scoped_plan project env = map (\<lambda>s. s\<lparr>us_project_id := project, us_env_id := env\<rparr>) default_plan"

definition seed_default_plan :: "string \<Rightarrow> string \<Rightarrow> unlock_db \<Rightarrow> unlock_db \<times> nat \<times> nat" where
  "seed_default_plan project env s =
     (case seed_missing step_id (scoped_plan project env) (ud_steps s) of (steps, m) \<Rightarrow>
      case seed_missing fact_id (map (new_fact project env) (sort FACT_KEYS)) (ud_facts s) of (facts, n) \<Rightarrow>
        (s\<lparr>ud_steps := steps, ud_facts := facts\<rparr>, m, n))"

record seed_report =
  sr_seeded :: bool
  sr_reason :: string
  sr_created_steps :: nat
  sr_created_facts :: nat

definition not_seeded :: "string \<Rightarrow> seed_report" where
  "not_seeded reason = \<lparr>sr_seeded = False, sr_reason = reason, sr_created_steps = 0, sr_created_facts = 0\<rparr>"

definition ensure_plan_seeded :: "string \<Rightarrow> string \<Rightarrow> bool \<Rightarrow> unlock_db \<Rightarrow> unlock_db \<times> seed_report" where
  "ensure_plan_seeded project0 env0 enabled s =
     (let project = py_strip project0; env = py_strip env0 in
      if \<not> enabled then (s, not_seeded ''disabled'')
      else if project = [] \<or> env = [] then (s, not_seeded ''incomplete_scope'')
      else if exists_where (\<lambda>x. us_project_id x = project \<and> us_env_id x = env) (ud_steps s)
        then (s, not_seeded ''already_seeded'')
      else (case seed_default_plan project env s of (s', m, n) \<Rightarrow>
        (s', \<lparr>sr_seeded = True, sr_reason = [], sr_created_steps = m, sr_created_facts = n\<rparr>)))"

section \<open>Facts\<close>

interpretation fact_store: keyed_store fact_id "coll_get fact_id" "coll_cas fact_id" "coll_won fact_id"
    "coll_add fact_id" "coll_ok fact_id"
  by (rule coll_keyed_store)

interpretation step_store: keyed_store step_id "coll_get step_id" "coll_cas step_id" "coll_won step_id"
    "coll_add step_id" "coll_ok step_id"
  by (rule coll_keyed_store)

subsection \<open>Readiness\<close>

lemma step_states_distinct [simp]:
  "STEP_READY \<noteq> STEP_BLOCKED" "STEP_BLOCKED \<noteq> STEP_READY" "STEP_READY \<noteq> STEP_IN_PROGRESS" "STEP_IN_PROGRESS \<noteq> STEP_READY"
  "STEP_READY \<noteq> STEP_DONE" "STEP_DONE \<noteq> STEP_READY" "STEP_READY \<noteq> STEP_ABANDONED" "STEP_ABANDONED \<noteq> STEP_READY"
  "STEP_BLOCKED \<noteq> STEP_DONE" "STEP_BLOCKED \<noteq> STEP_ABANDONED" "STEP_BLOCKED \<noteq> STEP_IN_PROGRESS"
  "STEP_DONE \<noteq> STEP_BLOCKED" "STEP_ABANDONED \<noteq> STEP_BLOCKED" "STEP_IN_PROGRESS \<noteq> STEP_BLOCKED"
  "STEP_DONE \<noteq> STEP_IN_PROGRESS" "STEP_DONE \<noteq> STEP_ABANDONED" "STEP_PENDING \<noteq> STEP_DONE" "STEP_PENDING \<noteq> []"
  by (simp_all add: step_states)

lemma set_TERMINAL [simp]: "set TERMINAL_STEPS = {STEP_DONE, STEP_ABANDONED}"
  by (simp add: TERMINAL_STEPS_def)

lemma satisfied_iff: "k \<in> satisfied_keys facts \<longleftrightarrow> (\<exists>f \<in> set facts. uf_fact_key f = k \<and> uf_state f = SATISFIED)"
  by (auto simp: satisfied_keys_def)

lemma set_missing_facts: "set (missing_facts satisfied s) = set (us_requires s) - satisfied"
  by (auto simp: missing_facts_def)

lemma missing_facts_Nil: "missing_facts satisfied s = [] \<longleftrightarrow> set (us_requires s) \<subseteq> satisfied"
  by (simp add: set_missing_facts flip: set_empty)

lemma ready_iff: "readiness satisfied s = STEP_READY \<longleftrightarrow>
    step_status s \<notin> {STEP_DONE, STEP_ABANDONED, STEP_IN_PROGRESS} \<and> set (us_requires s) \<subseteq> satisfied"
  by (auto simp: readiness_def missing_facts_Nil)

lemma blocked_iff: "readiness satisfied s = STEP_BLOCKED \<longleftrightarrow>
    step_status s \<notin> {STEP_DONE, STEP_ABANDONED, STEP_IN_PROGRESS} \<and> \<not> set (us_requires s) \<subseteq> satisfied"
  by (auto simp: readiness_def missing_facts_Nil)

lemma evaluate_step_simps [simp]:
  "sv_step_key (evaluate_step steps satisfied s) = us_step_key s"
  "sv_readiness (evaluate_step steps satisfied s) = readiness satisfied s"
  "sv_blocked_by (evaluate_step steps satisfied s) = missing_facts satisfied s"
  by (simp_all add: evaluate_step_def Let_def)

lemma set_evaluate_steps: "set (evaluate_steps steps facts) = evaluate_step steps (satisfied_keys facts) ` set steps"
  by (simp add: evaluate_steps_def)

lemma ready_steps_iff: "ready_steps steps facts \<noteq> [] \<longleftrightarrow> (\<exists>s \<in> set steps. readiness (satisfied_keys facts) s = STEP_READY)"
  by (auto simp: ready_steps_def filter_empty_conv set_evaluate_steps)

subsection \<open>Progress\<close>

text \<open>A plan in which every required fact is produced by an earlier step.\<close>

definition shape :: "unlock_step \<Rightarrow> string \<times> string list \<times> string list" where
  "shape s = (us_step_key s, us_requires s, us_produces s)"

fun causal_from :: "string list \<Rightarrow> unlock_step list \<Rightarrow> bool" where
  "causal_from known [] = True"
| "causal_from known (s # ss) = (list_all (\<lambda>k. k \<in> set known) (us_requires s) \<and> causal_from (known @ us_produces s) ss)"

lemma causal_shape: "map shape ss = map shape ts \<Longrightarrow> causal_from known ss = causal_from known ts"
proof (induction ss arbitrary: known ts)
  case (Cons s ss)
  then obtain t ts' where t: "ts = t # ts'" "shape s = shape t" "map shape ss = map shape ts'" by (cases ts) auto
  from Cons.IH [OF t(3), of "known @ us_produces t"] t(1,2) show ?case by (simp add: shape_def)
qed simp

lemma causal_first_open:
  assumes "causal_from known ss" "set known \<subseteq> sat" "\<exists>s \<in> set ss. step_status s \<noteq> STEP_DONE"
    and "\<forall>s \<in> set ss. step_status s = STEP_DONE \<longrightarrow> set (us_produces s) \<subseteq> sat"
  shows "\<exists>s \<in> set ss. step_status s \<noteq> STEP_DONE \<and> set (us_requires s) \<subseteq> sat"
  using assms
proof (induction ss arbitrary: known)
  case (Cons s ss)
  show ?case
  proof (cases "step_status s = STEP_DONE")
    case True
    then have "set (us_produces s) \<subseteq> sat" using Cons.prems(4) by simp
    with Cons.prems True have "\<exists>t \<in> set ss. step_status t \<noteq> STEP_DONE \<and> set (us_requires t) \<subseteq> sat"
      by (intro Cons.IH [of "known @ us_produces s"]) auto
    then show ?thesis by auto
  next
    case False
    with Cons.prems(1,2) show ?thesis by (auto simp: list_all_iff)
  qed
qed simp

lemma default_plan_causal: "causal_from [] default_plan"
  by code_simp

subsection \<open>Seeding\<close>

lemma seed_missing_eq: "fst (seed_missing key new ds) = coll_add_all key new ds \<and>
    length (coll_add_all key new ds) = length ds + snd (seed_missing key new ds)"
proof (induction key new ds rule: seed_missing.induct)
  case (2 key d new ds)
  then show ?case
    by (cases "exists_where (\<lambda>e. key e = key d) ds"; cases "seed_missing key new (ds @ [d])") (auto simp: coll_add_def)
qed simp

lemma prefix_coll_add_all: "prefix ds (coll_add_all key new ds)"
proof (induction new arbitrary: ds)
  case (Cons d new)
  have "prefix ds (coll_add key d ds)" by (simp add: coll_add_def)
  also have "prefix \<dots> (coll_add_all key new (coll_add key d ds))" by (rule Cons.IH)
  finally show ?case by simp
qed simp

definition seeded :: "string \<Rightarrow> string \<Rightarrow> unlock_db \<Rightarrow> unlock_db" where
  "seeded project env s = s\<lparr>ud_steps := coll_add_all step_id (scoped_plan project env) (ud_steps s),
     ud_facts := coll_add_all fact_id (map (new_fact project env) (sort FACT_KEYS)) (ud_facts s)\<rparr>"

lemma seed_eq:
  assumes "seed_default_plan project env s = (s', m, n)"
  shows "s' = seeded project env s \<and> length (ud_steps s') = length (ud_steps s) + m \<and>
    length (ud_facts s') = length (ud_facts s) + n"
proof -
  obtain steps m' where a: "seed_missing step_id (scoped_plan project env) (ud_steps s) = (steps, m')" by fastforce
  obtain facts n' where b: "seed_missing fact_id (map (new_fact project env) (sort FACT_KEYS)) (ud_facts s) = (facts, n')"
    by fastforce
  show ?thesis
    using assms a b seed_missing_eq [of step_id "scoped_plan project env" "ud_steps s"]
      seed_missing_eq [of fact_id "map (new_fact project env) (sort FACT_KEYS)" "ud_facts s"]
    by (auto simp: seed_default_plan_def seeded_def)
qed

lemma seeded_idem: "seeded project env (seeded project env s) = seeded project env s"
  by (simp add: seeded_def coll_add_all_present keys_coll_add_all)

subsection \<open>Evidence\<close>

definition evidenced :: "precondition_fact \<Rightarrow> bool" where
  "evidenced f \<longleftrightarrow> (uf_state f = SATISFIED \<longrightarrow> \<not> blank (uf_evidence_ref f) \<or> uf_evidence_trace_ids f \<noteq> [] \<or>
     uf_satisfied_by_run_id f \<noteq> None \<or> suffix MANUAL_MARK (uf_note f)) \<and>
   (uf_satisfied_at f \<noteq> None \<longleftrightarrow> uf_state f = SATISFIED) \<and> uf_state f \<in> {SATISFIED, UNSATISFIED, UNKNOWN}"

definition unlock_inv :: "unlock_db \<Rightarrow> bool" where
  "unlock_inv s \<longleftrightarrow> coll_ok step_id (ud_steps s) \<and> coll_ok fact_id (ud_facts s) \<and> (\<forall>f \<in> set (ud_facts s). evidenced f)"

lemma evidenced_new: "evidenced (new_fact project env key)"
  by (simp add: evidenced_def new_fact_def step_states)

lemma manual_mark_last: "suffix MANUAL_MARK (py_strip (join '' '' (filter (\<lambda>p. p \<noteq> []) [note, MANUAL_MARK])))"
proof -
  have ne: "MANUAL_MARK \<noteq> []" "\<not> is_space (last MANUAL_MARK)" "\<not> is_space (hd MANUAL_MARK)" by code_simp+
  have tl: "dropWhile is_space (rev (xs @ MANUAL_MARK)) = rev (xs @ MANUAL_MARK)" for xs
  proof -
    obtain c cs where c: "rev MANUAL_MARK = c # cs" using ne(1) by (cases "rev MANUAL_MARK") auto
    with ne(1,2) have "\<not> is_space c" by (metis last_rev list.sel(1) rev_rev_ident hd_rev)
    then show ?thesis unfolding rev_append c by simp
  qed
  have "\<exists>ys. dropWhile is_space (xs @ MANUAL_MARK) = ys @ MANUAL_MARK" for xs
  proof (induction xs)
    case Nil
    from ne(1,3) have "dropWhile is_space MANUAL_MARK = MANUAL_MARK" by (simp add: dropWhile_eq_self_iff)
    then show ?case by simp
  next
    case (Cons x xs)
    then show ?case by (cases "is_space x") (auto intro: exI [of _ "x # xs"])
  qed
  then have "\<exists>ys. py_strip (xs @ MANUAL_MARK) = ys @ MANUAL_MARK" for xs
    using tl unfolding py_strip_def by (metis rev_rev_ident)
  then have "suffix MANUAL_MARK (py_strip (xs @ MANUAL_MARK))" for xs by (metis suffixI)
  from this [of "note @ '' ''"] this [of "[]"] ne(1) show ?thesis by simp
qed

lemma evidenced_set:
  assumes "fi_state i \<in> {SATISFIED, UNSATISFIED, UNKNOWN}"
  shows "evidenced (set_fact now i f)"
  using assms manual_mark_last [of "fi_note i"]
  by (auto simp: evidenced_def set_fact_def fact_note_def has_evidence_def)

lemma fact_id_set [simp]: "fact_id (set_fact now i f) = fact_id f"
  by (simp add: fact_id_def set_fact_def)

lemma fact_id_new [simp]: "fact_id (new_fact project env key) = (project, env, key)"
  by (simp add: fact_id_def new_fact_def)

lemma record_fact_inv:
  assumes "record_fact now i s = Inr (s', r)" "unlock_inv s"
  shows "unlock_inv s' \<and> ud_steps s' = ud_steps s"
proof -
  let ?k = "(fi_project_id i, fi_env_id i, fi_fact_key i)"
  from assms(1) have ok: "fi_state i \<in> {SATISFIED, UNSATISFIED, UNKNOWN}"
    and s': "s' = s\<lparr>ud_facts := upsert_fact (set_fact now i) (new_fact (fi_project_id i) (fi_env_id i) (fi_fact_key i)) (ud_facts s)\<rparr>"
    by (auto simp: record_fact_def sbind_Inr_iff guards_ok_iff Let_def)
  from assms(2) have inv: "coll_ok fact_id (ud_facts s)" "\<forall>f \<in> set (ud_facts s). evidenced f" by (simp_all add: unlock_inv_def)
  have "coll_ok fact_id (ud_facts s') \<and> (\<forall>f \<in> set (ud_facts s'). evidenced f)"
  proof (cases "exists_where (\<lambda>d. fact_id d = ?k) (ud_facts s)")
    case True
    then have "ud_facts s' = coll_cas fact_id ?k (\<lambda>_. True) (set_fact now i) (ud_facts s)" by (simp add: s' upsert_fact_def)
    with fact_store.invar_cas [OF inv(1), of "set_fact now i" ?k "\<lambda>_. True"] inv(2) evidenced_set [OF ok] show ?thesis
      by (auto simp: coll_cas_def set_update_where)
  next
    case False
    then have "ud_facts s' = ud_facts s @ [set_fact now i (new_fact (fi_project_id i) (fi_env_id i) (fi_fact_key i))]"
      by (simp add: s' upsert_fact_def)
    with False inv evidenced_set [OF ok] show ?thesis by (auto simp: coll_ok_def exists_where_iff)
  qed
  with assms(2) show ?thesis by (simp add: unlock_inv_def s')
qed

lemma seeded_inv: "unlock_inv s \<Longrightarrow> unlock_inv (seeded project env s)"
proof -
  have "f \<in> new_fact project env ` set FACT_KEYS \<union> set (ud_facts s)"
    if "f \<in> set (coll_add_all fact_id (map (new_fact project env) (sort FACT_KEYS)) (ud_facts s))" for f
    using that set_coll_add_all(2) [of fact_id "map (new_fact project env) (sort FACT_KEYS)" "ud_facts s"] by auto
  moreover have "evidenced f" if "f \<in> new_fact project env ` set FACT_KEYS" for f using that evidenced_new by auto
  ultimately show "unlock_inv s \<Longrightarrow> unlock_inv (seeded project env s)"
    by (simp add: unlock_inv_def seeded_def coll_ok_add_all) blast
qed

section \<open>Properties\<close>

text \<open>C36: Readiness is derived from satisfied facts alone, and conservatively. The evaluation lists every step
  once, by priority and key; a step is ready exactly when it is neither finished nor in progress and
  every fact it requires is recorded as satisfied (an unknown fact blocks like an unsatisfied one); a step
  waits for exactly the required facts that are not; and recording more satisfied facts never makes a
  ready step unready.\<close>

theorem readiness_is_conservative:
  "mset (evaluate_steps steps facts) = mset (map (evaluate_step steps (satisfied_keys facts)) steps) \<and>
   sorted (map view_order (evaluate_steps steps facts)) \<and>
   (\<forall>s \<in> set steps. readiness (satisfied_keys facts) s = STEP_READY \<longleftrightarrow>
      step_status s \<notin> {STEP_DONE, STEP_ABANDONED, STEP_IN_PROGRESS} \<and>
      (\<forall>k \<in> set (us_requires s). \<exists>f \<in> set facts. uf_fact_key f = k \<and> uf_state f = SATISFIED)) \<and>
   (\<forall>v \<in> set (evaluate_steps steps facts). set (sv_blocked_by v) =
      {k \<in> set (sv_requires v). \<forall>f \<in> set facts. uf_fact_key f = k \<longrightarrow> uf_state f \<noteq> SATISFIED}) \<and>
   (\<forall>facts' s. satisfied_keys facts \<subseteq> satisfied_keys facts' \<and> readiness (satisfied_keys facts) s = STEP_READY \<longrightarrow>
      readiness (satisfied_keys facts') s = STEP_READY)"
proof -
  have "sv_requires (evaluate_step steps sat s) = us_requires s" for sat s by (simp add: evaluate_step_def Let_def)
  then have "\<forall>v \<in> set (evaluate_steps steps facts). set (sv_blocked_by v) =
      {k \<in> set (sv_requires v). \<forall>f \<in> set facts. uf_fact_key f = k \<longrightarrow> uf_state f \<noteq> SATISFIED}"
    by (auto simp: set_evaluate_steps set_missing_facts satisfied_iff)
  then show ?thesis
    by (simp add: evaluate_steps_def ready_iff subset_iff satisfied_iff) blast
qed

text \<open>The seed plan cannot get stuck. Whatever has been done of it so far, as long as no step was abandoned
  and the facts a finished step produces are recorded as satisfied: while a step is unfinished, one is in
  progress or can be started.\<close>

theorem plan_never_stuck:
  assumes "map shape steps = map shape default_plan" "\<forall>s \<in> set steps. step_status s \<noteq> STEP_ABANDONED"
    and "\<forall>s \<in> set steps. step_status s = STEP_DONE \<longrightarrow> set (us_produces s) \<subseteq> satisfied_keys facts"
    and "\<exists>s \<in> set steps. step_status s \<noteq> STEP_DONE"
  shows "(\<exists>s \<in> set steps. step_status s = STEP_IN_PROGRESS) \<or> ready_steps steps facts \<noteq> []"
proof -
  have "causal_from [] steps" using causal_shape [OF assms(1)] default_plan_causal by simp
  from causal_first_open [OF this _ assms(4,3)] obtain s where "s \<in> set steps" "step_status s \<noteq> STEP_DONE"
    "set (us_requires s) \<subseteq> satisfied_keys facts" by auto
  with assms(2) show ?thesis unfolding ready_steps_iff ready_iff by auto
qed

inductive unlock_change :: "unlock_db \<Rightarrow> unlock_db \<Rightarrow> bool" where
  recording: "record_fact now i s = Inr (s', r) \<Longrightarrow> unlock_change s s'"
| seeding: "seed_default_plan project env s = (s', m, n) \<Longrightarrow> unlock_change s s'"
| ensuring: "ensure_plan_seeded project env enabled s = (s', report) \<Longrightarrow> unlock_change s s'"

lemma ensure_cases:
  assumes "ensure_plan_seeded project env enabled s = (s', report)"
  shows "s' = s \<and> \<not> sr_seeded report \<or> s' = seeded (py_strip project) (py_strip env) s \<and> sr_seeded report"
  using assms seed_eq
  by (fastforce simp: ensure_plan_seeded_def Let_def not_seeded_def split: if_splits prod.splits)

text \<open>A fact is never satisfied on an assertion alone. In every state reached by recording facts and seeding
  plans, in any order, a satisfied fact has an evidence reference, a trace or a run, or its note ends with
  the marker of the manual confirmation; it has a time of satisfaction exactly while it is satisfied; and
  no project environment has a fact or a step twice.\<close>

theorem facts_are_evidenced:
  assumes "unlock_change\<^sup>*\<^sup>* s s'" "unlock_inv s"
  shows "unlock_inv s' \<and> prefix (map step_id (ud_steps s)) (map step_id (ud_steps s')) \<and>
    (\<forall>f \<in> set (ud_facts s'). uf_state f = SATISFIED \<longrightarrow>
       (\<not> blank (uf_evidence_ref f) \<or> uf_evidence_trace_ids f \<noteq> [] \<or> uf_satisfied_by_run_id f \<noteq> None \<or>
        suffix MANUAL_MARK (uf_note f)) \<and> uf_satisfied_at f \<noteq> None)"
proof -
  have seeded_steps: "prefix (map step_id (ud_steps s1)) (map step_id (ud_steps (seeded project env s1)))" for s1 project env
    by (simp add: seeded_def map_mono_prefix prefix_coll_add_all)
  have one: "unlock_inv s2 \<and> prefix (map step_id (ud_steps s1)) (map step_id (ud_steps s2))"
    if "unlock_change s1 s2" "unlock_inv s1" for s1 s2
    using that
  proof (induction rule: unlock_change.induct)
    case (recording now i s s' r)
    then show ?case using record_fact_inv by fastforce
  next
    case (seeding project env s s' m n)
    then show ?case using seed_eq seeded_inv seeded_steps by metis
  next
    case (ensuring project env enabled s s' report)
    then show ?case using ensure_cases [OF ensuring.hyps] seeded_inv seeded_steps by auto
  qed
  from assms have "unlock_inv s' \<and> prefix (map step_id (ud_steps s)) (map step_id (ud_steps s'))"
    by (induction rule: rtranclp_induct) (use one prefix_order.trans in \<open>blast+\<close>)
  then show ?thesis by (auto simp: unlock_inv_def evidenced_def)
qed

text \<open>Seeding is idempotent and leaves what is there alone. The documents of before keep their places and
  contents; afterwards every step and fact of the plan exists in the scope; the report counts exactly what
  was added; and a second seeding adds nothing.\<close>

theorem seeding_is_idempotent:
  assumes "seed_default_plan project env s = (s', m, n)"
  shows "prefix (ud_steps s) (ud_steps s') \<and> prefix (ud_facts s) (ud_facts s') \<and>
    length (ud_steps s') = length (ud_steps s) + m \<and> length (ud_facts s') = length (ud_facts s) + n \<and>
    (\<forall>p \<in> set default_plan. (project, env, us_step_key p) \<in> step_id ` set (ud_steps s')) \<and>
    (\<forall>k \<in> set FACT_KEYS. (project, env, k) \<in> fact_id ` set (ud_facts s')) \<and>
    seed_default_plan project env s' = (s', 0, 0)"
proof -
  note e = seed_eq [OF assms]
  have keys: "step_id ` set (scoped_plan project env) = (\<lambda>p. (project, env, us_step_key p)) ` set default_plan"
    by (simp add: scoped_plan_def step_id_def image_image)
  obtain s2 m2 n2 where again: "seed_default_plan project env s' = (s2, m2, n2)" by (cases "seed_default_plan project env s'") auto
  note e2 = seed_eq [OF again]
  with e have "s2 = s'" by (simp add: seeded_idem)
  with e2 again have "seed_default_plan project env s' = (s', 0, 0)" by simp
  moreover have "(\<forall>p \<in> set default_plan. (project, env, us_step_key p) \<in> step_id ` set (ud_steps s')) \<and>
      (\<forall>k \<in> set FACT_KEYS. (project, env, k) \<in> fact_id ` set (ud_facts s'))"
    using e keys by (auto simp: seeded_def keys_coll_add_all image_image)
  moreover have "prefix (ud_steps s) (ud_steps s') \<and> prefix (ud_facts s) (ud_facts s')"
    using e by (simp add: seeded_def prefix_coll_add_all)
  ultimately show ?thesis using e by blast
qed

section \<open>Limits\<close>

text \<open>A seeding that was interrupted after its first step is never completed by the hook, which takes one step
  for the whole plan.\<close>

lemma partial_seed_sticks:
  assumes "ud_steps s = [(hd default_plan)\<lparr>us_project_id := ''p'', us_env_id := ''e''\<rparr>]"
  shows "ensure_plan_seeded ''p'' ''e'' True s = (s, not_seeded ''already_seeded'')"
proof -
  have "py_strip ''p'' = ''p''" "py_strip ''e'' = ''e''" by code_simp+
  with assms show ?thesis by (simp add: ensure_plan_seeded_def exists_where_def)
qed

text \<open>A step counts as deadlocked behind an abandoned producer even when the fact is satisfied and the step is
  ready.\<close>

definition example_step :: "string \<Rightarrow> string list \<Rightarrow> string list \<Rightarrow> string \<Rightarrow> unlock_step" where
  "example_step k req made st = (planned k [] req made 1)\<lparr>us_status := st\<rparr>"

definition example_fact :: "string \<Rightarrow> precondition_fact" where
  "example_fact k = (new_fact [] [] k)\<lparr>uf_state := SATISFIED, uf_evidence_ref := ''r'', uf_satisfied_at := Some 1\<rparr>"

lemma satisfied_yet_deadlocked:
  "map (\<lambda>v. (sv_readiness v, sv_deadlocked v)) (evaluate_steps
     [example_step ''a'' [] [''f''] STEP_ABANDONED, example_step ''b'' [''f''] [] STEP_PENDING] [example_fact ''f'']) =
   [(STEP_ABANDONED, []), (STEP_READY, [''a''])]"
  by code_simp

section \<open>Witnesses\<close>

definition example_unlock_db :: unlock_db where
  "example_unlock_db = \<lparr>ud_steps = [], ud_facts = []\<rparr>"

theorem readiness_is_conservative_witness:
  "readiness (satisfied_keys [example_fact ''f'']) (example_step ''b'' [''f''] [] STEP_PENDING) = STEP_READY \<and>
   readiness (satisfied_keys [new_fact [] [] ''f'']) (example_step ''b'' [''f''] [] STEP_PENDING) \<noteq> STEP_READY"
proof -
  let ?b = "example_step ''b'' [''f''] [] STEP_PENDING"
  have st: "step_status ?b \<notin> {STEP_DONE, STEP_ABANDONED, STEP_IN_PROGRESS}" "us_requires ?b = [''f'']"
    by (simp_all add: example_step_def planned_def step_status_def step_states str_or_def)
  have f: "uf_state (example_fact ''f'') = SATISFIED" "uf_fact_key (example_fact ''f'') = ''f''"
    "uf_state (new_fact [] [] ''f'') \<noteq> SATISFIED"
    by (simp_all add: example_fact_def new_fact_def step_states)
  from readiness_is_conservative [of "[?b]" "[example_fact ''f'']"] st f
  have "readiness (satisfied_keys [example_fact ''f'']) ?b = STEP_READY" by simp
  moreover from readiness_is_conservative [of "[?b]" "[new_fact [] [] ''f'']"] st f
  have "readiness (satisfied_keys [new_fact [] [] ''f'']) ?b \<noteq> STEP_READY" by simp
  ultimately show ?thesis by blast
qed

theorem plan_never_stuck_witness: "ready_steps default_plan [] \<noteq> []"
proof -
  have "list_all (\<lambda>s. step_status s = STEP_PENDING) default_plan" by code_simp
  then have p: "\<forall>s \<in> set default_plan. step_status s = STEP_PENDING" by (simp add: list_all_iff)
  have d: "STEP_PENDING \<notin> {STEP_DONE, STEP_ABANDONED, STEP_IN_PROGRESS}" by (simp add: step_states)
  have "\<exists>s \<in> set default_plan. step_status s \<noteq> STEP_DONE" using p d by (simp add: default_plan_def)
  from plan_never_stuck [OF refl _ _ this, of "[]"] p d show ?thesis by auto
qed

theorem facts_are_evidenced_witness:
  "\<exists>s' r. record_fact 5 \<lparr>fi_fact_key = ''k'', fi_state = SATISFIED, fi_project_id = ''p'', fi_env_id = ''e'',
       fi_evidence_ref = '' '', fi_evidence_trace_ids = [], fi_run_id = None, fi_note = [], fi_manual_confirmation = True\<rparr>
     example_unlock_db = Inr (s', r) \<and> unlock_inv s' \<and> map uf_state (ud_facts s') = [SATISFIED]"
proof -
  let ?i = "\<lparr>fi_fact_key = ''k'', fi_state = SATISFIED, fi_project_id = ''p'', fi_env_id = ''e'',
       fi_evidence_ref = '' '', fi_evidence_trace_ids = [], fi_run_id = None, fi_note = [], fi_manual_confirmation = True\<rparr>"
  have "case record_fact 5 ?i example_unlock_db of Inr (s', _) \<Rightarrow> map uf_state (ud_facts s') = [SATISFIED] | Inl _ \<Rightarrow> False"
    by code_simp
  then obtain s' r where r: "record_fact 5 ?i example_unlock_db = Inr (s', r)" "map uf_state (ud_facts s') = [SATISFIED]"
    by (auto split: sum.splits)
  have "unlock_inv example_unlock_db" by (simp add: unlock_inv_def example_unlock_db_def coll_ok_def)
  moreover have "unlock_change\<^sup>*\<^sup>* example_unlock_db s'" by (rule r_into_rtranclp) (rule unlock_change.recording [OF r(1)])
  ultimately have "unlock_inv s'" using facts_are_evidenced by blast
  with r show ?thesis by (intro exI conjI)
qed

theorem seeding_is_idempotent_witness:
  "\<exists>s'. seed_default_plan ''p'' ''e'' example_unlock_db = (s', 10, 5) \<and> seed_default_plan ''p'' ''e'' s' = (s', 0, 0)"
proof -
  have "snd (seed_default_plan ''p'' ''e'' example_unlock_db) = (10, 5)" by code_simp
  then obtain s' where s': "seed_default_plan ''p'' ''e'' example_unlock_db = (s', 10, 5)"
    by (cases "seed_default_plan ''p'' ''e'' example_unlock_db") auto
  from seeding_is_idempotent [OF s'] s' show ?thesis by blast
qed

end
