(* ===== verification/TestPlan.thy ===== *)
theory TestPlan
  imports AuthorizationPolicies ComposeRequest RunQueries ExecutionAdapters Lifecycle
begin

text \<open>
  \<open>apiAnalysis/tool/test_plan.py\<close>: versioned test plans, their explicit endpoint scope, and the batch an
  active plan schedules; \<open>apiAnalysis/tool/plan_readiness.py\<close>: the preflight shown before; and of
  \<open>project_auth.py\<close> the selection of the auth profile a plan names.

  \<open>digest\<close> is the SHA-256 of the canonical JSON text, \<open>parse\<close> is \<open>ObjectId\<close>, \<open>ids\<close> the object ids of the
  snapshots composed in one call, by endpoint, \<open>new_id\<close> that of a new run or plan, \<open>stamp\<close> the formatted
  time in a default run name. Description and time stamps of a plan are left out.
\<close>

section \<open>Documents\<close>

datatype plan_status = PLAN_DRAFT | PLAN_ACTIVE | PLAN_ARCHIVED

record security_test_plan =
  tp_id :: oid
  tp_name :: string
  tp_project_id :: string
  tp_env_id :: string
  tp_version :: int
  tp_status :: plan_status
  tp_check_type :: string
  tp_adapter_id :: string
  tp_adapter_version :: string
  tp_auth_mode :: string
  tp_auth_profile_id :: string
  tp_scope :: "json dict"
  tp_execution_policy :: "json dict"
  tp_snapshot_filter :: "json dict"
  tp_request_budget :: "int option"
  tp_created_by :: string
  tp_parent_plan_id :: "oid option"

record selected_profile = auth_profile +
  xp_provider_id :: string
  xp_context_ref :: string
  xp_lifecycle :: string

record profile_db =
  xd_profiles :: "selected_profile list"
  xd_profile_revisions :: "(string \<times> string) list"
  xd_realm_revisions :: "(string \<times> string) list"

section \<open>The content of a plan\<close>

definition MAX_PLAN_REQUEST_BUDGET :: int where "MAX_PLAN_REQUEST_BUDGET = 1000"

definition plan_content :: "security_test_plan \<Rightarrow> json dict" where
  "plan_content p = [
     (''name'', JStr (tp_name p)), (''project_id'', JStr (tp_project_id p)), (''env_id'', JStr (tp_env_id p)),
     (''version'', JInt (tp_version p)), (''check_type'', JStr (tp_check_type p)),
     (''adapter_id'', JStr (tp_adapter_id p)), (''adapter_version'', JStr (tp_adapter_version p)),
     (''auth_mode'', JStr (tp_auth_mode p)), (''auth_profile_id'', JStr (tp_auth_profile_id p)),
     (''scope'', JObj (tp_scope p)), (''execution_policy'', JObj (tp_execution_policy p)),
     (''snapshot_filter'', JObj (tp_snapshot_filter p)),
     (''request_budget'', case tp_request_budget p of Some n \<Rightarrow> JInt n | None \<Rightarrow> JNull)]"

definition plan_content_sha256 :: "(json \<Rightarrow> string) \<Rightarrow> security_test_plan \<Rightarrow> string" where
  "plan_content_sha256 digest p = digest (JObj (plan_content p))"

text \<open>The raw endpoint list, and its numbers.\<close>

definition raw_pathids :: "security_test_plan \<Rightarrow> json list result_of" where
  "raw_pathids p =
     (let a = dget (tp_scope p) ''pathids''; b = dget (tp_snapshot_filter p) ''pathids'';
          v = (if truthy a then a else if truthy b then b else JList [])
      in case v of
           JList xs \<Rightarrow> Inr xs
         | JStr s \<Rightarrow> Inr [v]
         | JInt n \<Rightarrow> Inr [v]
         | JBool b \<Rightarrow> Inr [v]
         | _ \<Rightarrow> Inl (ValueError ''plan pathids must be a list''))"

fun collect_pathids :: "int list \<Rightarrow> json list \<Rightarrow> int list result_of" where
  "collect_pathids seen [] = Inr seen"
| "collect_pathids seen (v # vs) = (case py_int v of
     Inl _ \<Rightarrow> Inl (ValueError ''plan contains an invalid pathid'')
   | Inr n \<Rightarrow> if n \<le> 0 then Inl (ValueError ''plan contains an invalid pathid'')
       else collect_pathids (if n \<in> set seen then seen else seen @ [n]) vs)"

definition plan_budget :: "security_test_plan \<Rightarrow> int list \<Rightarrow> int" where
  "plan_budget p pathids = (case tp_request_budget p of
     Some n \<Rightarrow> if n = 0 then int (length pathids) else n
   | None \<Rightarrow> int (length pathids))"

definition plan_pathids :: "security_test_plan \<Rightarrow> int list result_of" where
  "plan_pathids p = sbind (raw_pathids p) (\<lambda>raw. sbind (collect_pathids [] raw) (\<lambda>pathids.
     sbind (guards [
       (pathids = [], ValueError ''plan requires an explicit pathid scope''),
       (\<not> (1 \<le> plan_budget p pathids \<and> plan_budget p pathids \<le> MAX_PLAN_REQUEST_BUDGET),
        ValueError ''plan request budget must be between 1 and 1000''),
       (int (length pathids) > plan_budget p pathids, ValueError ''plan pathid scope exceeds its request budget'')])
     (\<lambda>_. Inr pathids)))"

definition normalized_origin :: "string \<Rightarrow> string result_of" where
  "normalized_origin v = sbind (urlsplit (py_strip v)) (\<lambda>u. Inr
     (if url_scheme u \<notin> {''http'', ''https''} \<or> url_netloc u = [] then []
      else py_lower (url_scheme u) @ ''://'' @ py_lower (url_netloc u)))"

text \<open>Iterating \<open>scope.get("target_origins") or []\<close>: a text is iterated by its characters, a dictionary by its
  keys.\<close>

definition origin_items :: "security_test_plan \<Rightarrow> string list result_of" where
  "origin_items p = (let v = dget (tp_scope p) ''target_origins'' in
     if \<not> truthy v then Inr []
     else case v of
         JList xs \<Rightarrow> Inr (map str_or_empty xs)
       | JStr s \<Rightarrow> Inr (map (\<lambda>c. [c]) s)
       | JObj d \<Rightarrow> Inr (map fst d)
       | _ \<Rightarrow> Inl (TypeError ''object is not iterable''))"

definition target_origins :: "security_test_plan \<Rightarrow> string list result_of" where
  "target_origins p = sbind (origin_items p) (\<lambda>items. sbind (smap normalized_origin items) (\<lambda>os.
     Inr (dedupe (filter (\<lambda>x. x \<noteq> []) os))))"

section \<open>The identity of a plan\<close>

definition find_auth_profile :: "string \<Rightarrow> string \<Rightarrow> string \<Rightarrow> profile_db \<Rightarrow> selected_profile option" where
  "find_auth_profile profile_id project env s = find (\<lambda>x. pf_profile_id x = profile_id \<and>
     bound_to project (pf_project_id x) \<and> bound_to env (pf_env_id x) \<and> pf_active x) (xd_profiles s)"

record context_fields =
  cf_env_id :: string
  cf_account_id :: string
  cf_auth_provider_id :: string
  cf_auth_context_ref :: string
  cf_auth_profile_revision_id :: string
  cf_auth_realm_revision_id :: string
  cf_auth_adapter_version_id :: string

definition no_context_fields :: context_fields where
  "no_context_fields = \<lparr>cf_env_id = [], cf_account_id = [], cf_auth_provider_id = [], cf_auth_context_ref = [],
     cf_auth_profile_revision_id = [], cf_auth_realm_revision_id = [], cf_auth_adapter_version_id = []\<rparr>"

definition text_of :: "string option \<Rightarrow> string" where
  "text_of v = (case v of Some s \<Rightarrow> s | None \<Rightarrow> [])"

definition profile_context_fields :: "profile_db \<Rightarrow> selected_profile \<Rightarrow> context_fields" where
  "profile_context_fields s x = (let revision = pf_current_revision_id x;
       realm = (if revision = [] then None else map_of (xd_profile_revisions s) revision);
       adapter = (case realm of None \<Rightarrow> None | Some r \<Rightarrow> map_of (xd_realm_revisions s) r)
     in \<lparr>cf_env_id = pf_env_id x, cf_account_id = pf_account_key x, cf_auth_provider_id = xp_provider_id x,
       cf_auth_context_ref = str_or revision (str_or (xp_context_ref x) (str_or (pf_profile_id x) (pf_account_key x))),
       cf_auth_profile_revision_id = revision, cf_auth_realm_revision_id = text_of realm,
       cf_auth_adapter_version_id = text_of adapter\<rparr>)"

definition plan_auth_mode :: "security_test_plan \<Rightarrow> string" where
  "plan_auth_mode p = str_or (tp_auth_mode p) ''inherit''"

definition plan_adapter :: "security_test_plan \<Rightarrow> string" where
  "plan_adapter p = str_or (tp_adapter_id p)
     (if plan_auth_mode p = ''account'' then ''authenticated_snapshot_batch'' else ''snapshot_batch'')"

definition plan_fields :: "profile_db \<Rightarrow> security_test_plan \<Rightarrow> context_fields result_of" where
  "plan_fields s p = (if plan_auth_mode p = ''account''
     then if tp_auth_profile_id p = [] then Inl (ValueError ''account plan requires an auth profile'')
       else (case find_auth_profile (tp_auth_profile_id p) (tp_project_id p) (tp_env_id p) s of
           None \<Rightarrow> Inl (ValueError ''plan auth profile is unavailable'')
         | Some x \<Rightarrow> Inr (profile_context_fields s x))
     else Inr no_context_fields)"

definition plan_context :: "(json \<Rightarrow> string) \<Rightarrow> security_test_plan \<Rightarrow> context_fields \<Rightarrow> execution_context" where
  "plan_context digest p f = \<lparr>cx_project_id = tp_project_id p, cx_env_id = str_or (tp_env_id p) (cf_env_id f),
     cx_account_id = cf_account_id f, cx_auth_mode = plan_auth_mode p, cx_auth_provider_id = cf_auth_provider_id f,
     cx_auth_context_ref = cf_auth_context_ref f, cx_auth_profile_revision_id = cf_auth_profile_revision_id f,
     cx_auth_realm_revision_id = cf_auth_realm_revision_id f, cx_auth_adapter_version_id = cf_auth_adapter_version_id f,
     cx_adapter_id = plan_adapter p, cx_adapter_version = str_or (tp_adapter_version p) ''1'',
     cx_plan_version = (if tp_version p = 0 then [] else str_of_int (tp_version p)),
     cx_plan_sha256 = plan_content_sha256 digest p, cx_parent_run_id = None, cx_retry_of_run_id = None\<rparr>"

section \<open>Scheduling\<close>

definition create_execution_snapshot :: "oid \<Rightarrow> int \<Rightarrow> execution_context \<Rightarrow> string \<Rightarrow> asset_db \<Rightarrow> db \<Rightarrow>
    (db \<times> composed_snapshot option) result_of" where
  "create_execution_snapshot new_id pathid c source assets s = sbind (snapshot_metadata c) (\<lambda>meta.
     create_request_snapshot new_id \<lparr>pq_pathid = pathid, pq_account_id = cx_account_id c, pq_env_id = cx_env_id c,
       pq_source = source, pq_project_id = cx_project_id c, pq_auth_mode = cx_auth_mode c,
       pq_metadata = map (\<lambda>(k, v). (k, JStr v)) meta\<rparr> assets s)"

fun compose_plan :: "(int \<Rightarrow> oid) \<Rightarrow> execution_context \<Rightarrow> string list \<Rightarrow> asset_db \<Rightarrow> int list \<Rightarrow> db \<Rightarrow>
    db \<times> oid list result_of" where
  "compose_plan ids c origins assets [] s = (s, Inr [])"
| "compose_plan ids c origins assets (p # ps) s =
     (if (case find_asset p assets of None \<Rightarrow> True | Some a \<Rightarrow> ra_project_id a \<noteq> cx_project_id c)
      then (s, Inl (ValueError ''plan pathid does not belong to its project''))
      else case create_execution_snapshot (ids p) p c ''test_plan_web'' assets s of
          Inl e \<Rightarrow> (s, Inl e)
        | Inr (s1, None) \<Rightarrow> (s1, Inl (ValueError ''could not compose plan pathid''))
        | Inr (s1, Some sn) \<Rightarrow> (case normalized_origin (sn_url sn) of
            Inl e \<Rightarrow> (s1, Inl e)
          | Inr origin \<Rightarrow>
              if origins \<noteq> [] \<and> origin \<notin> set origins
              then (s1, Inl (ValueError ''composed request is outside the plan target origins''))
              else (case compose_plan ids c origins assets ps s1 of
                  (s2, Inl e) \<Rightarrow> (s2, Inl e)
                | (s2, Inr sns) \<Rightarrow> (s2, Inr (sn_id sn # sns)))))"

definition plan_guards :: "security_test_plan \<Rightarrow> guard list" where
  "plan_guards p = [
     (tp_adapter_id p = ''rule_plan_draft_only'' \<or> dget (tp_scope p) ''execution_allowed'' = JBool False,
      ValueError ''rule-generated analysis drafts are not executable''),
     (tp_status p \<noteq> PLAN_ACTIVE, ValueError ''only an active test plan can execute'')]"

definition plan_scope :: "security_test_plan \<Rightarrow> int list \<Rightarrow> json dict" where
  "plan_scope p pathids = dict_update (tp_scope p) [(''plan_id'', JStr (tp_id p)), (''plan_version'', JInt (tp_version p)),
     (''request_budget'', JInt (plan_budget p pathids))]"

text \<open>The separator in a default run name is a middle dot, two bytes in UTF-8.\<close>

definition plan_run_name :: "string \<Rightarrow> string \<Rightarrow> security_test_plan \<Rightarrow> string" where
  "plan_run_name rname stamp p = (let dot = '' '' @ map char_of [0xC2, 0xB7 :: nat] @ '' '' in
     str_or rname (tp_name p @ dot @ ''v'' @ str_of_int (tp_version p) @ dot @ stamp))"

definition plan_request :: "execution_context \<Rightarrow> execution_policy \<Rightarrow> string \<Rightarrow> string \<Rightarrow> oid list \<Rightarrow> int list \<Rightarrow>
    security_test_plan \<Rightarrow> enqueue_request" where
  "plan_request c policy name operator sns pathids p = \<lparr>eq_name = name, eq_check_type = str_or (tp_check_type p) (plan_adapter p),
     eq_context = c, eq_snapshot_ids = sns, eq_policy = policy, eq_scope = plan_scope p pathids, eq_evidence_ref = [],
     eq_operator = operator, eq_priority = 100, eq_queue_name = ''snapshot'', eq_idempotency_key = []\<rparr>"

record plan_preparation =
  pp_pathids :: "int list"
  pp_context :: execution_context
  pp_policy :: execution_policy
  pp_origins :: "string list"

definition prepare_plan :: "(json \<Rightarrow> string) \<Rightarrow> profile_db \<Rightarrow> security_test_plan \<Rightarrow> plan_preparation result_of" where
  "prepare_plan digest profiles p =
     sbind (guards (plan_guards p)) (\<lambda>_. sbind (plan_pathids p) (\<lambda>pathids.
     sbind (plan_fields profiles p) (\<lambda>f. let c = plan_context digest p f in
     sbind (validate_context c) (\<lambda>_. sbind (policy_from_dict (tp_execution_policy p)) (\<lambda>policy.
     sbind (target_origins p) (\<lambda>origins.
     Inr \<lparr>pp_pathids = pathids, pp_context = c, pp_policy = policy, pp_origins = origins\<rparr>))))))"

definition get_plan :: "oid \<Rightarrow> security_test_plan list \<Rightarrow> security_test_plan option" where
  "get_plan i plans = coll_get tp_id i plans"

definition schedule_plan_execution :: "(json \<Rightarrow> string) \<Rightarrow> (string \<Rightarrow> oid option) \<Rightarrow> (int \<Rightarrow> oid) \<Rightarrow> time \<Rightarrow> oid \<Rightarrow> string \<Rightarrow>
    oid \<Rightarrow> string \<Rightarrow> string \<Rightarrow> security_test_plan list \<Rightarrow> profile_db \<Rightarrow> asset_db \<Rightarrow> db \<Rightarrow>
    db \<times> (security_test_run \<times> bool) result_of" where
  "schedule_plan_execution digest parse ids now new_id stamp plan_id operator rname plans profiles assets s =
     (case get_plan plan_id plans of
        None \<Rightarrow> (s, Inl (ValueError ''test plan not found''))
      | Some p \<Rightarrow> (case prepare_plan digest profiles p of
          Inl e \<Rightarrow> (s, Inl e)
        | Inr x \<Rightarrow> (case compose_plan ids (pp_context x) (pp_origins x) assets (pp_pathids x) s of
            (s1, Inl e) \<Rightarrow> (s1, Inl e)
          | (s1, Inr sns) \<Rightarrow>
              (case enqueue_snapshot_batch digest parse now new_id (plan_request (pp_context x) (pp_policy x)
                  (plan_run_name rname stamp p) operator sns (pp_pathids x) p) s1 of
                 Inl e \<Rightarrow> (s1, Inl e)
               | Inr (s2, run, created) \<Rightarrow> (s2, Inr (run, created))))))"

section \<open>Versions\<close>

text \<open>\<open>save()\<close> of a new plan under the unique index \<open>(project_id, name, version)\<close>.\<close>

definition plan_key :: "security_test_plan \<Rightarrow> string \<times> string \<times> int" where
  "plan_key p = (tp_project_id p, tp_name p, tp_version p)"

definition save_new_plan :: "security_test_plan \<Rightarrow> security_test_plan list \<Rightarrow>
    (security_test_plan list \<times> security_test_plan) result_of" where
  "save_new_plan p plans = (if exists_where (\<lambda>q. plan_key q = plan_key p) plans
     then Inl (NotUniqueError ''project_id_1_name_1_version_1'') else Inr (plans @ [p], p))"

definition create_plan :: "oid \<Rightarrow> security_test_plan \<Rightarrow> security_test_plan list \<Rightarrow>
    (security_test_plan list \<times> security_test_plan) result_of" where
  "create_plan new_id doc plans = save_new_plan
     (doc\<lparr>tp_id := new_id, tp_version := 1, tp_status := PLAN_DRAFT, tp_parent_plan_id := None\<rparr>) plans"

text \<open>\<open>**overrides\<close>: every field of the new document can be given, the status and the version included.\<close>

record plan_overrides =
  ov_name :: "string option"
  ov_project_id :: "string option"
  ov_version :: "int option"
  ov_status :: "plan_status option"
  ov_content :: "security_test_plan \<Rightarrow> security_test_plan"

definition overridden :: "'v option \<Rightarrow> 'v \<Rightarrow> 'v" where
  "overridden ov v = (case ov of Some w \<Rightarrow> w | None \<Rightarrow> v)"

definition latest_plan :: "security_test_plan \<Rightarrow> security_test_plan list \<Rightarrow> security_test_plan option" where
  "latest_plan src plans = (case sort_key (\<lambda>q. - tp_version q)
       (filter (\<lambda>q. tp_project_id q = tp_project_id src \<and> tp_name q = tp_name src) plans) of
     [] \<Rightarrow> None | q # _ \<Rightarrow> Some q)"

definition next_plan :: "oid \<Rightarrow> string \<Rightarrow> plan_overrides \<Rightarrow> int \<Rightarrow> security_test_plan \<Rightarrow> security_test_plan" where
  "next_plan new_id created_by ov version src = (let p = ov_content ov src in
     p\<lparr>tp_id := new_id, tp_name := overridden (ov_name ov) (tp_name src),
       tp_project_id := overridden (ov_project_id ov) (tp_project_id src),
       tp_version := overridden (ov_version ov) version, tp_status := overridden (ov_status ov) PLAN_DRAFT,
       tp_created_by := created_by, tp_parent_plan_id := Some (tp_id src)\<rparr>)"

definition create_next_version :: "oid \<Rightarrow> oid \<Rightarrow> string \<Rightarrow> plan_overrides \<Rightarrow> security_test_plan list \<Rightarrow>
    (security_test_plan list \<times> security_test_plan) result_of" where
  "create_next_version new_id plan_id created_by ov plans = (case get_plan plan_id plans of
     None \<Rightarrow> Inl (ValueError ''plan not found'')
   | Some src \<Rightarrow> (let version = (case latest_plan src plans of Some q \<Rightarrow> tp_version q + 1 | None \<Rightarrow> 1) in
       save_new_plan (next_plan new_id created_by ov version src) plans))"

text \<open>The two writes of an activation: the active versions of the name are archived, then the draft is saved.\<close>

definition archive_active :: "security_test_plan \<Rightarrow> security_test_plan list \<Rightarrow> security_test_plan list" where
  "archive_active p = update_where (\<lambda>q. tp_project_id q = tp_project_id p \<and> tp_name q = tp_name p \<and> tp_status q = PLAN_ACTIVE)
     (\<lambda>q. q\<lparr>tp_status := PLAN_ARCHIVED\<rparr>)"

definition save_status :: "oid \<Rightarrow> plan_status \<Rightarrow> security_test_plan list \<Rightarrow> security_test_plan list" where
  "save_status i st = update_where (\<lambda>q. tp_id q = i) (\<lambda>q. q\<lparr>tp_status := st\<rparr>)"

definition activate_plan :: "oid \<Rightarrow> security_test_plan list \<Rightarrow> security_test_plan list result_of" where
  "activate_plan i plans = (case get_plan i plans of
     None \<Rightarrow> Inl (ValueError ''plan not found'')
   | Some p \<Rightarrow> if tp_status p \<noteq> PLAN_DRAFT then Inl (ValueError ''only draft can be activated'')
       else Inr (save_status i PLAN_ACTIVE (archive_active p plans)))"

definition archive_plan :: "oid \<Rightarrow> security_test_plan list \<Rightarrow> security_test_plan list result_of" where
  "archive_plan i plans = (case get_plan i plans of
     None \<Rightarrow> Inl (ValueError ''plan not found'')
   | Some p \<Rightarrow> Inr (save_status i PLAN_ARCHIVED plans))"

definition get_active_plan :: "string \<Rightarrow> string \<Rightarrow> security_test_plan list \<Rightarrow> security_test_plan option" where
  "get_active_plan project name plans =
     find (\<lambda>q. tp_project_id q = project \<and> tp_name q = name \<and> tp_status q = PLAN_ACTIVE) plans"

section \<open>The preflight\<close>

datatype readiness_issue =
    invalid_scope | draft_only | inactive | environment_unavailable | specialized_adapter | adapter_mismatch
  | profile_unavailable | asset_unavailable int | asset_environment_mismatch int | mutation_unsupported int
  | judge_required | live_baseline_unverified

record plan_environment =
  pe_project_id :: string
  pe_env_id :: string
  pe_active :: bool

record readiness_report =
  rp_status :: string
  rp_blockers :: "readiness_issue list"
  rp_warnings :: "readiness_issue list"
  rp_pathids :: "int list"

definition supported_modes :: "(string \<times> string list) list" where
  "supported_modes = [(''snapshot_batch'', [''anonymous'', ''inherit'']), (''authenticated_snapshot_batch'', [''account''])]"

definition profile_usable :: "security_test_plan \<Rightarrow> selected_profile option \<Rightarrow> bool" where
  "profile_usable p profile = (case profile of
     None \<Rightarrow> False
   | Some x \<Rightarrow> tp_auth_profile_id p \<noteq> [] \<and> pf_active x \<and> xp_lifecycle x = ''active'' \<and>
       pf_project_id x = tp_project_id p \<and> pf_env_id x = tp_env_id p)"

definition environment_usable :: "security_test_plan \<Rightarrow> plan_environment option \<Rightarrow> bool" where
  "environment_usable p env = (tp_project_id p \<noteq> [] \<and> tp_env_id p \<noteq> [] \<and> (case env of
     None \<Rightarrow> False
   | Some e \<Rightarrow> pe_active e \<and> pe_project_id e = tp_project_id p \<and> pe_env_id e = tp_env_id p))"

text \<open>\<open>asset_index\<close> keeps the last asset of an endpoint number.\<close>

definition asset_issues :: "security_test_plan \<Rightarrow> raw_asset list \<Rightarrow> int \<Rightarrow> readiness_issue list" where
  "asset_issues p assets pathid = (case find (\<lambda>a. ra_ptah_id a = pathid) (rev assets) of
     None \<Rightarrow> [asset_unavailable pathid]
   | Some a \<Rightarrow> if ra_project_id a \<noteq> tp_project_id p then [asset_unavailable pathid]
       else (if ra_env_id a \<noteq> [] \<and> ra_env_id a \<noteq> tp_env_id p then [asset_environment_mismatch pathid] else []) @
         (if py_upper (ra_method a) \<notin> {''GET'', ''HEAD'', ''OPTIONS''} then [mutation_unsupported pathid] else []))"

definition adapter_issues :: "security_test_plan \<Rightarrow> readiness_issue list" where
  "adapter_issues p = (case map_of supported_modes (plan_adapter p) of
     None \<Rightarrow> [specialized_adapter]
   | Some modes \<Rightarrow> if plan_auth_mode p \<notin> set modes \<or> str_or (tp_adapter_version p) ''1'' \<noteq> ''1''
       then [adapter_mismatch] else [])"

definition preflight_pathids :: "security_test_plan \<Rightarrow> int list" where
  "preflight_pathids p = (case plan_pathids p of Inr ps \<Rightarrow> ps | Inl _ \<Rightarrow> [])"

definition preflight_blockers :: "security_test_plan \<Rightarrow> raw_asset list \<Rightarrow> plan_environment option \<Rightarrow>
    selected_profile option \<Rightarrow> readiness_issue list" where
  "preflight_blockers p assets env profile =
     (if tp_adapter_id p = ''rule_plan_draft_only'' \<or> dget (tp_scope p) ''execution_allowed'' = JBool False then [draft_only] else []) @
     (if tp_status p \<noteq> PLAN_ACTIVE then [inactive] else []) @
     (if succeeds (plan_pathids p) then [] else [invalid_scope]) @
     (if environment_usable p env then [] else [environment_unavailable]) @
     adapter_issues p @
     (if plan_auth_mode p = ''account'' \<and> \<not> profile_usable p profile then [profile_unavailable] else []) @
     concat (map (asset_issues p assets) (preflight_pathids p))"

definition preflight_warnings :: "security_test_plan \<Rightarrow> readiness_issue list" where
  "preflight_warnings p =
     (if map_of supported_modes (plan_adapter p) \<noteq> None \<and>
         \<not> (plan_auth_mode p = ''anonymous'' \<and> tp_check_type p \<in> {''unauth_access'', ''anonymous_access''})
      then [judge_required] else []) @ [live_baseline_unverified]"

definition assess_plan_readiness :: "security_test_plan \<Rightarrow> raw_asset list \<Rightarrow> plan_environment option \<Rightarrow>
    selected_profile option \<Rightarrow> readiness_report" where
  "assess_plan_readiness p assets env profile = (let blockers = preflight_blockers p assets env profile in
     \<lparr>rp_status = (if blockers \<noteq> [] then ''blocked'' else ''preflight_only''), rp_blockers = blockers,
      rp_warnings = preflight_warnings p, rp_pathids = preflight_pathids p\<rparr>)"

section \<open>Facts: the scope of a plan\<close>

lemma collect_pathids_ok:
  assumes "collect_pathids seen raw = Inr ps" "distinct seen" "\<forall>n \<in> set seen. 0 < n"
  shows "distinct ps \<and> (\<forall>n \<in> set ps. 0 < n) \<and> set ps = set seen \<union> {n. \<exists>v \<in> set raw. py_int v = Inr n}"
  using assms
proof (induction seen raw rule: collect_pathids.induct)
  case (2 seen v vs)
  obtain n where n: "py_int v = Inr n" "0 < n" using 2(2) by (cases "py_int v") (simp_all split: if_splits)
  let ?seen = "if n \<in> set seen then seen else seen @ [n]"
  have rest: "collect_pathids ?seen vs = Inr ps" "distinct ?seen" "\<forall>m \<in> set ?seen. 0 < m"
    using 2(2-4) n by (auto split: if_splits)
  have "\<not> n \<le> 0" using n by simp
  from "2.IH" [OF n(1) this rest] show ?case using n by (auto split: if_splits)
qed simp

lemma plan_pathids_ok:
  assumes "plan_pathids p = Inr ps"
  shows "distinct ps \<and> (\<forall>n \<in> set ps. 0 < n) \<and> ps \<noteq> [] \<and> int (length ps) \<le> plan_budget p ps \<and> plan_budget p ps \<le> 1000 \<and>
    (\<exists>raw. raw_pathids p = Inr raw \<and> set ps = {n. \<exists>v \<in> set raw. py_int v = Inr n})"
proof -
  from assms obtain raw where r: "raw_pathids p = Inr raw" and c: "collect_pathids [] raw = Inr ps"
    and g: "ps \<noteq> []" "plan_budget p ps \<le> 1000" "int (length ps) \<le> plan_budget p ps"
    by (auto simp: plan_pathids_def sbind_Inr_iff guards_ok_iff MAX_PLAN_REQUEST_BUDGET_def)
  from collect_pathids_ok [OF c] r g show ?thesis by simp
qed

section \<open>Facts: composed snapshots\<close>

lemma created_snapshot:
  assumes "create_request_snapshot i q assets s = Inr (s1, Some sn)"
  shows "s1 = s\<lparr>db_snapshots := db_snapshots s @ [request_snapshot.truncate sn]\<rparr> \<and> sn_id sn = i \<and>
    (\<exists>a. find_asset (pq_pathid q) assets = Some a \<and> sn_pathid sn = ra_ptah_id a \<and> sn_project_id sn = payload_project q a)"
proof -
  from assms obtain pl where b: "build_request_payload q assets = Inr (Some pl)"
    and sn: "sn = payload_to_snapshot_data i pl" and s1: "s1 = s\<lparr>db_snapshots := db_snapshots s @ [request_snapshot.truncate sn]\<rparr>"
    by (auto simp: create_request_snapshot_def Let_def sbind_Inr_iff split: option.splits)
  from b obtain a c url where "find_asset (pq_pathid q) assets = Some a"
    "pl = (new_payload q a (best_request_sample (ra_id a) (payload_project q a) (payload_env q a) (pq_account_id q) assets) c)\<lparr>pl_rendered_url := url\<rparr>"
    by (rule build_cases) blast
  then show ?thesis by (simp add: s1 sn payload_to_snapshot_data_def Let_def new_payload_def)
qed

definition confined_snapshot :: "(int \<Rightarrow> oid) \<Rightarrow> string \<Rightarrow> string list \<Rightarrow> int \<Rightarrow> request_snapshot \<Rightarrow> bool" where
  "confined_snapshot ids project origins n sn \<longleftrightarrow> sn_id sn = ids n \<and> sn_pathid sn = n \<and> sn_project_id sn = project \<and>
     (origins = [] \<or> (\<exists>origin \<in> set origins. normalized_origin (sn_url sn) = Inr origin))"

lemma find_asset_id: "find_asset n assets = Some a \<Longrightarrow> ra_ptah_id a = n"
  by (auto simp: find_asset_def dest: find_Some_in)

lemma composed_for_plan:
  assumes "create_execution_snapshot i n c source assets s = Inr (s1, Some sn)"
  shows "s1 = s\<lparr>db_snapshots := db_snapshots s @ [request_snapshot.truncate sn]\<rparr> \<and> sn_id sn = i \<and> sn_pathid sn = n \<and>
    sn_project_id sn = cx_project_id c"
proof -
  from assms obtain meta where m: "snapshot_metadata c = Inr meta" and cr: "create_request_snapshot i
      \<lparr>pq_pathid = n, pq_account_id = cx_account_id c, pq_env_id = cx_env_id c,
       pq_source = source, pq_project_id = cx_project_id c, pq_auth_mode = cx_auth_mode c,
       pq_metadata = map (\<lambda>(k, v). (k, JStr v)) meta\<rparr> assets s = Inr (s1, Some sn)"
    by (auto simp: create_execution_snapshot_def sbind_Inr_iff)
  from m have "cx_project_id c \<noteq> []"
    by (auto simp: snapshot_metadata_def validate_context_def sbind_Inr_iff guards_ok_iff)
  with created_snapshot [OF cr] show ?thesis
    by (auto simp: payload_project_def str_or_def dest: find_asset_id)
qed

lemma compose_plan_ok:
  assumes "compose_plan ids c origins assets ps s = (s2, Inr sns)"
  shows "sns = map ids ps \<and> (\<exists>ss. s2 = s\<lparr>db_snapshots := db_snapshots s @ ss\<rparr> \<and>
    list_all2 (confined_snapshot ids (cx_project_id c) origins) ps ss \<and>
    (\<forall>n \<in> set ps. \<exists>a. find_asset n assets = Some a \<and> ra_project_id a = cx_project_id c))"
  using assms
proof (induction ps arbitrary: s s2 sns)
  case (Cons n ps)
  then obtain s1 sn origin sns' where a: "\<exists>a. find_asset n assets = Some a \<and> ra_project_id a = cx_project_id c"
    and cr: "create_execution_snapshot (ids n) n c ''test_plan_web'' assets s = Inr (s1, Some sn)"
    and o: "normalized_origin (sn_url sn) = Inr origin" "origins = [] \<or> origin \<in> set origins"
    and rest: "compose_plan ids c origins assets ps s1 = (s2, Inr sns')" and sns: "sns = sn_id sn # sns'"
    by (auto split: option.splits sum.splits if_splits prod.splits)
  from Cons.IH [OF rest] obtain ss where ih: "sns' = map ids ps" "s2 = s1\<lparr>db_snapshots := db_snapshots s1 @ ss\<rparr>"
    "list_all2 (confined_snapshot ids (cx_project_id c) origins) ps ss"
    "\<forall>n \<in> set ps. \<exists>a. find_asset n assets = Some a \<and> ra_project_id a = cx_project_id c" by blast
  note sn = composed_for_plan [OF cr]
  from o sn have "confined_snapshot ids (cx_project_id c) origins n (request_snapshot.truncate sn)"
    by (auto simp: confined_snapshot_def request_snapshot.defs)
  with ih sn sns a show ?case
    by (intro conjI exI [of _ "request_snapshot.truncate sn # ss"]) auto
qed simp

lemma prepared_plan:
  assumes "prepare_plan digest profiles p = Inr x"
  shows "guards (plan_guards p) = Inr () \<and> plan_pathids p = Inr (pp_pathids x) \<and> target_origins p = Inr (pp_origins x) \<and>
    (\<exists>f. plan_fields profiles p = Inr f \<and> pp_context x = plan_context digest p f \<and> validate_context (pp_context x) = Inr ()) \<and>
    policy_from_dict (tp_execution_policy p) = Inr (pp_policy x)"
  using assms by (auto simp: prepare_plan_def Let_def sbind_Inr_iff)

lemma schedule_cases:
  assumes "schedule_plan_execution digest parse ids now new_id stamp plan_id operator rname plans profiles assets s =
    (s', Inr (run, created))"
  obtains p x s1 sns where "get_plan plan_id plans = Some p" "prepare_plan digest profiles p = Inr x"
    "compose_plan ids (pp_context x) (pp_origins x) assets (pp_pathids x) s = (s1, Inr sns)"
    "enqueue_snapshot_batch digest parse now new_id (plan_request (pp_context x) (pp_policy x)
       (plan_run_name rname stamp p) operator sns (pp_pathids x) p) s1 = Inr (s', run, created)"
  using assms unfolding schedule_plan_execution_def
  by (auto split: option.splits sum.splits prod.splits)

lemma plan_scope_text: "dget (dict_set ''snapshot_count'' v (plan_scope p ps)) ''plan_id'' = JStr (tp_id p)"
  by (simp add: plan_scope_def dict_simps) (simp add: dget_def dict_simps)

lemma stored_confined:
  assumes "list_all2 (confined_snapshot ids project origins) ps ss" "inj_on ids {0<..}" "\<forall>n \<in> set ps. 0 < n"
    and "distinct ps" "n \<in> set ps" "ids n \<notin> sn_id ` set stored"
  shows "\<exists>sn. coll_get sn_id (ids n) (stored @ ss) = Some sn \<and> confined_snapshot ids project origins n sn"
proof -
  have "coll_get sn_id (ids n) stored = None" using assms(6) by (simp add: coll_get_None)
  then have "coll_get sn_id (ids n) (stored @ ss) = coll_get sn_id (ids n) ss" by (simp add: coll_get_append)
  moreover have "\<exists>sn. coll_get sn_id (ids n) ss = Some sn \<and> confined_snapshot ids project origins n sn"
    using assms(1,3-5)
  proof (induction rule: list_all2_induct)
    case (Cons m ms sn sns)
    show ?case
    proof (cases "m = n")
      case True
      with Cons show ?thesis by (auto simp: coll_get_Cons confined_snapshot_def)
    next
      case False
      with Cons have "0 < m" "0 < n" by auto
      with False assms(2) have "ids m \<noteq> ids n" by (auto simp: inj_on_def)
      with Cons False show ?thesis by (auto simp: coll_get_Cons confined_snapshot_def)
    qed
  qed simp
  ultimately show ?thesis by simp
qed

section \<open>Facts: the preflight\<close>

lemma no_blocker_parts:
  assumes "preflight_blockers p assets env profile = []"
  shows "guards (plan_guards p) = Inr ()" "plan_pathids p = Inr (preflight_pathids p)" "environment_usable p env"
    "adapter_issues p = []" "plan_auth_mode p = ''account'' \<longrightarrow> profile_usable p profile"
    "n \<in> set (preflight_pathids p) \<Longrightarrow> asset_issues p assets n = []"
  using assms
  by (auto simp: preflight_blockers_def guards_ok_iff plan_guards_def preflight_pathids_def succeeds_iff
      split: if_splits sum.splits)

lemma asset_issues_none:
  assumes "asset_issues p assets n = []"
  shows "\<exists>a \<in> set assets. ra_ptah_id a = n \<and> ra_project_id a = tp_project_id p \<and>
    ra_env_id a \<in> {[], tp_env_id p} \<and> is_safe_method (ra_method a)"
proof -
  obtain a where f: "find (\<lambda>a. ra_ptah_id a = n) (rev assets) = Some a"
    using assms by (cases "find (\<lambda>a. ra_ptah_id a = n) (rev assets)") (simp_all add: asset_issues_def)
  with assms find_Some_in [OF f] show ?thesis
    by (auto simp: asset_issues_def is_safe_method_def SAFE_METHODS_def split: if_splits)
qed

lemma adapter_issues_none:
  assumes "adapter_issues p = []"
  shows "\<exists>a. map_of (builtin_execution_adapters replay judge) (plan_adapter p) = Some a \<and>
    ad_version a = str_or (tp_adapter_version p) ''1'' \<and> plan_auth_mode p \<in> set (ad_auth_modes a)"
  using assms
  by (auto simp: adapter_issues_def supported_modes_def builtin_execution_adapters_def split: option.splits if_splits)

section \<open>Facts: versions\<close>

definition plans_ok :: "security_test_plan list \<Rightarrow> bool" where
  "plans_ok plans \<longleftrightarrow> coll_ok tp_id plans \<and> coll_ok plan_key plans \<and>
     (\<forall>p \<in> set plans. \<forall>q \<in> set plans. tp_status p = PLAN_ACTIVE \<and> tp_status q = PLAN_ACTIVE \<and>
        tp_project_id p = tp_project_id q \<and> tp_name p = tp_name q \<longrightarrow> p = q)"

fun legal_plan :: "plan_status \<Rightarrow> plan_status \<Rightarrow> bool" where
  "legal_plan PLAN_DRAFT st \<longleftrightarrow> st \<noteq> PLAN_DRAFT"
| "legal_plan PLAN_ACTIVE st \<longleftrightarrow> st = PLAN_ARCHIVED"
| "legal_plan PLAN_ARCHIVED st \<longleftrightarrow> False"

interpretation plan_life: lifecycle legal_plan "\<lambda>st. st = PLAN_ARCHIVED"
  by unfold_locales simp

text \<open>Everything the module does to the collection; a new version is a draft unless its caller overrides the
  status, which this relation leaves out.\<close>

inductive plan_step :: "security_test_plan list \<Rightarrow> security_test_plan list \<Rightarrow> bool" where
  created: "create_plan new_id doc plans = Inr (plans', p) \<Longrightarrow> new_id \<notin> tp_id ` set plans \<Longrightarrow> plan_step plans plans'"
| versioned: "create_next_version new_id i operator ov plans = Inr (plans', p) \<Longrightarrow> new_id \<notin> tp_id ` set plans \<Longrightarrow>
    ov_status ov = None \<Longrightarrow> plan_step plans plans'"
| activated: "activate_plan i plans = Inr plans' \<Longrightarrow> plan_step plans plans'"
| archived: "archive_plan i plans = Inr plans' \<Longrightarrow> plan_step plans plans'"

definition plan_kept :: "security_test_plan \<Rightarrow> security_test_plan \<Rightarrow> bool" where
  "plan_kept p q \<longleftrightarrow> q = p\<lparr>tp_status := tp_status q\<rparr> \<and> plan_life.moves (tp_status p) (tp_status q)"

lemma plan_kept_refl: "plan_kept p p"
  by (simp add: plan_kept_def)

lemma plans_kept_refl: "\<forall>p \<in> set plans. \<exists>q \<in> set (plans @ new). plan_kept p q"
  using plan_kept_refl by auto

lemma plan_kept_trans: "plan_kept p q \<Longrightarrow> plan_kept q r \<Longrightarrow> plan_kept p r"
  unfolding plan_kept_def using plan_life.moves_trans
  by (metis security_test_plan.surjective security_test_plan.update_convs(6))

lemma saved_new_plan:
  assumes "save_new_plan p plans = Inr (plans', q)" "tp_id p \<notin> tp_id ` set plans" "tp_status p = PLAN_DRAFT" "plans_ok plans"
  shows "plans_ok plans' \<and> plans' = plans @ [p]"
proof -
  from assms(1) have pl: "plans' = plans @ [p]" and new: "\<And>q. q \<in> set plans \<Longrightarrow> plan_key q \<noteq> plan_key p"
    by (auto simp: save_new_plan_def exists_where_iff split: if_splits)
  from new have "plan_key p \<notin> plan_key ` set plans" by force
  with assms(2-4) show ?thesis by (simp add: pl plans_ok_def coll_ok_def)
qed

lemma restatus_ok:
  assumes "plans_ok plans" "plans' = map (\<lambda>p. p\<lparr>tp_status := st p\<rparr>) plans"
    and "\<And>p q. p \<in> set plans \<Longrightarrow> q \<in> set plans \<Longrightarrow> st p = PLAN_ACTIVE \<Longrightarrow> st q = PLAN_ACTIVE \<Longrightarrow>
      tp_project_id p = tp_project_id q \<Longrightarrow> tp_name p = tp_name q \<Longrightarrow> p = q"
  shows "plans_ok plans'"
  using assms(1,3) by (auto simp: assms(2) plans_ok_def coll_ok_def plan_key_def [abs_def] comp_def)

lemma same_plan: "plans_ok plans \<Longrightarrow> p \<in> set plans \<Longrightarrow> q \<in> set plans \<Longrightarrow> tp_id p = tp_id q \<Longrightarrow> p = q"
  by (auto simp: plans_ok_def coll_ok_def distinct_map inj_on_def)

lemma save_status_map: "save_status i st plans = map (\<lambda>p. p\<lparr>tp_status := (if tp_id p = i then st else tp_status p)\<rparr>) plans"
  by (auto simp: save_status_def update_where_def)

lemma activated_map:
  "save_status i PLAN_ACTIVE (archive_active p plans) = map (\<lambda>q. q\<lparr>tp_status := (if tp_id q = i then PLAN_ACTIVE
     else if tp_project_id q = tp_project_id p \<and> tp_name q = tp_name p \<and> tp_status q = PLAN_ACTIVE then PLAN_ARCHIVED
     else tp_status q)\<rparr>) plans"
  by (auto simp: save_status_map archive_active_def update_where_def)

lemma activate_ok:
  assumes "activate_plan i plans = Inr plans'" "plans_ok plans"
  obtains p where "p \<in> set plans" "tp_id p = i" "tp_status p = PLAN_DRAFT"
    "plans' = save_status i PLAN_ACTIVE (archive_active p plans)" "plans_ok plans'"
proof -
  from assms(1) obtain p where g: "get_plan i plans = Some p" and d: "tp_status p = PLAN_DRAFT"
    and pl: "plans' = save_status i PLAN_ACTIVE (archive_active p plans)"
    by (auto simp: activate_plan_def split: option.splits if_splits)
  from g have p: "p \<in> set plans" "tp_id p = i" by (auto simp: get_plan_def dest: coll_get_Some)
  have ok: "plans_ok plans'"
  proof (rule restatus_ok [OF assms(2), of _ "\<lambda>q. if tp_id q = i then PLAN_ACTIVE
     else if tp_project_id q = tp_project_id p \<and> tp_name q = tp_name p \<and> tp_status q = PLAN_ACTIVE then PLAN_ARCHIVED
     else tp_status q"])
    show "plans' = map (\<lambda>q. q\<lparr>tp_status := (if tp_id q = i then PLAN_ACTIVE
     else if tp_project_id q = tp_project_id p \<and> tp_name q = tp_name p \<and> tp_status q = PLAN_ACTIVE then PLAN_ARCHIVED
     else tp_status q)\<rparr>) plans" by (simp add: pl activated_map)
  next
    fix q r
    assume qr: "q \<in> set plans" "r \<in> set plans" "tp_project_id q = tp_project_id r" "tp_name q = tp_name r"
      "(if tp_id q = i then PLAN_ACTIVE else if tp_project_id q = tp_project_id p \<and> tp_name q = tp_name p \<and>
         tp_status q = PLAN_ACTIVE then PLAN_ARCHIVED else tp_status q) = PLAN_ACTIVE"
      "(if tp_id r = i then PLAN_ACTIVE else if tp_project_id r = tp_project_id p \<and> tp_name r = tp_name p \<and>
         tp_status r = PLAN_ACTIVE then PLAN_ARCHIVED else tp_status r) = PLAN_ACTIVE"
    have own: "x = p" if "x \<in> set plans" "tp_id x = i" for x using same_plan [OF assms(2) that(1) p(1)] that(2) p(2) by simp
    from assms(2) qr(1-4) have act: "tp_status q = PLAN_ACTIVE \<Longrightarrow> tp_status r = PLAN_ACTIVE \<Longrightarrow> q = r"
      by (simp add: plans_ok_def)
    show "q = r"
      using qr own act by (cases "tp_id q = i"; cases "tp_id r = i") (auto split: if_splits)
  qed
  show thesis by (rule that [OF p d pl ok])
qed

lemma map_status_kept:
  assumes "\<And>q. q \<in> set plans \<Longrightarrow> st q = tp_status q \<or> legal_plan (tp_status q) (st q)"
  shows "\<forall>q \<in> set plans. \<exists>r \<in> set (map (\<lambda>q. q\<lparr>tp_status := st q\<rparr>) plans). plan_kept q r"
  using assms plan_life.moves_step by (fastforce simp: plan_kept_def)

lemma legal_archive: "\<not> legal_plan st PLAN_ARCHIVED \<Longrightarrow> PLAN_ARCHIVED = st"
  by (cases st) simp_all

lemma plan_step_ok:
  assumes "plan_step plans plans'" "plans_ok plans"
  shows "plans_ok plans' \<and> (\<forall>p \<in> set plans. \<exists>q \<in> set plans'. plan_kept p q)"
  using assms
proof (cases rule: plan_step.cases)
  case (created new_id doc p)
  with assms(2) saved_new_plan [OF created(1) [unfolded create_plan_def]]
  obtain new where ok: "plans_ok plans'" and pl: "plans' = plans @ new" by auto
  have "\<forall>p \<in> set plans. \<exists>q \<in> set plans'. plan_kept p q" unfolding pl by (rule plans_kept_refl)
  with ok show ?thesis ..
next
  case (versioned new_id i operator ov p)
  then obtain q version where "save_new_plan (next_plan new_id operator ov version q) plans = Inr (plans', p)"
    by (auto simp: create_next_version_def Let_def split: option.splits)
  from saved_new_plan [OF this] versioned assms(2) obtain new where ok: "plans_ok plans'" and pl: "plans' = plans @ new"
    by (auto simp: next_plan_def overridden_def Let_def)
  have "\<forall>p \<in> set plans. \<exists>q \<in> set plans'. plan_kept p q" unfolding pl by (rule plans_kept_refl)
  with ok show ?thesis ..
next
  case (activated i)
  from activate_ok [OF activated assms(2)] obtain p where p: "p \<in> set plans" "tp_id p = i" "tp_status p = PLAN_DRAFT"
    and pl: "plans' = save_status i PLAN_ACTIVE (archive_active p plans)" and ok: "plans_ok plans'" .
  have own: "tp_status x = PLAN_DRAFT" if "x \<in> set plans" "tp_id x = i" for x
    using same_plan [OF assms(2) that(1) p(1)] that(2) p(2,3) by simp
  have "\<forall>q \<in> set plans. \<exists>r \<in> set plans'. plan_kept q r"
    unfolding pl activated_map by (rule map_status_kept) (use own in auto)
  with ok show ?thesis ..
next
  case (archived i)
  then have pl: "plans' = save_status i PLAN_ARCHIVED plans"
    by (auto simp: archive_plan_def split: option.splits)
  have "plans_ok plans'"
    using assms(2) by (intro restatus_ok [OF assms(2) pl [unfolded save_status_map]]) (auto simp: plans_ok_def split: if_splits)
  moreover have "\<forall>q \<in> set plans. \<exists>r \<in> set plans'. plan_kept q r"
    unfolding pl save_status_map by (rule map_status_kept) (auto dest: legal_archive)
  ultimately show ?thesis ..
qed

lemma plan_steps_ok:
  assumes "plan_step\<^sup>*\<^sup>* plans plans'" "plans_ok plans"
  shows "plans_ok plans' \<and> (\<forall>p \<in> set plans. \<exists>q \<in> set plans'. plan_kept p q)"
  using assms
proof (induction rule: rtranclp_induct)
  case base
  then show ?case using plans_kept_refl [of plans "[]"] by simp
next
  case (step y z)
  then show ?case using plan_step_ok [OF step(2)] by (meson plan_kept_trans)
qed

lemma no_plans_ok: "plans_ok []"
  by (simp add: plans_ok_def coll_ok_def)

section \<open>Properties\<close>

text \<open>C20: a batch scheduled for a plan stays inside the plan: the plan was active and no analysis draft;
  the run holds one snapshot for every endpoint the plan names and none else, within its request budget of at most
  1000; every snapshot was composed for its endpoint in the plan's project and, when the plan restricts the target
  origins, goes to one of them; the run names the plan, its version and the hash of its content.\<close>

theorem scheduled_plan_is_confined:
  assumes "schedule_plan_execution digest parse ids now new_id stamp plan_id operator rname plans profiles assets s =
      (s', Inr (run, True))"
    and "new_id \<notin> run_id ` set (db_runs s)" "new_id \<notin> cp_run_id ` set (db_checkpoints s)"
    and "inj_on ids {0<..}" "ids ` {0<..} \<inter> sn_id ` set (db_snapshots s) = {}" "\<And>n. parse (ids n) = Some (ids n)"
  shows "\<exists>p pathids origins. get_plan plan_id plans = Some p \<and> tp_status p = PLAN_ACTIVE \<and>
    tp_adapter_id p \<noteq> ''rule_plan_draft_only'' \<and> plan_pathids p = Inr pathids \<and> target_origins p = Inr origins \<and>
    length pathids \<le> nat (plan_budget p pathids) \<and> plan_budget p pathids \<le> 1000 \<and>
    distinct (run_snapshot_ids run) \<and> set (run_snapshot_ids run) = ids ` set pathids \<and>
    (\<forall>n \<in> set pathids. \<exists>sn. coll_get sn_id (ids n) (db_snapshots s') = Some sn \<and>
       confined_snapshot ids (tp_project_id p) origins n sn) \<and>
    cx_project_id (run_ctx run) = tp_project_id p \<and> cx_plan_sha256 (run_ctx run) = plan_content_sha256 digest p \<and>
    dget (run_scope run) ''plan_id'' = JStr plan_id"
proof -
  from assms(1) obtain p x s1 sns where p: "get_plan plan_id plans = Some p" and x: "prepare_plan digest profiles p = Inr x"
    and c: "compose_plan ids (pp_context x) (pp_origins x) assets (pp_pathids x) s = (s1, Inr sns)"
    and e: "enqueue_snapshot_batch digest parse now new_id (plan_request (pp_context x) (pp_policy x)
       (plan_run_name rname stamp p) operator sns (pp_pathids x) p) s1 = Inr (s', run, True)"
    by (rule schedule_cases)
  note pr = prepared_plan [OF x]
  then obtain fl where ctx: "pp_context x = plan_context digest p fl" by blast
  have pid: "tp_id p = plan_id" using p by (auto simp: get_plan_def dest: coll_get_Some)
  have ps: "plan_pathids p = Inr (pp_pathids x)" using pr by blast
  note pb = plan_pathids_ok [OF ps]
  from compose_plan_ok [OF c] obtain ss where sns: "sns = map ids (pp_pathids x)"
    and s1: "s1 = s\<lparr>db_snapshots := db_snapshots s @ ss\<rparr>"
    and ss: "list_all2 (confined_snapshot ids (tp_project_id p) (pp_origins x)) (pp_pathids x) ss"
    by (auto simp: ctx plan_context_def)
  have fresh: "new_id \<notin> run_id ` set (db_runs s1)" "new_id \<notin> cp_run_id ` set (db_checkpoints s1)"
    using assms(2,3) by (simp_all add: s1)
  obtain sids key pd where ids: "normalize_snapshot_ids parse sns = Inr sids" and stored: "db_snapshots s' = db_snapshots s1"
    and run: "run = mark_queued now (length sids) (new_run now new_id (plan_request (pp_context x) (pp_policy x)
       (plan_run_name rname stamp p) operator sns (pp_pathids x) p) key sids pd)"
    using created_shape [OF e fresh] unfolding plan_request_def enqueue_request.select_convs by blast
  have "(the \<circ> parse) ` set sns = ids ` set (pp_pathids x)" by (auto simp: sns assms(6) image_iff)
  then have snaps: "distinct (run_snapshot_ids run)" "set (run_snapshot_ids run) = ids ` set (pp_pathids x)"
    using normalize_ids_ok [OF ids] by (simp_all add: run mark_queued_def new_run_def)
  have conf: "\<forall>n \<in> set (pp_pathids x). \<exists>sn. coll_get sn_id (ids n) (db_snapshots s') = Some sn \<and>
      confined_snapshot ids (tp_project_id p) (pp_origins x) n sn"
  proof
    fix n assume n: "n \<in> set (pp_pathids x)"
    with pb assms(5) have "ids n \<notin> sn_id ` set (db_snapshots s)" by auto
    with stored_confined [OF ss assms(4) _ _ n] pb show "\<exists>sn. coll_get sn_id (ids n) (db_snapshots s') = Some sn \<and>
      confined_snapshot ids (tp_project_id p) (pp_origins x) n sn" by (simp add: stored s1)
  qed
  have act: "tp_status p = PLAN_ACTIVE" "tp_adapter_id p \<noteq> ''rule_plan_draft_only''"
    using pr by (auto simp: guards_ok_iff plan_guards_def)
  have run_fields: "cx_project_id (run_ctx run) = tp_project_id p" "cx_plan_sha256 (run_ctx run) = plan_content_sha256 digest p"
    "dget (run_scope run) ''plan_id'' = JStr plan_id"
    by (simp_all add: run mark_queued_def new_run_def plan_request_def ctx plan_context_def plan_scope_text pid)
  have o: "target_origins p = Inr (pp_origins x)" using pr by blast
  have bounds: "length (pp_pathids x) \<le> nat (plan_budget p (pp_pathids x))" "plan_budget p (pp_pathids x) \<le> 1000"
    using pb by linarith+
  show ?thesis using p act ps o bounds snaps conf run_fields by blast
qed

text \<open>the scope of a plan is what its list names: the endpoint numbers a plan resolves to are distinct
  and positive, are exactly the integers the stored list spells, at least one and no more than the request budget,
  which itself is at most 1000.\<close>

theorem plan_scope_is_bounded:
  assumes "plan_pathids p = Inr ps"
  shows "distinct ps \<and> list_all (\<lambda>n. 0 < n) ps \<and> 1 \<le> length ps \<and> int (length ps) \<le> plan_budget p ps \<and>
    plan_budget p ps \<le> MAX_PLAN_REQUEST_BUDGET \<and>
    (\<exists>raw. raw_pathids p = Inr raw \<and> set ps = {n. \<exists>v \<in> set raw. py_int v = Inr n})"
  using plan_pathids_ok [OF assms] by (cases ps) (auto simp: MAX_PLAN_REQUEST_BUDGET_def list_all_iff)



text \<open>activation hands over: after it the plan is the active one of its name, the version that was active
  before is archived, and no plan of another name or project was touched.\<close>

theorem activation_hands_over:
  assumes "plans_ok plans" "activate_plan i plans = Inr plans'"
  shows "\<exists>p \<in> set plans. tp_id p = i \<and> tp_status p = PLAN_DRAFT \<and>
    get_active_plan (tp_project_id p) (tp_name p) plans' = Some (p\<lparr>tp_status := PLAN_ACTIVE\<rparr>) \<and>
    (\<forall>q. get_active_plan (tp_project_id p) (tp_name p) plans = Some q \<longrightarrow>
       get_plan (tp_id q) plans' = Some (q\<lparr>tp_status := PLAN_ARCHIVED\<rparr>)) \<and>
    filter (\<lambda>q. (tp_project_id q, tp_name q) \<noteq> (tp_project_id p, tp_name p)) plans' =
      filter (\<lambda>q. (tp_project_id q, tp_name q) \<noteq> (tp_project_id p, tp_name p)) plans"
proof -
  from activate_ok [OF assms(2,1)] obtain p where p: "p \<in> set plans" "tp_id p = i" "tp_status p = PLAN_DRAFT"
    and pl: "plans' = save_status i PLAN_ACTIVE (archive_active p plans)" and ok: "plans_ok plans'" .
  have own: "x = p" if "x \<in> set plans" "tp_id x = i" for x
    using same_plan [OF assms(1) that(1) p(1)] that(2) p(2) by simp
  let ?p = "p\<lparr>tp_status := PLAN_ACTIVE\<rparr>"
  have new: "?p \<in> set plans'" unfolding pl activated_map using p by force
  have "get_active_plan (tp_project_id p) (tp_name p) plans' = Some ?p"
  proof (cases "get_active_plan (tp_project_id p) (tp_name p) plans'")
    case None
    then have "\<not> (\<exists>x. x \<in> set plans' \<and> tp_project_id x = tp_project_id p \<and> tp_name x = tp_name p \<and> tp_status x = PLAN_ACTIVE)"
      by (simp add: get_active_plan_def find_None_iff)
    with new have False by (auto dest!: spec [of _ ?p])
    then show ?thesis ..
  next
    case (Some q)
    from find_Some_in [OF this [unfolded get_active_plan_def]] new ok show ?thesis by (auto simp: Some plans_ok_def)
  qed
  moreover have "get_plan (tp_id q) plans' = Some (q\<lparr>tp_status := PLAN_ARCHIVED\<rparr>)"
    if "get_active_plan (tp_project_id p) (tp_name p) plans = Some q" for q
  proof -
    from find_Some_in [OF that [unfolded get_active_plan_def]] have q: "q \<in> set plans" "tp_status q = PLAN_ACTIVE"
      "tp_project_id q = tp_project_id p" "tp_name q = tp_name p" by auto
    with own p have "tp_id q \<noteq> i" by force
    with q have "q\<lparr>tp_status := PLAN_ARCHIVED\<rparr> \<in> set plans'" unfolding pl activated_map by force
    moreover have "coll_ok tp_id plans'" using ok by (simp add: plans_ok_def)
    ultimately show ?thesis by (simp add: get_plan_def coll_ok_iff_get)
  qed
  moreover have "filter (\<lambda>q. (tp_project_id q, tp_name q) \<noteq> (tp_project_id p, tp_name p)) plans' =
      filter (\<lambda>q. (tp_project_id q, tp_name q) \<noteq> (tp_project_id p, tp_name p)) plans"
  proof -
    have f: "filter Q (map f xs) = filter Q xs" if "\<And>x. x \<in> set xs \<Longrightarrow> Q (f x) = Q x" "\<And>x. x \<in> set xs \<Longrightarrow> Q x \<Longrightarrow> f x = x"
      for Q :: "security_test_plan \<Rightarrow> bool" and f xs
      using that by (induction xs) auto
    show ?thesis unfolding pl activated_map
    proof (rule f)
      fix x assume x: "x \<in> set plans" "(tp_project_id x, tp_name x) \<noteq> (tp_project_id p, tp_name p)"
      with own have "tp_id x \<noteq> i" by blast
      with x(2) show "x\<lparr>tp_status := (if tp_id x = i then PLAN_ACTIVE else if tp_project_id x = tp_project_id p \<and>
          tp_name x = tp_name p \<and> tp_status x = PLAN_ACTIVE then PLAN_ARCHIVED else tp_status x)\<rparr> = x"
        by (simp split: if_splits) blast
    qed simp
  qed
  ultimately show ?thesis using p by blast
qed

section \<open>Limits\<close>

text \<open>The default a text or a malformed entry leaves: no target origin at all, and then no request is outside.\<close>

definition example_test_plan :: "json \<Rightarrow> json \<Rightarrow> security_test_plan" where
  "example_test_plan pathids origins = \<lparr>tp_id = ''plan'', tp_name = ''weekly'', tp_project_id = ''p'', tp_env_id = ''e'',
     tp_version = 1, tp_status = PLAN_ACTIVE, tp_check_type = ''unauth_access'', tp_adapter_id = [], tp_adapter_version = [],
     tp_auth_mode = ''anonymous'', tp_auth_profile_id = [],
     tp_scope = [(''pathids'', pathids), (''target_origins'', origins)], tp_execution_policy = [], tp_snapshot_filter = [],
     tp_request_budget = None, tp_created_by = [], tp_parent_plan_id = None\<rparr>"

lemma text_origin_restricts_nothing:
  "target_origins (example_test_plan JNull (JStr ''https://a.example'')) = Inr []"
  "target_origins (example_test_plan JNull (JList [JStr ''a.example''])) = Inr []"
  "target_origins (example_test_plan JNull (JList [JStr ''https://A.example/x''])) = Inr [''https://a.example'']"
  by code_simp+

text \<open>A status override makes a second active version of the name.\<close>

definition status_override :: "plan_status option \<Rightarrow> plan_overrides" where
  "status_override st = \<lparr>ov_name = None, ov_project_id = None, ov_version = None, ov_status = st, ov_content = id\<rparr>"

lemma override_makes_two_active:
  "(case create_next_version ''plan2'' ''plan'' [] (status_override (Some PLAN_ACTIVE)) [example_test_plan JNull JNull] of
      Inr (plans, _) \<Rightarrow> map tp_status plans = [PLAN_ACTIVE, PLAN_ACTIVE] \<and> \<not> plans_ok plans
    | Inl _ \<Rightarrow> False)"
proof -
  have "map_option (\<lambda>(plans, _). (map tp_status plans, map tp_id plans, map plan_key plans))
      (case create_next_version ''plan2'' ''plan'' [] (status_override (Some PLAN_ACTIVE)) [example_test_plan JNull JNull] of
         Inr r \<Rightarrow> Some r | Inl _ \<Rightarrow> None) =
    Some ([PLAN_ACTIVE, PLAN_ACTIVE], [''plan'', ''plan2''], [(''p'', ''weekly'', 1), (''p'', ''weekly'', 2)])"
    by code_simp
  then show ?thesis
    by (auto simp: plans_ok_def plan_key_def map_eq_Cons_conv split: sum.splits)
qed

section \<open>Witnesses\<close>

definition example_plan_run :: "db \<times> (security_test_run \<times> bool) result_of" where
  "example_plan_run = schedule_plan_execution (\<lambda>_. ''key'') Some (\<lambda>n. replicate (nat n) CHR ''s'') 5 ''r1'' ''now'' ''plan'' [] []
     [example_test_plan (JList [JInt 7]) (JList [JStr ''https://a.example''])]
     \<lparr>xd_profiles = [], xd_profile_revisions = [], xd_realm_revisions = []\<rparr>
     ((example_assets [example_entry ''q'' ''query'' True []])\<lparr>as_assets := [example_asset\<lparr>ra_url := ''https://a.example/x''\<rparr>]\<rparr>)
     (example_db\<lparr>db_snapshots := []\<rparr>)"

theorem scheduled_plan_is_confined_witness:
  "\<exists>s' run p. example_plan_run = (s', Inr (run, True)) \<and> tp_status p = PLAN_ACTIVE \<and> plan_pathids p = Inr [7] \<and>
     run_snapshot_ids run = [''sssssss'']"
proof -
  let ?ids = "\<lambda>n. replicate (nat n) CHR ''s''"
  let ?p = "example_test_plan (JList [JInt 7]) (JList [JStr ''https://a.example''])"
  have "case example_plan_run of (s', Inr (run, b)) \<Rightarrow> b | _ \<Rightarrow> False" by code_simp
  then obtain s' run where e: "example_plan_run = (s', Inr (run, True))"
    by (auto split: prod.splits sum.splits)
  have inj: "inj_on ?ids {0<..}" by (auto simp: inj_on_def dest!: arg_cong [of _ _ length])
  have ps: "plan_pathids ?p = Inr [7]" by code_simp
  have get: "get_plan ''plan'' [?p] = Some ?p" by (simp add: get_plan_def coll_get_def example_test_plan_def)
  from scheduled_plan_is_confined [OF e [unfolded example_plan_run_def] _ _ inj]
  have "distinct (run_snapshot_ids run) \<and> set (run_snapshot_ids run) = ?ids ` {7}"
    by (auto simp: example_db_def get ps)
  then have "run_snapshot_ids run = [?ids 7]"
    by (cases "run_snapshot_ids run" rule: list.exhaust) (auto simp: subset_singleton_iff)
  moreover have "?ids 7 = ''sssssss''" by code_simp
  moreover have "tp_status ?p = PLAN_ACTIVE" by (simp add: example_test_plan_def)
  ultimately show ?thesis using e ps by metis
qed

theorem plan_scope_is_bounded_witness:
  "\<exists>ps. plan_pathids (example_test_plan (JList [JStr ''9'', JInt 7, JInt 9]) JNull) = Inr ps \<and> set ps = {7, 9} \<and> distinct ps"
proof -
  let ?p = "example_test_plan (JList [JStr ''9'', JInt 7, JInt 9]) JNull"
  have "plan_pathids ?p = Inr [9, 7]" by code_simp
  with plan_scope_is_bounded [OF this] show ?thesis by auto
qed



theorem activation_hands_over_witness:
  "\<exists>plans' q. activate_plan ''plan2'' [example_test_plan JNull JNull,
      (example_test_plan JNull JNull)\<lparr>tp_id := ''plan2'', tp_version := 2, tp_status := PLAN_DRAFT\<rparr>] = Inr plans' \<and>
    get_active_plan ''p'' ''weekly'' plans' = Some q \<and> tp_id q = ''plan2''"
proof -
  let ?p = "example_test_plan JNull JNull" let ?q = "?p\<lparr>tp_id := ''plan2'', tp_version := 2, tp_status := PLAN_DRAFT\<rparr>"
  have ok: "plans_ok [?p, ?q]" by (auto simp: plans_ok_def coll_ok_def plan_key_def example_test_plan_def)
  obtain plans' where a: "activate_plan ''plan2'' [?p, ?q] = Inr plans'"
    by (simp add: activate_plan_def get_plan_def coll_get_def example_test_plan_def)
  from activation_hands_over [OF ok a] a show ?thesis by (auto simp: example_test_plan_def)
qed

end
