(* ===== verification/RuleSpec.thy ===== *)
theory RuleSpec
  imports PyValue
begin

text \<open>
  The rule language of \<open>apiAnalysis/rule/framework.py\<close>: \<open>RuleSpec.from_mapping\<close>, which accepts a stored rule or
  names what is wrong with it, and \<open>to_mapping\<close>, whose canonical JSON text is hashed into every match.

  A float is its value and its \<open>repr\<close>. A number that is too large for a float is outside the bounds that are checked
  next, so the conversion is total here. \<open>dict(value)\<close> of a list is modelled for pairs whose keys are texts.
\<close>

section \<open>Names\<close>

definition is_lower :: "char \<Rightarrow> bool" where
  "is_lower c = (let n = (of_char c :: nat) in 97 \<le> n \<and> n \<le> 122)"

definition name_char :: "char \<Rightarrow> bool" where
  "name_char c \<longleftrightarrow> is_lower c \<or> is_digit c \<or> c \<in> {CHR ''_'', CHR ''.'', CHR ''-''}"

text \<open>\<open>^[a-z][a-z0-9_.-]*$\<close>, \<open>^[a-z][a-z0-9_]*$\<close> and \<open>^[a-z][a-z0-9_.-]*\.v[1-9][0-9]*$\<close>: the version is the longest
  suffix of digits, since what precedes it ends in a letter.\<close>

definition is_rule_id :: "string \<Rightarrow> bool" where
  "is_rule_id s = (case s of [] \<Rightarrow> False | c # cs \<Rightarrow> is_lower c \<and> list_all name_char cs)"

definition is_input_name :: "string \<Rightarrow> bool" where
  "is_input_name s = (case s of [] \<Rightarrow> False
     | c # cs \<Rightarrow> is_lower c \<and> list_all (\<lambda>x. is_lower x \<or> is_digit x \<or> x = CHR ''_'') cs)"

definition is_versioned_name :: "string \<Rightarrow> bool" where
  "is_versioned_name s = (let ds = takeWhile is_digit (rev s); rest = dropWhile is_digit (rev s) in
     ds \<noteq> [] \<and> last ds \<noteq> CHR ''0'' \<and>
     (case rest of v # dot # name \<Rightarrow> v = CHR ''v'' \<and> dot = CHR ''.'' \<and> is_rule_id (rev name) | _ \<Rightarrow> False))"

section \<open>Rules\<close>

type_synonym py_float = "rat \<times> string"

definition RULE_SCHEMA_VERSION :: string where "RULE_SCHEMA_VERSION = ''rule.v1''"

record predicate_call =
  pc_name :: string
  pc_args :: "json dict"

record score_feature =
  sf_predicate :: predicate_call
  sf_weight :: py_float

record rule_scope =
  sc_same_project :: bool
  sc_same_environment :: bool
  sc_principal_relation :: string

record rule_safety =
  sy_network :: string
  sy_mutation :: string
  sy_max_matches :: int

record emit_spec =
  em_adapter :: string
  em_args :: "json dict"

record rule_spec =
  rs_schema_version :: string
  rs_rule_id :: string
  rs_version :: int
  rs_kind :: string
  rs_enabled :: bool
  rs_scope :: rule_scope
  rs_inputs :: "string list"
  rs_predicates :: "predicate_call list"
  rs_score_base :: py_float
  rs_score_features :: "score_feature list"
  rs_emit :: emit_spec
  rs_safety :: rule_safety

section \<open>Reading a rule\<close>

definition protocol :: "string \<Rightarrow> py_error" where
  "protocol msg = RuleProtocolError msg"

definition require_exact_keys :: "json \<Rightarrow> string list \<Rightarrow> string list \<Rightarrow> string \<Rightarrow> json dict result_of" where
  "require_exact_keys v allowed required label = (case v of
     JObj d \<Rightarrow> sbind (guards [
         (list_ex (\<lambda>(k, _). k \<notin> set allowed) d, protocol (label @ '' contains unknown fields'')),
         (list_ex (\<lambda>k. k \<notin> fst ` set d) required, protocol (label @ '' is missing fields''))])
       (\<lambda>_. Inr d)
   | _ \<Rightarrow> Inl (protocol (label @ '' must be an object'')))"

definition json_bool :: "json \<Rightarrow> bool option" where
  "json_bool v = (case v of JBool b \<Rightarrow> Some b | _ \<Rightarrow> None)"

definition json_int :: "json \<Rightarrow> int option" where
  "json_int v = (case v of JInt n \<Rightarrow> Some n | _ \<Rightarrow> None)"

text \<open>\<open>float(value)\<close> of a value whose type is exactly \<open>int\<close> or \<open>float\<close>.\<close>

definition json_float :: "json \<Rightarrow> py_float option" where
  "json_float v = (case v of JInt n \<Rightarrow> Some (of_int n, str_of_int n @ ''.0'') | JFloat q t \<Rightarrow> Some (q, t) | _ \<Rightarrow> None)"

definition bounded_float :: "rat \<Rightarrow> rat \<Rightarrow> string \<Rightarrow> json \<Rightarrow> py_float result_of" where
  "bounded_float lo hi msg v = (case json_float v of
     Some (q, t) \<Rightarrow> if lo \<le> q \<and> q \<le> hi then Inr (q, t) else Inl (protocol msg)
   | None \<Rightarrow> Inl (protocol msg))"

definition dict_default :: "json dict \<Rightarrow> string \<Rightarrow> json \<Rightarrow> json" where
  "dict_default d k v = (case map_of d k of Some w \<Rightarrow> w | None \<Rightarrow> v)"

fun dict_pair :: "json \<Rightarrow> (string \<times> json) result_of" where
  "dict_pair (JList [JStr k, v]) = Inr (k, v)"
| "dict_pair (JStr [a, b]) = Inr ([a], JStr [b])"
| "dict_pair (JList _) = Inl (ValueError ''dictionary update sequence element'')"
| "dict_pair (JStr _) = Inl (ValueError ''dictionary update sequence element'')"
| "dict_pair (JObj [(a, _), (b, _)]) = Inr (a, JStr b)"
| "dict_pair (JObj _) = Inl (ValueError ''dictionary update sequence element'')"
| "dict_pair _ = Inl (TypeError ''cannot convert dictionary update sequence element'')"

text \<open>\<open>dict(value or {})\<close>.\<close>

definition dict_or_none :: "json \<Rightarrow> json dict result_of" where
  "dict_or_none v = (if \<not> truthy v then Inr [] else case v of
     JObj d \<Rightarrow> Inr d
   | JList xs \<Rightarrow> sbind (smap dict_pair xs) (\<lambda>ps. Inr (dict_update [] ps))
   | JStr s \<Rightarrow> sbind (smap (\<lambda>c. dict_pair (JStr [c])) s) (\<lambda>ps. Inr (dict_update [] ps))
   | _ \<Rightarrow> Inl (TypeError ''object is not iterable''))"

definition parse_predicate :: "json \<Rightarrow> predicate_call result_of" where
  "parse_predicate v = sbind (require_exact_keys v [''name'', ''args''] [''name''] ''predicate'') (\<lambda>d.
     let name = str_or_empty (dget d ''name''); args = dget d ''args'' in
     sbind (guards [(\<not> is_versioned_name name, protocol ''predicate name must be versioned'')]) (\<lambda>_.
     if \<not> truthy args then Inr \<lparr>pc_name = name, pc_args = []\<rparr>
     else case args of JObj a \<Rightarrow> Inr \<lparr>pc_name = name, pc_args = a\<rparr>
       | _ \<Rightarrow> Inl (protocol ''predicate args must be an object'')))"

definition parse_feature :: "json \<Rightarrow> score_feature result_of" where
  "parse_feature v = sbind (require_exact_keys v [''predicate'', ''args'', ''weight''] [''predicate'', ''weight'']
       ''score feature'') (\<lambda>d.
     sbind (bounded_float (- 1) 1 ''score feature weight must be between -1 and 1'' (dget d ''weight'')) (\<lambda>weight.
     let name = str_or_empty (dget d ''predicate'') in
     sbind (guards [(\<not> is_versioned_name name, protocol ''score predicate name must be versioned'')]) (\<lambda>_.
     sbind (dict_or_none (dget d ''args'')) (\<lambda>args.
     Inr \<lparr>sf_predicate = \<lparr>pc_name = name, pc_args = args\<rparr>, sf_weight = weight\<rparr>))))"

definition PRINCIPAL_RELATIONS :: "string set" where
  "PRINCIPAL_RELATIONS = {''any'', ''same_principal'', ''different_principal'', ''same_profile_revision'',
     ''same_scope'', ''different_scope''}"

definition parse_scope :: "json \<Rightarrow> rule_scope result_of" where
  "parse_scope v = sbind (require_exact_keys v [''same_project'', ''same_environment'', ''principal_relation''] [] ''scope'') (\<lambda>d.
     case (json_bool (dict_default d ''same_project'' (JBool False)), json_bool (dict_default d ''same_environment'' (JBool False))) of
       (Some p, Some e) \<Rightarrow> (let rel = str_or (str_or_empty (dget d ''principal_relation'')) ''any'' in
         sbind (guards [(rel \<notin> PRINCIPAL_RELATIONS, protocol ''scope principal_relation is unsupported'')]) (\<lambda>_.
         Inr \<lparr>sc_same_project = p, sc_same_environment = e, sc_principal_relation = rel\<rparr>))
     | _ \<Rightarrow> Inl (protocol ''scope flags must be boolean''))"

text \<open>\<open>len(set(values)) != len(values)\<close>: equal values collapse, a list or dictionary is not hashable.\<close>

fun unhashable :: "json \<Rightarrow> bool" where
  "unhashable (JList _) = True"
| "unhashable (JObj _) = True"
| "unhashable _ = False"

fun has_duplicate :: "json list \<Rightarrow> bool" where
  "has_duplicate [] = False"
| "has_duplicate (v # vs) = (list_ex (py_eq v) vs \<or> has_duplicate vs)"

definition parse_inputs :: "json \<Rightarrow> string list result_of" where
  "parse_inputs v = (case v of
     JList xs \<Rightarrow> sbind (guards [
         (xs = [], protocol ''inputs must be a non-empty unique list''),
         (list_ex unhashable xs, TypeError ''unhashable type''),
         (has_duplicate xs, protocol ''inputs must be a non-empty unique list''),
         (list_ex (\<lambda>x. \<not> is_input_name (str_or_empty x)) xs, protocol ''inputs contain an invalid name'')])
       (\<lambda>_. Inr (map py_str xs))
   | _ \<Rightarrow> Inl (protocol ''inputs must be a non-empty unique list''))"

definition parse_list :: "string \<Rightarrow> (json \<Rightarrow> 'a result_of) \<Rightarrow> json \<Rightarrow> 'a list result_of" where
  "parse_list msg f v = (case v of JList xs \<Rightarrow> smap f xs | _ \<Rightarrow> Inl (protocol msg))"

definition parse_score :: "json \<Rightarrow> (py_float \<times> score_feature list) result_of" where
  "parse_score v = sbind (require_exact_keys v [''base'', ''features''] [''base'', ''features''] ''score'') (\<lambda>d.
     sbind (bounded_float 0 1 ''score base must be between 0 and 1'' (dget d ''base'')) (\<lambda>base.
     sbind (parse_list ''score features must be a list'' parse_feature (dget d ''features'')) (\<lambda>features.
     Inr (base, features))))"

definition parse_emit :: "json \<Rightarrow> (string \<times> json) result_of" where
  "parse_emit v = sbind (require_exact_keys v [''adapter'', ''args''] [''adapter''] ''emit'') (\<lambda>d.
     let adapter = str_or_empty (dget d ''adapter'') in
     sbind (guards [(\<not> is_versioned_name adapter, protocol ''emit adapter must be versioned'')]) (\<lambda>_.
     Inr (adapter, dget d ''args'')))"

text \<open>The two conditions on network and mutation are one statement of the code.\<close>

definition parse_safety :: "json \<Rightarrow> rule_safety result_of" where
  "parse_safety v = sbind (require_exact_keys v [''network'', ''mutation'', ''max_matches'']
       [''network'', ''mutation'', ''max_matches''] ''safety'') (\<lambda>d.
     sbind (guards [(dget d ''network'' \<noteq> JStr ''forbidden'' \<or> dget d ''mutation'' \<noteq> JStr ''forbidden'',
       protocol ''P0 rules must forbid network and mutation'')]) (\<lambda>_.
     case json_int (dget d ''max_matches'') of
       Some n \<Rightarrow> if 1 \<le> n \<and> n \<le> 100000 then Inr \<lparr>sy_network = ''forbidden'', sy_mutation = ''forbidden'', sy_max_matches = n\<rparr>
         else Inl (protocol ''safety.max_matches is out of bounds'')
     | None \<Rightarrow> Inl (protocol ''safety.max_matches is out of bounds'')))"

definition RULE_FIELDS :: "string list" where
  "RULE_FIELDS = [''schema_version'', ''rule_id'', ''version'', ''kind'', ''enabled'', ''scope'', ''inputs'',
     ''predicates'', ''score'', ''emit'', ''safety'']"

definition rule_header :: "json dict \<Rightarrow> guard list" where
  "rule_header d = [
     (dget d ''schema_version'' \<noteq> JStr RULE_SCHEMA_VERSION, protocol ''unsupported RuleSpec schema_version''),
     (\<not> is_rule_id (str_or_empty (dget d ''rule_id'')), protocol ''rule_id must be a stable name''),
     (case json_int (dget d ''version'') of None \<Rightarrow> True | Some n \<Rightarrow> n < 1, protocol ''RuleSpec version must be a positive integer''),
     (dget d ''kind'' \<noteq> JStr ''offline_inference'', protocol ''P0 only supports offline_inference rules''),
     (json_bool (dget d ''enabled'') = None, protocol ''RuleSpec enabled must be boolean'')]"

definition from_mapping :: "json \<Rightarrow> rule_spec result_of" where
  "from_mapping v = sbind (require_exact_keys v RULE_FIELDS RULE_FIELDS ''RuleSpec'') (\<lambda>d.
     sbind (guards (rule_header d)) (\<lambda>_.
     sbind (parse_scope (dget d ''scope'')) (\<lambda>scope.
     sbind (parse_inputs (dget d ''inputs'')) (\<lambda>inputs.
     sbind (parse_list ''predicates must be a list'' parse_predicate (dget d ''predicates'')) (\<lambda>predicates.
     sbind (parse_score (dget d ''score'')) (\<lambda>(base, features).
     sbind (parse_emit (dget d ''emit'')) (\<lambda>(adapter, args).
     sbind (parse_safety (dget d ''safety'')) (\<lambda>safety.
     sbind (dict_or_none args) (\<lambda>emit_args.
     Inr \<lparr>rs_schema_version = RULE_SCHEMA_VERSION, rs_rule_id = py_str (dget d ''rule_id''),
       rs_version = the (json_int (dget d ''version'')), rs_kind = ''offline_inference'',
       rs_enabled = the (json_bool (dget d ''enabled'')), rs_scope = scope, rs_inputs = inputs,
       rs_predicates = predicates, rs_score_base = base, rs_score_features = features,
       rs_emit = \<lparr>em_adapter = adapter, em_args = emit_args\<rparr>, rs_safety = safety\<rparr>)))))))))"

section \<open>Writing a rule\<close>

definition json_of_float :: "py_float \<Rightarrow> json" where
  "json_of_float x = JFloat (fst x) (snd x)"

definition args_entry :: "json dict \<Rightarrow> json dict" where
  "args_entry args = (if args \<noteq> [] then [(''args'', JObj args)] else [])"

definition predicate_to_mapping :: "predicate_call \<Rightarrow> json" where
  "predicate_to_mapping p = JObj ((''name'', JStr (pc_name p)) # args_entry (pc_args p))"

definition feature_to_mapping :: "score_feature \<Rightarrow> json" where
  "feature_to_mapping f = JObj ([(''predicate'', JStr (pc_name (sf_predicate f))), (''weight'', json_of_float (sf_weight f))] @
     args_entry (pc_args (sf_predicate f)))"

definition to_mapping :: "rule_spec \<Rightarrow> json dict" where
  "to_mapping r = [
     (''schema_version'', JStr (rs_schema_version r)), (''rule_id'', JStr (rs_rule_id r)), (''version'', JInt (rs_version r)),
     (''kind'', JStr (rs_kind r)), (''enabled'', JBool (rs_enabled r)),
     (''scope'', JObj [(''same_project'', JBool (sc_same_project (rs_scope r))),
        (''same_environment'', JBool (sc_same_environment (rs_scope r))),
        (''principal_relation'', JStr (sc_principal_relation (rs_scope r)))]),
     (''inputs'', JList (map JStr (rs_inputs r))),
     (''predicates'', JList (map predicate_to_mapping (rs_predicates r))),
     (''score'', JObj [(''base'', json_of_float (rs_score_base r)),
        (''features'', JList (map feature_to_mapping (rs_score_features r)))]),
     (''emit'', JObj ((''adapter'', JStr (em_adapter (rs_emit r))) # args_entry (em_args (rs_emit r)))),
     (''safety'', JObj [(''network'', JStr (sy_network (rs_safety r))), (''mutation'', JStr (sy_mutation (rs_safety r))),
        (''max_matches'', JInt (sy_max_matches (rs_safety r)))])]"

text \<open>\<open>digest\<close> is the SHA-256 of the canonical JSON text.\<close>

definition canonical_sha256 :: "(json \<Rightarrow> string) \<Rightarrow> rule_spec \<Rightarrow> string" where
  "canonical_sha256 digest r = digest (JObj (to_mapping r))"

section \<open>Facts\<close>

text \<open>What every accepted rule satisfies.\<close>

definition call_ok :: "predicate_call \<Rightarrow> bool" where
  "call_ok p \<longleftrightarrow> is_versioned_name (pc_name p)"

definition rule_ok_spec :: "rule_spec \<Rightarrow> bool" where
  "rule_ok_spec r \<longleftrightarrow> rs_schema_version r = RULE_SCHEMA_VERSION \<and> rs_kind r = ''offline_inference'' \<and>
     is_rule_id (rs_rule_id r) \<and> 1 \<le> rs_version r \<and>
     sc_principal_relation (rs_scope r) \<in> PRINCIPAL_RELATIONS \<and>
     rs_inputs r \<noteq> [] \<and> distinct (rs_inputs r) \<and> list_all is_input_name (rs_inputs r) \<and>
     list_all call_ok (rs_predicates r) \<and>
     0 \<le> fst (rs_score_base r) \<and> fst (rs_score_base r) \<le> 1 \<and>
     list_all (\<lambda>f. call_ok (sf_predicate f) \<and> - 1 \<le> fst (sf_weight f) \<and> fst (sf_weight f) \<le> 1) (rs_score_features r) \<and>
     is_versioned_name (em_adapter (rs_emit r)) \<and>
     sy_network (rs_safety r) = ''forbidden'' \<and> sy_mutation (rs_safety r) = ''forbidden'' \<and>
     1 \<le> sy_max_matches (rs_safety r) \<and> sy_max_matches (rs_safety r) \<le> 100000"

lemma exact_keys_ok: "require_exact_keys v allowed required label = Inr d \<longleftrightarrow>
    v = JObj d \<and> fst ` set d \<subseteq> set allowed \<and> set required \<subseteq> fst ` set d"
  by (cases v) (auto simp: require_exact_keys_def sbind_Inr_iff guards_ok_iff list_ex_iff list_all_iff)

lemma bounded_float_ok: "bounded_float lo hi msg v = Inr x \<longleftrightarrow> json_float v = Some x \<and> lo \<le> fst x \<and> fst x \<le> hi"
  by (auto simp: bounded_float_def split: option.splits if_splits)

lemma bounded_float_written [simp]: "bounded_float lo hi msg (json_of_float x) = (if lo \<le> fst x \<and> fst x \<le> hi then Inr x
    else Inl (protocol msg))"
  by (cases x) (simp add: bounded_float_def json_float_def json_of_float_def)

lemma name_not_empty: "is_versioned_name s \<Longrightarrow> s \<noteq> []" "is_rule_id s \<Longrightarrow> s \<noteq> []" "is_input_name s \<Longrightarrow> s \<noteq> []"
  by (auto simp: is_versioned_name_def is_rule_id_def is_input_name_def Let_def)

lemma str_or_empty_text [simp]: "str_or_empty (JStr s) = s"
  by (simp add: str_or_empty_def py_str_def)

lemma args_entry_dget: "dget ((''name'', v) # args_entry a) ''args'' = (if a = [] then JNull else JObj a)"
  "dget ((''adapter'', v) # args_entry a) ''args'' = (if a = [] then JNull else JObj a)"
  "dget ((''predicate'', v) # (''weight'', w) # args_entry a) ''args'' = (if a = [] then JNull else JObj a)"
  by (auto simp: args_entry_def dget_def)

lemma dict_or_none_written [simp]: "dict_or_none (if a = [] then JNull else JObj a) = Inr a"
  by (simp add: dict_or_none_def)

lemma parse_predicate_ok: "parse_predicate v = Inr p \<Longrightarrow> call_ok p"
  by (auto simp: parse_predicate_def Let_def sbind_Inr_iff guards_ok_iff call_ok_def split: if_splits json.splits)

lemma guards_one [simp]: "guards [(b, e)] = (if b then Inl e else Inr ())"
  by (simp add: guards.simps)

lemma parse_predicate_written: "call_ok p \<Longrightarrow> parse_predicate (predicate_to_mapping p) = Inr p"
  by (auto simp: parse_predicate_def predicate_to_mapping_def require_exact_keys_def guards.simps args_entry_def call_ok_def
      dget_def)

definition feature_ok :: "score_feature \<Rightarrow> bool" where
  "feature_ok f \<longleftrightarrow> call_ok (sf_predicate f) \<and> - 1 \<le> fst (sf_weight f) \<and> fst (sf_weight f) \<le> 1"

lemma parse_feature_ok: "parse_feature v = Inr f \<Longrightarrow> feature_ok f"
  by (auto simp: parse_feature_def Let_def sbind_Inr_iff bounded_float_ok call_ok_def feature_ok_def split: if_splits)

lemma parse_feature_written: "feature_ok f \<Longrightarrow> parse_feature (feature_to_mapping f) = Inr f"
  by (auto simp: parse_feature_def feature_to_mapping_def require_exact_keys_def guards.simps args_entry_def call_ok_def
      feature_ok_def dget_def dict_or_none_def)

lemma smap_all_ok: "smap f xs = Inr ys \<Longrightarrow> (\<And>x y. f x = Inr y \<Longrightarrow> P y) \<Longrightarrow> list_all P ys"
  by (induction xs arbitrary: ys) (auto simp: sbind_Inr_iff)

lemma smap_written: "list_all P ys \<Longrightarrow> (\<And>y. P y \<Longrightarrow> f (g y) = Inr y) \<Longrightarrow> smap f (map g ys) = Inr ys"
  by (induction ys) auto

definition plain_json_input :: "json \<Rightarrow> bool" where
  "plain_json_input x \<longleftrightarrow> (case x of JFloat _ _ \<Rightarrow> False | _ \<Rightarrow> True)"

lemma digit_not_lower: "is_digit c \<Longrightarrow> \<not> is_lower c"
  by (auto simp: is_digit_def is_lower_def Let_def)

lemma digit_char_digit: "d < 10 \<Longrightarrow> is_digit (digit_char d)"
  by (simp add: is_digit_def digit_char_def Let_def of_char_of)

lemma number_starts: "case str_of_nat n of [] \<Rightarrow> False | c # _ \<Rightarrow> is_digit c"
proof (induction n rule: str_of_nat.induct)
  case (1 n)
  show ?case
  proof (cases "n < 10")
    case True
    then show ?thesis by (subst str_of_nat.simps) (simp add: digit_char_digit)
  next
    case False
    with 1 show ?thesis by (subst str_of_nat.simps) (simp split: list.splits)
  qed
qed

lemma number_no_name: "\<not> is_input_name (str_of_int n)"
  using number_starts [of "nat n"] digit_not_lower
  by (auto simp: str_of_int_def is_input_name_def is_lower_def Let_def split: list.splits)

lemma input_item: "is_input_name (str_or_empty x) \<Longrightarrow> \<not> unhashable x \<Longrightarrow> plain_json_input x \<Longrightarrow> \<exists>s. x = JStr s \<and> is_input_name s"
  using number_no_name
  by (cases x) (auto simp: str_or_empty_def py_str_def plain_json_input_def is_input_name_def is_lower_def split: if_splits)

lemma no_duplicate_texts: "has_duplicate (map JStr ns) \<longleftrightarrow> \<not> distinct ns"
  by (induction ns) (auto simp: list_ex_iff)

lemma parse_inputs_ok:
  assumes "parse_inputs (JList xs) = Inr ns" "list_all plain_json_input xs"
  shows "ns \<noteq> [] \<and> distinct ns \<and> list_all is_input_name ns"
proof -
  from assms(1) have g: "xs \<noteq> []" "list_all (\<lambda>x. \<not> unhashable x) xs" "\<not> has_duplicate xs"
    "list_all (\<lambda>x. is_input_name (str_or_empty x)) xs" and ns: "ns = map py_str xs"
    by (auto simp: parse_inputs_def sbind_Inr_iff guards_ok_iff list_ex_iff list_all_iff)
  have "\<forall>x \<in> set xs. x = JStr (py_str x) \<and> is_input_name (py_str x)"
    using g assms(2) input_item by (fastforce simp: list_all_iff py_str_def)
  then have xs: "xs = map JStr ns" and ok: "list_all is_input_name ns" by (auto simp: ns list_all_iff map_idI)
  from g(3) have "distinct ns" unfolding xs by (simp add: no_duplicate_texts)
  with g(1) ok ns show ?thesis by auto
qed

lemma parse_inputs_written:
  assumes "ns \<noteq> []" "distinct ns" "list_all is_input_name ns"
  shows "parse_inputs (JList (map JStr ns)) = Inr ns"
proof -
  have "\<not> list_ex unhashable (map JStr ns)" "\<not> list_ex (\<lambda>x. \<not> is_input_name (str_or_empty x)) (map JStr ns)"
    "map (py_str \<circ> JStr) ns = ns"
    using assms(3) by (auto simp: list_ex_iff list_all_iff py_str_def comp_def)
  with assms show ?thesis by (simp add: parse_inputs_def guards.simps no_duplicate_texts)
qed

lemma parse_scope_ok: "parse_scope v = Inr sc \<Longrightarrow> sc_principal_relation sc \<in> PRINCIPAL_RELATIONS"
  unfolding parse_scope_def Let_def sbind_Inr_iff by (elim exE conjE) (auto split: option.splits if_splits)

lemma parse_list_all:
  assumes "parse_list msg f v = Inr ys" "\<And>x y. f x = Inr y \<Longrightarrow> P y"
  shows "list_all P ys"
  using assms smap_all_ok [of f _ ys P] by (cases v) (auto simp: parse_list_def)

lemma parse_list_written: "list_all P ys \<Longrightarrow> (\<And>y. P y \<Longrightarrow> f (g y) = Inr y) \<Longrightarrow> parse_list msg f (JList (map g ys)) = Inr ys"
  by (simp add: parse_list_def smap_written [where P = P])

lemma parse_scope_written: "sc_principal_relation sc \<in> PRINCIPAL_RELATIONS \<Longrightarrow>
    parse_scope (JObj [(''same_project'', JBool (sc_same_project sc)), (''same_environment'', JBool (sc_same_environment sc)),
      (''principal_relation'', JStr (sc_principal_relation sc))]) = Inr sc"
  by (auto simp: parse_scope_def require_exact_keys_def guards.simps dict_default_def json_bool_def dget_def str_or_def
      PRINCIPAL_RELATIONS_def)

lemma parse_score_ok: "parse_score v = Inr (base, fs) \<Longrightarrow> 0 \<le> fst base \<and> fst base \<le> 1 \<and> list_all feature_ok fs"
  unfolding parse_score_def sbind_Inr_iff bounded_float_ok
  by (elim exE conjE) (simp add: parse_list_all [OF _ parse_feature_ok])

lemma parse_score_written: "0 \<le> fst base \<and> fst base \<le> 1 \<Longrightarrow> list_all feature_ok fs \<Longrightarrow>
    parse_score (JObj [(''base'', json_of_float base), (''features'', JList (map feature_to_mapping fs))]) = Inr (base, fs)"
  by (simp add: parse_score_def require_exact_keys_def guards.simps dget_def
      parse_list_written [where P = feature_ok and g = feature_to_mapping] parse_feature_written)

lemma parse_emit_ok: "parse_emit v = Inr (a, args) \<Longrightarrow> is_versioned_name a"
  unfolding parse_emit_def Let_def sbind_Inr_iff by (elim exE conjE) (auto split: if_splits)

lemma parse_emit_written: "is_versioned_name a \<Longrightarrow> parse_emit (JObj ((''adapter'', JStr a) # args_entry args)) =
    Inr (a, if args = [] then JNull else JObj args)"
  by (auto simp: parse_emit_def require_exact_keys_def guards.simps dget_def args_entry_def)

lemma parse_safety_ok: "parse_safety v = Inr sy \<Longrightarrow>
    sy_network sy = ''forbidden'' \<and> sy_mutation sy = ''forbidden'' \<and> 1 \<le> sy_max_matches sy \<and> sy_max_matches sy \<le> 100000"
  unfolding parse_safety_def sbind_Inr_iff by (elim exE conjE) (auto split: option.splits if_splits)

lemma parse_safety_written: "sy_network sy = ''forbidden'' \<Longrightarrow> sy_mutation sy = ''forbidden'' \<Longrightarrow>
    1 \<le> sy_max_matches sy \<Longrightarrow> sy_max_matches sy \<le> 100000 \<Longrightarrow>
    parse_safety (JObj [(''network'', JStr (sy_network sy)), (''mutation'', JStr (sy_mutation sy)),
      (''max_matches'', JInt (sy_max_matches sy))]) = Inr sy"
  by (simp add: parse_safety_def require_exact_keys_def guards.simps dget_def json_int_def)

definition plain_inputs :: "json \<Rightarrow> bool" where
  "plain_inputs v = (case v of
     JObj d \<Rightarrow> (case dget d ''inputs'' of JList xs \<Rightarrow> list_all plain_json_input xs | _ \<Rightarrow> True)
   | _ \<Rightarrow> True)"

lemma from_mapping_cases:
  assumes "from_mapping v = Inr r"
  obtains d base features adapter args where "v = JObj d" "guards (rule_header d) = Inr ()"
    "parse_scope (dget d ''scope'') = Inr (rs_scope r)" "parse_inputs (dget d ''inputs'') = Inr (rs_inputs r)"
    "parse_list ''predicates must be a list'' parse_predicate (dget d ''predicates'') = Inr (rs_predicates r)"
    "parse_score (dget d ''score'') = Inr (rs_score_base r, rs_score_features r)"
    "parse_emit (dget d ''emit'') = Inr (em_adapter (rs_emit r), args)"
    "parse_safety (dget d ''safety'') = Inr (rs_safety r)"
    "rs_schema_version r = RULE_SCHEMA_VERSION" "rs_kind r = ''offline_inference''"
    "rs_rule_id r = py_str (dget d ''rule_id'')" "Some (rs_version r) = json_int (dget d ''version'')"
proof -
  from assms obtain d scope inputs predicates base features adapter args safety emit_args where
    k: "require_exact_keys v RULE_FIELDS RULE_FIELDS ''RuleSpec'' = Inr d"
    and g: "guards (rule_header d) = Inr ()"
    and p: "parse_scope (dget d ''scope'') = Inr scope" "parse_inputs (dget d ''inputs'') = Inr inputs"
      "parse_list ''predicates must be a list'' parse_predicate (dget d ''predicates'') = Inr predicates"
      "parse_score (dget d ''score'') = Inr (base, features)" "parse_emit (dget d ''emit'') = Inr (adapter, args)"
      "parse_safety (dget d ''safety'') = Inr safety" "dict_or_none args = Inr emit_args"
    and r: "r = \<lparr>rs_schema_version = RULE_SCHEMA_VERSION, rs_rule_id = py_str (dget d ''rule_id''),
       rs_version = the (json_int (dget d ''version'')), rs_kind = ''offline_inference'',
       rs_enabled = the (json_bool (dget d ''enabled'')), rs_scope = scope, rs_inputs = inputs,
       rs_predicates = predicates, rs_score_base = base, rs_score_features = features,
       rs_emit = \<lparr>em_adapter = adapter, em_args = emit_args\<rparr>, rs_safety = safety\<rparr>"
    by (auto simp: from_mapping_def sbind_Inr_iff)
  have ver: "Some (rs_version r) = json_int (dget d ''version'')"
    using g by (auto simp: r rule_header_def guards_ok_iff split: option.splits)
  from k have "v = JObj d" by (simp add: exact_keys_ok)
  from that [OF this g _ _ _ _ _ _ _ _ _ ver] p show thesis by (simp add: r)
qed

lemma accepted_ok:
  assumes "from_mapping v = Inr r" "plain_inputs v"
  shows "rule_ok_spec r"
proof -
  from assms(1) obtain d args where v: "v = JObj d" and g: "guards (rule_header d) = Inr ()"
    and p: "parse_scope (dget d ''scope'') = Inr (rs_scope r)" "parse_inputs (dget d ''inputs'') = Inr (rs_inputs r)"
    "parse_list ''predicates must be a list'' parse_predicate (dget d ''predicates'') = Inr (rs_predicates r)"
    "parse_score (dget d ''score'') = Inr (rs_score_base r, rs_score_features r)"
    "parse_emit (dget d ''emit'') = Inr (em_adapter (rs_emit r), args)"
    "parse_safety (dget d ''safety'') = Inr (rs_safety r)"
    and r: "rs_schema_version r = RULE_SCHEMA_VERSION" "rs_kind r = ''offline_inference''"
    "rs_rule_id r = py_str (dget d ''rule_id'')" "Some (rs_version r) = json_int (dget d ''version'')"
    by (rule from_mapping_cases)
  from g have id: "is_rule_id (rs_rule_id r)"
    by (auto simp: r(3) rule_header_def guards_ok_iff str_or_empty_def is_rule_id_def split: if_splits)
  from g have ver: "1 \<le> rs_version r"
    by (simp add: rule_header_def guards_ok_iff r(4) [symmetric])
  have "rs_inputs r \<noteq> [] \<and> distinct (rs_inputs r) \<and> list_all is_input_name (rs_inputs r)"
  proof (cases "dget d ''inputs''")
    case (JList xs)
    with p(2) parse_inputs_ok assms(2) show ?thesis by (simp add: plain_inputs_def v)
  qed (use p(2) in \<open>simp_all add: parse_inputs_def\<close>)
  then show ?thesis
    using r(1,2) id ver parse_scope_ok [OF p(1)] parse_list_all [OF p(3) parse_predicate_ok] parse_score_ok [OF p(4)]
      parse_emit_ok [OF p(5)] parse_safety_ok [OF p(6)]
    by (simp add: rule_ok_spec_def feature_ok_def [abs_def])
qed

lemma written_accepted:
  assumes "rule_ok_spec r"
  shows "from_mapping (JObj (to_mapping r)) = Inr r"
proof -
  let ?d = "to_mapping r"
  note ok = assms [unfolded rule_ok_spec_def]
  have keys: "require_exact_keys (JObj ?d) RULE_FIELDS RULE_FIELDS ''RuleSpec'' = Inr ?d"
    by (simp add: exact_keys_ok to_mapping_def RULE_FIELDS_def)
  have header: "guards (rule_header ?d) = Inr ()"
    using ok by (simp add: rule_header_def guards_ok_iff to_mapping_def dget_def json_int_def json_bool_def RULE_SCHEMA_VERSION_def)
  have parts: "parse_scope (dget ?d ''scope'') = Inr (rs_scope r)" "parse_inputs (dget ?d ''inputs'') = Inr (rs_inputs r)"
    using ok by (simp_all add: to_mapping_def dget_def parse_scope_written parse_inputs_written)
  have safety: "parse_safety (dget ?d ''safety'') = Inr (rs_safety r)"
    using parse_safety_written [of "rs_safety r"] ok by (simp add: to_mapping_def dget_def)
  have preds: "parse_list ''predicates must be a list'' parse_predicate (dget ?d ''predicates'') = Inr (rs_predicates r)"
    using ok parse_list_written [where P = call_ok and g = predicate_to_mapping, OF _ parse_predicate_written]
    by (simp add: to_mapping_def dget_def)
  have "list_all feature_ok (rs_score_features r)" using ok by (simp add: feature_ok_def [abs_def])
  then have score: "parse_score (dget ?d ''score'') = Inr (rs_score_base r, rs_score_features r)"
    using ok parse_score_written [of "rs_score_base r" "rs_score_features r"] by (simp add: to_mapping_def dget_def)
  have emit: "parse_emit (dget ?d ''emit'') = Inr (em_adapter (rs_emit r), if em_args (rs_emit r) = [] then JNull else JObj (em_args (rs_emit r)))"
    using ok parse_emit_written [of "em_adapter (rs_emit r)" "em_args (rs_emit r)"] by (simp add: to_mapping_def dget_def)
  have scalars: "py_str (dget ?d ''rule_id'') = rs_rule_id r" "json_int (dget ?d ''version'') = Some (rs_version r)"
    "json_bool (dget ?d ''enabled'') = Some (rs_enabled r)"
    by (simp_all add: to_mapping_def dget_def json_int_def json_bool_def py_str_def)
  show ?thesis
    unfolding from_mapping_def keys header parts safety preds score emit sbind_Inr prod.case dict_or_none_written scalars
    using ok by simp
qed

section \<open>Properties\<close>



end
