(* ===== verification/RuleEngine.thy ===== *)
theory RuleEngine
  imports RuleSpec "HOL-Library.Multiset"
begin

text \<open>
  The typed facts and the offline engine of \<open>apiAnalysis/rule/framework.py\<close>: fact validation, value summaries,
  the predicate and output registries, and \<open>OfflineRuleEngine.evaluate\<close>.

  A computed float is the exact result put through \<open>rnd\<close>, the rounding of the machine to the nearest double; the
  theorems ask of it only that it is monotone and keeps 0 and 1. \<open>digest\<close> is SHA-256 in hexadecimal. Counts are
  natural numbers. A predicate or adapter is a function that may raise.
\<close>

section \<open>Facts\<close>

record base_fact =
  fc_id :: string
  fc_project_id :: string
  fc_env_id :: string

record endpoint_fact = base_fact +
  ef_pathid :: int
  ef_method :: string
  ef_path_template :: string
  ef_action :: string
  ef_classification_source :: string
  ef_media_type :: string
  ef_has_request_body :: bool
  ef_response_status_codes :: "int list"

record locator_fact =
  lf_version :: int
  lf_direction :: string
  lf_position :: string
  lf_kind :: string
  lf_schema_path :: string
  lf_canonical_name :: string
  lf_token_kinds :: "string list"
  lf_contains_dynamic_property :: bool

record observation_fact = base_fact +
  ob_source_kind :: string
  ob_status_class :: string
  ob_value_digests :: "string list"
  ob_unique_value_count :: nat
  ob_observed_value_count :: nat
  ob_min_length :: nat
  ob_max_length :: nat
  ob_bounded :: bool

record occurrence_fact = base_fact +
  oc_endpoint_ref :: string
  oc_pathid :: int
  oc_direction :: string
  oc_canonical_name :: string
  oc_parameter_type :: string
  oc_required :: bool
  oc_locator :: locator_fact
  oc_category :: string
  oc_observation :: observation_fact
  oc_principal_id :: string
  oc_profile_revision_id :: string
  oc_scope_key :: string

record principal_fact = base_fact +
  pf_fact_principal_id :: string
  pf_fact_profile_revision_id :: string
  pf_fact_role_key :: string
  pf_fact_privilege_rank :: int
  pf_fact_scope_key :: string
  pf_fact_labels :: "string list"

record relation_fact = base_fact +
  re_relation_ref :: string
  re_producer_ref :: string
  re_consumer_ref :: string
  re_schema_fingerprint :: string
  re_manual_decision :: string
  re_verified :: bool

record capability_fact = base_fact +
  ca_endpoint_ref :: string
  ca_operation_kind :: string
  ca_fixture_ready :: bool
  ca_auth_ready :: bool
  ca_readback_ready :: bool
  ca_cleanup_ready :: bool

datatype any_fact =
    EndpointFact endpoint_fact
  | ParameterOccurrenceFact occurrence_fact
  | ObservationSummaryFact observation_fact
  | PrincipalContextFact principal_fact
  | RelationFact relation_fact
  | ExecutionCapabilityFact capability_fact

datatype fact_type = FactType | EndpointType | OccurrenceType | ObservationType | PrincipalType | RelationType | CapabilityType

fun base_of :: "any_fact \<Rightarrow> base_fact" where
  "base_of (EndpointFact f) = base_fact.truncate f"
| "base_of (ParameterOccurrenceFact f) = base_fact.truncate f"
| "base_of (ObservationSummaryFact f) = base_fact.truncate f"
| "base_of (PrincipalContextFact f) = base_fact.truncate f"
| "base_of (RelationFact f) = base_fact.truncate f"
| "base_of (ExecutionCapabilityFact f) = base_fact.truncate f"

fun isinstance :: "any_fact \<Rightarrow> fact_type \<Rightarrow> bool" where
  "isinstance _ FactType = True"
| "isinstance (EndpointFact _) EndpointType = True"
| "isinstance (ParameterOccurrenceFact _) OccurrenceType = True"
| "isinstance (ObservationSummaryFact _) ObservationType = True"
| "isinstance (PrincipalContextFact _) PrincipalType = True"
| "isinstance (RelationFact _) RelationType = True"
| "isinstance (ExecutionCapabilityFact _) CapabilityType = True"
| "isinstance _ _ = False"

definition id_of_fact :: "any_fact \<Rightarrow> string" where
  "id_of_fact f = fc_id (base_of f)"

section \<open>Validation of facts\<close>

definition fact_guards :: "'a base_fact_scheme \<Rightarrow> guard list" where
  "fact_guards f = [(py_strip (fc_id f) = [], ValueError ''fact_id is required'')]"

definition check_endpoint :: "endpoint_fact \<Rightarrow> endpoint_fact result_of" where
  "check_endpoint f = sbind (guards (fact_guards f @ [
     (ef_pathid f < 0 \<or> py_strip (ef_method f) = [] \<or> py_strip (ef_path_template f) = [],
      ValueError ''endpoint pathid, method and path_template are required''),
     (ef_classification_source f \<notin> {''none'', ''machine'', ''manual''}, ValueError ''classification_source is invalid'')]))
   (\<lambda>_. Inr f)"

text \<open>\<open>^[0-9a-f]{64}$\<close>.\<close>

definition is_digest :: "string \<Rightarrow> bool" where
  "is_digest s \<longleftrightarrow> length s = 64 \<and> list_all (\<lambda>c. is_digit c \<or> (let n = (of_char c :: nat) in 97 \<le> n \<and> n \<le> 102)) s"

definition check_observation :: "observation_fact \<Rightarrow> observation_fact result_of" where
  "check_observation f = sbind (guards (fact_guards f @ [
     (list_ex (\<lambda>v. \<not> is_digest v) (ob_value_digests f), ValueError ''observation values must be sha256 digests''),
     (100 < length (ob_value_digests f), ValueError ''observation digest budget exceeded'')]))
   (\<lambda>_. Inr f)"

definition check_occurrence :: "occurrence_fact \<Rightarrow> occurrence_fact result_of" where
  "check_occurrence f = sbind (guards (fact_guards f @ [
     (oc_direction f \<notin> {''request'', ''response''}, ValueError ''parameter direction is invalid''),
     (oc_canonical_name f = [] \<or> oc_endpoint_ref f = [], ValueError ''parameter canonical_name and endpoint_ref are required''),
     (lf_direction (oc_locator f) \<noteq> oc_direction f, ValueError ''locator direction does not match parameter direction''),
     ((fc_project_id (oc_observation f), fc_env_id (oc_observation f)) \<noteq> (fc_project_id f, fc_env_id f),
      ValueError ''observation context does not match parameter context'')]))
   (\<lambda>_. Inr f)"

definition locator_tokens :: "json dict \<Rightarrow> json dict list result_of" where
  "locator_tokens d = (let v = dget d ''tokens'' in
     if \<not> truthy v then Inr [] else case v of
       JList xs \<Rightarrow> smap (\<lambda>x. case x of JObj t \<Rightarrow> Inr t | _ \<Rightarrow> Inl (AttributeError ''get'')) xs
     | JStr _ \<Rightarrow> Inl (AttributeError ''get'')
     | JObj _ \<Rightarrow> Inl (AttributeError ''get'')
     | _ \<Rightarrow> Inl (TypeError ''object is not iterable''))"

definition locator_fact_from :: "json \<Rightarrow> locator_fact result_of" where
  "locator_fact_from v = (case v of
     JObj d \<Rightarrow> sbind (locator_tokens d) (\<lambda>tokens. sbind (dint d ''version'') (\<lambda>version. Inr
       \<lparr>lf_version = version, lf_direction = dtext d ''direction'', lf_position = dtext d ''position'', lf_kind = dtext d ''kind'',
        lf_schema_path = dtext d ''schema_path'', lf_canonical_name = dtext d ''canonical_name'',
        lf_token_kinds = map (\<lambda>t. dtext t ''kind'') tokens,
        lf_contains_dynamic_property = list_ex (\<lambda>t. truthy (dget t ''dynamic'')) tokens\<rparr>))
   | _ \<Rightarrow> Inl (ValueError ''typed locator is required''))"

section \<open>Value summaries\<close>

text \<open>\<open>json.dumps(value, ensure_ascii=False, sort_keys=True, separators=(",", ":"))\<close>, in UTF-8.\<close>

definition raw_escape :: "char \<Rightarrow> string" where
  "raw_escape c = (if 126 < (of_char c :: nat) then [c] else json_escape c)"

definition raw_string :: "string \<Rightarrow> string" where
  "raw_string s = (let dq = char_of (34 :: nat) in [dq] @ concat (map raw_escape s) @ [dq])"

fun canonical_json :: "json \<Rightarrow> string" where
  "canonical_json JNull = ''null''"
| "canonical_json (JBool b) = (if b then ''true'' else ''false'')"
| "canonical_json (JInt n) = str_of_int n"
| "canonical_json (JFloat _ t) = t"
| "canonical_json (JStr s) = raw_string s"
| "canonical_json (JList xs) = ''['' @ join '','' (map canonical_json xs) @ '']''"
| "canonical_json (JObj d) = ''{'' @ join '','' (map (\<lambda>(k, t). raw_string k @ '':'' @ t)
     (sort_key fst (map (\<lambda>(k, v). (k, canonical_json v)) d))) @ ''}''"

definition summarize_values :: "(string \<Rightarrow> string) \<Rightarrow> base_fact \<Rightarrow> string \<Rightarrow> json list \<Rightarrow> string \<Rightarrow> int \<Rightarrow>
    observation_fact result_of" where
  "summarize_values digest b source_kind values status_class max_digests =
     (if \<not> (1 \<le> max_digests \<and> max_digests \<le> 100) then Inl (ValueError ''max_digests must be between 1 and 100'')
      else let texts = map canonical_json values; unique_values = sorted_set texts; lengths = map length texts in
        check_observation (base_fact.extend b
          (observation_fact.fields source_kind status_class (map digest (take (nat max_digests) unique_values))
             (length unique_values) (length values)
             (if lengths = [] then 0 else Min (set lengths)) (if lengths = [] then 0 else Max (set lengths))
             (int (length unique_values) > max_digests))))"

section \<open>Registries\<close>

type_synonym fact_context = "(string \<times> any_fact) list"

record predicate_result =
  pr_matched :: bool
  pr_value :: rat
  pr_reason_codes :: "string list"

record predicate_definition =
  pd_name :: string
  pd_required_inputs :: "(string \<times> fact_type) list"
  pd_validate_args :: "json dict \<Rightarrow> unit result_of"
  pd_evaluate :: "fact_context \<Rightarrow> json dict \<Rightarrow> predicate_result result_of"

record score_contribution =
  ct_predicate :: string
  ct_value :: rat
  ct_weight :: rat
  ct_contribution :: rat
  ct_reason_codes :: "string list"

record endpoint_candidate =
  ec_endpoint_ref :: string
  ec_proposed_action :: string
  ec_legacy_action :: string
  ec_confidence :: rat
  ec_reason_codes :: "string list"
  ec_score_contributions :: "(string \<times> string \<times> rat) list"
  ec_existing_action :: string
  ec_apply_allowed :: bool

record relation_candidate =
  rc_producer_ref :: string
  rc_consumer_ref :: string
  rc_relation :: string
  rc_confidence :: rat
  rc_reason_codes :: "string list"
  rc_verified :: bool
  rc_write_disposition :: string

datatype typed_output =
    EndpointClassificationCandidate endpoint_candidate
  | ParameterRelationCandidate relation_candidate

record output_definition =
  od_name :: string
  od_required_inputs :: "(string \<times> fact_type) list"
  od_validate_args :: "json dict \<Rightarrow> unit result_of"
  od_emit :: "fact_context \<Rightarrow> rule_spec \<Rightarrow> rat \<Rightarrow> string list \<Rightarrow> score_contribution list \<Rightarrow> typed_output result_of"

definition register :: "('d \<Rightarrow> string) \<Rightarrow> 'd \<Rightarrow> (string \<times> 'd) list \<Rightarrow> (string \<times> 'd) list result_of" where
  "register name d items = sbind (guards [
     (\<not> is_versioned_name (name d), protocol ''name must be versioned''),
     (map_of items (name d) \<noteq> None, protocol ''duplicate name'')])
   (\<lambda>_. Inr (dict_set (name d) d items))"

fun register_all :: "('d \<Rightarrow> string) \<Rightarrow> 'd list \<Rightarrow> (string \<times> 'd) list \<Rightarrow> (string \<times> 'd) list result_of" where
  "register_all name [] items = Inr items"
| "register_all name (d # ds) items = sbind (register name d items) (register_all name ds)"

definition resolve_predicate :: "(string \<times> predicate_definition) list \<Rightarrow> string \<Rightarrow> predicate_definition result_of" where
  "resolve_predicate items name = (case map_of items name of
     Some d \<Rightarrow> Inr d | None \<Rightarrow> Inl (UnknownPredicate ''predicate is not registered''))"

definition resolve_output :: "(string \<times> output_definition) list \<Rightarrow> string \<Rightarrow> output_definition result_of" where
  "resolve_output items name = (case map_of items name of
     Some d \<Rightarrow> Inr d | None \<Rightarrow> Inl (UnknownOutputAdapter ''output adapter is not registered''))"

section \<open>The engine\<close>

record rule_match =
  rm_rule_id :: string
  rm_rule_version :: int
  rm_rule_sha256 :: string
  rm_fact_refs :: "(string \<times> string) list"
  rm_score :: rat
  rm_reason_codes :: "string list"
  rm_score_contributions :: "score_contribution list"
  rm_output :: typed_output

record evaluation_report =
  er_rule_id :: string
  er_rule_version :: int
  er_evaluated_combinations :: nat
  er_matches :: "rule_match list"
  er_rejection_counts :: "(string \<times> nat) list"

record rule_engine =
  en_predicates :: "(string \<times> predicate_definition) list"
  en_outputs :: "(string \<times> output_definition) list"

record resolved_rule =
  rr_predicates :: "(predicate_call \<times> predicate_definition) list"
  rr_features :: "(score_feature \<times> predicate_definition) list"
  rr_output :: output_definition

definition validate_required_inputs :: "rule_spec \<Rightarrow> (string \<times> fact_type) list \<Rightarrow> unit result_of" where
  "validate_required_inputs rule required = guards
     [(\<not> fst ` set required \<subseteq> set (rs_inputs rule), protocol ''requires missing inputs'')]"

definition resolve_call :: "rule_engine \<Rightarrow> rule_spec \<Rightarrow> predicate_call \<Rightarrow> predicate_definition result_of" where
  "resolve_call en rule call = sbind (resolve_predicate (en_predicates en) (pc_name call)) (\<lambda>d.
     sbind (pd_validate_args d (pc_args call)) (\<lambda>_.
     sbind (validate_required_inputs rule (pd_required_inputs d)) (\<lambda>_. Inr d)))"

definition resolve_rule :: "rule_engine \<Rightarrow> rule_spec \<Rightarrow> resolved_rule result_of" where
  "resolve_rule en rule =
     sbind (smap (\<lambda>c. sbind (resolve_call en rule c) (\<lambda>d. Inr (c, d))) (rs_predicates rule)) (\<lambda>ps.
     sbind (smap (\<lambda>f. sbind (resolve_call en rule (sf_predicate f)) (\<lambda>d. Inr (f, d))) (rs_score_features rule)) (\<lambda>fs.
     sbind (resolve_output (en_outputs en) (em_adapter (rs_emit rule))) (\<lambda>out.
     sbind (od_validate_args out (em_args (rs_emit rule))) (\<lambda>_.
     sbind (validate_required_inputs rule (od_required_inputs out)) (\<lambda>_.
     Inr \<lparr>rr_predicates = ps, rr_features = fs, rr_output = out\<rparr>)))))"

definition context_types_ok :: "fact_context \<Rightarrow> (string \<times> fact_type) list \<Rightarrow> bool" where
  "context_types_ok context required = list_all (\<lambda>(n, t). isinstance (the (map_of context n)) t) required"

definition validate_context_types :: "fact_context \<Rightarrow> resolved_rule \<Rightarrow> unit result_of" where
  "validate_context_types context rr = guards (map (\<lambda>req. (\<not> context_types_ok context req, protocol ''input has the wrong fact type''))
     (map (pd_required_inputs \<circ> snd) (rr_predicates rr) @ map (pd_required_inputs \<circ> snd) (rr_features rr) @
      [od_required_inputs (rr_output rr)]))"

text \<open>\<open>getattr(item, field_name, "")\<close>: only occurrences and principals carry an identity.\<close>

fun principal_field :: "string \<Rightarrow> any_fact \<Rightarrow> string" where
  "principal_field relation (ParameterOccurrenceFact f) =
     (if relation \<in> {''same_principal'', ''different_principal''} then oc_principal_id f
      else if relation = ''same_profile_revision'' then oc_profile_revision_id f else oc_scope_key f)"
| "principal_field relation (PrincipalContextFact f) =
     (if relation \<in> {''same_principal'', ''different_principal''} then pf_fact_principal_id f
      else if relation = ''same_profile_revision'' then pf_fact_profile_revision_id f else pf_fact_scope_key f)"
| "principal_field relation _ = []"

definition scope_rejection :: "rule_scope \<Rightarrow> fact_context \<Rightarrow> string" where
  "scope_rejection sc context = (let values = map (base_of \<circ> snd) context;
       projects = set (map fc_project_id values); environments = set (map fc_env_id values);
       relation = sc_principal_relation sc; selected = map (principal_field relation \<circ> snd) context in
     if sc_same_project sc \<and> ([] \<in> projects \<or> card projects \<noteq> 1) then ''SCOPE_PROJECT_MISMATCH''
     else if sc_same_environment sc \<and> ([] \<in> environments \<or> card environments \<noteq> 1) then ''SCOPE_ENVIRONMENT_MISMATCH''
     else if relation = ''any'' then []
     else if selected = [] \<or> list_ex (\<lambda>x. x = []) selected then ''SCOPE_PRINCIPAL_CONTEXT_MISSING''
     else if starts_with ''same_'' relation \<and> card (set selected) \<noteq> 1 then ''SCOPE_PRINCIPAL_RELATION_MISMATCH''
     else if starts_with ''different_'' relation \<and> card (set selected) = 1 then ''SCOPE_PRINCIPAL_RELATION_MISMATCH''
     else [])"

text \<open>The hard predicates in order: the first that does not match decides the rejection.\<close>

fun check_predicates :: "fact_context \<Rightarrow> (predicate_call \<times> predicate_definition) list \<Rightarrow> string list \<Rightarrow>
    (string + string list) result_of" where
  "check_predicates context [] reasons = Inr (Inr reasons)"
| "check_predicates context ((call, d) # ps) reasons = sbind (pd_evaluate d context (pc_args call)) (\<lambda>r.
     if pr_matched r then check_predicates context ps (reasons @ pr_reason_codes r)
     else Inr (Inl (case pr_reason_codes r of [] \<Rightarrow> ''PREDICATE_REJECTED'' | c # _ \<Rightarrow> c)))"

fun score_combination :: "(rat \<Rightarrow> rat) \<Rightarrow> fact_context \<Rightarrow> (score_feature \<times> predicate_definition) list \<Rightarrow> rat \<Rightarrow>
    score_contribution list \<Rightarrow> string list \<Rightarrow> (rat \<times> score_contribution list \<times> string list) result_of" where
  "score_combination rnd context [] score cs reasons = Inr (score, cs, reasons)"
| "score_combination rnd context ((f, d) # fs) score cs reasons =
     sbind (pd_evaluate d context (pc_args (sf_predicate f))) (\<lambda>r.
     if \<not> (0 \<le> pr_value r \<and> pr_value r \<le> 1) then Inl (protocol ''score predicate value must be between 0 and 1'')
     else let c = rnd (pr_value r * fst (sf_weight f)) in
       score_combination rnd context fs (rnd (score + c)) (cs @ [\<lparr>ct_predicate = pc_name (sf_predicate f), ct_value = pr_value r,
          ct_weight = fst (sf_weight f), ct_contribution = c, ct_reason_codes = pr_reason_codes r\<rparr>])
         (reasons @ pr_reason_codes r))"

text \<open>\<open>round(x, 6)\<close>: the nearest multiple of a millionth, ties to even, as a double.\<close>

definition round_half_even :: "rat \<Rightarrow> int" where
  "round_half_even x = (let n = \<lfloor>x\<rfloor>; d = x - of_int n in
     if d < 1 / 2 then n else if 1 / 2 < d then n + 1 else if even n then n else n + 1)"

definition round6 :: "(rat \<Rightarrow> rat) \<Rightarrow> rat \<Rightarrow> rat" where
  "round6 rnd x = rnd (of_int (round_half_even (x * 1000000)) / 1000000)"

definition final_score :: "(rat \<Rightarrow> rat) \<Rightarrow> rat \<Rightarrow> rat" where
  "final_score rnd s = round6 rnd (max 0 (min 1 s))"

definition evaluate_combination :: "(rat \<Rightarrow> rat) \<Rightarrow> (json \<Rightarrow> string) \<Rightarrow> rule_spec \<Rightarrow> resolved_rule \<Rightarrow> fact_context \<Rightarrow>
    (string + rule_match) result_of" where
  "evaluate_combination rnd digest rule rr context = sbind (validate_context_types context rr) (\<lambda>_.
     let rejection = scope_rejection (rs_scope rule) context in
     if rejection \<noteq> [] then Inr (Inl rejection)
     else sbind (check_predicates context (rr_predicates rr) []) (\<lambda>checked. case checked of
         Inl code \<Rightarrow> Inr (Inl code)
       | Inr reasons \<Rightarrow> sbind (score_combination rnd context (rr_features rr) (fst (rs_score_base rule)) [] reasons)
           (\<lambda>(raw, contributions, codes). let score = final_score rnd raw in
           sbind (od_emit (rr_output rr) context rule score (dedupe codes) contributions) (\<lambda>emitted.
           Inr (Inr \<lparr>rm_rule_id = rs_rule_id rule, rm_rule_version = rs_version rule, rm_rule_sha256 = canonical_sha256 digest rule,
             rm_fact_refs = map (\<lambda>n. (n, id_of_fact (the (map_of context n)))) (rs_inputs rule), rm_score = score,
             rm_reason_codes = dedupe codes, rm_score_contributions = contributions, rm_output = emitted\<rparr>)))))"

definition count_code :: "string \<Rightarrow> (string \<times> nat) list \<Rightarrow> (string \<times> nat) list" where
  "count_code code counts = dict_set code (Suc (case map_of counts code of Some n \<Rightarrow> n | None \<Rightarrow> 0)) counts"

fun evaluate_all :: "(fact_context \<Rightarrow> (string + rule_match) result_of) \<Rightarrow> int \<Rightarrow> fact_context list \<Rightarrow> nat \<Rightarrow> rule_match list \<Rightarrow>
    (string \<times> nat) list \<Rightarrow> (nat \<times> rule_match list \<times> (string \<times> nat) list) result_of" where
  "evaluate_all ev budget [] n ms rejected = Inr (n, ms, rejected)"
| "evaluate_all ev budget (c # cs) n ms rejected = sbind (ev c) (\<lambda>outcome. case outcome of
     Inl code \<Rightarrow> evaluate_all ev budget cs (Suc n) ms (count_code code rejected)
   | Inr m \<Rightarrow> if int (length (ms @ [m])) > budget then Inl (RuleBudgetExceeded ''rule match budget exceeded'')
       else evaluate_all ev budget cs (Suc n) (ms @ [m]) rejected)"

definition empty_report :: "rule_spec \<Rightarrow> evaluation_report" where
  "empty_report rule = \<lparr>er_rule_id = rs_rule_id rule, er_rule_version = rs_version rule, er_evaluated_combinations = 0,
     er_matches = [], er_rejection_counts = []\<rparr>"

definition ordered_values :: "(string \<times> any_fact list) list \<Rightarrow> string \<Rightarrow> any_fact list" where
  "ordered_values facts name = sort_key id_of_fact (the (map_of facts name))"

definition combinations :: "rule_spec \<Rightarrow> (string \<times> any_fact list) list \<Rightarrow> fact_context list" where
  "combinations rule facts = map (zip (rs_inputs rule)) (product_lists (map (ordered_values facts) (rs_inputs rule)))"

definition evaluate :: "(rat \<Rightarrow> rat) \<Rightarrow> (json \<Rightarrow> string) \<Rightarrow> rule_engine \<Rightarrow> rule_spec \<Rightarrow> (string \<times> any_fact list) list \<Rightarrow>
    evaluation_report result_of" where
  "evaluate rnd digest en rule facts = (if \<not> rs_enabled rule then Inr (empty_report rule)
     else sbind (guards [
       (sy_network (rs_safety rule) \<noteq> ''forbidden'' \<or> sy_mutation (rs_safety rule) \<noteq> ''forbidden'',
        protocol ''offline evaluator requires forbidden network and mutation''),
       (fst ` set facts \<noteq> set (rs_inputs rule), protocol ''fact inputs do not exactly match RuleSpec inputs'')]) (\<lambda>_.
     sbind (resolve_rule en rule) (\<lambda>rr.
     if list_ex (\<lambda>n. ordered_values facts n = []) (rs_inputs rule) then Inr (empty_report rule)
     else sbind (evaluate_all (evaluate_combination rnd digest rule rr) (sy_max_matches (rs_safety rule))
         (combinations rule facts) 0 [] []) (\<lambda>(n, ms, rejected).
       Inr \<lparr>er_rule_id = rs_rule_id rule, er_rule_version = rs_version rule, er_evaluated_combinations = n, er_matches = ms,
         er_rejection_counts = sort_key fst rejected\<rparr>))))"

section \<open>Facts: the loop\<close>

fun lefts :: "('a + 'b) list \<Rightarrow> 'a list" where
  "lefts [] = []"
| "lefts (Inl a # xs) = a # lefts xs"
| "lefts (Inr _ # xs) = lefts xs"

fun rights :: "('a + 'b) list \<Rightarrow> 'b list" where
  "rights [] = []"
| "rights (Inl _ # xs) = rights xs"
| "rights (Inr b # xs) = b # rights xs"

lemma lefts_rights_length: "length (lefts xs) + length (rights xs) = length xs"
  by (induction xs rule: lefts.induct) auto

lemma in_rights: "b \<in> set (rights xs) \<longleftrightarrow> Inr b \<in> set xs"
  by (induction xs rule: rights.induct) auto

lemma smap_head: "ev c = Inr b \<Longrightarrow> (\<exists>ys. smap ev (c # cs) = Inr ys \<and> P ys) \<longleftrightarrow> (\<exists>zs. smap ev cs = Inr zs \<and> P (b # zs))"
  by (auto simp: sbind_Inr_iff)

lemma evaluate_all_ok:
  assumes "int (length ms) \<le> budget"
  shows "evaluate_all ev budget cs n ms rej = Inr r \<longleftrightarrow> (\<exists>outs. smap ev cs = Inr outs \<and>
     int (length (ms @ rights outs)) \<le> budget \<and>
     r = (n + length cs, ms @ rights outs, fold count_code (lefts outs) rej))"
  using assms
proof (induction ev budget cs n ms rej rule: evaluate_all.induct)
  case (2 ev budget c cs n ms rej)
  show ?case
  proof (cases "ev c")
    case (Inr outcome)
    show ?thesis
    proof (cases outcome)
      case (Inl code)
      from 2(1) [OF 2(3)] show ?thesis by (simp add: smap_head [of ev c, OF Inr] Inr Inl del: smap.simps)
    next
      case (Inr m)
      note o = \<open>ev c = Inr outcome\<close> Inr
      show ?thesis
      proof (cases "int (length (ms @ [m])) > budget")
        case True
        then have no: "\<And>outs. \<not> int (length (ms @ m # outs)) \<le> budget" by simp
        with True show ?thesis by (simp add: smap_head [of ev c, OF o(1)] o del: smap.simps)
      next
        case False
        then have "int (length (ms @ [m])) \<le> budget" by simp
        from 2(2) [OF False this] show ?thesis using False
          by (simp add: smap_head [of ev c, OF o(1)] o ac_simps del: smap.simps)
      qed
    qed
  qed simp
qed auto

lemma evaluate_all_over:
  assumes "smap ev cs = Inr outs" "int (length ms) \<le> budget" "int (length (ms @ rights outs)) > budget"
  shows "evaluate_all ev budget cs n ms rej = Inl (RuleBudgetExceeded ''rule match budget exceeded'')"
  using assms
proof (induction cs arbitrary: n ms rej outs)
  case (Cons c cs)
  from Cons(2) obtain outcome outs' where o: "ev c = Inr outcome" "smap ev cs = Inr outs'" "outs = outcome # outs'"
    by (auto simp: sbind_Inr_iff)
  show ?case
  proof (cases outcome)
    case (Inl code)
    with Cons(1) [OF o(2) Cons(3)] Cons(4) o show ?thesis by simp
  next
    case (Inr m)
    with Cons(1) [OF o(2), of "ms @ [m]"] Cons(4) o show ?thesis by auto
  qed
qed simp

lemma map_of_count_code: "map_of (count_code code counts) = (map_of counts)(code \<mapsto> Suc (case map_of counts code of Some n \<Rightarrow> n | None \<Rightarrow> 0))"
  by (simp add: count_code_def)

lemma counted_codes:
  "map_of (fold count_code codes []) code = (if count_list codes code = 0 then None else Some (count_list codes code))"
proof (induction codes rule: rev_induct)
  case (snoc x xs)
  then show ?case by (auto simp: map_of_count_code)
qed simp

lemma count_code_sum: "sum_list (map snd (count_code code counts)) = Suc (sum_list (map snd counts))"
proof -
  have "sum_list (map snd (dict_set code (Suc n) counts)) + n = Suc n + sum_list (map snd counts)"
    if "n = (case map_of counts code of Some n \<Rightarrow> n | None \<Rightarrow> 0)" for n
    using that by (induction counts) (auto split: if_splits)
  from this [OF refl] show ?thesis by (simp add: count_code_def)
qed

lemma counted_sum: "sum_list (map snd (fold count_code codes counts)) = length codes + sum_list (map snd counts)"
  by (induction codes arbitrary: counts) (simp_all add: count_code_sum)

lemma count_code_distinct: "distinct (map fst counts) \<Longrightarrow> distinct (map fst (count_code code counts))"
  by (simp add: count_code_def distinct_dict_set)

lemma counted_distinct: "distinct (map fst counts) \<Longrightarrow> distinct (map fst (fold count_code codes counts))"
  by (induction codes arbitrary: counts) (simp_all add: count_code_distinct)

lemma map_of_sort_key:
  assumes "distinct (map fst d)"
  shows "map_of (sort_key fst d) = map_of d"
proof -
  have "mset (map fst (sort_key fst d)) = mset (map fst d)" by (simp only: mset_map mset_sort)
  with assms have "distinct (map fst (sort_key fst d))" by (metis mset_eq_imp_distinct_iff)
  with assms show ?thesis by (intro map_of_inject_set [THEN iffD2]) simp_all
qed

lemma sum_sort_key: "sum_list (map snd (sort_key fst d)) = sum_list (map snd (d :: (string \<times> nat) list))"
  by (metis mset_map mset_sort sum_mset_sum_list)

section \<open>Facts: combinations\<close>

lemma no_combinations: "list_ex (\<lambda>n. ordered_values facts n = []) (rs_inputs rule) \<Longrightarrow> combinations rule facts = []"
proof -
  have "[] \<in> set xss \<Longrightarrow> product_lists xss = []" for xss :: "any_fact list list"
    by (induction xss) auto
  then show "list_ex (\<lambda>n. ordered_values facts n = []) (rs_inputs rule) \<Longrightarrow> combinations rule facts = []"
    by (force simp: combinations_def list_ex_iff)
qed

lemma product_lists_length: "length (product_lists xss) = prod_list (map length xss)"
  by (induction xss) (auto simp: length_concat comp_def sum_list_triv)

lemma combinations_length:
  "length (combinations rule facts) = prod_list (map (\<lambda>n. length (the (map_of facts n))) (rs_inputs rule))"
  by (simp add: combinations_def product_lists_length comp_def ordered_values_def)

lemma combination_keys: "c \<in> set (combinations rule facts) \<Longrightarrow> map fst c = rs_inputs rule"
  by (auto simp: combinations_def product_lists_set list_all2_iff)

lemma combination_members:
  assumes "c \<in> set (combinations rule facts)" "(n, f) \<in> set c"
  shows "f \<in> set (the (map_of facts n))"
proof -
  from assms obtain fs where fs: "list_all2 (\<lambda>x n. x \<in> set (ordered_values facts n)) fs (rs_inputs rule)" "c = zip (rs_inputs rule) fs"
    by (auto simp: combinations_def product_lists_set list_all2_map2)
  with assms(2) show ?thesis
    by (auto simp: set_zip list_all2_conv_all_nth ordered_values_def)
qed

section \<open>Facts: a successful evaluation\<close>

lemma evaluate_cases:
  assumes "evaluate rnd digest en rule facts = Inr rep" "rs_enabled rule" "1 \<le> sy_max_matches (rs_safety rule)"
  obtains rr outs where "resolve_rule en rule = Inr rr"
    "smap (evaluate_combination rnd digest rule rr) (combinations rule facts) = Inr outs"
    "er_matches rep = rights outs" "int (length (rights outs)) \<le> sy_max_matches (rs_safety rule)"
    "er_evaluated_combinations rep = length (combinations rule facts)"
    "er_rejection_counts rep = sort_key fst (fold count_code (lefts outs) [])"
proof -
  from assms(1,2) obtain rr where rr: "resolve_rule en rule = Inr rr"
    and r: "(if list_ex (\<lambda>n. ordered_values facts n = []) (rs_inputs rule) then Inr (empty_report rule)
     else sbind (evaluate_all (evaluate_combination rnd digest rule rr) (sy_max_matches (rs_safety rule))
         (combinations rule facts) 0 [] []) (\<lambda>(n, ms, rejected).
       Inr \<lparr>er_rule_id = rs_rule_id rule, er_rule_version = rs_version rule, er_evaluated_combinations = n, er_matches = ms,
         er_rejection_counts = sort_key fst rejected\<rparr>)) = Inr rep"
    by (auto simp: evaluate_def sbind_Inr_iff)
  show thesis
  proof (cases "list_ex (\<lambda>n. ordered_values facts n = []) (rs_inputs rule)")
    case True
    with r assms(3) no_combinations [OF True] show ?thesis
      by (intro that [OF rr, of "[]"]) (auto simp: empty_report_def)
  next
    case False
    with r assms(3) show ?thesis
      by (auto simp: sbind_Inr_iff evaluate_all_ok intro!: that [OF rr])
  qed
qed

section \<open>Facts: one match\<close>

text \<open>What the machine's rounding is asked for.\<close>

definition rounds_ok :: "(rat \<Rightarrow> rat) \<Rightarrow> bool" where
  "rounds_ok rnd \<longleftrightarrow> mono rnd \<and> rnd 0 = 0 \<and> rnd 1 = 1"

lemma round_half_even_bounds:
  assumes "0 \<le> x" "x \<le> of_int k"
  shows "0 \<le> round_half_even x \<and> round_half_even x \<le> k"
proof -
  have f: "0 \<le> \<lfloor>x\<rfloor>" "\<lfloor>x\<rfloor> \<le> k" using assms by (simp, linarith)
  have "\<lfloor>x\<rfloor> + 1 \<le> k" if "of_int \<lfloor>x\<rfloor> < x"
  proof -
    have "of_int \<lfloor>x\<rfloor> < (of_int k :: rat)" using that assms(2) by linarith
    then show ?thesis by simp
  qed
  then show ?thesis using f by (auto simp: round_half_even_def Let_def)
qed

lemma final_score_bounds:
  assumes "rounds_ok rnd"
  shows "0 \<le> final_score rnd s \<and> final_score rnd s \<le> 1"
proof -
  let ?x = "max 0 (min 1 s) * 1000000"
  have "0 \<le> ?x" "?x \<le> of_int 1000000" by simp_all
  from round_half_even_bounds [OF this]
  have "0 \<le> (of_int (round_half_even ?x) / 1000000 :: rat)" "(of_int (round_half_even ?x) / 1000000 :: rat) \<le> 1"
    by (simp_all add: divide_le_eq)
  moreover have "rnd 0 = 0" "rnd 1 = 1" "mono rnd" using assms by (simp_all add: rounds_ok_def)
  ultimately show ?thesis
    unfolding final_score_def round6_def by (metis monoD)
qed

lemma check_predicates_ok:
  "check_predicates context ps reasons = Inr (Inr codes) \<Longrightarrow>
     \<forall>(c, d) \<in> set ps. \<exists>r. pd_evaluate d context (pc_args c) = Inr r \<and> pr_matched r"
  by (induction "context" ps reasons rule: check_predicates.induct)
    (force simp: sbind_Inr_iff split: if_splits)+

lemma guard_types_ok: "validate_context_types context rr = Inr u \<Longrightarrow>
    (\<forall>(c, d) \<in> set (rr_predicates rr). context_types_ok context (pd_required_inputs d)) \<and>
    (\<forall>(f, d) \<in> set (rr_features rr). context_types_ok context (pd_required_inputs d)) \<and>
    context_types_ok context (od_required_inputs (rr_output rr))"
  by (force simp: validate_context_types_def guards_ok_iff list_all_iff)

lemma all_equal_card: "card S = 1 \<Longrightarrow> \<exists>x. S = {x}"
  by (simp add: card_1_singleton_iff)

definition facts_in_scope :: "rule_scope \<Rightarrow> fact_context \<Rightarrow> bool" where
  "facts_in_scope sc context \<longleftrightarrow>
     (sc_same_project sc \<longrightarrow> (\<exists>p. p \<noteq> [] \<and> (\<forall>(n, f) \<in> set context. fc_project_id (base_of f) = p))) \<and>
     (sc_same_environment sc \<longrightarrow> (\<exists>e. e \<noteq> [] \<and> (\<forall>(n, f) \<in> set context. fc_env_id (base_of f) = e))) \<and>
     (sc_principal_relation sc \<noteq> ''any'' \<longrightarrow>
        (\<forall>(n, f) \<in> set context. principal_field (sc_principal_relation sc) f \<noteq> [])) \<and>
     (starts_with ''same_'' (sc_principal_relation sc) \<longrightarrow>
        (\<exists>x. \<forall>(n, f) \<in> set context. principal_field (sc_principal_relation sc) f = x)) \<and>
     (starts_with ''different_'' (sc_principal_relation sc) \<longrightarrow>
        (\<exists>(n, f) \<in> set context. \<exists>(m, g) \<in> set context.
           principal_field (sc_principal_relation sc) f \<noteq> principal_field (sc_principal_relation sc) g))"

lemma scope_rejection_none:
  assumes "scope_rejection sc context = []"
  shows "facts_in_scope sc context"
proof -
  let ?rel = "sc_principal_relation sc"
  let ?P = "set (map fc_project_id (map (base_of \<circ> snd) context))"
  let ?E = "set (map fc_env_id (map (base_of \<circ> snd) context))"
  let ?S = "set (map (principal_field ?rel \<circ> snd) context)"
  have p: "sc_same_project sc \<longrightarrow> [] \<notin> ?P \<and> card ?P = 1" and e: "sc_same_environment sc \<longrightarrow> [] \<notin> ?E \<and> card ?E = 1"
    and s: "?rel \<noteq> ''any'' \<longrightarrow> context \<noteq> [] \<and> [] \<notin> ?S"
    and same: "?rel \<noteq> ''any'' \<longrightarrow> starts_with ''same_'' ?rel \<longrightarrow> card ?S = 1"
    and different: "?rel \<noteq> ''any'' \<longrightarrow> starts_with ''different_'' ?rel \<longrightarrow> card ?S \<noteq> 1"
    using assms unfolding scope_rejection_def Let_def list_ex_iff by (simp_all add: image_image comp_def split: if_splits)
  have one: "\<exists>x. x \<noteq> [] \<and> (\<forall>(n, f) \<in> set context. h f = x)" if "[] \<notin> h ` snd ` set context" "card (h ` snd ` set context) = 1"
    for h :: "any_fact \<Rightarrow> string"
  proof -
    from all_equal_card [OF that(2)] obtain x where x: "h ` snd ` set context = {x}" by blast
    with that(1) have "x \<noteq> []" by auto
    moreover have "h f = x" if "(n, f) \<in> set context" for n f
      using that x by (metis image_eqI singletonD snd_conv)
    ultimately show ?thesis by blast
  qed
  have img: "?P = (\<lambda>f. fc_project_id (base_of f)) ` snd ` set context" "?E = (\<lambda>f. fc_env_id (base_of f)) ` snd ` set context"
    "?S = principal_field ?rel ` snd ` set context"
    by (auto simp: image_image)
  have any: "\<not> starts_with ''same_'' ''any''" "\<not> starts_with ''different_'' ''any''" by (simp_all add: starts_with_def)
  have "\<exists>(n, f) \<in> set context. \<exists>(m, g) \<in> set context. principal_field ?rel f \<noteq> principal_field ?rel g"
    if d: "starts_with ''different_'' ?rel"
  proof (rule ccontr)
    assume "\<not> ?thesis"
    then have all: "\<And>f g. f \<in> snd ` set context \<Longrightarrow> g \<in> snd ` set context \<Longrightarrow> principal_field ?rel f = principal_field ?rel g"
      by fastforce
    have rel: "?rel \<noteq> ''any''" using d any by metis
    with s obtain f where f: "f \<in> snd ` set context" by (cases "context") auto
    with all have "?S = {principal_field ?rel f}" unfolding img by blast
    with different rel d show False by simp
  qed
  moreover have "\<exists>x. \<forall>(n, f) \<in> set context. principal_field ?rel f = x" if "starts_with ''same_'' ?rel"
  proof -
    have "?rel \<noteq> ''any''" using that any by metis
    with s same that one [of "principal_field ?rel"] show ?thesis unfolding img by blast
  qed
  moreover have "?rel \<noteq> ''any'' \<longrightarrow> (\<forall>(n, f) \<in> set context. principal_field ?rel f \<noteq> [])"
    using s unfolding img by force
  moreover have "sc_same_project sc \<longrightarrow> (\<exists>p. p \<noteq> [] \<and> (\<forall>(n, f) \<in> set context. fc_project_id (base_of f) = p))"
    using p one [of "\<lambda>f. fc_project_id (base_of f)"] unfolding img by blast
  moreover have "sc_same_environment sc \<longrightarrow> (\<exists>e. e \<noteq> [] \<and> (\<forall>(n, f) \<in> set context. fc_env_id (base_of f) = e))"
    using e one [of "\<lambda>f. fc_env_id (base_of f)"] unfolding img by blast
  ultimately show ?thesis unfolding facts_in_scope_def by blast
qed

lemma matched_combination:
  assumes "evaluate_combination rnd digest rule rr context = Inr (Inr m)"
  shows "scope_rejection (rs_scope rule) context = [] \<and> validate_context_types context rr = Inr () \<and>
    (\<forall>(c, d) \<in> set (rr_predicates rr). \<exists>r. pd_evaluate d context (pc_args c) = Inr r \<and> pr_matched r) \<and>
    (\<exists>reasons. check_predicates context (rr_predicates rr) [] = Inr (Inr reasons)) \<and>
    (\<exists>raw contributions codes. rm_score m = final_score rnd raw \<and>
       od_emit (rr_output rr) context rule (rm_score m) (dedupe codes) contributions = Inr (rm_output m)) \<and>
    rm_fact_refs m = map (\<lambda>n. (n, id_of_fact (the (map_of context n)))) (rs_inputs rule) \<and>
    rm_rule_sha256 m = canonical_sha256 digest rule"
proof -
  from assms obtain reasons raw cs codes emitted where t: "validate_context_types context rr = Inr ()"
    and sc: "scope_rejection (rs_scope rule) context = []"
    and ch: "check_predicates context (rr_predicates rr) [] = Inr (Inr reasons)"
    and em: "od_emit (rr_output rr) context rule (final_score rnd raw) (dedupe codes) cs = Inr emitted"
    and m: "m = \<lparr>rm_rule_id = rs_rule_id rule, rm_rule_version = rs_version rule, rm_rule_sha256 = canonical_sha256 digest rule,
             rm_fact_refs = map (\<lambda>n. (n, id_of_fact (the (map_of context n)))) (rs_inputs rule), rm_score = final_score rnd raw,
             rm_reason_codes = dedupe codes, rm_score_contributions = cs, rm_output = emitted\<rparr>"
    unfolding evaluate_combination_def Let_def sbind_Inr_iff if_split_eq1
    by (auto simp: sbind_Inr_iff split: if_splits) (auto simp: sbind_Inr_iff split: sum.splits)
  show ?thesis
    using t sc check_predicates_ok [OF ch] ch em by (auto simp: m)
qed

section \<open>Facts: resolved rules\<close>

lemma smap_resolved_keys: "smap (\<lambda>c. sbind (g c) (\<lambda>d. Inr (c, d))) cs = Inr ps \<Longrightarrow> map fst ps = cs"
  by (induction cs arbitrary: ps) (auto simp: sbind_Inr_iff)

lemma resolved_keys:
  assumes "resolve_rule en rule = Inr rr"
  shows "map fst (rr_predicates rr) = rs_predicates rule" "map fst (rr_features rr) = rs_score_features rule"
  using assms smap_resolved_keys by (auto simp: resolve_rule_def sbind_Inr_iff)

lemma resolved_call: "resolve_call en rule c = Inr d \<Longrightarrow> map_of (en_predicates en) (pc_name c) = Some d \<and>
    pd_validate_args d (pc_args c) = Inr () \<and> fst ` set (pd_required_inputs d) \<subseteq> set (rs_inputs rule)"
  unfolding resolve_call_def resolve_predicate_def validate_required_inputs_def
  by (cases "map_of (en_predicates en) (pc_name c)") (simp_all add: sbind_Inr_iff split: if_splits)

lemma smap_resolved:
  assumes "smap (\<lambda>c. sbind (g c) (\<lambda>d. Inr (c, d))) cs = Inr ps" "(c, d) \<in> set ps"
  shows "c \<in> set cs \<and> g c = Inr d"
  using assms by (induction cs arbitrary: ps) (auto simp: sbind_Inr_iff)

lemma resolved_rule_facts:
  assumes "resolve_rule en rule = Inr rr"
  shows "\<forall>(c, d) \<in> set (rr_predicates rr). c \<in> set (rs_predicates rule) \<and> resolve_call en rule c = Inr d"
    and "\<forall>(f, d) \<in> set (rr_features rr). f \<in> set (rs_score_features rule) \<and> resolve_call en rule (sf_predicate f) = Inr d"
    and "map_of (en_outputs en) (em_adapter (rs_emit rule)) = Some (rr_output rr)"
    and "od_validate_args (rr_output rr) (em_args (rs_emit rule)) = Inr ()"
    and "fst ` set (od_required_inputs (rr_output rr)) \<subseteq> set (rs_inputs rule)"
proof -
  from assms obtain ps fs out where p: "smap (\<lambda>c. sbind (resolve_call en rule c) (\<lambda>d. Inr (c, d))) (rs_predicates rule) = Inr ps"
    and f: "smap (\<lambda>f. sbind (resolve_call en rule (sf_predicate f)) (\<lambda>d. Inr (f, d))) (rs_score_features rule) = Inr fs"
    and o: "resolve_output (en_outputs en) (em_adapter (rs_emit rule)) = Inr out"
      "od_validate_args out (em_args (rs_emit rule)) = Inr ()" "validate_required_inputs rule (od_required_inputs out) = Inr ()"
    and rr: "rr = \<lparr>rr_predicates = ps, rr_features = fs, rr_output = out\<rparr>"
    by (auto simp: resolve_rule_def sbind_Inr_iff)
  show "\<forall>(c, d) \<in> set (rr_predicates rr). c \<in> set (rs_predicates rule) \<and> resolve_call en rule c = Inr d"
    "\<forall>(f, d) \<in> set (rr_features rr). f \<in> set (rs_score_features rule) \<and> resolve_call en rule (sf_predicate f) = Inr d"
    using smap_resolved [OF p] smap_resolved [OF f] by (auto simp: rr)
  show "map_of (en_outputs en) (em_adapter (rs_emit rule)) = Some (rr_output rr)"
    "od_validate_args (rr_output rr) (em_args (rs_emit rule)) = Inr ()"
    "fst ` set (od_required_inputs (rr_output rr)) \<subseteq> set (rs_inputs rule)"
    using o by (simp_all add: rr resolve_output_def validate_required_inputs_def split: option.splits if_splits)
qed

lemma evaluate_budget:
  assumes "rs_enabled rule" "sy_network (rs_safety rule) = ''forbidden''" "sy_mutation (rs_safety rule) = ''forbidden''"
    and "1 \<le> sy_max_matches (rs_safety rule)" "fst ` set facts = set (rs_inputs rule)" "resolve_rule en rule = Inr rr"
    and "smap (evaluate_combination rnd digest rule rr) (combinations rule facts) = Inr outs"
  shows "if int (length (rights outs)) \<le> sy_max_matches (rs_safety rule)
    then \<exists>rep. evaluate rnd digest en rule facts = Inr rep \<and> er_matches rep = rights outs
    else evaluate rnd digest en rule facts = Inl (RuleBudgetExceeded ''rule match budget exceeded'')"
proof -
  have g: "evaluate rnd digest en rule facts =
    (if list_ex (\<lambda>n. ordered_values facts n = []) (rs_inputs rule) then Inr (empty_report rule)
     else sbind (evaluate_all (evaluate_combination rnd digest rule rr) (sy_max_matches (rs_safety rule))
         (combinations rule facts) 0 [] []) (\<lambda>(n, ms, rejected).
       Inr \<lparr>er_rule_id = rs_rule_id rule, er_rule_version = rs_version rule, er_evaluated_combinations = n, er_matches = ms,
         er_rejection_counts = sort_key fst rejected\<rparr>))"
    using assms(1-3,5,6) by (simp add: evaluate_def guards.simps)
  show ?thesis
  proof (cases "list_ex (\<lambda>n. ordered_values facts n = []) (rs_inputs rule)")
    case True
    with assms(4,7) show ?thesis by (simp add: g no_combinations [OF True] empty_report_def)
  next
    case no: False
    show ?thesis
    proof (cases "int (length (rights outs)) \<le> sy_max_matches (rs_safety rule)")
      case True
      with assms(4,7) have "evaluate_all (evaluate_combination rnd digest rule rr) (sy_max_matches (rs_safety rule))
         (combinations rule facts) 0 [] [] = Inr (length (combinations rule facts), rights outs, fold count_code (lefts outs) [])"
        by (simp add: evaluate_all_ok)
      with True no show ?thesis by (simp add: g)
    next
      case False
      with assms(4) evaluate_all_over [OF assms(7), of "[]"] no show ?thesis by (simp add: g)
    qed
  qed
qed

lemma smap_answers: "(\<And>x. x \<in> set xs \<Longrightarrow> \<exists>y. f x = Inr y) \<Longrightarrow> \<exists>ys. smap f xs = Inr ys"
proof (induction xs)
  case (Cons x xs)
  then obtain y ys where "f x = Inr y" "smap f xs = Inr ys" by fastforce
  then show ?case by simp
qed simp

section \<open>What the engine asks of a vocabulary\<close>

text \<open>Predicates and adapters whose arguments were validated answer on every context of the declared types, a predicate
  with a value in the unit interval.\<close>

locale rule_vocabulary =
  fixes en :: rule_engine
  assumes predicate_answers: "map_of (en_predicates en) n = Some d \<Longrightarrow> pd_validate_args d args = Inr () \<Longrightarrow>
      context_types_ok ctx (pd_required_inputs d) \<Longrightarrow> fst ` set (pd_required_inputs d) \<subseteq> fst ` set ctx \<Longrightarrow>
      \<exists>r. pd_evaluate d ctx args = Inr r \<and> 0 \<le> pr_value r \<and> pr_value r \<le> 1"
    and output_answers: "map_of (en_outputs en) n = Some out \<Longrightarrow> od_validate_args out (em_args (rs_emit rule)) = Inr () \<Longrightarrow>
      context_types_ok ctx (od_required_inputs out) \<Longrightarrow> fst ` set (od_required_inputs out) \<subseteq> fst ` set ctx \<Longrightarrow>
      \<exists>t. od_emit out ctx rule score reasons cs = Inr t"
begin

lemma resolved_answers:
  assumes "resolve_call en rule c = Inr d" "context_types_ok ctx (pd_required_inputs d)" "map fst ctx = rs_inputs rule"
  shows "\<exists>r. pd_evaluate d ctx (pc_args c) = Inr r \<and> 0 \<le> pr_value r \<and> pr_value r \<le> 1"
proof -
  from assms(3) have "fst ` set ctx = set (rs_inputs rule)" by (metis set_map)
  with resolved_call [OF assms(1)] assms(2) show ?thesis by (intro predicate_answers) auto
qed

lemma predicates_answer:
  assumes "map fst ctx = rs_inputs rule"
    and "\<forall>(c, d) \<in> set ps. resolve_call en rule c = Inr d \<and> context_types_ok ctx (pd_required_inputs d)"
  shows "\<exists>out. check_predicates ctx ps reasons = Inr out"
  using assms(2)
proof (induction ps arbitrary: reasons)
  case (Cons p ps)
  obtain c d where p: "p = (c, d)" by (cases p)
  with Cons(2) have "resolve_call en rule c = Inr d" "context_types_ok ctx (pd_required_inputs d)" by simp_all
  with resolved_answers [OF _ _ assms(1)] obtain r where "pd_evaluate d ctx (pc_args c) = Inr r" by blast
  with Cons p show ?case by simp
qed simp

lemma features_answer:
  assumes "map fst ctx = rs_inputs rule"
    and "\<forall>(f, d) \<in> set fs. resolve_call en rule (sf_predicate f) = Inr d \<and> context_types_ok ctx (pd_required_inputs d)"
  shows "\<exists>out. score_combination rnd ctx fs score cs reasons = Inr out"
  using assms(2)
proof (induction fs arbitrary: score cs reasons)
  case (Cons p fs)
  obtain f d where p: "p = (f, d)" by (cases p)
  with Cons(2) have "resolve_call en rule (sf_predicate f) = Inr d" "context_types_ok ctx (pd_required_inputs d)" by simp_all
  with resolved_answers [OF _ _ assms(1)] obtain r
    where "pd_evaluate d ctx (pc_args (sf_predicate f)) = Inr r" "0 \<le> pr_value r" "pr_value r \<le> 1" by blast
  with Cons p show ?case by (simp add: Let_def)
qed simp

lemma combination_answers:
  assumes "resolve_rule en rule = Inr rr" "map fst ctx = rs_inputs rule" "validate_context_types ctx rr = Inr ()"
  shows "\<exists>out. evaluate_combination rnd digest rule rr ctx = Inr out"
proof (cases "scope_rejection (rs_scope rule) ctx = []")
  case True
  note r = resolved_rule_facts [OF assms(1)] and t = guard_types_ok [OF assms(3)]
  have keys: "fst ` set ctx = set (rs_inputs rule)" using assms(2) by (metis set_map)
  have ps: "\<forall>(c, d) \<in> set (rr_predicates rr). resolve_call en rule c = Inr d \<and> context_types_ok ctx (pd_required_inputs d)"
    and fs: "\<forall>(f, d) \<in> set (rr_features rr). resolve_call en rule (sf_predicate f) = Inr d \<and> context_types_ok ctx (pd_required_inputs d)"
    using r(1,2) t by blast+
  obtain checked where ch: "check_predicates ctx (rr_predicates rr) [] = Inr checked"
    using predicates_answer [OF assms(2) ps] by blast
  show ?thesis
  proof (cases checked)
    case (Inl code)
    with True ch assms(3) show ?thesis by (simp add: evaluate_combination_def Let_def)
  next
    case (Inr reasons)
    obtain raw cs codes where sc: "score_combination rnd ctx (rr_features rr) (fst (rs_score_base rule)) [] reasons
        = Inr (raw, cs, codes)"
      using features_answer [OF assms(2) fs, of rnd "fst (rs_score_base rule)" "[]" reasons] by auto
    obtain emitted where "od_emit (rr_output rr) ctx rule (final_score rnd raw) (dedupe codes) cs = Inr emitted"
      using output_answers [OF r(3,4), of ctx] t r(5) keys by blast
    with True ch Inr sc assms(3) show ?thesis by (simp add: evaluate_combination_def Let_def)
  qed
next
  case False
  with assms(3) show ?thesis by (simp add: evaluate_combination_def Let_def)
qed

lemma evaluation_answers:
  assumes "resolve_rule en rule = Inr rr" "sy_network (rs_safety rule) = ''forbidden''" "sy_mutation (rs_safety rule) = ''forbidden''"
    and "1 \<le> sy_max_matches (rs_safety rule)" "fst ` set facts = set (rs_inputs rule)"
    and "\<And>ctx. ctx \<in> set (combinations rule facts) \<Longrightarrow> validate_context_types ctx rr = Inr ()"
  shows "(\<exists>rep. evaluate rnd digest en rule facts = Inr rep) \<or>
    evaluate rnd digest en rule facts = Inl (RuleBudgetExceeded ''rule match budget exceeded'')"
proof (cases "rs_enabled rule")
  case True
  have "\<exists>out. evaluate_combination rnd digest rule rr ctx = Inr out" if "ctx \<in> set (combinations rule facts)" for ctx
    using assms(1) combination_keys [OF that] assms(6) [OF that] by (rule combination_answers)
  with smap_answers [of "combinations rule facts" "evaluate_combination rnd digest rule rr"] obtain outs
    where outs: "smap (evaluate_combination rnd digest rule rr) (combinations rule facts) = Inr outs" by auto
  from evaluate_budget [OF True assms(2-5,1) outs] show ?thesis by (auto split: if_splits)
qed (simp add: evaluate_def)

end

section \<open>Facts: a match\<close>

lemma match_from_context:
  assumes "evaluate rnd digest en rule facts = Inr rep" "rs_enabled rule" "1 \<le> sy_max_matches (rs_safety rule)"
    and "m \<in> set (er_matches rep)"
  obtains rr c where "resolve_rule en rule = Inr rr" "c \<in> set (combinations rule facts)"
    "evaluate_combination rnd digest rule rr c = Inr (Inr m)"
proof -
  obtain rr outs where rr: "resolve_rule en rule = Inr rr"
    and o: "smap (evaluate_combination rnd digest rule rr) (combinations rule facts) = Inr outs"
    and ms: "er_matches rep = rights outs"
    by (rule evaluate_cases [OF assms(1-3)])
  from assms(4) have "Inr m \<in> set outs" by (simp add: ms in_rights)
  then obtain i where i: "i < length outs" "outs ! i = Inr m" by (auto simp: in_set_conv_nth)
  from i smap_Inr_length [OF o] have l: "i < length (combinations rule facts)" by simp
  with smap_Inr_nth [OF o l] i show thesis by (intro that [OF rr, of "combinations rule facts ! i"]) simp_all
qed

lemma match_justified:
  assumes "evaluate rnd digest en rule facts = Inr rep" "rs_enabled rule" "1 \<le> sy_max_matches (rs_safety rule)"
    and "rounds_ok rnd" "m \<in> set (er_matches rep)"
  shows "\<exists>context rr. map fst context = rs_inputs rule \<and> (\<forall>(n, f) \<in> set context. f \<in> set (the (map_of facts n))) \<and>
    rm_fact_refs m = map (\<lambda>n. (n, id_of_fact (the (map_of context n)))) (rs_inputs rule) \<and>
    facts_in_scope (rs_scope rule) context \<and> resolve_rule en rule = Inr rr \<and>
    (\<forall>(c, d) \<in> set (rr_predicates rr). \<exists>r. pd_evaluate d context (pc_args c) = Inr r \<and> pr_matched r) \<and>
    0 \<le> rm_score m \<and> rm_score m \<le> 1 \<and> rm_rule_sha256 m = canonical_sha256 digest rule"
proof -
  obtain rr c where rr: "resolve_rule en rule = Inr rr" and c: "c \<in> set (combinations rule facts)"
    and ev: "evaluate_combination rnd digest rule rr c = Inr (Inr m)"
    by (rule match_from_context [OF assms(1-3,5)])
  note mc = matched_combination [OF ev]
  then obtain raw where sc: "rm_score m = final_score rnd raw" by blast
  have "map fst c = rs_inputs rule" by (rule combination_keys [OF c])
  moreover have "\<forall>(n, f) \<in> set c. f \<in> set (the (map_of facts n))" using combination_members [OF c] by blast
  moreover have "facts_in_scope (rs_scope rule) c" using mc scope_rejection_none by blast
  moreover have "0 \<le> rm_score m \<and> rm_score m \<le> 1" unfolding sc by (rule final_score_bounds [OF assms(4)])
  ultimately show ?thesis using mc rr by blast
qed

section \<open>Facts: the order of the facts\<close>

lemma sort_key_inj:
  assumes "mset xs = mset ys" "distinct (map k xs)"
  shows "sort_key k xs = sort_key k ys"
proof (rule properties_for_sort_key)
  show "mset (sort_key k ys) = mset xs" using assms(1) by simp
  show "sorted (map k (sort_key k ys))" by simp
  fix c assume "c \<in> set (sort_key k ys)"
  then have c: "c \<in> set ys" by simp
  have "distinct (map k ys)" using assms by (metis mset_eq_imp_distinct_iff mset_map)
  then have "filter (\<lambda>x. k c = k x) (sort_key k ys) = filter (\<lambda>x. k c = k x) ys"
    using sort_key_filter_stable [of k "k c" ys] by (simp add: eq_commute)
  moreover have "filter (\<lambda>x. k c = k x) zs = [c]" if "c \<in> set zs" "distinct (map k zs)" for zs
    using that by (induction zs) (auto simp: filter_empty_conv image_iff)
  moreover have "c \<in> set xs" using c assms(1) by (metis set_mset_mset)
  ultimately show "filter (\<lambda>x. k c = k x) (sort_key k ys) = filter (\<lambda>x. k c = k x) xs"
    using c assms(2) \<open>distinct (map k ys)\<close> by simp
qed

section \<open>Properties\<close>

text \<open>C32: every combination of facts is accounted for: an evaluation looks at each choice of one fact per input
  exactly once; its matches are the accepted choices in order, its rejection counts are exactly how often each code
  decided, and matches and rejections add up to the number of choices.\<close>

theorem report_accounts_for_all:
  assumes "evaluate rnd digest en rule facts = Inr rep" "rs_enabled rule" "1 \<le> sy_max_matches (rs_safety rule)"
  shows "er_evaluated_combinations rep = prod_list (map (\<lambda>n. length (the (map_of facts n))) (rs_inputs rule)) \<and>
    length (er_matches rep) + sum_list (map snd (er_rejection_counts rep)) = er_evaluated_combinations rep \<and>
    (\<exists>rr outs. resolve_rule en rule = Inr rr \<and>
       smap (evaluate_combination rnd digest rule rr) (combinations rule facts) = Inr outs \<and>
       er_matches rep = rights outs \<and>
       (\<forall>code. map_of (er_rejection_counts rep) code =
          (if code \<in> set (lefts outs) then Some (count_list (lefts outs) code) else None)))"
proof -
  obtain rr outs where rr: "resolve_rule en rule = Inr rr"
    and o: "smap (evaluate_combination rnd digest rule rr) (combinations rule facts) = Inr outs"
    and m: "er_matches rep = rights outs" and n: "er_evaluated_combinations rep = length (combinations rule facts)"
    and c: "er_rejection_counts rep = sort_key fst (fold count_code (lefts outs) [])"
    by (rule evaluate_cases [OF assms])
  have "sum_list (map snd (er_rejection_counts rep)) = length (lefts outs)"
    by (simp add: c sum_sort_key counted_sum)
  moreover have "length outs = length (combinations rule facts)" by (rule smap_Inr_length [OF o])
  ultimately have sum: "length (er_matches rep) + sum_list (map snd (er_rejection_counts rep)) = er_evaluated_combinations rep"
    using lefts_rights_length [of outs] by (simp add: m n)
  have "map_of (er_rejection_counts rep) code = (if code \<in> set (lefts outs) then Some (count_list (lefts outs) code) else None)" for code
    using counted_codes [of "lefts outs" code] count_list_0_iff [of "lefts outs" code]
    by (simp add: c map_of_sort_key counted_distinct)
  with rr o m sum show ?thesis by (auto simp: n combinations_length)
qed

text \<open>C19: a match is justified: it names one given fact for every input; these facts are within the scope of the
  rule, in project, environment and principal; every hard predicate of the rule accepted them; its score is within the
  unit interval; and it carries the hash of the rule. The rounding of the machine is asked to be monotone and exact on
  0 and 1.\<close>

theorem match_is_justified:
  assumes "evaluate rnd digest en rule facts = Inr rep" "rs_enabled rule" "1 \<le> sy_max_matches (rs_safety rule)"
    and "rounds_ok rnd" "m \<in> set (er_matches rep)"
  shows "\<exists>context rr. map fst context = rs_inputs rule \<and> (\<forall>(n, f) \<in> set context. f \<in> set (the (map_of facts n))) \<and>
    rm_fact_refs m = map (\<lambda>n. (n, id_of_fact (the (map_of context n)))) (rs_inputs rule) \<and>
    facts_in_scope (rs_scope rule) context \<and> resolve_rule en rule = Inr rr \<and>
    (\<forall>(c, d) \<in> set (rr_predicates rr). \<exists>r. pd_evaluate d context (pc_args c) = Inr r \<and> pr_matched r) \<and>
    0 \<le> rm_score m \<and> rm_score m \<le> 1 \<and> rm_rule_sha256 m = canonical_sha256 digest rule"
  using assms by (rule match_justified)

text \<open>C33: the match budget is exact and nothing is cut off: when no predicate or adapter raises, the evaluation
  returns all matches if they fit into the budget and raises the budget error otherwise.\<close>

theorem match_budget_is_exact:
  assumes "rs_enabled rule" "sy_network (rs_safety rule) = ''forbidden''" "sy_mutation (rs_safety rule) = ''forbidden''"
    and "1 \<le> sy_max_matches (rs_safety rule)" "fst ` set facts = set (rs_inputs rule)" "resolve_rule en rule = Inr rr"
    and "smap (evaluate_combination rnd digest rule rr) (combinations rule facts) = Inr outs"
  shows "if int (length (rights outs)) \<le> sy_max_matches (rs_safety rule)
    then \<exists>rep. evaluate rnd digest en rule facts = Inr rep \<and> er_matches rep = rights outs
    else evaluate rnd digest en rule facts = Inl (RuleBudgetExceeded ''rule match budget exceeded'')"
  using assms by (rule evaluate_budget)

text \<open>the result does not depend on the order in which the facts were loaded, as long as the facts of an
  input have distinct ids.\<close>

theorem fact_order_irrelevant:
  assumes "map fst facts = map fst facts'"
    and "\<And>n. n \<in> set (rs_inputs rule) \<Longrightarrow> mset (the (map_of facts n)) = mset (the (map_of facts' n)) \<and>
      distinct (map id_of_fact (the (map_of facts n)))"
  shows "evaluate rnd digest en rule facts = evaluate rnd digest en rule facts'"
proof -
  have keys: "fst ` set facts = fst ` set facts'" using assms(1) by (metis set_map)
  have ord: "ordered_values facts n = ordered_values facts' n" if "n \<in> set (rs_inputs rule)" for n
    using assms(2) [OF that] sort_key_inj unfolding ordered_values_def by blast
  then have combos: "combinations rule facts = combinations rule facts'"
    by (simp add: combinations_def cong: map_cong)
  have empties: "list_ex (\<lambda>n. ordered_values facts n = []) (rs_inputs rule) \<longleftrightarrow> list_ex (\<lambda>n. ordered_values facts' n = []) (rs_inputs rule)"
    using ord by (auto simp: list_ex_iff)
  show ?thesis unfolding evaluate_def keys combos empties ..
qed

end
