(* ===== verification/LegacyScoring.thy ===== *)
theory LegacyScoring
  imports RuleEngine
begin

text \<open>
  \<open>apiAnalysis/rule/legacy_scoring.py\<close>: the keyword classification of an endpoint and the score of a weak parameter
  relation, which the rule framework reuses as they are. An endpoint is given as an \<open>EndpointFact\<close>, which has no
  \<open>path\<close>, \<open>raw_req\<close> or \<open>response_status_code\<close>; the branches for stored documents are not modelled. Scores are sums
  of small integers, which floats add exactly; only the overlap ratio is rounded.
\<close>

section \<open>Endpoint classification\<close>

definition QUERY_API_KEYWORDS :: "string list" where
  "QUERY_API_KEYWORDS = [''get'', ''list'', ''query'', ''search'', ''detail'', ''info'', ''fetch'', ''count'', ''page'', ''find'']"

definition DOWNLOAD_API_KEYWORDS :: "string list" where
  "DOWNLOAD_API_KEYWORDS = [''download'', ''export'', ''file'', ''attachment'', ''report'', ''csv'', ''excel'', ''pdf'']"

definition UPLOAD_API_KEYWORDS :: "string list" where
  "UPLOAD_API_KEYWORDS = [''upload'', ''import'', ''multipart'', ''avatar'', ''attach'', ''upfile'']"

definition ADD_API_KEYWORDS :: "string list" where
  "ADD_API_KEYWORDS = [''add'', ''create'', ''new'', ''insert'', ''register'', ''invite'', ''apply'', ''submit'']"

definition DELETE_API_KEYWORDS :: "string list" where
  "DELETE_API_KEYWORDS = [''delete'', ''remove'', ''del'', ''destroy'', ''revoke'', ''unbind'', ''deactivate'']"

definition MODIFY_API_KEYWORDS :: "string list" where
  "MODIFY_API_KEYWORDS = [''modify'', ''update'', ''edit'', ''patch'', ''set'', ''change'', ''bind'', ''enable'', ''disable'',
     ''reset'', ''approve'', ''reject'']"

definition AUTH_API_KEYWORDS :: "string list" where
  "AUTH_API_KEYWORDS = [''login'', ''logout'', ''auth'', ''token'', ''oauth'', ''sso'', ''captcha'', ''verify'', ''password'',
     ''passwd'', ''otp'', ''mfa'', ''refresh'']"

definition ACTIONS :: "string list" where
  "ACTIONS = [''Auth_Path'', ''Download_Path'', ''Upload_Path'', ''D_Path'', ''M_Path'', ''C_Path'', ''Q_Path'']"

type_synonym contribution = "string \<times> string \<times> int"

record classification_detail =
  cd_action :: string
  cd_confidence :: int
  cd_reason_codes :: "string list"
  cd_action_scores :: "(string \<times> int) list"
  cd_contributions :: "contribution list"

definition method_contributions :: "string \<Rightarrow> contribution list" where
  "method_contributions method = (
     if method \<in> {''GET'', ''HEAD'', ''OPTIONS''} then [(''Q_Path'', ''METHOD_READONLY'', 35)]
     else if method = ''DELETE'' then [(''D_Path'', ''METHOD_DELETE'', 35)]
     else if method \<in> {''PUT'', ''PATCH''} then [(''M_Path'', ''METHOD_MODIFY'', 35)]
     else if method = ''POST'' then [(''C_Path'', ''METHOD_POST'', 25), (''M_Path'', ''METHOD_POST'', 10)]
     else [])"

definition keyword_groups :: "(string list \<times> contribution) list" where
  "keyword_groups = [
     (AUTH_API_KEYWORDS, ''Auth_Path'', ''KW_AUTH'', 60),
     (DOWNLOAD_API_KEYWORDS, ''Download_Path'', ''KW_DOWNLOAD'', 55),
     (UPLOAD_API_KEYWORDS, ''Upload_Path'', ''KW_UPLOAD'', 55),
     (DELETE_API_KEYWORDS, ''D_Path'', ''KW_DELETE'', 45),
     (MODIFY_API_KEYWORDS, ''M_Path'', ''KW_MODIFY'', 45),
     (ADD_API_KEYWORDS, ''C_Path'', ''KW_CREATE'', 45),
     (QUERY_API_KEYWORDS, ''Q_Path'', ''KW_QUERY'', 35)]"

definition keyword_contributions :: "string \<Rightarrow> contribution list" where
  "keyword_contributions t = map snd (filter (\<lambda>(words, _). list_ex (\<lambda>w. contains w t) words) keyword_groups)"

definition body_contributions :: "bool \<Rightarrow> contribution list" where
  "body_contributions b = (if b then [(''C_Path'', ''HAS_REQUEST_BODY'', 10), (''M_Path'', ''HAS_REQUEST_BODY'', 10)] else [])"

definition status_contributions :: "int list \<Rightarrow> contribution list" where
  "status_contributions codes = (if 204 \<in> set codes \<or> 201 \<in> set codes
     then [(''C_Path'', ''STATUS_201_204'', 8), (''M_Path'', ''STATUS_201_204'', 8), (''D_Path'', ''STATUS_201_204'', 6)] else [])"

text \<open>The four groups of \<open>add\<close> calls, in order. The reasons are listed once per group or keyword hit.\<close>

definition endpoint_contributions :: "endpoint_fact \<Rightarrow> contribution list list" where
  "endpoint_contributions f = (let method = py_upper (ef_method f); path = py_lower (ef_path_template f) in
     [method_contributions method] @ map (\<lambda>c. [c]) (keyword_contributions (method @ path)) @
     [body_contributions (ef_has_request_body f), status_contributions (ef_response_status_codes f)])"

definition group_reasons :: "contribution list list \<Rightarrow> string list" where
  "group_reasons groups = List.map_filter (\<lambda>g. case g of [] \<Rightarrow> None | (_, reason, _) # _ \<Rightarrow> Some reason) groups"

definition action_score :: "contribution list \<Rightarrow> string \<Rightarrow> int" where
  "action_score cs action = sum_list (map (snd \<circ> snd) (filter (\<lambda>c. fst c = action) cs))"

text \<open>\<open>max(score, key=score.get)\<close>: the first of the greatest.\<close>

fun first_max :: "('a \<Rightarrow> int) \<Rightarrow> 'a \<Rightarrow> 'a list \<Rightarrow> 'a" where
  "first_max f best [] = best"
| "first_max f best (x # xs) = first_max f (if f x > f best then x else best) xs"

definition classify_endpoint_detail :: "endpoint_fact \<Rightarrow> classification_detail" where
  "classify_endpoint_detail f = (let groups = endpoint_contributions f; cs = concat groups;
       best = first_max (action_score cs) (hd ACTIONS) (tl ACTIONS); confidence = action_score cs best;
       low = confidence < 40
     in \<lparr>cd_action = (if low then ''Q_Path'' else best), cd_confidence = min confidence 100,
         cd_reason_codes = take 8 (group_reasons groups @ (if low then [''LOW_CONF_FALLBACK_Q''] else [])),
         cd_action_scores = map (\<lambda>a. (a, action_score cs a)) ACTIONS, cd_contributions = cs\<rparr>)"

definition classify_endpoint_with_score :: "endpoint_fact \<Rightarrow> string \<times> int \<times> string list" where
  "classify_endpoint_with_score f = (let d = classify_endpoint_detail f in (cd_action d, cd_confidence d, cd_reason_codes d))"

section \<open>Weak relations\<close>

definition WEAK_BLACKLIST :: "string set" where
  "WEAK_BLACKLIST = {''page'', ''size'', ''offset'', ''sort'', ''order'', ''lang'', ''locale'', ''timestamp'', ''nonce'', ''token'', ''traceid''}"

definition round2 :: "(rat \<Rightarrow> rat) \<Rightarrow> rat \<Rightarrow> rat" where
  "round2 rnd x = rnd (of_int (round_half_even (x * 100)) / 100)"

definition overlap_points :: "nat \<Rightarrow> rat \<times> string list" where
  "overlap_points overlap = (if overlap > 0 then (min 50 (of_nat overlap * 10), [''OVERLAP_COUNT'']) else (0, []))"

definition ratio_points :: "(rat \<Rightarrow> rat) \<Rightarrow> nat \<Rightarrow> nat \<Rightarrow> nat \<Rightarrow> rat \<times> string list" where
  "ratio_points rnd overlap req res = (let ratio = rnd (of_nat overlap / of_nat (max req (max res 1))) in
     if ratio \<ge> rnd (6 / 10) then (25, [''OVERLAP_RATIO_HIGH''])
     else if ratio \<ge> rnd (3 / 10) then (12, [''OVERLAP_RATIO_MID'']) else (0, []))"

definition score_weak_relation :: "(rat \<Rightarrow> rat) \<Rightarrow> string \<Rightarrow> nat \<Rightarrow> nat \<Rightarrow> nat \<Rightarrow> bool \<Rightarrow> rat \<times> string list" where
  "score_weak_relation rnd leaf overlap req res used_name_fallback = (let
       parts = [overlap_points overlap, ratio_points rnd overlap req res,
         (if leaf \<noteq> [] \<and> py_lower leaf \<notin> WEAK_BLACKLIST then (15, [''LEAF_NOT_BLACKLIST'']) else (0, [])),
         (if used_name_fallback then (8, [''NAME_FALLBACK'']) else (0, []))]
     in (round2 rnd (min 100 (sum_list (map fst parts))), concat (map snd parts)))"

section \<open>Facts\<close>

lemma first_max_in: "first_max f best xs \<in> insert best (set xs)"
  by (induction f best xs rule: first_max.induct) auto

lemma first_max_ge: "x \<in> insert best (set xs) \<Longrightarrow> f x \<le> f (first_max f best xs)"
proof (induction xs arbitrary: best x)
  case (Cons y ys)
  let ?b = "if f y > f best then y else best"
  have best: "f ?b \<le> f (first_max f ?b ys)" by (rule Cons.IH) simp
  show ?case
  proof (cases "x \<in> set ys")
    case True
    then have "f x \<le> f (first_max f ?b ys)" by (intro Cons.IH) simp
    then show ?thesis by (simp only: first_max.simps)
  next
    case False
    with Cons.prems have "x = best \<or> x = y" by simp
    then have "f x \<le> f ?b" by (cases "f y > f best") auto
    with best show ?thesis by (simp only: first_max.simps)
  qed
qed simp

definition contribution_ok :: "contribution \<Rightarrow> bool" where
  "contribution_ok c \<longleftrightarrow> fst c \<in> set ACTIONS \<and> 0 < snd (snd c)"

lemma groups_points:
  "list_all contribution_ok (method_contributions m)" "list_all contribution_ok (body_contributions b)"
  "list_all contribution_ok (status_contributions codes)" "list_all (contribution_ok \<circ> snd) keyword_groups"
  by (simp_all add: method_contributions_def body_contributions_def status_contributions_def keyword_groups_def
      contribution_ok_def ACTIONS_def)

lemma contribution_points:
  assumes "c \<in> set (concat (endpoint_contributions f))"
  shows "fst c \<in> set ACTIONS \<and> 0 < snd (snd c)"
proof -
  have k: "c \<in> snd ` set keyword_groups" if "c \<in> set (keyword_contributions t)" for c t
    using that unfolding keyword_contributions_def by auto
  have "contribution_ok c"
    using assms groups_points unfolding endpoint_contributions_def Let_def list_all_iff
    by (auto dest!: k)
  then show ?thesis by (simp add: contribution_ok_def)
qed

lemma action_score_pos: "(\<And>c. c \<in> set cs \<Longrightarrow> 0 < snd (snd c)) \<Longrightarrow> 0 \<le> action_score cs a"
  unfolding action_score_def by (rule sum_list_nonneg) (force simp: comp_def)

lemma actions_split: "insert (hd ACTIONS) (set (tl ACTIONS)) = set ACTIONS"
  by (simp add: ACTIONS_def)

lemma classified_action: "cd_action (classify_endpoint_detail f) \<in> set ACTIONS"
proof -
  have "''Q_Path'' \<in> set ACTIONS" by (simp add: ACTIONS_def)
  then show ?thesis
    using first_max_in [of "action_score (concat (endpoint_contributions f))" "hd ACTIONS" "tl ACTIONS"]
    unfolding actions_split by (simp add: classify_endpoint_detail_def Let_def)
qed

text \<open>What the machine's rounding is asked for: monotone, exact on integers up to 100, and not to lose 0.3.\<close>

definition rounds_small :: "(rat \<Rightarrow> rat) \<Rightarrow> bool" where
  "rounds_small rnd \<longleftrightarrow> mono rnd \<and> (\<forall>n :: int. 0 \<le> n \<and> n \<le> 100 \<longrightarrow> rnd (of_int n) = of_int n) \<and> 0 < rnd (3 / 10)"

lemma round2_bounds:
  assumes "rounds_small rnd" "0 \<le> x" "x \<le> of_int k" "0 \<le> k" "k \<le> 100"
  shows "0 \<le> round2 rnd x \<and> round2 rnd x \<le> of_int k"
proof -
  have "0 \<le> x * 100" "x * 100 \<le> of_int (k * 100)" using assms(2,3) by simp_all
  from round_half_even_bounds [OF this]
  have b: "0 \<le> (of_int (round_half_even (x * 100)) / 100 :: rat)" "(of_int (round_half_even (x * 100)) / 100 :: rat) \<le> of_int k"
    by (simp_all add: divide_le_eq)
  have m: "mono rnd" and e: "rnd 0 = 0" "rnd (of_int k) = of_int k"
    using assms(1,4,5) unfolding rounds_small_def by (auto dest: spec [of _ 0])
  show ?thesis unfolding round2_def using monoD [OF m b(1)] monoD [OF m b(2)] e by simp
qed

lemma weak_score_range:
  assumes "rounds_small rnd"
  shows "0 \<le> fst (score_weak_relation rnd leaf overlap req res fb) \<and> fst (score_weak_relation rnd leaf overlap req res fb) \<le> 98 \<and>
    (overlap = 0 \<longrightarrow> fst (score_weak_relation rnd leaf overlap req res fb) \<le> 23)"
proof -
  define parts where "parts = [overlap_points overlap, ratio_points rnd overlap req res,
         (if leaf \<noteq> [] \<and> py_lower leaf \<notin> WEAK_BLACKLIST then (15, [''LEAF_NOT_BLACKLIST'']) else (0, [])),
         (if fb then (8, [''NAME_FALLBACK'']) else (0, []))]"
  have sc: "fst (score_weak_relation rnd leaf overlap req res fb) = round2 rnd (min 100 (sum_list (map fst parts)))"
    by (simp add: score_weak_relation_def parts_def Let_def)
  have o: "0 \<le> fst (overlap_points overlap)" "fst (overlap_points overlap) \<le> 50" "overlap = 0 \<Longrightarrow> fst (overlap_points overlap) = 0"
    by (auto simp: overlap_points_def)
  have r: "0 \<le> fst (ratio_points rnd overlap req res)" "fst (ratio_points rnd overlap req res) \<le> 25"
    by (auto simp: ratio_points_def Let_def)
  have m: "mono rnd" and zero: "rnd 0 = 0" and one: "rnd 1 = 1"
    using assms unfolding rounds_small_def by (auto dest: spec [of _ 0] spec [of _ 1])
  have r0: "fst (ratio_points rnd overlap req res) = 0" if "overlap = 0"
  proof -
    have "0 < rnd (3 / 10)" "rnd (3 / 10) \<le> rnd (6 / 10)" using assms monoD [OF m] by (simp_all add: rounds_small_def)
    then show ?thesis using that zero by (simp add: ratio_points_def)
  qed
  have "0 \<le> min 100 (sum_list (map fst parts))" "min 100 (sum_list (map fst parts)) \<le> of_int 98"
    using o r by (auto simp: parts_def)
  from round2_bounds [OF assms this] have a: "0 \<le> round2 rnd (min 100 (sum_list (map fst parts)))"
    "round2 rnd (min 100 (sum_list (map fst parts))) \<le> 98" by simp_all
  have "round2 rnd (min 100 (sum_list (map fst parts))) \<le> 23" if z: "overlap = 0"
  proof -
    have "0 \<le> min 100 (sum_list (map fst parts))" "min 100 (sum_list (map fst parts)) \<le> of_int 23"
      using o(3) r0 z by (auto simp: parts_def)
    from round2_bounds [OF assms this] show ?thesis by simp
  qed
  with a show ?thesis unfolding sc by simp
qed

section \<open>Properties\<close>

text \<open>the classification is conservative: the action is one of the seven, it has the highest score unless
  no score reaches 40 and the endpoint falls back to a query, and the confidence is that score, between 0 and 100.\<close>

theorem classification_is_best:
  "cd_action (classify_endpoint_detail f) \<in> set ACTIONS \<and>
   0 \<le> cd_confidence (classify_endpoint_detail f) \<and> cd_confidence (classify_endpoint_detail f) \<le> 100 \<and>
   (let scores = cd_action_scores (classify_endpoint_detail f); top = Max (set (map snd scores)) in
     cd_confidence (classify_endpoint_detail f) = min top 100 \<and>
     (if top < 40 then cd_action (classify_endpoint_detail f) = ''Q_Path''
      else map_of scores (cd_action (classify_endpoint_detail f)) = Some top))"
proof -
  define cs where "cs = concat (endpoint_contributions f)"
  define best where "best = first_max (action_score cs) (hd ACTIONS) (tl ACTIONS)"
  have split: "insert (hd ACTIONS) (set (tl ACTIONS)) = set ACTIONS" by (simp add: ACTIONS_def)
  have best_in: "best \<in> set ACTIONS" using first_max_in [of "action_score cs" "hd ACTIONS" "tl ACTIONS"] unfolding split best_def .
  have ge: "action_score cs a \<le> action_score cs best" if "a \<in> set ACTIONS" for a
    using that unfolding best_def split [symmetric] by (rule first_max_ge)
  have scores: "cd_action_scores (classify_endpoint_detail f) = map (\<lambda>a. (a, action_score cs a)) ACTIONS"
    by (simp add: classify_endpoint_detail_def Let_def cs_def)
  have top: "Max (set (map snd (map (\<lambda>a. (a, action_score cs a)) ACTIONS))) = action_score cs best"
    using best_in ge by (intro Max_eqI) (auto simp: comp_def)
  have pos: "0 \<le> action_score cs best"
    by (rule action_score_pos) (use contribution_points in \<open>auto simp: cs_def\<close>)
  have found: "map_of (map (\<lambda>a. (a, action_score cs a)) ACTIONS) best = Some (action_score cs best)"
    using best_in by (simp add: map_of_map_restrict restrict_map_def)
  have det: "cd_action (classify_endpoint_detail f) = (if action_score cs best < 40 then ''Q_Path'' else best)"
    "cd_confidence (classify_endpoint_detail f) = min (action_score cs best) 100"
    by (simp_all add: classify_endpoint_detail_def Let_def cs_def best_def)
  have q: "''Q_Path'' \<in> set ACTIONS" by (simp add: ACTIONS_def)
  show ?thesis
    unfolding Let_def scores top det using pos best_in q found by simp
qed

text \<open>the weak-relation score lies between 0 and 98, and is positive evidence only: with no shared value a
  pair gets at most the 15 points of an uncommon name and the 8 of a name match. The rounding of the machine is asked
  to be monotone and exact on integers up to 100, and not to lose 0.3.\<close>

end
