(* ===== verification/BuiltinRules.thy ===== *)
theory BuiltinRules
  imports LegacyScoring
begin

text \<open>
  \<open>apiAnalysis/rule/builtin_rules.py\<close>: parameter names and categories, the built-in predicates and output adapters,
  and the four rules of \<open>apiAnalysis/rule/specs\<close>, as the JSON documents they are. Reading the documents from disk and
  the projections of database documents into facts are not modelled. Two values count as one unique value when
  their JSON texts agree, whatever the separators.
\<close>

section \<open>Names and categories\<close>

definition AUTH_NAMES :: "string list" where
  "AUTH_NAMES = [''authorization'', ''auth'', ''token'', ''access_token'', ''refresh_token'', ''cookie'', ''session'',
     ''session_id'', ''sid'', ''sign'', ''signature'', ''csrf'', ''csrf_token'', ''password'', ''passwd'',
     ''captcha'', ''seccode'', ''otp'', ''secret'', ''api_key'', ''apikey'']"

definition DYNAMIC_NAMES :: "string list" where
  "DYNAMIC_NAMES = [''timestamp'', ''time'', ''ts'', ''nonce'', ''request_id'', ''requestid'', ''trace_id'', ''traceid'',
     ''correlation_id'', ''correlationid'', ''request_uuid'']"

definition PAGINATION_NAMES :: "string list" where
  "PAGINATION_NAMES = [''page'', ''page_no'', ''page_num'', ''page_size'', ''size'', ''limit'', ''offset'', ''sort'', ''order'',
     ''keyword'', ''filter'', ''cursor'', ''start'', ''count'']"

definition GENERIC_ENUM_NAMES :: "string list" where
  "GENERIC_ENUM_NAMES = [''status'', ''type'', ''code'', ''state'', ''enabled'', ''disabled'', ''active'', ''flag'', ''mode'',
     ''lang'', ''locale'']"

definition is_upper_char :: "char \<Rightarrow> bool" where
  "is_upper_char c = (let n = (of_char c :: nat) in 65 \<le> n \<and> n \<le> 90)"

definition word_char :: "char \<Rightarrow> bool" where
  "word_char c \<longleftrightarrow> is_upper_char c \<or> is_lower c \<or> is_digit c \<or> c = CHR ''_''"

text \<open>\<open>re.sub(r"\[[^\]]*\]", "", text)\<close>: an opening bracket without a closing one stays.\<close>

function drop_brackets :: "string \<Rightarrow> string" where
  "drop_brackets [] = []"
| "drop_brackets (c # cs) = (if c = CHR ''['' \<and> CHR '']'' \<in> set cs
     then drop_brackets (tl (dropWhile (\<lambda>x. x \<noteq> CHR '']'') cs)) else c # drop_brackets cs)"
  by pat_completeness auto
termination
  by (relation "measure length") (auto simp: le_imp_less_Suc length_dropWhile_le le_diff_conv intro!: le_imp_less_Suc
      order_trans [OF diff_le_self length_dropWhile_le])

text \<open>\<open>re.sub(r"(?<=[a-z0-9])(?=[A-Z])", "_", text)\<close>.\<close>

fun split_humps :: "string \<Rightarrow> string" where
  "split_humps [] = []"
| "split_humps [c] = [c]"
| "split_humps (c # d # cs) = (if (is_lower c \<or> is_digit c) \<and> is_upper_char d then [c, CHR ''_''] else [c]) @ split_humps (d # cs)"

text \<open>\<open>re.sub(r"[^a-zA-Z0-9_]+", "_", text)\<close>: a run becomes one underscore; \<open>open\<close> tells whether a run is going on.\<close>

fun squash_other :: "bool \<Rightarrow> string \<Rightarrow> string" where
  "squash_other run [] = []"
| "squash_other run (c # cs) = (if word_char c then c # squash_other False cs
     else (if run then [] else [CHR ''_'']) @ squash_other True cs)"

definition strip_underscores :: "string \<Rightarrow> string" where
  "strip_underscores s = rev (dropWhile (\<lambda>c. c = CHR ''_'') (rev (dropWhile (\<lambda>c. c = CHR ''_'') s)))"

fun squash_underscores :: "string \<Rightarrow> string" where
  "squash_underscores [] = []"
| "squash_underscores [c] = [c]"
| "squash_underscores (c # d # cs) = (if c = CHR ''_'' \<and> d = CHR ''_'' then squash_underscores (d # cs)
     else c # squash_underscores (d # cs))"

definition normalize_parameter_name :: "string \<Rightarrow> string" where
  "normalize_parameter_name v = (let t = last (split_on (CHR ''.'') (py_strip v)) in
     squash_underscores (py_lower (strip_underscores (squash_other False (split_humps (drop_brackets t))))))"

definition compact_name :: "string \<Rightarrow> string" where
  "compact_name s = filter (\<lambda>c. c \<noteq> CHR ''_'') s"

definition low_cardinality_value :: "json \<Rightarrow> bool" where
  "low_cardinality_value v = (case v of JNull \<Rightarrow> True | JBool _ \<Rightarrow> True | JInt n \<Rightarrow> \<bar>n\<bar> \<le> 10 | _ \<Rightarrow> False)"

definition generic_values :: "json list \<Rightarrow> bool" where
  "generic_values vs \<longleftrightarrow> vs \<noteq> [] \<and> length (dedupe (map canonical_json vs)) \<le> 10 \<and> list_all low_cardinality_value vs"

definition classify_parameter_category :: "string \<Rightarrow> json list \<Rightarrow> string" where
  "classify_parameter_category name values = (let n = normalize_parameter_name name; c = compact_name n in
     if n \<in> set AUTH_NAMES \<or> list_ex (\<lambda>t. contains t c) [''accesstoken'', ''refreshtoken'', ''csrf''] then ''auth_session''
     else if n \<in> set DYNAMIC_NAMES \<or> ends_with ''requestid'' c \<or> ends_with ''traceid'' c then ''dynamic''
     else if n \<in> set PAGINATION_NAMES then ''pagination_filter''
     else if n \<in> set GENERIC_ENUM_NAMES then ''generic_enum''
     else if generic_values values then ''generic_enum''
     else if n = ''id'' \<or> ends_with ''_id'' n \<or> ends_with ''id'' c \<or>
         list_ex (\<lambda>t. contains t n) [''owner'', ''tenant'', ''resource'', ''account'', ''user'', ''device''] then ''resource''
     else ''unknown'')"

record occurrence_input =
  oi_fact :: base_fact
  oi_endpoint_ref :: string
  oi_pathid :: int
  oi_direction :: string
  oi_canonical_name :: string
  oi_parameter_type :: string
  oi_required :: bool
  oi_locator :: json
  oi_values :: "json list"
  oi_source_kind :: string
  oi_principal_id :: string
  oi_profile_revision_id :: string
  oi_scope_key :: string

definition parameter_occurrence_from_values :: "(string \<Rightarrow> string) \<Rightarrow> occurrence_input \<Rightarrow> occurrence_fact result_of" where
  "parameter_occurrence_from_values digest x = (let name = normalize_parameter_name (oi_canonical_name x) in
     sbind (summarize_values digest ((oi_fact x)\<lparr>fc_id := fc_id (oi_fact x) @ '':observation''\<rparr>) (oi_source_kind x)
       (oi_values x) ''unknown'' 100) (\<lambda>observation.
     sbind (locator_fact_from (oi_locator x)) (\<lambda>locator.
     check_occurrence (base_fact.extend (oi_fact x) (occurrence_fact.fields (oi_endpoint_ref x) (oi_pathid x) (oi_direction x) name
       (py_lower (str_or (oi_parameter_type x) ''unknown'')) (oi_required x) locator
       (classify_parameter_category name (oi_values x)) observation (oi_principal_id x) (oi_profile_revision_id x)
       (oi_scope_key x))))))"

section \<open>Predicates\<close>

definition no_args :: "json dict \<Rightarrow> unit result_of" where
  "no_args args = guards [(args \<noteq> [], protocol ''predicate does not accept arguments'')]"

definition intersection_args :: "json dict \<Rightarrow> unit result_of" where
  "intersection_args args = guards [
     (fst ` set args \<noteq> {''value''} \<or> (case json_int (dget args ''value'') of None \<Rightarrow> True | Some n \<Rightarrow> \<not> (1 \<le> n \<and> n \<le> 100)),
      protocol ''intersection threshold must be an integer between 1 and 100'')]"

definition legacy_score_args :: "json dict \<Rightarrow> unit result_of" where
  "legacy_score_args args = guards [
     (\<not> fst ` set args \<subseteq> {''name_fallback''} \<or> json_bool (dict_default args ''name_fallback'' (JBool False)) = None,
      protocol ''legacy score name_fallback must be boolean'')]"

definition PAIR_TYPES :: "(string \<times> fact_type) list" where
  "PAIR_TYPES = [(''response_parameter'', OccurrenceType), (''request_parameter'', OccurrenceType)]"

text \<open>\<open>context[name]\<close>, read as an occurrence: attributes of another fact are missing.\<close>

definition occurrence_of :: "fact_context \<Rightarrow> string \<Rightarrow> occurrence_fact result_of" where
  "occurrence_of context name = (case map_of context name of
     None \<Rightarrow> Inl (KeyError name)
   | Some (ParameterOccurrenceFact f) \<Rightarrow> Inr f
   | Some _ \<Rightarrow> Inl (AttributeError name))"

definition on_pair :: "(occurrence_fact \<Rightarrow> occurrence_fact \<Rightarrow> 'a) \<Rightarrow> fact_context \<Rightarrow> 'a result_of" where
  "on_pair h context = sbind (occurrence_of context ''response_parameter'') (\<lambda>response.
     sbind (occurrence_of context ''request_parameter'') (\<lambda>request. Inr (h response request)))"

definition verdict :: "bool \<Rightarrow> string \<Rightarrow> string \<Rightarrow> predicate_result" where
  "verdict matched yes no = \<lparr>pr_matched = matched, pr_value = (if matched then 1 else 0),
     pr_reason_codes = [if matched then yes else no]\<rparr>"

definition canonical_equal :: "occurrence_fact \<Rightarrow> occurrence_fact \<Rightarrow> predicate_result" where
  "canonical_equal response request = verdict (oc_canonical_name response = oc_canonical_name request)
     ''PARAMETER_CANONICAL_NAME_EQUAL'' ''PARAMETER_CANONICAL_NAME_DIFFERENT''"

definition canonical_different :: "occurrence_fact \<Rightarrow> occurrence_fact \<Rightarrow> predicate_result" where
  "canonical_different response request = verdict (oc_canonical_name response \<noteq> oc_canonical_name request)
     ''PARAMETER_CANONICAL_NAME_DIFFERENT'' ''PARAMETER_CANONICAL_NAME_EQUAL''"

definition endpoint_different :: "occurrence_fact \<Rightarrow> occurrence_fact \<Rightarrow> predicate_result" where
  "endpoint_different response request = verdict (oc_endpoint_ref response \<noteq> oc_endpoint_ref request)
     ''ENDPOINT_DIFFERENT'' ''ENDPOINT_SAME''"

definition intersection :: "occurrence_fact \<Rightarrow> occurrence_fact \<Rightarrow> string set" where
  "intersection response request = set (ob_value_digests (oc_observation response)) \<inter> set (ob_value_digests (oc_observation request))"

definition intersection_gte :: "(rat \<Rightarrow> rat) \<Rightarrow> int \<Rightarrow> occurrence_fact \<Rightarrow> occurrence_fact \<Rightarrow> predicate_result" where
  "intersection_gte rnd n response request = (let k = card (intersection response request); matched = int k \<ge> n in
     \<lparr>pr_matched = matched, pr_value = min 1 (rnd (of_nat k / of_int (max 1 n))),
      pr_reason_codes = [if matched then ''VALUE_INTERSECTION_PRESENT'' else ''VALUE_INTERSECTION_BELOW_MINIMUM'']\<rparr>)"

definition intersection_empty :: "occurrence_fact \<Rightarrow> occurrence_fact \<Rightarrow> predicate_result" where
  "intersection_empty response request = (let has_observations = ob_value_digests (oc_observation response) \<noteq> [] \<and>
       ob_value_digests (oc_observation request) \<noteq> []
     in verdict (has_observations \<and> intersection response request = {}) ''VALUE_INTERSECTION_EMPTY''
       (if \<not> has_observations then ''VALUE_OBSERVATIONS_MISSING'' else ''VALUE_INTERSECTION_PRESENT''))"

definition CONTEXT_CATEGORIES :: "string set" where
  "CONTEXT_CATEGORIES = {''auth_session'', ''dynamic'', ''pagination_filter'', ''generic_enum''}"

definition resource_relation_allowed :: "occurrence_fact \<Rightarrow> occurrence_fact \<Rightarrow> predicate_result" where
  "resource_relation_allowed response request = verdict
     (oc_category response \<notin> CONTEXT_CATEGORIES \<and> oc_category request \<notin> CONTEXT_CATEGORIES)
     ''PARAMETER_RESOURCE_RELATION_ALLOWED'' ''PARAMETER_CONTEXT_ONLY''"

definition types_compatible :: "string \<Rightarrow> string \<Rightarrow> bool" where
  "types_compatible l r \<longleftrightarrow> l = r \<or> l \<in> {[], ''unknown''} \<or> r \<in> {[], ''unknown''} \<or>
     {l, r} \<subseteq> {''integer'', ''int'', ''number'', ''float'', ''double''}"

definition type_compatible :: "occurrence_fact \<Rightarrow> occurrence_fact \<Rightarrow> predicate_result" where
  "type_compatible response request = verdict (types_compatible (oc_parameter_type response) (oc_parameter_type request))
     ''PARAMETER_TYPE_COMPATIBLE'' ''PARAMETER_TYPE_INCOMPATIBLE''"

definition interpretable :: "occurrence_fact \<Rightarrow> bool" where
  "interpretable f \<longleftrightarrow> 2 \<le> lf_version (oc_locator f) \<and>
     lf_position (oc_locator f) \<in> {''path'', ''query'', ''header'', ''cookie'', ''body''} \<and> lf_canonical_name (oc_locator f) \<noteq> []"

definition locator_interpretable :: "occurrence_fact \<Rightarrow> occurrence_fact \<Rightarrow> predicate_result" where
  "locator_interpretable response request = verdict (interpretable response \<and> interpretable request)
     ''PARAMETER_LOCATOR_INTERPRETABLE'' ''PARAMETER_LOCATOR_UNRESOLVED''"

definition relation_score :: "(rat \<Rightarrow> rat) \<Rightarrow> bool \<Rightarrow> occurrence_fact \<Rightarrow> occurrence_fact \<Rightarrow> rat \<times> string list" where
  "relation_score rnd name_fallback response request = score_weak_relation rnd (oc_canonical_name request)
     (card (intersection response request)) (ob_unique_value_count (oc_observation request))
     (ob_unique_value_count (oc_observation response)) name_fallback"

definition legacy_weak_score :: "(rat \<Rightarrow> rat) \<Rightarrow> bool \<Rightarrow> occurrence_fact \<Rightarrow> occurrence_fact \<Rightarrow> predicate_result" where
  "legacy_weak_score rnd name_fallback response request = (let sc = relation_score rnd name_fallback response request in
     \<lparr>pr_matched = True, pr_value = rnd (fst sc / 100), pr_reason_codes = snd sc\<rparr>)"

definition pair_predicate :: "string \<Rightarrow> (json dict \<Rightarrow> unit result_of) \<Rightarrow>
    (json dict \<Rightarrow> occurrence_fact \<Rightarrow> occurrence_fact \<Rightarrow> predicate_result) \<Rightarrow> predicate_definition" where
  "pair_predicate name validate h = \<lparr>pd_name = name, pd_required_inputs = PAIR_TYPES, pd_validate_args = validate,
     pd_evaluate = (\<lambda>context args. on_pair (h args) context)\<rparr>"

definition builtin_predicates :: "(rat \<Rightarrow> rat) \<Rightarrow> predicate_definition list" where
  "builtin_predicates rnd = [
     pair_predicate ''parameter.canonical_name_equal.v1'' no_args (\<lambda>_. canonical_equal),
     pair_predicate ''parameter.canonical_name_different.v1'' no_args (\<lambda>_. canonical_different),
     pair_predicate ''endpoint.different.v1'' no_args (\<lambda>_. endpoint_different),
     pair_predicate ''value.intersection_count_gte.v1'' intersection_args
       (\<lambda>args. intersection_gte rnd (case json_int (dget args ''value'') of Some n \<Rightarrow> n | None \<Rightarrow> 1)),
     pair_predicate ''value.intersection_empty.v1'' no_args (\<lambda>_. intersection_empty),
     pair_predicate ''parameter.resource_relation_allowed.v1'' no_args (\<lambda>_. resource_relation_allowed),
     pair_predicate ''type.compatible.v1'' no_args (\<lambda>_. type_compatible),
     pair_predicate ''locator.interpretable.v1'' no_args (\<lambda>_. locator_interpretable),
     pair_predicate ''legacy.weak_relation_score.v1'' legacy_score_args
       (\<lambda>args. legacy_weak_score rnd (truthy (dict_default args ''name_fallback'' (JBool False))))]"

section \<open>Outputs\<close>

definition LEGACY_ACTION_MAP :: "(string \<times> string) list" where
  "LEGACY_ACTION_MAP = [(''Auth_Path'', ''endpoint.auth''), (''Download_Path'', ''endpoint.download''),
     (''Upload_Path'', ''endpoint.upload''), (''D_Path'', ''endpoint.delete''), (''M_Path'', ''endpoint.modify''),
     (''C_Path'', ''endpoint.create''), (''Q_Path'', ''endpoint.query'')]"

definition apply_allowed :: "endpoint_fact \<Rightarrow> bool" where
  "apply_allowed f \<longleftrightarrow> ef_classification_source f = ''machine'' \<or> (ef_classification_source f = ''none'' \<and> ef_action f = [])"

definition endpoint_candidate_of :: "(rat \<Rightarrow> rat) \<Rightarrow> endpoint_fact \<Rightarrow> endpoint_candidate result_of" where
  "endpoint_candidate_of rnd f = (let d = classify_endpoint_detail f in
     case map_of LEGACY_ACTION_MAP (cd_action d) of
       None \<Rightarrow> Inl (protocol ''legacy classifier returned an unregistered action'')
     | Some proposed \<Rightarrow> Inr \<lparr>ec_endpoint_ref = fc_id f, ec_proposed_action = proposed, ec_legacy_action = cd_action d,
         ec_confidence = rnd (of_int (cd_confidence d) / 100),
         ec_reason_codes = cd_reason_codes d @ (if apply_allowed f then [] else [''EXISTING_CLASSIFICATION_PRESERVED'']),
         ec_score_contributions = map (\<lambda>(a, reason, points). (a, reason, rnd (of_int points / 100)))
           (filter (\<lambda>c. fst c = cd_action d) (cd_contributions d)),
         ec_existing_action = ef_action f, ec_apply_allowed = apply_allowed f\<rparr>)"

definition emit_endpoint :: "(rat \<Rightarrow> rat) \<Rightarrow> fact_context \<Rightarrow> rule_spec \<Rightarrow> rat \<Rightarrow> string list \<Rightarrow> score_contribution list \<Rightarrow>
    typed_output result_of" where
  "emit_endpoint rnd context rule score reasons cs = (case map_of context ''endpoint'' of
     Some (EndpointFact f) \<Rightarrow> sbind (endpoint_candidate_of rnd f) (\<lambda>c. Inr (EndpointClassificationCandidate c))
   | Some _ \<Rightarrow> Inl (AttributeError ''classification_source'')
   | None \<Rightarrow> Inl (KeyError ''endpoint''))"

definition RELATION_REASONS :: "(string \<times> string) list" where
  "RELATION_REASONS = [(''weak_candidate'', ''WEAK_RELATION_CANDIDATE''), (''insufficient_evidence'', ''INSUFFICIENT_EVIDENCE''),
     (''alias_candidate'', ''PARAMETER_ALIAS_CANDIDATE'')]"

definition emit_relation :: "fact_context \<Rightarrow> rule_spec \<Rightarrow> rat \<Rightarrow> string list \<Rightarrow> score_contribution list \<Rightarrow> typed_output result_of" where
  "emit_relation context rule score reasons cs = (let relation = py_str (dget (em_args (rs_emit rule)) ''relation'') in
     case map_of RELATION_REASONS relation of
       None \<Rightarrow> Inl (KeyError relation)
     | Some reason \<Rightarrow> on_pair (\<lambda>response request. ParameterRelationCandidate \<lparr>rc_producer_ref = fc_id response,
         rc_consumer_ref = fc_id request, rc_relation = relation,
         rc_confidence = (if relation = ''insufficient_evidence'' then 0 else score),
         rc_reason_codes = dedupe (reasons @ [reason]), rc_verified = False, rc_write_disposition = ''create_only''\<rparr>) context)"

definition emit_no_args :: "json dict \<Rightarrow> unit result_of" where
  "emit_no_args args = guards [(args \<noteq> [], protocol ''output adapter does not accept arguments'')]"

definition relation_emit_args :: "json dict \<Rightarrow> unit result_of" where
  "relation_emit_args args = guards [
     (fst ` set args \<noteq> {''relation''} \<or> \<not> list_ex (\<lambda>r. dget args ''relation'' = JStr r) (map fst RELATION_REASONS),
      protocol ''relation output is unsupported'')]"

definition builtin_outputs :: "(rat \<Rightarrow> rat) \<Rightarrow> output_definition list" where
  "builtin_outputs rnd = [
     \<lparr>od_name = ''endpoint_classification.v1'', od_required_inputs = [(''endpoint'', EndpointType)], od_validate_args = emit_no_args,
      od_emit = emit_endpoint rnd\<rparr>,
     \<lparr>od_name = ''parameter_relation_candidate.v1'', od_required_inputs = PAIR_TYPES, od_validate_args = relation_emit_args,
      od_emit = emit_relation\<rparr>]"

definition builtin_engine :: "(rat \<Rightarrow> rat) \<Rightarrow> rule_engine result_of" where
  "builtin_engine rnd = sbind (register_all pd_name (builtin_predicates rnd) []) (\<lambda>ps.
     sbind (register_all od_name (builtin_outputs rnd) []) (\<lambda>os. Inr \<lparr>en_predicates = ps, en_outputs = os\<rparr>))"

section \<open>The built-in rules\<close>

definition safety_json :: json where
  "safety_json = JObj [(''network'', JStr ''forbidden''), (''mutation'', JStr ''forbidden''), (''max_matches'', JInt 10000)]"

definition pair_rule_json :: "string \<Rightarrow> json list \<Rightarrow> json list \<Rightarrow> string \<Rightarrow> json" where
  "pair_rule_json rule_id predicates features relation = JObj [
     (''schema_version'', JStr ''rule.v1''), (''rule_id'', JStr rule_id), (''version'', JInt 1),
     (''kind'', JStr ''offline_inference''), (''enabled'', JBool True),
     (''scope'', JObj [(''same_project'', JBool True), (''same_environment'', JBool True),
        (''principal_relation'', JStr ''same_profile_revision'')]),
     (''inputs'', JList [JStr ''response_parameter'', JStr ''request_parameter'']),
     (''predicates'', JList predicates),
     (''score'', JObj [(''base'', JFloat 0 ''0.0''), (''features'', JList features)]),
     (''emit'', JObj [(''adapter'', JStr ''parameter_relation_candidate.v1''), (''args'', JObj [(''relation'', JStr relation)])]),
     (''safety'', safety_json)]"

definition name_only :: "string \<Rightarrow> json" where
  "name_only n = JObj [(''name'', JStr n)]"

definition shared_value :: json where
  "shared_value = JObj [(''name'', JStr ''value.intersection_count_gte.v1''), (''args'', JObj [(''value'', JInt 1)])]"

definition endpoint_classification_json :: json where
  "endpoint_classification_json = JObj [
     (''schema_version'', JStr ''rule.v1''), (''rule_id'', JStr ''endpoint.legacy_score.classification''), (''version'', JInt 1),
     (''kind'', JStr ''offline_inference''), (''enabled'', JBool True),
     (''scope'', JObj [(''same_project'', JBool False), (''same_environment'', JBool False), (''principal_relation'', JStr ''any'')]),
     (''inputs'', JList [JStr ''endpoint'']), (''predicates'', JList []),
     (''score'', JObj [(''base'', JFloat 0 ''0.0''), (''features'', JList [])]),
     (''emit'', JObj [(''adapter'', JStr ''endpoint_classification.v1'')]), (''safety'', safety_json)]"

definition alias_candidate_json :: json where
  "alias_candidate_json = pair_rule_json ''parameter.shared_value.alias_candidate''
     [name_only ''parameter.canonical_name_different.v1'', name_only ''endpoint.different.v1'', shared_value,
      name_only ''parameter.resource_relation_allowed.v1'', name_only ''type.compatible.v1'', name_only ''locator.interpretable.v1'']
     [JObj [(''predicate'', JStr ''legacy.weak_relation_score.v1''), (''args'', JObj [(''name_fallback'', JBool True)]),
        (''weight'', JFloat 1 ''1.0'')]] ''alias_candidate''"

definition empty_intersection_json :: json where
  "empty_intersection_json = pair_rule_json ''parameter.empty_intersection.insufficient_evidence''
     [name_only ''parameter.canonical_name_equal.v1'', name_only ''value.intersection_empty.v1'',
      name_only ''parameter.resource_relation_allowed.v1'', name_only ''type.compatible.v1'', name_only ''locator.interpretable.v1'']
     [] ''insufficient_evidence''"

definition weak_relation_json :: json where
  "weak_relation_json = pair_rule_json ''parameter.shared_value.weak_relation''
     [name_only ''parameter.canonical_name_equal.v1'', name_only ''endpoint.different.v1'', shared_value,
      name_only ''parameter.resource_relation_allowed.v1'', name_only ''type.compatible.v1'', name_only ''locator.interpretable.v1'']
     [JObj [(''predicate'', JStr ''legacy.weak_relation_score.v1''), (''weight'', JFloat 1 ''1.0'')]] ''weak_candidate''"

text \<open>The documents in the order of their file names.\<close>

definition load_builtin_rule_specs :: "json list \<Rightarrow> rule_spec list result_of" where
  "load_builtin_rule_specs docs = sbind (smap from_mapping docs) (\<lambda>specs. sbind (guards [
     (specs = [], protocol ''no built-in RuleSpec files were found''),
     (\<not> distinct (map (\<lambda>r. (rs_rule_id r, rs_version r)) specs), protocol ''duplicate built-in RuleSpec identity'')])
   (\<lambda>_. Inr specs))"

definition builtin_documents :: "json list" where
  "builtin_documents = [endpoint_classification_json, alias_candidate_json, empty_intersection_json, weak_relation_json]"

definition of_direction :: "string \<Rightarrow> occurrence_fact list \<Rightarrow> any_fact list" where
  "of_direction d parameters = map ParameterOccurrenceFact (filter (\<lambda>p. oc_direction p = d) parameters)"

definition builtin_inputs :: "rule_spec \<Rightarrow> endpoint_fact list \<Rightarrow> occurrence_fact list \<Rightarrow> (string \<times> any_fact list) list result_of" where
  "builtin_inputs rule endpoints parameters =
     (if rs_inputs rule = [''endpoint''] then Inr [(''endpoint'', map EndpointFact endpoints)]
      else if rs_inputs rule = [''response_parameter'', ''request_parameter'']
        then Inr [(''response_parameter'', of_direction ''response'' parameters), (''request_parameter'', of_direction ''request'' parameters)]
      else Inl (protocol ''built-in rule declares unsupported P0 inputs''))"

definition run_builtin_p0 :: "(rat \<Rightarrow> rat) \<Rightarrow> (json \<Rightarrow> string) \<Rightarrow> endpoint_fact list \<Rightarrow> occurrence_fact list \<Rightarrow>
    evaluation_report list result_of" where
  "run_builtin_p0 rnd digest endpoints parameters = sbind (builtin_engine rnd) (\<lambda>en.
     sbind (load_builtin_rule_specs builtin_documents) (\<lambda>rules.
     smap (\<lambda>rule. sbind (builtin_inputs rule endpoints parameters) (evaluate rnd digest en rule)) rules))"

record legacy_outcome =
  lo_relation :: string
  lo_score :: rat
  lo_reason_codes :: "string list"

definition legacy_relation_outcome :: "(rat \<Rightarrow> rat) \<Rightarrow> occurrence_fact \<Rightarrow> occurrence_fact \<Rightarrow> rat \<Rightarrow> legacy_outcome" where
  "legacy_relation_outcome rnd response request min_score = (let none = \<lparr>lo_relation = ''none'', lo_score = 0, lo_reason_codes = []\<rparr>;
       overlap = card (intersection response request) in
     if oc_canonical_name response \<noteq> oc_canonical_name request then none
     else if oc_endpoint_ref response \<noteq> oc_endpoint_ref request \<and> overlap \<noteq> 0
     then let (score, reasons) = relation_score rnd False response request; normalized = rnd (score / 100) in
       \<lparr>lo_relation = (if normalized \<ge> min_score then ''weak'' else ''none''), lo_score = normalized, lo_reason_codes = reasons\<rparr>
     else if oc_endpoint_ref response = oc_endpoint_ref request \<and> overlap = 0
     then \<lparr>lo_relation = ''not_equal'', lo_score = rnd (3 / 10), lo_reason_codes = [''NO_INTERSECTION_SAME_PATH'']\<rparr>
     else none)"

section \<open>Facts: the registries\<close>

definition the_engine :: "(rat \<Rightarrow> rat) \<Rightarrow> rule_engine" where
  "the_engine rnd = \<lparr>en_predicates = map (\<lambda>d. (pd_name d, d)) (builtin_predicates rnd),
     en_outputs = map (\<lambda>d. (od_name d, d)) (builtin_outputs rnd)\<rparr>"

lemma dict_set_new: "k \<notin> fst ` set d \<Longrightarrow> dict_set k v d = d @ [(k, v)]"
  by (induction k v d rule: dict_set.induct) auto

lemma register_all_ok:
  assumes "list_all is_versioned_name (map name ds)" "distinct (map fst items @ map name ds)"
  shows "register_all name ds items = Inr (items @ map (\<lambda>d. (name d, d)) ds)"
  using assms
proof (induction ds arbitrary: items)
  case (Cons d ds)
  have new: "name d \<notin> fst ` set items" using Cons(3) by auto
  then have "map_of items (name d) = None" by (simp add: map_of_eq_None_iff)
  with Cons(2) new have "register name d items = Inr (items @ [(name d, d)])"
    by (simp add: register_def guards.simps dict_set_new)
  with Cons show ?case by simp
qed simp

definition PREDICATE_NAMES :: "string list" where
  "PREDICATE_NAMES = [''parameter.canonical_name_equal.v1'', ''parameter.canonical_name_different.v1'', ''endpoint.different.v1'',
     ''value.intersection_count_gte.v1'', ''value.intersection_empty.v1'', ''parameter.resource_relation_allowed.v1'',
     ''type.compatible.v1'', ''locator.interpretable.v1'', ''legacy.weak_relation_score.v1'']"

lemma builtin_names:
  "map pd_name (builtin_predicates rnd) = PREDICATE_NAMES"
  "map od_name (builtin_outputs rnd) = [''endpoint_classification.v1'', ''parameter_relation_candidate.v1'']"
  by (simp_all add: builtin_predicates_def pair_predicate_def builtin_outputs_def PREDICATE_NAMES_def)

lemma names_versioned: "list_all is_versioned_name PREDICATE_NAMES" "distinct PREDICATE_NAMES"
  "list_all is_versioned_name [''endpoint_classification.v1'', ''parameter_relation_candidate.v1'']"
  by code_simp+

lemma builtin_engine_ok: "builtin_engine rnd = Inr (the_engine rnd)"
  using register_all_ok [of pd_name "builtin_predicates rnd" "[]"] register_all_ok [of od_name "builtin_outputs rnd" "[]"]
    names_versioned
  by (simp add: builtin_engine_def the_engine_def builtin_names)

section \<open>Facts: answers\<close>

lemma pair_typed:
  assumes "context_types_ok ctx PAIR_TYPES" "fst ` set PAIR_TYPES \<subseteq> fst ` set ctx"
  obtains p q where "map_of ctx ''response_parameter'' = Some (ParameterOccurrenceFact p)"
    "map_of ctx ''request_parameter'' = Some (ParameterOccurrenceFact q)"
proof -
  have typed: "\<exists>p. map_of ctx n = Some (ParameterOccurrenceFact p)" if "n \<in> {''response_parameter'', ''request_parameter''}" for n
  proof -
    from assms(2) that obtain f where f: "map_of ctx n = Some f"
      by (cases "map_of ctx n") (auto simp: PAIR_TYPES_def map_of_eq_None_iff)
    with assms(1) that have "isinstance f OccurrenceType"
      by (auto simp: context_types_ok_def PAIR_TYPES_def)
    with f show ?thesis by (cases f) auto
  qed
  from typed [of "''response_parameter''"] typed [of "''request_parameter''"] that show thesis by auto
qed

lemma on_pair_typed:
  "map_of ctx ''response_parameter'' = Some (ParameterOccurrenceFact p) \<Longrightarrow>
   map_of ctx ''request_parameter'' = Some (ParameterOccurrenceFact q) \<Longrightarrow> on_pair h ctx = Inr (h p q)"
  by (simp add: on_pair_def occurrence_of_def)

lemma verdict_value: "0 \<le> pr_value (verdict m y n) \<and> pr_value (verdict m y n) \<le> 1"
  by (simp add: verdict_def)

lemma rounds_unit:
  assumes "rounds_small rnd" "0 \<le> x" "x \<le> 1"
  shows "0 \<le> rnd x \<and> rnd x \<le> 1"
proof -
  have m: "mono rnd" and e: "rnd 0 = 0" "rnd 1 = 1"
    using assms(1) unfolding rounds_small_def by (auto dest: spec [of _ 0] spec [of _ 1])
  show ?thesis using monoD [OF m assms(2)] monoD [OF m assms(3)] e by simp
qed

lemma rounds_nonneg: "rounds_small rnd \<Longrightarrow> 0 \<le> x \<Longrightarrow> 0 \<le> rnd x"
  unfolding rounds_small_def using monoD [of rnd 0 x] by (auto dest: spec [of _ 0])

lemma pair_values:
  assumes "rounds_small rnd"
  shows "0 \<le> pr_value (intersection_gte rnd n p q) \<and> pr_value (intersection_gte rnd n p q) \<le> 1"
    and "0 \<le> pr_value (legacy_weak_score rnd fb p q) \<and> pr_value (legacy_weak_score rnd fb p q) \<le> 1"
proof -
  show "0 \<le> pr_value (intersection_gte rnd n p q) \<and> pr_value (intersection_gte rnd n p q) \<le> 1"
    using rounds_nonneg [OF assms] by (simp add: intersection_gte_def Let_def)
  have "0 \<le> fst (relation_score rnd fb p q)" "fst (relation_score rnd fb p q) \<le> 98"
    using weak_score_range [OF assms] by (simp_all add: relation_score_def)
  then show "0 \<le> pr_value (legacy_weak_score rnd fb p q) \<and> pr_value (legacy_weak_score rnd fb p q) \<le> 1"
    unfolding legacy_weak_score_def Let_def by (simp add: rounds_unit [OF assms])
qed

definition answers :: "predicate_definition \<Rightarrow> bool" where
  "answers d \<longleftrightarrow> pd_required_inputs d = PAIR_TYPES \<and> (\<exists>h. pd_evaluate d = (\<lambda>ctx args. on_pair (h args) ctx) \<and>
     (\<forall>args p q. 0 \<le> pr_value (h args p q) \<and> pr_value (h args p q) \<le> 1))"

lemma pair_answers:
  "(\<And>args p q. 0 \<le> pr_value (h args p q) \<and> pr_value (h args p q) \<le> 1) \<Longrightarrow> answers (pair_predicate n v h)"
  unfolding answers_def pair_predicate_def by auto

lemma verdict_values:
  "0 \<le> pr_value (canonical_equal p q) \<and> pr_value (canonical_equal p q) \<le> 1"
  "0 \<le> pr_value (canonical_different p q) \<and> pr_value (canonical_different p q) \<le> 1"
  "0 \<le> pr_value (endpoint_different p q) \<and> pr_value (endpoint_different p q) \<le> 1"
  "0 \<le> pr_value (intersection_empty p q) \<and> pr_value (intersection_empty p q) \<le> 1"
  "0 \<le> pr_value (resource_relation_allowed p q) \<and> pr_value (resource_relation_allowed p q) \<le> 1"
  "0 \<le> pr_value (type_compatible p q) \<and> pr_value (type_compatible p q) \<le> 1"
  "0 \<le> pr_value (locator_interpretable p q) \<and> pr_value (locator_interpretable p q) \<le> 1"
  unfolding canonical_equal_def canonical_different_def endpoint_different_def intersection_empty_def Let_def
    resource_relation_allowed_def type_compatible_def locator_interpretable_def
  by (rule verdict_value)+

lemma builtin_answers: "rounds_small rnd \<Longrightarrow> list_all answers (builtin_predicates rnd)"
  unfolding builtin_predicates_def list.pred_inject
  by (simp add: pair_answers verdict_values pair_values)

lemma builtin_predicate_answers:
  assumes "rounds_small rnd" "d \<in> set (builtin_predicates rnd)"
    and "context_types_ok ctx (pd_required_inputs d)" "fst ` set (pd_required_inputs d) \<subseteq> fst ` set ctx"
  shows "\<exists>r. pd_evaluate d ctx args = Inr r \<and> 0 \<le> pr_value r \<and> pr_value r \<le> 1"
proof -
  from builtin_answers [OF assms(1)] assms(2) have "answers d" by (simp add: list_all_iff)
  then obtain h where req: "pd_required_inputs d = PAIR_TYPES" and h: "pd_evaluate d = (\<lambda>ctx args. on_pair (h args) ctx)"
    "\<And>args p q. 0 \<le> pr_value (h args p q) \<and> pr_value (h args p q) \<le> 1"
    unfolding answers_def by blast
  obtain p q where pq: "map_of ctx ''response_parameter'' = Some (ParameterOccurrenceFact p)"
    "map_of ctx ''request_parameter'' = Some (ParameterOccurrenceFact q)"
    using pair_typed assms(3,4) unfolding req by blast
  show ?thesis using h(2) [of args p q] by (simp add: h(1) on_pair_typed [OF pq])
qed

lemma emit_args_relation:
  assumes "relation_emit_args args = Inr ()"
  shows "\<exists>reason. map_of RELATION_REASONS (py_str (dget args ''relation'')) = Some reason"
proof -
  from assms have "list_ex (\<lambda>r. dget args ''relation'' = JStr r) (map fst RELATION_REASONS)"
    by (simp add: relation_emit_args_def split: if_splits)
  then obtain r where r: "r \<in> fst ` set RELATION_REASONS" "dget args ''relation'' = JStr r" by (auto simp: list_ex_iff)
  then show ?thesis
    by (cases "map_of RELATION_REASONS r") (auto simp: map_of_eq_None_iff py_str_def)
qed

lemma endpoint_emitted: "\<exists>c. endpoint_candidate_of rnd f = Inr c"
proof -
  have "cd_action (classify_endpoint_detail f) \<in> fst ` set LEGACY_ACTION_MAP"
    using classified_action [of f] by (simp add: LEGACY_ACTION_MAP_def ACTIONS_def)
  then obtain proposed where "map_of LEGACY_ACTION_MAP (cd_action (classify_endpoint_detail f)) = Some proposed"
    by (cases "map_of LEGACY_ACTION_MAP (cd_action (classify_endpoint_detail f))") (auto simp: map_of_eq_None_iff)
  then show ?thesis by (simp add: endpoint_candidate_of_def Let_def)
qed

lemma builtin_output_answers:
  assumes "out \<in> set (builtin_outputs rnd)" "od_validate_args out (em_args (rs_emit rule)) = Inr ()"
    and "context_types_ok ctx (od_required_inputs out)" "fst ` set (od_required_inputs out) \<subseteq> fst ` set ctx"
  shows "\<exists>t. od_emit out ctx rule score reasons cs = Inr t"
proof (cases "od_name out = ''endpoint_classification.v1''")
  case True
  with assms(1) have o: "od_emit out = emit_endpoint rnd" "od_required_inputs out = [(''endpoint'', EndpointType)]"
    by (auto simp: builtin_outputs_def)
  from assms(4) obtain f where f: "map_of ctx ''endpoint'' = Some f"
    by (cases "map_of ctx ''endpoint''") (auto simp: o map_of_eq_None_iff)
  with assms(3) have "isinstance f EndpointType" by (simp add: context_types_ok_def o)
  then obtain e where e: "f = EndpointFact e" by (cases f) auto
  obtain c where "endpoint_candidate_of rnd e = Inr c" using endpoint_emitted by blast
  with f e show ?thesis by (simp add: o emit_endpoint_def)
next
  case False
  with assms(1) have o: "od_emit out = emit_relation" "od_required_inputs out = PAIR_TYPES" "od_validate_args out = relation_emit_args"
    by (auto simp: builtin_outputs_def)
  obtain p q where pq: "map_of ctx ''response_parameter'' = Some (ParameterOccurrenceFact p)"
    "map_of ctx ''request_parameter'' = Some (ParameterOccurrenceFact q)"
    using pair_typed assms(3,4) unfolding o by blast
  from emit_args_relation assms(2) obtain reason
    where "map_of RELATION_REASONS (py_str (dget (em_args (rs_emit rule)) ''relation'')) = Some reason"
    unfolding o by blast
  then show ?thesis by (simp add: o emit_relation_def Let_def on_pair_typed [OF pq])
qed

lemma builtin_vocabulary: "rounds_small rnd \<Longrightarrow> rule_vocabulary (the_engine rnd)"
proof
  fix n d args ctx
  assume "rounds_small rnd" "map_of (en_predicates (the_engine rnd)) n = Some d" "context_types_ok ctx (pd_required_inputs d)"
    "fst ` set (pd_required_inputs d) \<subseteq> fst ` set ctx"
  then show "\<exists>r. pd_evaluate d ctx args = Inr r \<and> 0 \<le> pr_value r \<and> pr_value r \<le> 1"
    by (intro builtin_predicate_answers) (auto simp: the_engine_def dest: map_of_SomeD)
next
  fix n out ctx score reasons cs and rule :: rule_spec
  assume "map_of (en_outputs (the_engine rnd)) n = Some out" "od_validate_args out (em_args (rs_emit rule)) = Inr ()"
    "context_types_ok ctx (od_required_inputs out)" "fst ` set (od_required_inputs out) \<subseteq> fst ` set ctx"
  then show "\<exists>t. od_emit out ctx rule score reasons cs = Inr t"
    by (intro builtin_output_answers) (auto simp: the_engine_def dest: map_of_SomeD)
qed

text \<open>The interpretation at exact arithmetic; at any other rounding the contract is used through the lemma.\<close>

interpretation exact: rule_vocabulary "the_engine (\<lambda>x. x)"
  by (rule builtin_vocabulary) (simp add: rounds_small_def mono_def)

section \<open>Facts: the built-in rules\<close>

definition call_named :: "string \<Rightarrow> json dict \<Rightarrow> predicate_call" where
  "call_named n args = \<lparr>pc_name = n, pc_args = args\<rparr>"

definition pair_rule :: "string \<Rightarrow> predicate_call list \<Rightarrow> score_feature list \<Rightarrow> string \<Rightarrow> rule_spec" where
  "pair_rule i predicates features relation = \<lparr>rs_schema_version = ''rule.v1'', rs_rule_id = i, rs_version = 1,
     rs_kind = ''offline_inference'', rs_enabled = True,
     rs_scope = \<lparr>sc_same_project = True, sc_same_environment = True, sc_principal_relation = ''same_profile_revision''\<rparr>,
     rs_inputs = [''response_parameter'', ''request_parameter''], rs_predicates = predicates, rs_score_base = (0, ''0.0''),
     rs_score_features = features,
     rs_emit = \<lparr>em_adapter = ''parameter_relation_candidate.v1'', em_args = [(''relation'', JStr relation)]\<rparr>,
     rs_safety = \<lparr>sy_network = ''forbidden'', sy_mutation = ''forbidden'', sy_max_matches = 10000\<rparr>\<rparr>"

definition common_calls :: "predicate_call list" where
  "common_calls = [call_named ''parameter.resource_relation_allowed.v1'' [], call_named ''type.compatible.v1'' [],
     call_named ''locator.interpretable.v1'' []]"

definition shared_value_call :: predicate_call where
  "shared_value_call = call_named ''value.intersection_count_gte.v1'' [(''value'', JInt 1)]"

definition weak_relation_rule :: rule_spec where
  "weak_relation_rule = pair_rule ''parameter.shared_value.weak_relation''
     ([call_named ''parameter.canonical_name_equal.v1'' [], call_named ''endpoint.different.v1'' [], shared_value_call] @ common_calls)
     [\<lparr>sf_predicate = call_named ''legacy.weak_relation_score.v1'' [], sf_weight = (1, ''1.0'')\<rparr>] ''weak_candidate''"

definition alias_candidate_rule :: rule_spec where
  "alias_candidate_rule = pair_rule ''parameter.shared_value.alias_candidate''
     ([call_named ''parameter.canonical_name_different.v1'' [], call_named ''endpoint.different.v1'' [], shared_value_call] @ common_calls)
     [\<lparr>sf_predicate = call_named ''legacy.weak_relation_score.v1'' [(''name_fallback'', JBool True)], sf_weight = (1, ''1.0'')\<rparr>]
     ''alias_candidate''"

definition empty_intersection_rule :: rule_spec where
  "empty_intersection_rule = pair_rule ''parameter.empty_intersection.insufficient_evidence''
     ([call_named ''parameter.canonical_name_equal.v1'' [], call_named ''value.intersection_empty.v1'' []] @ common_calls)
     [] ''insufficient_evidence''"

definition endpoint_rule :: rule_spec where
  "endpoint_rule = \<lparr>rs_schema_version = ''rule.v1'', rs_rule_id = ''endpoint.legacy_score.classification'', rs_version = 1,
     rs_kind = ''offline_inference'', rs_enabled = True,
     rs_scope = \<lparr>sc_same_project = False, sc_same_environment = False, sc_principal_relation = ''any''\<rparr>,
     rs_inputs = [''endpoint''], rs_predicates = [], rs_score_base = (0, ''0.0''), rs_score_features = [],
     rs_emit = \<lparr>em_adapter = ''endpoint_classification.v1'', em_args = []\<rparr>,
     rs_safety = \<lparr>sy_network = ''forbidden'', sy_mutation = ''forbidden'', sy_max_matches = 10000\<rparr>\<rparr>"

definition builtin_rules :: "rule_spec list" where
  "builtin_rules = [endpoint_rule, alias_candidate_rule, empty_intersection_rule, weak_relation_rule]"

lemma parsed_rules:
  "from_mapping endpoint_classification_json = Inr endpoint_rule"
  "from_mapping alias_candidate_json = Inr alias_candidate_rule"
  "from_mapping empty_intersection_json = Inr empty_intersection_rule"
  "from_mapping weak_relation_json = Inr weak_relation_rule"
  by code_simp+

lemma loaded_rules: "load_builtin_rule_specs builtin_documents = Inr builtin_rules"
  by (simp add: load_builtin_rule_specs_def builtin_documents_def builtin_rules_def parsed_rules guards.simps
      endpoint_rule_def alias_candidate_rule_def empty_intersection_rule_def weak_relation_rule_def pair_rule_def)

section \<open>Facts: rules over a pair\<close>

definition pair_inputs :: "occurrence_fact list \<Rightarrow> (string \<times> any_fact list) list" where
  "pair_inputs parameters = [(''response_parameter'', of_direction ''response'' parameters),
     (''request_parameter'', of_direction ''request'' parameters)]"

definition pair_context :: "occurrence_fact \<Rightarrow> occurrence_fact \<Rightarrow> fact_context" where
  "pair_context p q = [(''response_parameter'', ParameterOccurrenceFact p), (''request_parameter'', ParameterOccurrenceFact q)]"

lemma pair_combinations:
  assumes "rs_inputs rule = [''response_parameter'', ''request_parameter'']" "ctx \<in> set (combinations rule (pair_inputs parameters))"
  obtains p q where "ctx = pair_context p q" "p \<in> set parameters" "q \<in> set parameters" "oc_direction p = ''response''" "oc_direction q = ''request''"
proof -
  from combination_keys [OF assms(2)] assms(1) have "map fst ctx = [''response_parameter'', ''request_parameter'']" by simp
  then obtain f g where ctx: "ctx = [(''response_parameter'', f), (''request_parameter'', g)]"
    by (auto simp: map_eq_Cons_conv)
  have "f \<in> set (of_direction ''response'' parameters)" "g \<in> set (of_direction ''request'' parameters)"
    using combination_members [OF assms(2), of "''response_parameter''" f] combination_members [OF assms(2), of "''request_parameter''" g]
    by (simp_all add: ctx pair_inputs_def)
  with that show thesis by (auto simp: of_direction_def ctx pair_context_def)
qed

lemma pair_context_typed: "context_types_ok (pair_context p q) PAIR_TYPES"
  by (simp add: context_types_ok_def pair_context_def PAIR_TYPES_def)

lemma pair_context_maps:
  "map_of (pair_context p q) ''response_parameter'' = Some (ParameterOccurrenceFact p)"
  "map_of (pair_context p q) ''request_parameter'' = Some (ParameterOccurrenceFact q)"
  by (simp_all add: pair_context_def)

lemmas on_pair_context = on_pair_typed [OF pair_context_maps]

lemma builtin_predicates_pair: "rounds_small rnd \<Longrightarrow> map_of (en_predicates (the_engine rnd)) n = Some d \<Longrightarrow> pd_required_inputs d = PAIR_TYPES"
  using builtin_answers by (auto simp: the_engine_def list_all_iff answers_def dest!: map_of_SomeD)

lemma resolved_pair_typed:
  assumes "rounds_small rnd" "resolve_rule (the_engine rnd) (pair_rule i ps fs rel) = Inr rr"
  shows "validate_context_types (pair_context p q) rr = Inr ()"
proof -
  note r = resolved_rule_facts [OF assms(2)]
  have "\<forall>(c, d) \<in> set (rr_predicates rr). pd_required_inputs d = PAIR_TYPES" "\<forall>(f, d) \<in> set (rr_features rr). pd_required_inputs d = PAIR_TYPES"
    using r(1,2) resolved_call builtin_predicates_pair [OF assms(1)] by blast+
  moreover have "od_required_inputs (rr_output rr) = PAIR_TYPES"
    using r(3) by (simp add: pair_rule_def the_engine_def builtin_outputs_def) (drule sym, simp)
  ultimately show ?thesis
    using pair_context_typed by (auto simp: validate_context_types_def guards_ok_iff list_all_iff)
qed

text \<open>The predicates and adapters the rules name.\<close>

definition resolvable :: "(rat \<Rightarrow> rat) \<Rightarrow> predicate_call \<Rightarrow> bool" where
  "resolvable rnd c \<longleftrightarrow> (\<exists>d. map_of (en_predicates (the_engine rnd)) (pc_name c) = Some d \<and> pd_required_inputs d = PAIR_TYPES \<and>
     pd_validate_args d (pc_args c) = Inr ())"

lemma named_predicates:
  "map_of (en_predicates (the_engine rnd)) ''parameter.canonical_name_equal.v1'' =
     Some (pair_predicate ''parameter.canonical_name_equal.v1'' no_args (\<lambda>_. canonical_equal))"
  "map_of (en_predicates (the_engine rnd)) ''parameter.canonical_name_different.v1'' =
     Some (pair_predicate ''parameter.canonical_name_different.v1'' no_args (\<lambda>_. canonical_different))"
  "map_of (en_predicates (the_engine rnd)) ''endpoint.different.v1'' =
     Some (pair_predicate ''endpoint.different.v1'' no_args (\<lambda>_. endpoint_different))"
  "map_of (en_predicates (the_engine rnd)) ''value.intersection_count_gte.v1'' =
     Some (pair_predicate ''value.intersection_count_gte.v1'' intersection_args
       (\<lambda>args. intersection_gte rnd (case json_int (dget args ''value'') of Some n \<Rightarrow> n | None \<Rightarrow> 1)))"
  "map_of (en_predicates (the_engine rnd)) ''value.intersection_empty.v1'' =
     Some (pair_predicate ''value.intersection_empty.v1'' no_args (\<lambda>_. intersection_empty))"
  "map_of (en_predicates (the_engine rnd)) ''parameter.resource_relation_allowed.v1'' =
     Some (pair_predicate ''parameter.resource_relation_allowed.v1'' no_args (\<lambda>_. resource_relation_allowed))"
  "map_of (en_predicates (the_engine rnd)) ''type.compatible.v1'' =
     Some (pair_predicate ''type.compatible.v1'' no_args (\<lambda>_. type_compatible))"
  "map_of (en_predicates (the_engine rnd)) ''locator.interpretable.v1'' =
     Some (pair_predicate ''locator.interpretable.v1'' no_args (\<lambda>_. locator_interpretable))"
  "map_of (en_predicates (the_engine rnd)) ''legacy.weak_relation_score.v1'' =
     Some (pair_predicate ''legacy.weak_relation_score.v1'' legacy_score_args
       (\<lambda>args. legacy_weak_score rnd (truthy (dict_default args ''name_fallback'' (JBool False)))))"
  by (simp_all add: the_engine_def builtin_predicates_def pair_predicate_def)

lemma resolvable_calls:
  "resolvable rnd (call_named ''parameter.canonical_name_equal.v1'' [])"
  "resolvable rnd (call_named ''parameter.canonical_name_different.v1'' [])"
  "resolvable rnd (call_named ''endpoint.different.v1'' [])" "resolvable rnd shared_value_call"
  "resolvable rnd (call_named ''value.intersection_empty.v1'' [])" "list_all (resolvable rnd) common_calls"
  "resolvable rnd (call_named ''legacy.weak_relation_score.v1'' [])"
  "resolvable rnd (call_named ''legacy.weak_relation_score.v1'' [(''name_fallback'', JBool True)])"
  by (simp_all add: resolvable_def call_named_def shared_value_call_def common_calls_def named_predicates pair_predicate_def
      no_args_def intersection_args_def legacy_score_args_def dget_def json_int_def json_bool_def dict_default_def)

lemma resolve_pair_call:
  "resolvable rnd c \<Longrightarrow> \<exists>d. resolve_call (the_engine rnd) (pair_rule i ps fs rel) c = Inr d"
  by (auto simp: resolvable_def resolve_call_def resolve_predicate_def validate_required_inputs_def guards.simps pair_rule_def PAIR_TYPES_def)

lemma pair_rule_resolves:
  assumes "list_all (resolvable rnd) ps" "list_all (resolvable rnd \<circ> sf_predicate) fs" "rel \<in> fst ` set RELATION_REASONS"
  shows "\<exists>rr. resolve_rule (the_engine rnd) (pair_rule i ps fs rel) = Inr rr"
proof -
  let ?r = "pair_rule i ps fs rel"
  obtain xs where xs: "smap (\<lambda>c. sbind (resolve_call (the_engine rnd) ?r c) (\<lambda>d. Inr (c, d))) (rs_predicates ?r) = Inr xs"
    using smap_answers [of "rs_predicates ?r" "\<lambda>c. sbind (resolve_call (the_engine rnd) ?r c) (\<lambda>d. Inr (c, d))"]
      resolve_pair_call [of rnd _ i ps fs rel] assms(1) by (fastforce simp: list_all_iff pair_rule_def)
  obtain ys where ys: "smap (\<lambda>f. sbind (resolve_call (the_engine rnd) ?r (sf_predicate f)) (\<lambda>d. Inr (f, d))) (rs_score_features ?r) = Inr ys"
    using smap_answers [of "rs_score_features ?r" "\<lambda>f. sbind (resolve_call (the_engine rnd) ?r (sf_predicate f)) (\<lambda>d. Inr (f, d))"]
      resolve_pair_call [of rnd _ i ps fs rel] assms(2) by (fastforce simp: list_all_iff pair_rule_def)
  have out: "map_of (en_outputs (the_engine rnd)) ''parameter_relation_candidate.v1'' = Some \<lparr>od_name = ''parameter_relation_candidate.v1'',
      od_required_inputs = PAIR_TYPES, od_validate_args = relation_emit_args, od_emit = emit_relation\<rparr>"
    by (simp add: the_engine_def builtin_outputs_def)
  have args: "relation_emit_args [(''relation'', JStr rel)] = Inr ()"
    using assms(3) by (auto simp: relation_emit_args_def dget_def list_ex_iff)
  show ?thesis
    unfolding resolve_rule_def xs ys sbind_Inr
    using out args by (simp add: resolve_output_def pair_rule_def validate_required_inputs_def PAIR_TYPES_def)
qed

lemma builtin_pair_rules_resolve:
  assumes "r \<in> {alias_candidate_rule, empty_intersection_rule, weak_relation_rule}"
  shows "\<exists>rr. resolve_rule (the_engine rnd) r = Inr rr"
proof -
  have rel: "''weak_candidate'' \<in> fst ` set RELATION_REASONS" "''alias_candidate'' \<in> fst ` set RELATION_REASONS"
    "''insufficient_evidence'' \<in> fst ` set RELATION_REASONS"
    by (simp_all add: RELATION_REASONS_def)
  show ?thesis
    using assms by (elim insertE emptyE; simp only: alias_candidate_rule_def empty_intersection_rule_def weak_relation_rule_def)
      (rule pair_rule_resolves; simp add: resolvable_calls rel)+
qed

lemma evaluate_pair_rule:
  assumes "rounds_small rnd" "r \<in> {alias_candidate_rule, empty_intersection_rule, weak_relation_rule}"
  shows "(\<exists>rep. evaluate rnd digest (the_engine rnd) r (pair_inputs parameters) = Inr rep) \<or>
    evaluate rnd digest (the_engine rnd) r (pair_inputs parameters) = Inl (RuleBudgetExceeded ''rule match budget exceeded'')"
proof -
  obtain i ps fs rel where r: "r = pair_rule i ps fs rel"
    using assms(2) unfolding alias_candidate_rule_def empty_intersection_rule_def weak_relation_rule_def by blast
  obtain rr where rr: "resolve_rule (the_engine rnd) r = Inr rr" using builtin_pair_rules_resolve [OF assms(2)] by blast
  have inputs: "rs_inputs r = [''response_parameter'', ''request_parameter'']" by (simp add: r pair_rule_def)
  have "validate_context_types ctx rr = Inr ()" if "ctx \<in> set (combinations r (pair_inputs parameters))" for ctx
    using pair_combinations [OF inputs that] resolved_pair_typed [OF assms(1) rr [unfolded r]] by metis
  then show ?thesis
    by (intro rule_vocabulary.evaluation_answers [OF builtin_vocabulary [OF assms(1)] rr])
      (simp_all add: r pair_rule_def pair_inputs_def insert_commute)
qed

section \<open>Facts: the endpoint rule\<close>

definition endpoint_inputs :: "endpoint_fact list \<Rightarrow> (string \<times> any_fact list) list" where
  "endpoint_inputs endpoints = [(''endpoint'', map EndpointFact endpoints)]"

lemma endpoint_rule_resolves: "resolve_rule (the_engine rnd) endpoint_rule = Inr \<lparr>rr_predicates = [], rr_features = [],
    rr_output = \<lparr>od_name = ''endpoint_classification.v1'', od_required_inputs = [(''endpoint'', EndpointType)],
      od_validate_args = emit_no_args, od_emit = emit_endpoint rnd\<rparr>\<rparr>"
  by (simp add: resolve_rule_def endpoint_rule_def resolve_output_def the_engine_def builtin_outputs_def emit_no_args_def
      validate_required_inputs_def)

lemma endpoint_combinations:
  assumes "ctx \<in> set (combinations endpoint_rule (endpoint_inputs endpoints))"
  obtains f where "ctx = [(''endpoint'', EndpointFact f)]" "f \<in> set endpoints"
proof -
  from combination_keys [OF assms] have "map fst ctx = [''endpoint'']" by (simp add: endpoint_rule_def)
  then obtain g where ctx: "ctx = [(''endpoint'', g)]" by (auto simp: map_eq_Cons_conv)
  from combination_members [OF assms, of "''endpoint''" g] that show thesis by (auto simp: ctx endpoint_inputs_def)
qed

lemma evaluate_endpoint_rule:
  assumes "rounds_small rnd"
  shows "(\<exists>rep. evaluate rnd digest (the_engine rnd) endpoint_rule (endpoint_inputs endpoints) = Inr rep) \<or>
    evaluate rnd digest (the_engine rnd) endpoint_rule (endpoint_inputs endpoints) = Inl (RuleBudgetExceeded ''rule match budget exceeded'')"
proof -
  have "validate_context_types ctx \<lparr>rr_predicates = [], rr_features = [],
    rr_output = \<lparr>od_name = ''endpoint_classification.v1'', od_required_inputs = [(''endpoint'', EndpointType)],
      od_validate_args = emit_no_args, od_emit = emit_endpoint rnd\<rparr>\<rparr> = Inr ()"
    if "ctx \<in> set (combinations endpoint_rule (endpoint_inputs endpoints))" for ctx
    by (rule endpoint_combinations [OF that]) (simp add: validate_context_types_def context_types_ok_def)
  then show ?thesis
    by (intro rule_vocabulary.evaluation_answers [OF builtin_vocabulary [OF assms] endpoint_rule_resolves])
      (simp_all add: endpoint_rule_def endpoint_inputs_def)
qed

section \<open>Facts: a run of the built-in rules\<close>

lemma rule_inputs:
  "builtin_inputs endpoint_rule es ps = Inr (endpoint_inputs es)"
  "r \<in> {alias_candidate_rule, empty_intersection_rule, weak_relation_rule} \<Longrightarrow> builtin_inputs r es ps = Inr (pair_inputs ps)"
  by (auto simp: builtin_inputs_def endpoint_inputs_def pair_inputs_def endpoint_rule_def alias_candidate_rule_def
      empty_intersection_rule_def weak_relation_rule_def pair_rule_def)

lemma sbind_assoc: "sbind (sbind m f) g = sbind m (\<lambda>x. sbind (f x) g)"
  by (cases m) simp_all

lemma run_unfolded: "run_builtin_p0 rnd digest es ps =
    sbind (evaluate rnd digest (the_engine rnd) endpoint_rule (endpoint_inputs es)) (\<lambda>r1.
    sbind (evaluate rnd digest (the_engine rnd) alias_candidate_rule (pair_inputs ps)) (\<lambda>r2.
    sbind (evaluate rnd digest (the_engine rnd) empty_intersection_rule (pair_inputs ps)) (\<lambda>r3.
    sbind (evaluate rnd digest (the_engine rnd) weak_relation_rule (pair_inputs ps)) (\<lambda>r4. Inr [r1, r2, r3, r4]))))"
  unfolding run_builtin_p0_def builtin_engine_ok sbind_Inr loaded_rules builtin_rules_def smap.simps
  by (simp add: rule_inputs sbind_assoc)

lemma check_verdict:
  assumes "h (pc_args c) p q = verdict m yes no"
  shows "check_predicates (pair_context p q) ((c, pair_predicate n v h) # ps) reasons =
    (if m then check_predicates (pair_context p q) ps (reasons @ [yes]) else Inr (Inl no))"
  using assms by (simp add: pair_predicate_def on_pair_context verdict_def)

lemma shared_value_verdict:
  "pr_matched (intersection_gte rnd 1 p q) \<longleftrightarrow> intersection p q \<noteq> {}"
  "pr_reason_codes (intersection_gte rnd 1 p q) =
     [if intersection p q \<noteq> {} then ''VALUE_INTERSECTION_PRESENT'' else ''VALUE_INTERSECTION_BELOW_MINIMUM'']"
proof -
  have "finite (intersection p q)" by (simp add: intersection_def)
  then have "int (card (intersection p q)) \<ge> 1 \<longleftrightarrow> intersection p q \<noteq> {}"
    using card_gt_0_iff [of "intersection p q"] by linarith
  then show "pr_matched (intersection_gte rnd 1 p q) \<longleftrightarrow> intersection p q \<noteq> {}"
    "pr_reason_codes (intersection_gte rnd 1 p q) =
     [if intersection p q \<noteq> {} then ''VALUE_INTERSECTION_PRESENT'' else ''VALUE_INTERSECTION_BELOW_MINIMUM'']"
    by (simp_all add: intersection_gte_def Let_def)
qed

lemma check_shared_value:
  "check_predicates (pair_context p q) ((shared_value_call, pair_predicate n v
      (\<lambda>args. intersection_gte rnd (case json_int (dget args ''value'') of Some n \<Rightarrow> n | None \<Rightarrow> 1))) # ps) reasons =
    (if intersection p q \<noteq> {} then check_predicates (pair_context p q) ps (reasons @ [''VALUE_INTERSECTION_PRESENT''])
     else Inr (Inl ''VALUE_INTERSECTION_BELOW_MINIMUM''))"
  using shared_value_verdict [of rnd p q]
  by (simp add: pair_predicate_def on_pair_context shared_value_call_def call_named_def json_int_def dget_def)

lemma answers_sbind:
  "(\<exists>a. m = Inr a) \<or> m = Inl e \<Longrightarrow> (\<And>a. (\<exists>b. f a = Inr b \<and> P b) \<or> f a = Inl e) \<Longrightarrow>
     (\<exists>b. sbind m f = Inr b \<and> P b) \<or> sbind m f = Inl e"
  by (cases m) auto

lemma rounds_small_ok: "rounds_small rnd \<Longrightarrow> rounds_ok rnd"
  using rounds_unit unfolding rounds_small_def rounds_ok_def by (auto dest: spec [of _ 0] spec [of _ 1])

lemma weak_pair_matched:
  assumes "resolve_rule (the_engine rnd) weak_relation_rule = Inr rr" "rounds_small rnd"
    and "scope_rejection (rs_scope weak_relation_rule) (pair_context p q) = []"
  shows "check_predicates (pair_context p q) (rr_predicates rr) [] =
    (if oc_canonical_name p \<noteq> oc_canonical_name q then Inr (Inl ''PARAMETER_CANONICAL_NAME_DIFFERENT'')
     else if oc_endpoint_ref p = oc_endpoint_ref q then Inr (Inl ''ENDPOINT_SAME'')
     else if intersection p q = {} then Inr (Inl ''VALUE_INTERSECTION_BELOW_MINIMUM'')
     else if oc_category p \<in> CONTEXT_CATEGORIES \<or> oc_category q \<in> CONTEXT_CATEGORIES then Inr (Inl ''PARAMETER_CONTEXT_ONLY'')
     else if \<not> types_compatible (oc_parameter_type p) (oc_parameter_type q) then Inr (Inl ''PARAMETER_TYPE_INCOMPATIBLE'')
     else if \<not> (interpretable p \<and> interpretable q) then Inr (Inl ''PARAMETER_LOCATOR_UNRESOLVED'')
     else Inr (Inr [''PARAMETER_CANONICAL_NAME_EQUAL'', ''ENDPOINT_DIFFERENT'', ''VALUE_INTERSECTION_PRESENT'',
       ''PARAMETER_RESOURCE_RELATION_ALLOWED'', ''PARAMETER_TYPE_COMPATIBLE'', ''PARAMETER_LOCATOR_INTERPRETABLE'']))"
proof -
  have preds: "rr_predicates rr = map (\<lambda>c. (c, the (map_of (en_predicates (the_engine rnd)) (pc_name c)))) (rs_predicates weak_relation_rule)"
  proof -
    have d: "d = the (map_of (en_predicates (the_engine rnd)) (pc_name c))" if "(c, d) \<in> set (rr_predicates rr)" for c d
    proof -
      from resolved_rule_facts(1) [OF assms(1)] that have "resolve_call (the_engine rnd) weak_relation_rule c = Inr d" by blast
      from resolved_call [OF this] show ?thesis by simp
    qed
    have "map (\<lambda>x. (fst x, the (map_of (en_predicates (the_engine rnd)) (pc_name (fst x))))) (rr_predicates rr) = rr_predicates rr"
      by (rule map_idI) (auto dest: d)
    then have "map (\<lambda>c. (c, the (map_of (en_predicates (the_engine rnd)) (pc_name c)))) (map fst (rr_predicates rr)) = rr_predicates rr"
      by (simp add: comp_def)
    then show ?thesis unfolding resolved_keys(1) [OF assms(1)] by simp
  qed
  have list: "rr_predicates rr = [
      (call_named ''parameter.canonical_name_equal.v1'' [], pair_predicate ''parameter.canonical_name_equal.v1'' no_args (\<lambda>_. canonical_equal)),
      (call_named ''endpoint.different.v1'' [], pair_predicate ''endpoint.different.v1'' no_args (\<lambda>_. endpoint_different)),
      (shared_value_call, pair_predicate ''value.intersection_count_gte.v1'' intersection_args
       (\<lambda>args. intersection_gte rnd (case json_int (dget args ''value'') of Some n \<Rightarrow> n | None \<Rightarrow> 1))),
      (call_named ''parameter.resource_relation_allowed.v1'' [],
       pair_predicate ''parameter.resource_relation_allowed.v1'' no_args (\<lambda>_. resource_relation_allowed)),
      (call_named ''type.compatible.v1'' [], pair_predicate ''type.compatible.v1'' no_args (\<lambda>_. type_compatible)),
      (call_named ''locator.interpretable.v1'' [], pair_predicate ''locator.interpretable.v1'' no_args (\<lambda>_. locator_interpretable))]"
    unfolding preds
    by (simp add: weak_relation_rule_def pair_rule_def common_calls_def call_named_def shared_value_call_def named_predicates)
  show ?thesis
    unfolding list check_shared_value check_verdict [where h = "\<lambda>_. canonical_equal", OF canonical_equal_def]
      check_verdict [where h = "\<lambda>_. endpoint_different", OF endpoint_different_def]
      check_verdict [where h = "\<lambda>_. resource_relation_allowed", OF resource_relation_allowed_def]
      check_verdict [where h = "\<lambda>_. type_compatible", OF type_compatible_def]
      check_verdict [where h = "\<lambda>_. locator_interpretable", OF locator_interpretable_def] check_predicates.simps(1)
    by (simp del: check_predicates.simps split: if_splits)
qed

lemma weak_features:
  assumes "resolve_rule (the_engine rnd) weak_relation_rule = Inr rr"
  shows "rr_features rr = [(\<lparr>sf_predicate = call_named ''legacy.weak_relation_score.v1'' [], sf_weight = (1, ''1.0'')\<rparr>,
    pair_predicate ''legacy.weak_relation_score.v1'' legacy_score_args
       (\<lambda>args. legacy_weak_score rnd (truthy (dict_default args ''name_fallback'' (JBool False)))))]"
proof -
  have "map fst (rr_features rr) = rs_score_features weak_relation_rule" by (rule resolved_keys(2) [OF assms])
  then obtain d where rr: "rr_features rr = [(\<lparr>sf_predicate = call_named ''legacy.weak_relation_score.v1'' [], sf_weight = (1, ''1.0'')\<rparr>, d)]"
    by (auto simp: weak_relation_rule_def pair_rule_def map_eq_Cons_conv)
  with resolved_rule_facts(2) [OF assms] have "resolve_call (the_engine rnd) weak_relation_rule (call_named ''legacy.weak_relation_score.v1'' []) = Inr d"
    by simp
  from resolved_call [OF this] show ?thesis by (simp add: rr call_named_def named_predicates)
qed

lemma weak_output:
  assumes "resolve_rule (the_engine rnd) weak_relation_rule = Inr rr"
  shows "od_emit (rr_output rr) = emit_relation"
  using resolved_rule_facts(3) [OF assms]
  by (simp add: weak_relation_rule_def pair_rule_def the_engine_def builtin_outputs_def) (drule sym, simp)

definition weak_match :: "(rat \<Rightarrow> rat) \<Rightarrow> (json \<Rightarrow> string) \<Rightarrow> occurrence_fact \<Rightarrow> occurrence_fact \<Rightarrow> rule_match \<Rightarrow> bool" where
  "weak_match rnd digest p q m \<longleftrightarrow> rm_score m = final_score rnd (rnd (rnd (rnd (fst (relation_score rnd False p q) / 100)))) \<and>
     rm_fact_refs m = [(''response_parameter'', fc_id p), (''request_parameter'', fc_id q)] \<and>
     (\<exists>c. rm_output m = ParameterRelationCandidate c \<and> rc_producer_ref c = fc_id p \<and> rc_consumer_ref c = fc_id q \<and>
        rc_relation c = ''weak_candidate'' \<and> rc_confidence c = rm_score m \<and> \<not> rc_verified c \<and> rc_write_disposition c = ''create_only'')"

lemma weak_combination:
  assumes "resolve_rule (the_engine rnd) weak_relation_rule = Inr rr" "rounds_small rnd"
    and "scope_rejection (rs_scope weak_relation_rule) (pair_context p q) = []"
    and "oc_category p \<notin> CONTEXT_CATEGORIES" "oc_category q \<notin> CONTEXT_CATEGORIES"
      "types_compatible (oc_parameter_type p) (oc_parameter_type q)" "interpretable p" "interpretable q"
    and "oc_canonical_name p = oc_canonical_name q" "oc_endpoint_ref p \<noteq> oc_endpoint_ref q" "intersection p q \<noteq> {}"
  shows "\<exists>m. evaluate_combination rnd digest weak_relation_rule rr (pair_context p q) = Inr (Inr m) \<and> weak_match rnd digest p q m"
proof -
  have t: "validate_context_types (pair_context p q) rr = Inr ()"
    using resolved_pair_typed [OF assms(2)] assms(1) unfolding weak_relation_rule_def by blast
  have v: "0 \<le> rnd (fst (relation_score rnd False p q) / 100)" "rnd (fst (relation_score rnd False p q) / 100) \<le> 1"
  proof -
    have "0 \<le> fst (relation_score rnd False p q)" "fst (relation_score rnd False p q) \<le> 98"
      using weak_score_range [OF assms(2)] by (simp_all add: relation_score_def)
    then show "0 \<le> rnd (fst (relation_score rnd False p q) / 100)" "rnd (fst (relation_score rnd False p q) / 100) \<le> 1"
      using rounds_unit [OF assms(2), of "fst (relation_score rnd False p q) / 100"] by simp_all
  qed
  have fb: "dict_default [] ''name_fallback'' (JBool False) = JBool False" by (simp add: dict_default_def)
  have out: "py_str (dget (em_args (rs_emit weak_relation_rule)) ''relation'') = ''weak_candidate''"
    "map_of RELATION_REASONS ''weak_candidate'' = Some ''WEAK_RELATION_CANDIDATE''"
    "rs_inputs weak_relation_rule = [''response_parameter'', ''request_parameter'']" "fst (rs_score_base weak_relation_rule) = 0"
    by (simp_all add: weak_relation_rule_def pair_rule_def dget_def py_str_def RELATION_REASONS_def)
  have ids: "id_of_fact (ParameterOccurrenceFact x) = fc_id x" for x by (simp add: id_of_fact_def base_fact.defs)
  show ?thesis
    using assms(4-) v
    by (simp add: evaluate_combination_def t assms(3) weak_pair_matched [OF assms(1-3)] weak_features [OF assms(1)] weak_output [OF assms(1)]
        Let_def pair_predicate_def on_pair_context legacy_weak_score_def call_named_def fb emit_relation_def out weak_match_def
        pair_context_maps ids)
qed

lemma weak_rejected:
  assumes "resolve_rule (the_engine rnd) weak_relation_rule = Inr rr" "rounds_small rnd"
    and "evaluate_combination rnd digest weak_relation_rule rr (pair_context p q) = Inr (Inr m)"
  shows "scope_rejection (rs_scope weak_relation_rule) (pair_context p q) = [] \<and>
    oc_category p \<notin> CONTEXT_CATEGORIES \<and> oc_category q \<notin> CONTEXT_CATEGORIES \<and>
    types_compatible (oc_parameter_type p) (oc_parameter_type q) \<and> interpretable p \<and> interpretable q \<and>
    oc_canonical_name p = oc_canonical_name q \<and> oc_endpoint_ref p \<noteq> oc_endpoint_ref q \<and> intersection p q \<noteq> {}"
proof -
  have sc: "scope_rejection (rs_scope weak_relation_rule) (pair_context p q) = []"
    using matched_combination [OF assms(3)] by blast
  obtain reasons where "check_predicates (pair_context p q) (rr_predicates rr) [] = Inr (Inr reasons)"
    using matched_combination [OF assms(3)] by blast
  with sc show ?thesis unfolding weak_pair_matched [OF assms(1,2) sc] by (simp split: if_splits)
qed

section \<open>Properties\<close>

text \<open>C22: the built-in rules always answer: over any endpoints and parameters the run returns its four reports or
  stops at a match budget; no predicate, adapter, registry or rule document can make it fail otherwise.\<close>

theorem builtin_run_answers:
  assumes "rounds_small rnd"
  shows "(\<exists>reports. run_builtin_p0 rnd digest endpoints parameters = Inr reports \<and> length reports = 4) \<or>
    run_builtin_p0 rnd digest endpoints parameters = Inl (RuleBudgetExceeded ''rule match budget exceeded'')"
  unfolding run_unfolded
  by (rule answers_sbind [OF evaluate_endpoint_rule [OF assms]], rule answers_sbind [OF evaluate_pair_rule [OF assms]], simp,
      rule answers_sbind [OF evaluate_pair_rule [OF assms]], simp, rule answers_sbind [OF evaluate_pair_rule [OF assms]], simp, simp)

text \<open>C18: weak relations are backed: every candidate of the weak-relation rule joins a response and a request
  parameter of one name at two different endpoints, of the same project, environment and profile revision, that share
  an observed value, where neither is an authentication, dynamic, paging or enumeration parameter; it is unverified,
  may only create, and its confidence is the legacy score within the unit interval.\<close>

theorem weak_relations_are_backed:
  assumes "rounds_small rnd" "run_builtin_p0 rnd digest endpoints parameters = Inr reports" "m \<in> set (er_matches (reports ! 3))"
  shows "\<exists>p \<in> set parameters. \<exists>q \<in> set parameters. oc_direction p = ''response'' \<and> oc_direction q = ''request'' \<and>
    oc_canonical_name p = oc_canonical_name q \<and> oc_endpoint_ref p \<noteq> oc_endpoint_ref q \<and>
    (\<exists>v. v \<in> set (ob_value_digests (oc_observation p)) \<and> v \<in> set (ob_value_digests (oc_observation q))) \<and>
    oc_category p \<notin> CONTEXT_CATEGORIES \<and> oc_category q \<notin> CONTEXT_CATEGORIES \<and>
    fc_project_id p = fc_project_id q \<and> fc_project_id p \<noteq> [] \<and> fc_env_id p = fc_env_id q \<and> fc_env_id p \<noteq> [] \<and>
    oc_profile_revision_id p = oc_profile_revision_id q \<and> oc_profile_revision_id p \<noteq> [] \<and>
    weak_match rnd digest p q m \<and> 0 \<le> rm_score m \<and> rm_score m \<le> 1"
proof -
  from assms(2) obtain r1 r2 r3 rep where ev: "evaluate rnd digest (the_engine rnd) weak_relation_rule (pair_inputs parameters) = Inr rep"
    and reports: "reports = [r1, r2, r3, rep]"
    unfolding run_unfolded by (auto simp: sbind_Inr_iff)
  have m: "m \<in> set (er_matches rep)" using assms(3) by (simp add: reports numeral_3_eq_3)
  have flags: "rs_enabled weak_relation_rule" "1 \<le> sy_max_matches (rs_safety weak_relation_rule)"
    "rs_inputs weak_relation_rule = [''response_parameter'', ''request_parameter'']"
    "rs_scope weak_relation_rule = \<lparr>sc_same_project = True, sc_same_environment = True, sc_principal_relation = ''same_profile_revision''\<rparr>"
    by (simp_all add: weak_relation_rule_def pair_rule_def)
  from match_from_context [OF ev flags(1,2) m] obtain rr c where rr: "resolve_rule (the_engine rnd) weak_relation_rule = Inr rr"
    and c: "c \<in> set (combinations weak_relation_rule (pair_inputs parameters))"
    and em: "evaluate_combination rnd digest weak_relation_rule rr c = Inr (Inr m)" .
  from pair_combinations [OF flags(3) c] obtain p q where pq: "c = pair_context p q" "p \<in> set parameters" "q \<in> set parameters"
    "oc_direction p = ''response''" "oc_direction q = ''request''" .
  note g = weak_rejected [OF rr assms(1) em [unfolded pq]]
  then have "facts_in_scope (rs_scope weak_relation_rule) (pair_context p q)" using scope_rejection_none by blast
  then have scope: "fc_project_id p = fc_project_id q \<and> fc_project_id p \<noteq> [] \<and> fc_env_id p = fc_env_id q \<and> fc_env_id p \<noteq> [] \<and>
      oc_profile_revision_id p = oc_profile_revision_id q \<and> oc_profile_revision_id p \<noteq> []"
    by (auto simp: facts_in_scope_def flags(4) pair_context_def base_fact.defs starts_with_def)
  have "weak_match rnd digest p q m"
    using weak_combination [OF rr assms(1), of p q digest] g em unfolding pq(1) by auto
  moreover have "0 \<le> rm_score m \<and> rm_score m \<le> 1"
    using calculation final_score_bounds [OF rounds_small_ok [OF assms(1)]] by (simp add: weak_match_def)
  ultimately show ?thesis using pq g scope by (auto simp: intersection_def)
qed


text \<open>a manual classification is never up for overwriting: whatever the keywords say, the candidate for an
  endpoint that a person classified is not applicable and says so, and the proposed action is one of the seven
  registered ones.\<close>

theorem manual_classification_preserved:
  "\<exists>c. endpoint_candidate_of rnd f = Inr c \<and> ec_endpoint_ref c = fc_id f \<and>
     ec_proposed_action c \<in> snd ` set LEGACY_ACTION_MAP \<and>
     (ef_classification_source f = ''manual'' \<longrightarrow> \<not> ec_apply_allowed c \<and>
        ''EXISTING_CLASSIFICATION_PRESERVED'' \<in> set (ec_reason_codes c))"
proof -
  obtain c where c: "endpoint_candidate_of rnd f = Inr c" using endpoint_emitted by blast
  then obtain proposed where m: "map_of LEGACY_ACTION_MAP (cd_action (classify_endpoint_detail f)) = Some proposed"
    by (auto simp: endpoint_candidate_of_def Let_def split: option.splits)
  then have "proposed \<in> snd ` set LEGACY_ACTION_MAP" by (force dest: map_of_SomeD)
  moreover have "ec_apply_allowed c = apply_allowed f" "ec_endpoint_ref c = fc_id f" "ec_proposed_action c = proposed"
    "ec_reason_codes c = cd_reason_codes (classify_endpoint_detail f) @
        (if apply_allowed f then [] else [''EXISTING_CLASSIFICATION_PRESERVED''])"
    using c m by (auto simp: endpoint_candidate_of_def Let_def)
  ultimately show ?thesis using c by (intro exI [of _ c]) (simp add: apply_allowed_def)
qed

section \<open>Witnesses\<close>

definition example_occurrence :: "string \<Rightarrow> string \<Rightarrow> string \<Rightarrow> occurrence_fact" where
  "example_occurrence i direction endpoint = \<lparr>fc_id = i, fc_project_id = ''p'', fc_env_id = ''e'', oc_endpoint_ref = endpoint,
     oc_pathid = 1, oc_direction = direction, oc_canonical_name = ''order_id'', oc_parameter_type = ''string'', oc_required = True,
     oc_locator = \<lparr>lf_version = 2, lf_direction = direction, lf_position = ''body'', lf_kind = ''value'', lf_schema_path = [],
       lf_canonical_name = ''order_id'', lf_token_kinds = [], lf_contains_dynamic_property = False\<rparr>,
     oc_category = ''resource'',
     oc_observation = \<lparr>fc_id = i, fc_project_id = ''p'', fc_env_id = ''e'', ob_source_kind = [], ob_status_class = [],
       ob_value_digests = [''d1''], ob_unique_value_count = 1, ob_observed_value_count = 1, ob_min_length = 2, ob_max_length = 2,
       ob_bounded = False\<rparr>,
     oc_principal_id = [], oc_profile_revision_id = ''rev'', oc_scope_key = []\<rparr>"

definition example_parameters :: "occurrence_fact list" where
  "example_parameters = [example_occurrence ''q'' ''request'' ''e2'', example_occurrence ''p'' ''response'' ''e1'',
     example_occurrence ''r'' ''response'' ''e2'']"

definition example_reports :: "evaluation_report list result_of" where
  "example_reports = run_builtin_p0 (\<lambda>x. x) (\<lambda>_. ''sha'') [] example_parameters"

lemma exact_rounds: "rounds_small (\<lambda>x. x)" "rounds_ok (\<lambda>x. x)"
  by (simp_all add: rounds_small_def rounds_ok_def mono_def)

lemma example_builtin_run: "\<exists>r1 r2 r3 r4 m. example_reports = Inr [r1, r2, r3, r4] \<and> er_matches r4 = [m] \<and>
    evaluate (\<lambda>x. x) (\<lambda>_. ''sha'') (the_engine (\<lambda>x. x)) weak_relation_rule (pair_inputs example_parameters) = Inr r4"
proof -
  have "case example_reports of Inr [r1, r2, r3, r4] \<Rightarrow> length (er_matches r4) = 1 | _ \<Rightarrow> False" by code_simp
  then obtain r1 r2 r3 r4 where r: "example_reports = Inr [r1, r2, r3, r4]" "length (er_matches r4) = 1"
    by (auto split: sum.splits list.splits)
  from r(1) have "evaluate (\<lambda>x. x) (\<lambda>_. ''sha'') (the_engine (\<lambda>x. x)) weak_relation_rule (pair_inputs example_parameters) = Inr r4"
    unfolding example_reports_def run_unfolded by (auto simp: sbind_Inr_iff)
  moreover obtain m where "er_matches r4 = [m]" using r(2) by (cases "er_matches r4") auto
  ultimately show ?thesis using r(1) by blast
qed

lemma weak_flags: "rs_enabled weak_relation_rule" "1 \<le> sy_max_matches (rs_safety weak_relation_rule)"
  "sy_network (rs_safety weak_relation_rule) = ''forbidden''" "sy_mutation (rs_safety weak_relation_rule) = ''forbidden''"
  "rs_inputs weak_relation_rule = [''response_parameter'', ''request_parameter'']"
  by (simp_all add: weak_relation_rule_def pair_rule_def)


theorem builtin_run_answers_witness: "\<exists>reports. example_reports = Inr reports \<and> length reports = 4"
  using builtin_run_answers [OF exact_rounds(1), of "\<lambda>_. ''sha''" "[]" example_parameters] example_builtin_run
  unfolding example_reports_def by auto

theorem weak_relations_are_backed_witness:
  "\<exists>reports m. example_reports = Inr reports \<and> m \<in> set (er_matches (reports ! 3)) \<and> rm_score m \<le> 1"
proof -
  obtain r1 r2 r3 r4 m where r: "example_reports = Inr [r1, r2, r3, r4]" "er_matches r4 = [m]" using example_builtin_run by blast
  then have "m \<in> set (er_matches ([r1, r2, r3, r4] ! 3))" by (simp add: numeral_3_eq_3)
  from weak_relations_are_backed [OF exact_rounds(1) r(1) [unfolded example_reports_def] this] r(1) this
  show ?thesis by blast
qed


theorem report_accounts_for_all_witness: "\<exists>rep. evaluate (\<lambda>x. x) (\<lambda>_. ''sha'') (the_engine (\<lambda>x. x)) weak_relation_rule
    (pair_inputs example_parameters) = Inr rep \<and> er_evaluated_combinations rep = 2 \<and> sum_list (map snd (er_rejection_counts rep)) = 1"
proof -
  obtain r4 m where r: "evaluate (\<lambda>x. x) (\<lambda>_. ''sha'') (the_engine (\<lambda>x. x)) weak_relation_rule (pair_inputs example_parameters) = Inr r4"
    "er_matches r4 = [m]" using example_builtin_run by blast
  have "length (of_direction ''response'' example_parameters) = 2" "length (of_direction ''request'' example_parameters) = 1"
    by (simp_all add: of_direction_def example_parameters_def example_occurrence_def)
  with report_accounts_for_all [OF r(1) weak_flags(1,2)] r show ?thesis by (simp add: weak_flags(5) pair_inputs_def)
qed

theorem match_is_justified_witness: "\<exists>rep m. evaluate (\<lambda>x. x) (\<lambda>_. ''sha'') (the_engine (\<lambda>x. x)) weak_relation_rule
    (pair_inputs example_parameters) = Inr rep \<and> m \<in> set (er_matches rep) \<and> 0 \<le> rm_score m \<and> rm_score m \<le> 1"
proof -
  obtain r4 m where r: "evaluate (\<lambda>x. x) (\<lambda>_. ''sha'') (the_engine (\<lambda>x. x)) weak_relation_rule (pair_inputs example_parameters) = Inr r4"
    "er_matches r4 = [m]" using example_builtin_run by blast
  then have "m \<in> set (er_matches r4)" by simp
  from match_is_justified [OF r(1) weak_flags(1,2) exact_rounds(2) this] r(1) this show ?thesis by blast
qed

theorem match_budget_is_exact_witness: "\<exists>rep. evaluate (\<lambda>x. x) (\<lambda>_. ''sha'') (the_engine (\<lambda>x. x)) weak_relation_rule
    (pair_inputs []) = Inr rep \<and> er_matches rep = []"
proof -
  obtain rr where rr: "resolve_rule (the_engine (\<lambda>x. x)) weak_relation_rule = Inr rr"
    using builtin_pair_rules_resolve [of weak_relation_rule] by blast
  have k: "fst ` set (pair_inputs []) = set (rs_inputs weak_relation_rule)" by (simp add: pair_inputs_def weak_flags(5) insert_commute)
  have "combinations weak_relation_rule (pair_inputs []) = []"
    by (simp add: combinations_def weak_flags(5) pair_inputs_def of_direction_def ordered_values_def)
  then have "smap (evaluate_combination (\<lambda>x. x) (\<lambda>_. ''sha'') weak_relation_rule rr) (combinations weak_relation_rule (pair_inputs [])) = Inr []"
    by simp
  from match_budget_is_exact [OF weak_flags(1,3,4,2) k rr this] weak_flags(2) show ?thesis by simp
qed

theorem fact_order_irrelevant_witness: "\<exists>rep. evaluate (\<lambda>x. x) (\<lambda>_. ''sha'') (the_engine (\<lambda>x. x)) weak_relation_rule
    (pair_inputs (rev example_parameters)) = Inr rep \<and> length (er_matches rep) = 1"
proof -
  obtain r4 m where r: "evaluate (\<lambda>x. x) (\<lambda>_. ''sha'') (the_engine (\<lambda>x. x)) weak_relation_rule (pair_inputs example_parameters) = Inr r4"
    "er_matches r4 = [m]" using example_builtin_run by blast
  have keys: "map fst (pair_inputs (rev example_parameters)) = map fst (pair_inputs example_parameters)" by (simp add: pair_inputs_def)
  have m: "mset (the (map_of (pair_inputs (rev example_parameters)) n)) = mset (the (map_of (pair_inputs example_parameters) n)) \<and>
      distinct (map id_of_fact (the (map_of (pair_inputs (rev example_parameters)) n)))"
    if "n \<in> set (rs_inputs weak_relation_rule)" for n
    using that by (auto simp: weak_flags(5) pair_inputs_def of_direction_def example_parameters_def example_occurrence_def
        id_of_fact_def base_fact.defs add_mset_commute)
  from fact_order_irrelevant [OF keys m] r show ?thesis by simp
qed

end
