(* ===== verification/Spec2Isabelle.thy ===== *)
theory Spec2Isabelle
  imports SchedulerSystem AuthorizationMatrix FindingLifecycle ParameterIdentity ComposeRequest ResultReview UnlockPlan TestPlan BuiltinRules
begin

text \<open>
  A verification library for the execution core of api\_manger.
\<close>

end
